(* ===== verification/Prelude.thy ===== *)
theory Prelude
  imports Main "HOL-Library.AList" "HOL-Library.List_Lexorder" "HOL-Library.Char_ord"
    "HOL-Library.Multiset" "HOL-Library.Word"
begin

text \<open>
  What every component shares: how a Go call ends (a value, an error or a panic), the two
  sequencing operators (pure, and over an explicit world state), Go maps and the order in
  which a \<open>range\<close> loop visits them, and the few functions of the \<open>strings\<close> and
  \<open>sets\<close> packages the controller uses.
\<close>

named_theorems go_run \<open>unfolding rules of the sequencing operators\<close>
named_theorems go_map \<open>lookup rules of Go maps\<close>

subsection \<open>Errors and panics\<close>

text \<open>
  An error value keeps what the code inspects: the reason of an API status error (read by
  \<open>IsNotFound\<close>), the text of a plain error, and the chain built by \<open>fmt.Errorf\<close> with
  the verb for wrapping. A panic is not an error value: it unwinds the call.
\<close>

datatype status_reason = ReasonNotFound | ReasonAlreadyExists | ReasonConflict
  | ReasonBadRequest | ReasonInvalid | ReasonForbidden | ReasonTimeout | ReasonInternalError
  | ReasonUnauthorized | ReasonNotAcceptable | ReasonUnsupportedMediaType | ReasonMethodNotAllowed
  | ReasonServiceUnavailable | ReasonTooManyRequests | ReasonUnknown

datatype goerr =
    StatusError status_reason string string
  | ErrorString string
  | WrapError string goerr

datatype gopanic = NilDeref | NilMapWrite | TypeAssertion | SliceBounds | ExplicitPanic

datatype fault = Fail goerr | Panic gopanic

type_synonym 'a result = "fault + 'a"

primrec rbind :: "'a result \<Rightarrow> ('a \<Rightarrow> 'b result) \<Rightarrow> 'b result" where
  "rbind (Inl e) f = Inl e"
| "rbind (Inr x) f = f x"

declare rbind.simps [go_run]

lemma rbind_eq_Inr [simp]: "rbind m f = Inr y \<longleftrightarrow> (\<exists>x. m = Inr x \<and> f x = Inr y)"
  by (cases m) auto

lemma rbind_eq_Inl:
  "rbind m f = Inl e \<longleftrightarrow> m = Inl e \<or> (\<exists>x. m = Inr x \<and> f x = Inl e)"
  by (cases m) auto

lemma rbind_assoc: "rbind (rbind m f) g = rbind m (\<lambda>x. rbind (f x) g)"
  by (cases m) auto

text \<open>The loop \<open>for _, x := range xs\<close> whose body fails or appends one value.\<close>

fun rmapM :: "('a \<Rightarrow> 'b result) \<Rightarrow> 'a list \<Rightarrow> 'b list result" where
  "rmapM f [] = Inr []"
| "rmapM f (x # xs) = rbind (f x) (\<lambda>y. rbind (rmapM f xs) (\<lambda>ys. Inr (y # ys)))"

lemma rmapM_Inr: "(\<And>x. x \<in> set xs \<Longrightarrow> f x = Inr (g x)) \<Longrightarrow> rmapM f xs = Inr (map g xs)"
  by (induction xs) auto

lemma rmapM_length: "rmapM f xs = Inr ys \<Longrightarrow> length ys = length xs"
  by (induction xs arbitrary: ys) auto

lemma rmapM_nth: "rmapM f xs = Inr ys \<Longrightarrow> i < length xs \<Longrightarrow> f (xs ! i) = Inr (ys ! i)"
  by (induction xs arbitrary: ys i) (auto simp: nth_Cons split: nat.splits)

lemma rmapM_append:
  "rmapM f (xs @ ys) = rbind (rmapM f xs) (\<lambda>us. rbind (rmapM f ys) (\<lambda>vs. Inr (us @ vs)))"
proof (induction xs)
  case Nil
  then show ?case by (cases "rmapM f ys") auto
next
  case (Cons a xs)
  then show ?case by (cases "f a"; cases "rmapM f xs"; cases "rmapM f ys") auto
qed

text \<open>A failing loop fails with the fault of the first element whose body fails.\<close>

lemma rmapM_first_fault:
  "rmapM f us = Inr ys \<Longrightarrow> f x = Inl e \<Longrightarrow> rmapM f (us @ x # vs) = Inl e"
  by (simp add: rmapM_append)

lemma rmapM_faultD:
  "rmapM f xs = Inl e \<Longrightarrow> \<exists>x \<in> set xs. f x = Inl e"
  by (induction xs) (auto simp: rbind_eq_Inl)

subsection \<open>Computations over a world\<close>

text \<open>
  A call that reads or writes the cluster takes the world and returns its outcome with the
  world it leaves. A failed call keeps the writes made before the failure.
\<close>

type_synonym ('s, 'a) action = "'s \<Rightarrow> 'a result \<times> 's"

definition ret :: "'a \<Rightarrow> ('s, 'a) action" where
  "ret x s = (Inr x, s)"

definition lift :: "'a result \<Rightarrow> ('s, 'a) action" where
  "lift r s = (r, s)"

definition bnd :: "('s, 'a) action \<Rightarrow> ('a \<Rightarrow> ('s, 'b) action) \<Rightarrow> ('s, 'b) action" where
  "bnd m f s = (case m s of (Inl e, s') \<Rightarrow> (Inl e, s') | (Inr x, s') \<Rightarrow> f x s')"

text \<open>\<open>attempt\<close> hands the error to the caller as a value (\<open>x, err := f()\<close>); a panic still unwinds.\<close>

definition attempt :: "('s, 'a) action \<Rightarrow> ('s, goerr + 'a) action" where
  "attempt m s = (case m s of
      (Inl (Fail e), s') \<Rightarrow> (Inr (Inl e), s')
    | (Inl (Panic p), s') \<Rightarrow> (Inl (Panic p), s')
    | (Inr x, s') \<Rightarrow> (Inr (Inr x), s'))"

lemma ret_run [go_run, simp]: "ret x s = (Inr x, s)"
  by (simp add: ret_def)

lemma lift_run [go_run, simp]: "lift r s = (r, s)"
  by (simp add: lift_def)

lemma bnd_Inl [go_run]: "m s = (Inl e, s') \<Longrightarrow> bnd m f s = (Inl e, s')"
  by (simp add: bnd_def)

lemma bnd_Inr [go_run]: "m s = (Inr x, s') \<Longrightarrow> bnd m f s = f x s'"
  by (simp add: bnd_def)

lemma bnd_ret [simp]: "bnd (ret x) f = f x"
  by (rule ext) (simp add: bnd_def)

lemma bnd_lift [simp]: "bnd (lift r) f s = (case r of Inl e \<Rightarrow> (Inl e, s) | Inr x \<Rightarrow> f x s)"
  by (simp add: bnd_def split: sum.splits)

lemma bnd_okE:
  assumes "bnd m f s = (Inr y, s'')"
  obtains x s' where "m s = (Inr x, s')" and "f x s' = (Inr y, s'')"
  using assms by (auto simp: bnd_def split: prod.splits sum.splits)

lemma attempt_ok [go_run]: "m s = (Inr x, s') \<Longrightarrow> attempt m s = (Inr (Inr x), s')"
  by (simp add: attempt_def)

lemma attempt_fail [go_run]: "m s = (Inl (Fail e), s') \<Longrightarrow> attempt m s = (Inr (Inl e), s')"
  by (simp add: attempt_def)

lemma attempt_panic [go_run]: "m s = (Inl (Panic p), s') \<Longrightarrow> attempt m s = (Inl (Panic p), s')"
  by (simp add: attempt_def)

subsection \<open>Go maps\<close>

text \<open>
  A Go map is an association list read through \<open>map_of\<close>; a map that may be nil is an
  \<open>option\<close> of one. Reading a nil map finds nothing, writing to one panics. Two maps are
  equal when they hold the same entries, whatever the order of the list.
\<close>

type_synonym ('k, 'v) gomap = "('k \<times> 'v) list"
type_synonym strmap = "(string, string) gomap option"

definition go_keys :: "('k, 'v) gomap \<Rightarrow> 'k list" where
  "go_keys m = remdups (map fst m)"

definition entries_of :: "('k, 'v) gomap option \<Rightarrow> ('k, 'v) gomap" where
  "entries_of m = (case m of None \<Rightarrow> [] | Some es \<Rightarrow> es)"

definition mget :: "('k, 'v) gomap option \<Rightarrow> 'k \<Rightarrow> 'v option" where
  "mget m k = map_of (entries_of m) k"

definition sget :: "strmap \<Rightarrow> string \<Rightarrow> string" where
  "sget m k = (case mget m k of None \<Rightarrow> '''' | Some v \<Rightarrow> v)"

definition mput :: "'k \<Rightarrow> 'v \<Rightarrow> ('k, 'v) gomap option \<Rightarrow> ('k, 'v) gomap option result" where
  "mput k v m = (case m of None \<Rightarrow> Inl (Panic NilMapWrite) | Some es \<Rightarrow> Inr (Some (AList.update k v es)))"

definition map_eq :: "('k, 'v) gomap \<Rightarrow> ('k, 'v) gomap \<Rightarrow> bool" where
  "map_eq a b \<longleftrightarrow> length (go_keys a) = length (go_keys b)
     \<and> list_all (\<lambda>k. map_of a k = map_of b k) (go_keys a)"

lemma set_go_keys [go_map]: "set (go_keys m) = dom (map_of m)"
  by (simp add: go_keys_def dom_map_of_conv_image_fst)

lemma distinct_go_keys [simp]: "distinct (go_keys m)"
  by (simp add: go_keys_def)

lemma map_eq_iff: "map_eq a b \<longleftrightarrow> map_of a = map_of b"
proof
  assume eq: "map_eq a b"
  have sub: "set (go_keys a) \<subseteq> set (go_keys b)"
  proof
    fix k assume "k \<in> set (go_keys a)"
    with eq have "map_of a k = map_of b k" "k \<in> dom (map_of a)"
      by (simp_all add: map_eq_def list_all_iff set_go_keys)
    then show "k \<in> set (go_keys b)" by (simp add: set_go_keys domIff)
  qed
  have "card (set (go_keys a)) = card (set (go_keys b))"
    using eq by (simp add: map_eq_def distinct_card)
  with sub have "set (go_keys a) = set (go_keys b)"
    by (intro card_subset_eq) auto
  then have dom: "dom (map_of a) = dom (map_of b)" by (simp add: set_go_keys)
  show "map_of a = map_of b"
  proof
    fix k show "map_of a k = map_of b k"
    proof (cases "k \<in> dom (map_of a)")
      case True
      then have "k \<in> set (go_keys a)" by (simp add: set_go_keys)
      with eq show ?thesis by (simp add: map_eq_def list_all_iff)
    next
      case False
      then have "map_of a k = None" by (simp add: domIff)
      moreover from False dom have "k \<notin> dom (map_of b)" by blast
      then have "map_of b k = None" by (simp only: domIff not_not)
      ultimately show ?thesis by simp
    qed
  qed
next
  assume eq: "map_of a = map_of b"
  then have "set (go_keys a) = set (go_keys b)" by (simp add: set_go_keys)
  then have "length (go_keys a) = length (go_keys b)"
    by (metis distinct_card distinct_go_keys)
  with eq show "map_eq a b" by (simp add: map_eq_def list_all_iff)
qed

lemma entries_of_simps [simp]: "entries_of None = []" "entries_of (Some es) = es"
  by (simp_all add: entries_of_def)

lemma mget_None [simp, go_map]: "mget None k = None"
  by (simp add: mget_def entries_of_def)

lemma mget_Some [simp, go_map]: "mget (Some es) k = map_of es k"
  by (simp add: mget_def entries_of_def)

lemma mput_lookup [go_map]: "mput k v m = Inr m' \<Longrightarrow> mget m' k' = (if k' = k then Some v else mget m k')"
  by (auto simp: mput_def update_conv split: option.splits)

lemma mput_fault: "mput k v m = Inl e \<longleftrightarrow> m = None \<and> e = Panic NilMapWrite"
  by (auto simp: mput_def split: option.splits)

subsection \<open>The order of a range loop over a map\<close>

text \<open>
  Go leaves the order in which \<open>range\<close> visits a map open. A loop over a map takes the
  order as an argument: a function that may permute the keys in any way.
\<close>

type_synonym key_order = "string list \<Rightarrow> string list"

definition order_ok :: "key_order \<Rightarrow> bool" where
  "order_ok ord \<longleftrightarrow> (\<forall>ks. mset (ord ks) = mset ks)"

definition range_map :: "key_order \<Rightarrow> (string, 'v) gomap \<Rightarrow> (string \<times> 'v) list" where
  "range_map ord m = List.map_filter (\<lambda>k. map_option (Pair k) (map_of m k)) (ord (go_keys m))"

lemma order_ok_id [simp, intro]: "order_ok (\<lambda>ks. ks)" "order_ok id"
  by (simp_all add: order_ok_def)

lemma order_ok_rev [simp, intro]: "order_ok rev"
  by (simp add: order_ok_def)

lemma order_ok_set: "order_ok ord \<Longrightarrow> set (ord ks) = set ks"
  by (metis order_ok_def set_mset_mset)

lemma order_ok_distinct: "order_ok ord \<Longrightarrow> distinct (ord ks) = distinct ks"
  unfolding order_ok_def by (metis mset_eq_imp_distinct_iff)

lemma set_map_filter_iff: "y \<in> set (List.map_filter f xs) \<longleftrightarrow> (\<exists>x \<in> set xs. f x = Some y)"
  by (induction xs) (auto simp: map_filter_simps split: option.splits)

lemma set_range_map: "order_ok ord \<Longrightarrow> set (range_map ord m) = {(k, v). map_of m k = Some v}"
  by (auto simp: range_map_def set_map_filter_iff order_ok_set set_go_keys)

lemma map_of_range_map [simp]:
  assumes "order_ok ord"
  shows "map_of (range_map ord m) = map_of m"
proof
  fix k
  have "map_of (map_filter_list) k = (if k \<in> set ks then f k else None)"
    if "map_filter_list = List.map_filter (\<lambda>k. map_option (Pair k) (f k)) ks"
    for map_filter_list ks and f :: "string \<Rightarrow> 'a option"
    unfolding that by (induction ks) (auto simp: map_filter_simps split: option.splits)
  from this [OF range_map_def [of ord m]] show "map_of (range_map ord m) k = map_of m k"
    using assms by (auto simp: order_ok_set set_go_keys domIff)
qed

lemma map_filter_fst:
  "(\<And>k. k \<in> set ks \<Longrightarrow> f k \<noteq> None) \<Longrightarrow> map fst (List.map_filter (\<lambda>k. map_option (Pair k) (f k)) ks) = ks"
  by (induction ks) (auto simp: map_filter_simps split: option.splits)

lemma range_map_keys: "order_ok ord \<Longrightarrow> map fst (range_map ord m) = ord (go_keys m)"
  unfolding range_map_def by (rule map_filter_fst) (auto simp: order_ok_set set_go_keys)

lemma distinct_range_map: "order_ok ord \<Longrightarrow> distinct (map fst (range_map ord m))"
  by (simp add: range_map_keys order_ok_distinct)

lemma mset_range_map:
  assumes "order_ok o1" and "order_ok o2" and "map_of m1 = map_of m2"
  shows "mset (range_map o1 m1) = mset (range_map o2 m2)"
proof -
  have "distinct (range_map o1 m1)" "distinct (range_map o2 m2)"
    using assms(1,2) distinct_range_map distinct_map by blast+
  moreover have "set (range_map o1 m1) = set (range_map o2 m2)"
    using assms by (simp add: set_range_map)
  ultimately show ?thesis by (simp add: set_eq_iff_mset_eq_distinct)
qed

lemma option_eq_by_Some: "(\<And>x. a = Some x \<longleftrightarrow> b = Some x) \<Longrightarrow> a = b"
  by (cases a; cases b) auto

subsection \<open>Strings\<close>

definition has_suffix :: "string \<Rightarrow> string \<Rightarrow> bool" where
  "has_suffix s suf \<longleftrightarrow> length suf \<le> length s \<and> drop (length s - length suf) s = suf"

definition trim_suffix :: "string \<Rightarrow> string \<Rightarrow> string" where
  "trim_suffix s suf = (if has_suffix s suf then take (length s - length suf) s else s)"

text \<open>\<open>strings.TrimRight(s, cutset)\<close> with a cutset of one character.\<close>

definition trim_right :: "char \<Rightarrow> string \<Rightarrow> string" where
  "trim_right c s = rev (dropWhile (\<lambda>x. x = c) (rev s))"

text \<open>\<open>strings.Split\<close> on one character and \<open>strings.Join\<close>.\<close>

fun split_on :: "char \<Rightarrow> string \<Rightarrow> string list" where
  "split_on c [] = [[]]"
| "split_on c (x # xs) =
     (if x = c then [] # split_on c xs
      else (case split_on c xs of [] \<Rightarrow> [[x]] | p # ps \<Rightarrow> (x # p) # ps))"

fun join_with :: "string \<Rightarrow> string list \<Rightarrow> string" where
  "join_with sep [] = []"
| "join_with sep [p] = p"
| "join_with sep (p # ps) = p @ sep @ join_with sep ps"

lemma split_on_nonempty [simp]: "split_on c s \<noteq> []"
  by (induction s) (auto split: list.splits)

lemma join_split [simp]: "join_with [c] (split_on c s) = s"
proof (induction s)
  case Nil
  then show ?case by simp
next
  case (Cons x xs)
  obtain p ps where ps: "split_on c xs = p # ps"
    by (meson split_on_nonempty neq_Nil_conv)
  show ?case
    using Cons ps by (cases ps) auto
qed

lemma split_on_no_sep: "c \<notin> set s \<Longrightarrow> split_on c s = [s]"
  by (induction s) auto

lemma split_on_app: "c \<notin> set a \<Longrightarrow> split_on c (a @ c # s) = a # split_on c s"
  by (induction a) auto

lemma split_on_parts: "p \<in> set (split_on c s) \<Longrightarrow> c \<notin> set p"
proof (induction s arbitrary: p)
  case Nil
  then show ?case by simp
next
  case (Cons x xs)
  obtain q qs where qs: "split_on c xs = q # qs"
    by (meson split_on_nonempty neq_Nil_conv)
  show ?case
    using Cons.prems Cons.IH qs by (cases "x = c") auto
qed

lemma trim_right_prefix: "\<exists>r. s = trim_right c s @ r \<and> set r \<subseteq> {c}"
proof -
  have "s = rev (takeWhile (\<lambda>x. x = c) (rev s) @ dropWhile (\<lambda>x. x = c) (rev s))" by simp
  then have "s = trim_right c s @ rev (takeWhile (\<lambda>x. x = c) (rev s))"
    unfolding trim_right_def by (metis rev_append)
  moreover have "set (rev (takeWhile (\<lambda>x. x = c) (rev s))) \<subseteq> {c}"
    using set_takeWhileD by fastforce
  ultimately show ?thesis by blast
qed

lemma trim_right_length: "length (trim_right c s) \<le> length s"
  by (metis trim_right_prefix le_add1 length_append)

lemma trim_right_last: "trim_right c s \<noteq> [] \<Longrightarrow> last (trim_right c s) \<noteq> c"
proof -
  assume "trim_right c s \<noteq> []"
  then have ne: "dropWhile (\<lambda>x. x = c) (rev s) \<noteq> []" by (simp add: trim_right_def)
  then have "hd (dropWhile (\<lambda>x. x = c) (rev s)) \<noteq> c"
    by (rule hd_dropWhile)
  with ne show ?thesis by (simp add: trim_right_def last_rev)
qed

lemma has_suffix_iff: "has_suffix s suf \<longleftrightarrow> (\<exists>p. s = p @ suf)"
proof
  assume "has_suffix s suf"
  then have "s = take (length s - length suf) s @ suf"
    unfolding has_suffix_def by (metis append_take_drop_id)
  then show "\<exists>p. s = p @ suf" ..
qed (auto simp: has_suffix_def)

lemma trim_suffix_append [simp]: "trim_suffix (p @ suf) suf = p"
  by (simp add: trim_suffix_def has_suffix_def)

lemma trim_suffix_other: "\<not> has_suffix s suf \<Longrightarrow> trim_suffix s suf = s"
  by (simp add: trim_suffix_def)

lemma trim_suffix_length: "length (trim_suffix s suf) \<le> length s"
  by (simp add: trim_suffix_def)

subsection \<open>String sets\<close>

text \<open>\<open>sets.String\<close>: only its elements and \<open>List()\<close>, which sorts them, are observed.\<close>

type_synonym strset = "string list"

definition sset_insert :: "string \<Rightarrow> strset \<Rightarrow> strset" where
  "sset_insert x s = (if x \<in> set s then s else x # s)"

definition sset_list :: "strset \<Rightarrow> string list" where
  "sset_list s = sort (remdups s)"

lemma set_sset_insert [simp]: "set (sset_insert x s) = insert x (set s)"
  by (auto simp: sset_insert_def)

lemma set_sset_list [simp]: "set (sset_list s) = set s"
  by (simp add: sset_list_def)

lemma sset_list_sorted [simp]: "sorted (sset_list s)" "distinct (sset_list s)"
  by (simp_all add: sset_list_def)

lemma sset_list_unique: "set a = set b \<Longrightarrow> sset_list a = sset_list b"
  by (metis set_sset_list sset_list_sorted sorted_distinct_set_unique)

subsection \<open>Algebra of sequencing\<close>

lemma bnd_assoc: "bnd (bnd m f) g = bnd m (\<lambda>x. bnd (f x) g)"
  by (rule ext) (simp add: bnd_def split: prod.splits sum.splits)

lemma bnd_case_sum:
  "bnd (case x of Inl e \<Rightarrow> f e | Inr y \<Rightarrow> g y) h = (case x of Inl e \<Rightarrow> bnd (f e) h | Inr y \<Rightarrow> bnd (g y) h)"
  by (cases x) simp_all

lemma bnd_if: "bnd (if b then m else n) h = (if b then bnd m h else bnd n h)"
  by simp

lemma bnd_lift_Inl [simp]: "bnd (lift (Inl e)) f = lift (Inl e)"
  by (rule ext) simp

lemma bnd_lift_Inr [simp]: "bnd (lift (Inr x)) f = f x"
  by (rule ext) simp

lemmas bnd_algebra = bnd_assoc bnd_case_sum bnd_if bnd_ret bnd_lift_Inl

subsection \<open>What a computation leaves alone\<close>

named_theorems keeps_intro \<open>rules that a computation keeps a view of the world\<close>

definition keeps :: "('s \<Rightarrow> 'v) \<Rightarrow> ('s, 'a) action \<Rightarrow> bool" where
  "keeps V m \<longleftrightarrow> (\<forall>s. V (snd (m s)) = V s)"

lemma keepsD: "keeps V m \<Longrightarrow> m s = (r, s') \<Longrightarrow> V s' = V s"
  by (metis keeps_def snd_conv)

lemma keeps_ret [keeps_intro]: "keeps V (ret x)"
  by (simp add: keeps_def)

lemma keeps_lift [keeps_intro]: "keeps V (lift r)"
  by (simp add: keeps_def)

lemma keeps_bnd [keeps_intro]: "keeps V m \<Longrightarrow> (\<And>x. keeps V (f x)) \<Longrightarrow> keeps V (bnd m f)"
  by (auto simp: keeps_def bnd_def split: prod.splits sum.splits) (metis snd_conv)+

lemma keeps_attempt [keeps_intro]: "keeps V m \<Longrightarrow> keeps V (attempt m)"
  by (auto simp: keeps_def attempt_def split: prod.splits sum.splits fault.splits) (metis snd_conv)+

lemma keeps_if [keeps_intro]: "(b \<Longrightarrow> keeps V m) \<Longrightarrow> (\<not> b \<Longrightarrow> keeps V n) \<Longrightarrow> keeps V (if b then m else n)"
  by simp

lemma keeps_case_sum [keeps_intro]:
  "(\<And>e. keeps V (f e)) \<Longrightarrow> (\<And>y. keeps V (g y)) \<Longrightarrow> keeps V (case x of Inl e \<Rightarrow> f e | Inr y \<Rightarrow> g y)"
  by (cases x) simp_all

end
