(* ===== verification/Kube.thy ===== *)
theory Kube
  imports Prelude
begin

text \<open>
  The Kubernetes object model the controller works on: object metadata, owner references, the
  shape shared by every resource (metadata, spec, status), API status errors, label selectors
  built from a set, semantic equality of maps, and the map helpers of \<open>knative.dev/pkg/kmeta\<close>.
  Metadata fields the controller neither reads nor writes (\<open>SelfLink\<close>, \<open>ManagedFields\<close> and
  the like) are left out.
\<close>

subsection \<open>Metadata\<close>

record owner_reference =
  or_APIVersion :: string
  or_Kind :: string
  or_Name :: string
  or_UID :: string
  or_Controller :: "bool option"
  or_BlockOwnerDeletion :: "bool option"

record object_meta =
  om_Name :: string
  om_Namespace :: string
  om_UID :: string
  om_ResourceVersion :: string
  om_Generation :: int
  om_DeletionTimestamp :: "nat option"
  om_Labels :: strmap
  om_Annotations :: strmap
  om_OwnerReferences :: "owner_reference list"
  om_Finalizers :: "string list"

record ('spec, 'status) kobject =
  obj_meta :: object_meta
  obj_spec :: 'spec
  obj_status :: 'status

definition zero_meta :: object_meta where
  "zero_meta = \<lparr>om_Name = '''', om_Namespace = '''', om_UID = '''', om_ResourceVersion = '''',
     om_Generation = 0, om_DeletionTimestamp = None, om_Labels = None, om_Annotations = None,
     om_OwnerReferences = [], om_Finalizers = []\<rparr>"

type_synonym object_key = "string \<times> string"

definition obj_key :: "('spec, 'status) kobject \<Rightarrow> object_key" where
  "obj_key x = (om_Namespace (obj_meta x), om_Name (obj_meta x))"

text \<open>\<open>metav1.NewControllerRef\<close>, called by \<open>kmeta.NewControllerRef\<close> with the owner's kind.\<close>

definition NewControllerRef :: "object_meta \<Rightarrow> string \<Rightarrow> string \<Rightarrow> owner_reference" where
  "NewControllerRef owner apiVersion kind =
     \<lparr>or_APIVersion = apiVersion, or_Kind = kind, or_Name = om_Name owner, or_UID = om_UID owner,
      or_Controller = Some True, or_BlockOwnerDeletion = Some True\<rparr>"

fun GetControllerOf :: "owner_reference list \<Rightarrow> owner_reference option" where
  "GetControllerOf [] = None"
| "GetControllerOf (r # rs) = (if or_Controller r = Some True then Some r else GetControllerOf rs)"

subsection \<open>API status errors\<close>

definition NewNotFound :: "string \<Rightarrow> string \<Rightarrow> goerr" where
  "NewNotFound resource nm = StatusError ReasonNotFound resource nm"

definition NewAlreadyExists :: "string \<Rightarrow> string \<Rightarrow> goerr" where
  "NewAlreadyExists resource nm = StatusError ReasonAlreadyExists resource nm"

text \<open>\<open>ReasonForError\<close> looks through wrapped errors, as \<open>errors.As\<close> does.\<close>

fun ReasonForError :: "goerr \<Rightarrow> status_reason option" where
  "ReasonForError (StatusError r _ _) = Some r"
| "ReasonForError (ErrorString _) = None"
| "ReasonForError (WrapError _ e) = ReasonForError e"

definition IsNotFound :: "goerr \<Rightarrow> bool" where
  "IsNotFound e \<longleftrightarrow> ReasonForError e = Some ReasonNotFound"

definition IsAlreadyExists :: "goerr \<Rightarrow> bool" where
  "IsAlreadyExists e \<longleftrightarrow> ReasonForError e = Some ReasonAlreadyExists"

lemma IsNotFound_simps [simp]:
  "IsNotFound (NewNotFound res nm)"
  "\<not> IsNotFound (NewAlreadyExists res nm)"
  "\<not> IsNotFound (ErrorString msg)"
  "IsNotFound (WrapError msg e) = IsNotFound e"
  by (simp_all add: IsNotFound_def NewNotFound_def NewAlreadyExists_def)

lemma IsAlreadyExists_simps [simp]:
  "IsAlreadyExists (NewAlreadyExists res nm)"
  "IsAlreadyExists (WrapError msg e) = IsAlreadyExists e"
  by (simp_all add: IsAlreadyExists_def NewAlreadyExists_def)

subsection \<open>Semantic equality of maps\<close>

text \<open>
  \<open>equality.Semantic.DeepEqual\<close> on two maps: a nil map and an empty map are the same; otherwise
  the lengths and the value of every key must agree.
\<close>

definition DeepEqual_map :: "strmap \<Rightarrow> strmap \<Rightarrow> bool" where
  "DeepEqual_map a b =
     (if (entries_of a = []) \<noteq> (entries_of b = []) then False
      else if entries_of a = [] then True
      else map_eq (entries_of a) (entries_of b))"

lemma DeepEqual_map_iff: "DeepEqual_map a b \<longleftrightarrow> mget a = mget b"
proof -
  have ne: "map_of es \<noteq> Map.empty" if "es \<noteq> []" for es :: "(string, string) gomap"
    using that by simp
  have eq: "mget a = mget b \<longleftrightarrow> map_of (entries_of a) = map_of (entries_of b)"
    by (simp add: mget_def fun_eq_iff)
  show ?thesis
    unfolding eq DeepEqual_map_def map_eq_iff
    using ne [of "entries_of a"] ne [of "entries_of b"] by auto
qed

lemma DeepEqual_map_refl [simp]: "DeepEqual_map a a"
  by (simp add: DeepEqual_map_iff)

subsection \<open>Helpers of kmeta\<close>

text \<open>
  The loop \<open>for k, v := range m { out[k] = v }\<close>. Its result does not depend on the order, so
  the definitions fix one.
\<close>

fun put_all :: "('k, 'v) gomap \<Rightarrow> ('k \<times> 'v) list \<Rightarrow> ('k, 'v) gomap" where
  "put_all out [] = out"
| "put_all out ((k, v) # es) = put_all (AList.update k v out) es"

lemma put_all_lookup:
  "distinct (map fst es) \<Longrightarrow> map_of (put_all out es) = map_of out ++ map_of es"
proof (induction out es rule: put_all.induct)
  case (1 out)
  then show ?case by simp
next
  case (2 out k v es)
  then have "map_of es k = None" by (simp add: map_of_eq_None_iff)
  with 2 show ?case
    by (auto simp: update_conv fun_eq_iff map_add_def split: option.splits)
qed

lemma put_all_range:
  "order_ok ord \<Longrightarrow> map_of (put_all out (range_map ord m)) = map_of out ++ map_of m"
  by (simp add: put_all_lookup distinct_range_map)

primrec union_loop :: "(string, string) gomap \<Rightarrow> strmap list \<Rightarrow> (string, string) gomap" where
  "union_loop out [] = out"
| "union_loop out (m # ms) = union_loop (put_all out (range_map (\<lambda>ks. ks) (entries_of m))) ms"

definition UnionMaps_kmeta :: "strmap list \<Rightarrow> strmap" where
  "UnionMaps_kmeta maps = (if maps = [] then Some [] else Some (union_loop [] maps))"

definition FilterMap :: "strmap \<Rightarrow> (string \<Rightarrow> bool) \<Rightarrow> strmap" where
  "FilterMap m flt =
     Some (put_all [] (filter (\<lambda>(k, v). \<not> flt k) (range_map (\<lambda>ks. ks) (entries_of m))))"

lemma UnionMaps_kmeta_two [go_map]:
  "mget (UnionMaps_kmeta [a, b]) = mget a ++ mget b"
  by (rule ext) (simp add: UnionMaps_kmeta_def put_all_range mget_def map_add_def split: option.splits)

lemma UnionMaps_kmeta_lookup:
  "mget (UnionMaps_kmeta [a, b]) k = (case mget b k of Some v \<Rightarrow> Some v | None \<Rightarrow> mget a k)"
  by (simp add: UnionMaps_kmeta_two map_add_def)

lemma map_of_filter_key:
  "map_of (filter (\<lambda>(k, v). P k) es) k = (if P k then map_of es k else None)"
  by (induction es) auto

lemma distinct_filter_keys: "distinct (map fst es) \<Longrightarrow> distinct (map fst (filter P es))"
  by (induction es) auto

lemma FilterMap_lookup [go_map]: "mget (FilterMap m flt) k = (if flt k then None else mget m k)"
proof -
  have "map_of (filter (\<lambda>(k, v). \<not> flt k) (range_map (\<lambda>ks. ks) (entries_of m))) k
      = (if flt k then None else mget m k)"
    by (simp add: map_of_filter_key [of "\<lambda>k. \<not> flt k"] mget_def)
  then show ?thesis
    by (simp add: FilterMap_def put_all_lookup distinct_filter_keys distinct_range_map)
qed

subsection \<open>Label selectors\<close>

text \<open>
  \<open>labels.SelectorFromSet\<close> builds one equality requirement per entry, sorted by key; a selector
  matches when every requirement finds its value.
\<close>

type_synonym selector = "(string \<times> string) list"

definition SelectorFromSet :: "strmap \<Rightarrow> selector" where
  "SelectorFromSet ls = sort_key fst (range_map (\<lambda>ks. ks) (entries_of ls))"

definition requirement_matches :: "string \<times> string \<Rightarrow> strmap \<Rightarrow> bool" where
  "requirement_matches r ls = (case mget ls (fst r) of None \<Rightarrow> False | Some v \<Rightarrow> v = snd r)"

definition selector_matches :: "selector \<Rightarrow> strmap \<Rightarrow> bool" where
  "selector_matches sel ls = list_all (\<lambda>r. requirement_matches r ls) sel"

definition selector_empty :: "selector \<Rightarrow> bool" where
  "selector_empty sel \<longleftrightarrow> length sel = 0"

lemma selector_matches_iff:
  "selector_matches (SelectorFromSet ls) labels \<longleftrightarrow> mget ls \<subseteq>\<^sub>m mget labels"
proof -
  have "set (SelectorFromSet ls) = {(k, v). mget ls k = Some v}"
    by (simp add: SelectorFromSet_def set_range_map mget_def)
  then show ?thesis
    by (force simp: selector_matches_def list_all_iff requirement_matches_def map_le_def dom_def
        split: option.splits)
qed

end
