(* ===== verification/Names.thy ===== *)
theory Names
  imports Kube
begin

text \<open>
  Names of child resources: \<open>kmeta.ChildName\<close> with the MD5 digest it hashes long parents with,
  and the names package of serving. The digest is the one of \<open>crypto/md5\<close> (RFC 1321), written
  out on 32-bit words. A slice expression out of bounds is a panic, so that the absence of one is
  a theorem.
\<close>

unbundle bit_operations_syntax

subsection \<open>MD5\<close>

type_synonym w32 = "32 word"

definition md5_K :: "w32 list" where
  "md5_K =
    [3614090360, 3905402710, 606105819, 3250441966, 4118548399, 1200080426,
     2821735955, 4249261313, 1770035416, 2336552879, 4294925233, 2304563134,
     1804603682, 4254626195, 2792965006, 1236535329, 4129170786, 3225465664,
     643717713, 3921069994, 3593408605, 38016083, 3634488961, 3889429448,
     568446438, 3275163606, 4107603335, 1163531501, 2850285829, 4243563512,
     1735328473, 2368359562, 4294588738, 2272392833, 1839030562, 4259657740,
     2763975236, 1272893353, 4139469664, 3200236656, 681279174, 3936430074,
     3572445317, 76029189, 3654602809, 3873151461, 530742520, 3299628645,
     4096336452, 1126891415, 2878612391, 4237533241, 1700485571, 2399980690,
     4293915773, 2240044497, 1873313359, 4264355552, 2734768916, 1309151649,
     4149444226, 3174756917, 718787259, 3951481745]"

text \<open>The step number is an \<open>int\<close>; the quarter \<open>i div 16\<close> selects shift amounts, mixing function and word.\<close>

definition md5_shift :: "int \<Rightarrow> nat" where
  "md5_shift i =
     (let q = (if i < 16 then [7, 12, 17, 22] else if i < 32 then [5, 9, 14, 20]
               else if i < 48 then [4, 11, 16, 23] else [6, 10, 15, 21])
      in q ! nat (i mod 4))"

definition rotl32 :: "nat \<Rightarrow> w32 \<Rightarrow> w32" where
  "rotl32 n x = push_bit n x OR drop_bit (32 - n) x"

definition md5_mix :: "int \<Rightarrow> w32 \<Rightarrow> w32 \<Rightarrow> w32 \<Rightarrow> w32" where
  "md5_mix i b c d =
     (if i < 16 then (b AND c) OR (NOT b AND d)
      else if i < 32 then (d AND b) OR (NOT d AND c)
      else if i < 48 then b XOR c XOR d
      else c XOR (b OR NOT d))"

definition md5_index :: "int \<Rightarrow> nat" where
  "md5_index i =
     nat ((if i < 16 then i
           else if i < 32 then 5 * i + 1
           else if i < 48 then 3 * i + 5
           else 7 * i) mod 16)"

type_synonym md5_state = "w32 \<times> w32 \<times> w32 \<times> w32"

definition md5_step :: "w32 list \<Rightarrow> int \<Rightarrow> md5_state \<Rightarrow> md5_state" where
  "md5_step M i = (\<lambda>(a, b, c, d).
     (d, b + rotl32 (md5_shift i) (a + md5_mix i b c d + md5_K ! nat i + M ! md5_index i), b, c))"

fun md5_add :: "md5_state \<Rightarrow> md5_state \<Rightarrow> md5_state" where
  "md5_add (a, b, c, d) (a', b', c', d') = (a + a', b + b', c + c', d + d')"

definition md5_block :: "w32 list \<Rightarrow> md5_state \<Rightarrow> md5_state" where
  "md5_block M st = md5_add st (fold (md5_step M) [0..63] st)"

fun le_words :: "string \<Rightarrow> w32 list" where
  "le_words (p # q # r # s # cs) =
     (of_char p OR push_bit 8 (of_char q) OR push_bit 16 (of_char r) OR push_bit 24 (of_char s))
       # le_words cs"
| "le_words _ = []"

fun md5_blocks :: "w32 list \<Rightarrow> md5_state \<Rightarrow> md5_state" where
  "md5_blocks [] st = st"
| "md5_blocks (w # ws) st = md5_blocks (drop 15 ws) (md5_block (take 16 (w # ws)) st)"

definition le_bytes :: "nat \<Rightarrow> int \<Rightarrow> string" where
  "le_bytes n x = map (\<lambda>i. char_of ((x div 256 ^ i) mod 256)) [0..<n]"

definition md5_pad :: "string \<Rightarrow> string" where
  "md5_pad s = s @ char_of (128 :: int)
     # replicate (nat ((119 - int (length s) mod 64) mod 64)) (char_of (0 :: int)) @ le_bytes 8 (8 * int (length s))"

fun md5_bytes :: "md5_state \<Rightarrow> string" where
  "md5_bytes (a, b, c, d) = concat (map (\<lambda>w. le_bytes 4 (uint w)) [a, b, c, d])"

definition md5_sum :: "string \<Rightarrow> string" where
  "md5_sum s = md5_bytes
     (md5_blocks (le_words (md5_pad s)) (1732584193, 4023233417, 2562383102, 271733878))"

definition hex_digit :: "nat \<Rightarrow> char" where
  "hex_digit n = ''0123456789abcdef'' ! (n mod 16)"

definition hex :: "string \<Rightarrow> string" where
  "hex s = concat (map (\<lambda>c. [hex_digit (of_char c div 16), hex_digit (of_char c)]) s)"

definition md5_hex :: "string \<Rightarrow> string" where
  "md5_hex s = hex (md5_sum s)"

subsection \<open>ChildName\<close>

definition longest :: int where "longest = 63"

definition md5Len :: int where "md5Len = 32"

definition head :: int where "head = longest - md5Len"

definition slice_to :: "'a list \<Rightarrow> int \<Rightarrow> 'a list result" where
  "slice_to xs n =
     (if n < 0 \<or> int (length xs) < n then Inl (Panic SliceBounds) else Inr (take (nat n) xs))"

definition len :: "'a list \<Rightarrow> int" where
  "len xs = int (length xs)"

definition ChildName :: "string \<Rightarrow> string \<Rightarrow> string result" where
  "ChildName parent suffix =
     (if len parent > longest - len suffix then
        (if head - len suffix \<le> 0 then
           (let h = md5_hex (parent @ suffix) in
            rbind (if head < len parent then slice_to parent head else Inr parent) (\<lambda>parent'.
            let rt = parent' @ h; d = longest - len rt in
            rbind (if d > 0 then rbind (slice_to suffix d) (\<lambda>s. Inr (rt @ s)) else Inr rt) (\<lambda>rt'.
            Inr (trim_right (CHR ''-'') rt'))))
         else
           rbind (slice_to parent (head - len suffix)) (\<lambda>p.
           Inr ((p @ md5_hex parent) @ suffix)))
      else Inr (parent @ suffix))"

subsection \<open>Names of serving\<close>

definition Ingress_name :: "object_meta \<Rightarrow> string result" where
  "Ingress_name r = ChildName (om_Name r) ''''"

subsection \<open>Lemmas\<close>

lemma length_le_bytes [simp]: "length (le_bytes n x) = n"
  by (simp add: le_bytes_def)

lemma length_hex [simp]: "length (hex s) = 2 * length s"
  by (induction s) (simp_all add: hex_def)

lemma length_md5_bytes [simp]: "length (md5_bytes st) = 16"
  by (cases st) simp

lemma length_md5_sum [simp]: "length (md5_sum s) = 16"
  by (simp add: md5_sum_def)

lemma length_md5_hex [simp]: "length (md5_hex s) = 32"
  by (simp add: md5_hex_def)

lemma hex_digit_chars: "hex_digit n \<in> set ''0123456789abcdef''"
  unfolding hex_digit_def by (rule nth_mem) simp

lemma md5_hex_chars: "set (md5_hex s) \<subseteq> set ''0123456789abcdef''"
  unfolding md5_hex_def hex_def using hex_digit_chars by fastforce

text \<open>The padded message is a whole number of 64-byte blocks.\<close>

lemma md5_pad_blocks: "length (md5_pad s) mod 64 = 0"
proof -
  let ?p = "(119 - int (length s) mod 64) mod 64"
  define q where "q = nat ?p"
  have "int q = ?p" by (simp add: q_def)
  then have "int (length s + 9 + q) mod 64 = (int (length s) + 9 + ?p) mod 64" by simp
  also have "\<dots> = (int (length s) + 9 + (119 - int (length s))) mod 64"
    by (simp only: mod_simps)
  also have "\<dots> = 0" by simp
  finally have "(length s + 9 + q) mod 64 = 0"
    using zmod_int [of "length s + 9 + q" 64] by simp
  then show ?thesis by (simp add: md5_pad_def q_def add.assoc)
qed

lemma slice_to_ok: "0 \<le> n \<Longrightarrow> n \<le> len xs \<Longrightarrow> slice_to xs n = Inr (take (nat n) xs)"
  by (simp add: slice_to_def len_def)

lemma ChildName_short: "length p + length s \<le> 63 \<Longrightarrow> ChildName p s = Inr (p @ s)"
  by (simp add: ChildName_def len_def longest_def)

text \<open>A parent too long for its short suffix keeps a prefix and gets the digest of the whole parent.\<close>

lemma ChildName_hashed:
  "63 < length p + length s \<Longrightarrow> length s < 31 \<Longrightarrow>
     ChildName p s = Inr (take (31 - length s) p @ md5_hex p @ s)"
  by (simp add: ChildName_def len_def longest_def head_def md5Len_def slice_to_def nat_diff_distrib)

lemma ChildName_long_suffix:
  assumes "63 < length p + length s" and "31 \<le> length s"
  shows "ChildName p s = Inr (trim_right (CHR ''-'')
           (take 31 p @ md5_hex (p @ s) @ take (31 - min 31 (length p)) s))"
proof (cases "31 < length p")
  case True
  with assms show ?thesis
    by (simp add: ChildName_def len_def longest_def head_def md5Len_def slice_to_def Let_def)
next
  case False
  then have "nat (31 - int (length p)) = 31 - length p" by simp
  with False assms show ?thesis
    by (auto simp: ChildName_def len_def longest_def head_def md5Len_def slice_to_def Let_def)
qed

lemma ChildName_cases:
  obtains (short) "length p + length s \<le> 63" "ChildName p s = Inr (p @ s)"
    | (hashed) "63 < length p + length s" "length s < 31"
        "ChildName p s = Inr (take (31 - length s) p @ md5_hex p @ s)"
    | (long_suffix) "63 < length p + length s" "31 \<le> length s"
        "ChildName p s = Inr (trim_right (CHR ''-'')
           (take 31 p @ md5_hex (p @ s) @ take (31 - min 31 (length p)) s))"
  using ChildName_short ChildName_hashed ChildName_long_suffix by (meson not_le)

text \<open>Test vector of RFC 1321.\<close>

lemma md5_abc: "md5_hex ''abc'' = ''900150983cd24fb0d6963f7d28e17f72''"
  by code_simp

lemma ChildName_length: "ChildName p s = Inr n \<Longrightarrow> length n \<le> 63"
proof (cases p s rule: ChildName_cases)
  case long_suffix
  moreover assume "ChildName p s = Inr n"
  ultimately show ?thesis
    by (auto intro!: le_trans [OF trim_right_length])
qed auto


subsection \<open>Properties\<close>

text \<open>C39: \<open>ChildName\<close> never panics on a slice bound, whatever the parent and the suffix, and what it
  returns fits a DNS label of 63 characters; a child that fits is named by plain concatenation.\<close>

theorem ChildName_bounded:
  "\<exists>n. ChildName p s = Inr n \<and> length n \<le> 63 \<and> (if length p + length s \<le> 63 then n = p @ s else True)"
  by (cases p s rule: ChildName_cases)
    (auto intro: le_trans [OF trim_right_length])

text \<open>A suffix of less than 31 characters is kept whole, so two children of any parents with
  suffixes of the same length but different text get different names, hashed or not.\<close>

theorem ChildName_separates:
  assumes "length s < 31" and "length s' = length s" and "s \<noteq> s'"
  shows "ChildName p s \<noteq> ChildName p' s'"
proof -
  have suffix: "\<exists>q. ChildName x y = Inr (q @ y)" if "length y < 31" for x y
    by (cases x y rule: ChildName_cases) (use that in auto)
  obtain q q' where "ChildName p s = Inr (q @ s)" "ChildName p' s' = Inr (q' @ s')"
    using suffix [of s p] suffix [of s' p'] assms by auto
  with assms show ?thesis by simp
qed

theorem ChildName_separates_witness: "ChildName ''route'' ''-a'' \<noteq> ChildName ''route'' ''-b''"
  by (rule ChildName_separates) simp_all

end
