(* ===== verification/GatewayConfig.thy ===== *)
theory GatewayConfig
  imports Prelude
begin

text \<open>
  \<open>config/gateway.go\<close>: the gateway configuration read from the \<open>config-gateway\<close> ConfigMap, its
  lookups, and the generated deep copy. A \<open>*GatewayConfig\<close> in the map is an option; the deep copy
  is modelled a second time over an explicit heap of \<open>GatewayConfig\<close> cells, because what it is
  for is that the copy shares no cell with the original. \<open>yaml.Unmarshal\<close> is the parameter
  \<open>unmarshal\<close>: it is given the text and the config it fills.
\<close>

subsection \<open>Data\<close>

record gateway_config =
  gc_GatewayClass :: string
  gc_Namespace :: string
  gc_Address :: string

record gateway_table =
  gt_Gateways :: "(string, gateway_config option) gomap option"

record config_map =
  cm_Name :: string
  cm_Data :: strmap

definition zero_gateway_config :: gateway_config where
  "zero_gateway_config = \<lparr>gc_GatewayClass = '''', gc_Namespace = '''', gc_Address = ''''\<rparr>"

definition ExampleKey :: string where
  "ExampleKey = ''_example''"

definition GatewayConfigName :: string where
  "GatewayConfigName = ''config-gateway''"

definition DefaultGatewayClass :: string where
  "DefaultGatewayClass = ''istio''"

definition DefaultVisibilityName :: string where
  "DefaultVisibilityName = ''default''"

definition DefaultIstioNamespace :: string where
  "DefaultIstioNamespace = ''istio-system''"

definition DefaultLocalGatewayService :: string where
  "DefaultLocalGatewayService = ''knative-local-gateway.istio-system.svc.cluster.local''"

definition VisibilityClusterLocal :: string where
  "VisibilityClusterLocal = ''cluster-local''"

subsection \<open>Construction from the ConfigMap\<close>

type_synonym yaml_unmarshal = "string \<Rightarrow> gateway_config \<Rightarrow> goerr + gateway_config"

fun parse_gateways ::
  "yaml_unmarshal \<Rightarrow> (string \<times> string) list \<Rightarrow> (string, gateway_config option) gomap
     \<Rightarrow> (string, gateway_config option) gomap result" where
  "parse_gateways unmarshal [] gws = Inr gws"
| "parse_gateways unmarshal ((k, v) # es) gws =
     (if k = ExampleKey then parse_gateways unmarshal es gws
      else (case unmarshal v zero_gateway_config of
              Inl err \<Rightarrow> Inl (Fail err)
            | Inr cfg \<Rightarrow> parse_gateways unmarshal es (AList.update k (Some cfg) gws)))"

definition default_if_missing ::
  "string \<Rightarrow> gateway_config \<Rightarrow> (string, gateway_config option) gomap
     \<Rightarrow> (string, gateway_config option) gomap" where
  "default_if_missing k cfg gws =
     (case map_of gws k of None \<Rightarrow> AList.update k (Some cfg) gws | Some _ \<Rightarrow> gws)"

definition default_gateway :: gateway_config where
  "default_gateway = \<lparr>gc_GatewayClass = DefaultGatewayClass, gc_Namespace = DefaultIstioNamespace,
     gc_Address = ''''\<rparr>"

definition default_local_gateway :: gateway_config where
  "default_local_gateway = \<lparr>gc_GatewayClass = DefaultGatewayClass,
     gc_Namespace = DefaultIstioNamespace, gc_Address = DefaultLocalGatewayService\<rparr>"

definition NewGatewayFromConfigMap ::
  "yaml_unmarshal \<Rightarrow> key_order \<Rightarrow> config_map \<Rightarrow> gateway_table result" where
  "NewGatewayFromConfigMap unmarshal ord cm =
     rbind (parse_gateways unmarshal (range_map ord (entries_of (cm_Data cm))) [])
       (\<lambda>gws. Inr \<lparr>gt_Gateways =
          Some (default_if_missing VisibilityClusterLocal default_local_gateway
            (default_if_missing DefaultVisibilityName default_gateway gws))\<rparr>)"

subsection \<open>Lookups\<close>

text \<open>A missing key of the map reads as a nil pointer, and reading a field of it panics.\<close>

definition gateway_at :: "gateway_table \<Rightarrow> string \<Rightarrow> gateway_config result" where
  "gateway_at c visibility =
     (case mget (gt_Gateways c) visibility of
        Some (Some cfg) \<Rightarrow> Inr cfg
      | _ \<Rightarrow> Inl (Panic NilDeref))"

definition LookupGatewayNamespace :: "gateway_table \<Rightarrow> string \<Rightarrow> string result" where
  "LookupGatewayNamespace c visibility =
     rbind (gateway_at c visibility) (\<lambda>g. Inr (gc_Namespace g))"

definition LookupGatewayClass :: "gateway_table \<Rightarrow> string \<Rightarrow> string result" where
  "LookupGatewayClass c visibility =
     rbind (gateway_at c visibility) (\<lambda>g. Inr (gc_GatewayClass g))"

definition LookupAddress :: "gateway_table \<Rightarrow> string \<Rightarrow> string result" where
  "LookupAddress c visibility = rbind (gateway_at c visibility) (\<lambda>g. Inr (gc_Address g))"

subsection \<open>Deep copy over a heap\<close>

text \<open>A pointer to a config is a cell index, or nil.\<close>

type_synonym config_heap = "gateway_config list"
type_synonym config_ptr = "nat option"
type_synonym gateway_ptrs = "(string, config_ptr) gomap option"

definition alloc_config :: "gateway_config \<Rightarrow> config_heap \<Rightarrow> nat \<times> config_heap" where
  "alloc_config c h = (length h, h @ [c])"

definition deepcopy_GatewayConfig :: "config_heap \<Rightarrow> config_ptr \<Rightarrow> config_ptr \<times> config_heap" where
  "deepcopy_GatewayConfig h p =
     (case p of
        None \<Rightarrow> (None, h)
      | Some i \<Rightarrow> (let (j, h') = alloc_config zero_gateway_config h in (Some j, h'[j := h ! i])))"

fun deepcopy_entries ::
  "config_heap \<Rightarrow> (string \<times> config_ptr) list \<Rightarrow> (string, config_ptr) gomap
     \<Rightarrow> (string, config_ptr) gomap \<times> config_heap" where
  "deepcopy_entries h [] out = (out, h)"
| "deepcopy_entries h ((key, val) # es) out =
     (case val of
        None \<Rightarrow> deepcopy_entries h es (AList.update key None (AList.update key None out))
      | Some i \<Rightarrow> (let (j, h') = alloc_config zero_gateway_config h
                   in deepcopy_entries (h'[j := h ! i]) es (AList.update key (Some j) out)))"

definition deepcopy_Gateway_into :: "key_order \<Rightarrow> config_heap \<Rightarrow> gateway_ptrs \<Rightarrow> gateway_ptrs \<times> config_heap" where
  "deepcopy_Gateway_into ord h gws =
     (case gws of
        None \<Rightarrow> (None, h)
      | Some m \<Rightarrow> (let (out, h') = deepcopy_entries h (range_map ord m) [] in (Some out, h')))"

definition deepcopy_Gateway ::
  "key_order \<Rightarrow> config_heap \<Rightarrow> gateway_ptrs option \<Rightarrow> gateway_ptrs option \<times> config_heap" where
  "deepcopy_Gateway ord h g =
     (case g of
        None \<Rightarrow> (None, h)
      | Some gws \<Rightarrow> (let (out, h') = deepcopy_Gateway_into ord h gws in (Some out, h')))"

text \<open>The table a pointer map stands for, and its well-formedness in a heap.\<close>

definition ptr_value :: "config_heap \<Rightarrow> config_ptr \<Rightarrow> gateway_config option" where
  "ptr_value h p = map_option (\<lambda>i. h ! i) p"

definition table_value :: "config_heap \<Rightarrow> gateway_ptrs \<Rightarrow> string \<Rightarrow> gateway_config option option" where
  "table_value h gws k = map_option (ptr_value h) (mget gws k)"

definition ptrs_ok :: "config_heap \<Rightarrow> gateway_ptrs \<Rightarrow> bool" where
  "ptrs_ok h gws \<longleftrightarrow> (\<forall>(k, p) \<in> set (entries_of gws). case p of None \<Rightarrow> True | Some i \<Rightarrow> i < length h)"

subsection \<open>Lemmas\<close>

text \<open>What the ConfigMap itself configures for a visibility: nothing under the example key.\<close>

definition configured :: "yaml_unmarshal \<Rightarrow> strmap \<Rightarrow> string \<Rightarrow> gateway_config option" where
  "configured unmarshal data k =
     (if k = ExampleKey then None
      else (case mget data k of
              None \<Rightarrow> None
            | Some v \<Rightarrow> (case unmarshal v zero_gateway_config of Inl _ \<Rightarrow> None | Inr cfg \<Rightarrow> Some cfg)))"

definition parses :: "yaml_unmarshal \<Rightarrow> (string \<times> string) list \<Rightarrow> bool" where
  "parses unmarshal es \<longleftrightarrow>
     list_all (\<lambda>(k, v). k = ExampleKey \<or> (\<exists>cfg. unmarshal v zero_gateway_config = Inr cfg)) es"

lemma parse_gateways_ok_iff: "(\<exists>m. parse_gateways u es gws = Inr m) \<longleftrightarrow> parses u es"
  by (induction u es gws rule: parse_gateways.induct) (auto simp: parses_def split: sum.splits)

lemma parse_gateways_fault:
  "parse_gateways u es gws = Inl e \<Longrightarrow>
     \<exists>k v err. (k, v) \<in> set es \<and> k \<noteq> ExampleKey \<and> u v zero_gateway_config = Inl err \<and> e = Fail err"
  by (induction u es gws rule: parse_gateways.induct) (auto split: if_splits sum.splits)

lemma parse_gateways_lookup:
  assumes "distinct (map fst es)" and "parse_gateways u es gws = Inr m"
  shows "map_of m k = (case configured u (Some es) k of Some cfg \<Rightarrow> Some (Some cfg) | None \<Rightarrow> map_of gws k)"
  using assms
proof (induction u es gws arbitrary: m rule: parse_gateways.induct)
  case (1 u gws)
  then show ?case by (simp add: configured_def)
next
  case (2 u k' v es gws)
  have new: "map_of es k' = None" using "2.prems"(1) by (simp add: map_of_eq_None_iff)
  show ?case
  proof (cases "k' = ExampleKey")
    case True
    with 2 show ?thesis by (simp add: configured_def)
  next
    case False
    with "2.prems"(2) obtain cfg where cfg: "u v zero_gateway_config = Inr cfg"
        and m: "parse_gateways u es (AList.update k' (Some cfg) gws) = Inr m"
      by (auto split: sum.splits)
    have "map_of m k = (case configured u (Some es) k of Some cfg \<Rightarrow> Some (Some cfg)
        | None \<Rightarrow> map_of (AList.update k' (Some cfg) gws) k)"
      using "2.IH"(2) [OF False cfg] "2.prems"(1) m by simp
    with new False cfg show ?thesis by (cases "k = k'") (auto simp: configured_def update_conv split: option.splits sum.splits)
  qed
qed

lemma configured_range_map [simp]:
  "order_ok ord \<Longrightarrow> configured u (Some (range_map ord (entries_of m))) = configured u m"
  by (rule ext) (simp add: configured_def mget_def)

lemma default_if_missing_lookup [go_map]:
  "map_of (default_if_missing k0 cfg gws) k =
     (case map_of gws k of Some x \<Rightarrow> Some x | None \<Rightarrow> if k = k0 then Some (Some cfg) else None)"
  by (auto simp: default_if_missing_def update_conv split: option.splits)

text \<open>The table the constructor promises: the user's entry, else the default of that visibility.\<close>

definition gateway_spec :: "yaml_unmarshal \<Rightarrow> strmap \<Rightarrow> string \<Rightarrow> gateway_config option" where
  "gateway_spec u data k =
     (case configured u data k of
        Some cfg \<Rightarrow> Some cfg
      | None \<Rightarrow> if k = DefaultVisibilityName then Some default_gateway
                else if k = VisibilityClusterLocal then Some default_local_gateway else None)"

lemma visibility_names [simp]: "DefaultVisibilityName \<noteq> VisibilityClusterLocal"
    "VisibilityClusterLocal \<noteq> DefaultVisibilityName"
  by (simp_all add: DefaultVisibilityName_def VisibilityClusterLocal_def)

lemma NewGateway_lookup:
  assumes "order_ok ord" and "NewGatewayFromConfigMap u ord cm = Inr c"
  shows "mget (gt_Gateways c) k = map_option Some (gateway_spec u (cm_Data cm) k)"
proof -
  obtain m where m: "parse_gateways u (range_map ord (entries_of (cm_Data cm))) [] = Inr m"
    and c: "gt_Gateways c = Some (default_if_missing VisibilityClusterLocal default_local_gateway
            (default_if_missing DefaultVisibilityName default_gateway m))"
    using assms(2) by (auto simp: NewGatewayFromConfigMap_def)
  have "map_of m k = map_option Some (configured u (cm_Data cm) k)"
    using parse_gateways_lookup [OF distinct_range_map [OF assms(1)] m] assms(1)
    by (simp split: option.splits)
  then show ?thesis
    by (auto simp: c go_map gateway_spec_def split: option.splits)
qed

lemma gateway_at_spec:
  assumes "order_ok ord" and "NewGatewayFromConfigMap u ord cm = Inr c"
  shows "gateway_at c k = (case gateway_spec u (cm_Data cm) k of
      Some cfg \<Rightarrow> Inr cfg | None \<Rightarrow> Inl (Panic NilDeref))"
  by (simp add: gateway_at_def NewGateway_lookup [OF assms] split: option.splits)

lemma gateway_spec_defaults:
  "gateway_spec u data DefaultVisibilityName \<noteq> None" "gateway_spec u data VisibilityClusterLocal \<noteq> None"
  by (simp_all add: gateway_spec_def split: option.splits)

lemma NewGateway_ok_iff:
  assumes "order_ok ord"
  shows "(\<exists>c. NewGatewayFromConfigMap u ord cm = Inr c) \<longleftrightarrow>
     (\<forall>k v. mget (cm_Data cm) k = Some v \<and> k \<noteq> ExampleKey \<longrightarrow> (\<exists>cfg. u v zero_gateway_config = Inr cfg))"
proof -
  have "(\<exists>c. NewGatewayFromConfigMap u ord cm = Inr c) \<longleftrightarrow>
      (\<exists>m. parse_gateways u (range_map ord (entries_of (cm_Data cm))) [] = Inr m)"
    by (simp add: NewGatewayFromConfigMap_def)
  also have "\<dots> \<longleftrightarrow> parses u (range_map ord (entries_of (cm_Data cm)))"
    by (rule parse_gateways_ok_iff)
  also have "\<dots> \<longleftrightarrow> (\<forall>k v. mget (cm_Data cm) k = Some v \<and> k \<noteq> ExampleKey
      \<longrightarrow> (\<exists>cfg. u v zero_gateway_config = Inr cfg))"
    using assms by (auto simp: parses_def list_all_iff set_range_map mget_def)
  finally show ?thesis .
qed

text \<open>The heap copy only allocates: old cells keep their contents and every pointer of the copy is
  to a new cell.\<close>

definition heap_extends :: "config_heap \<Rightarrow> config_heap \<Rightarrow> bool" where
  "heap_extends h h' \<longleftrightarrow> (\<exists>t. h' = h @ t)"

definition copied :: "config_heap \<Rightarrow> config_heap \<Rightarrow> config_ptr \<Rightarrow> config_ptr \<Rightarrow> bool" where
  "copied h h' p q = (case p of
      None \<Rightarrow> q = None
    | Some i \<Rightarrow> (case q of None \<Rightarrow> False | Some j \<Rightarrow> length h \<le> j \<and> j < length h' \<and> h' ! j = h ! i))"

lemma copied_extends: "copied h h1 p q \<Longrightarrow> heap_extends h1 h' \<Longrightarrow> copied h h' p q"
  by (auto simp: copied_def heap_extends_def nth_append split: option.splits)

lemma copied_earlier:
  "copied h1 h' p q \<Longrightarrow> heap_extends h h1 \<Longrightarrow> (\<And>i. p = Some i \<Longrightarrow> i < length h) \<Longrightarrow> copied h h' p q"
  by (auto simp: copied_def heap_extends_def nth_append split: option.splits)

lemma heap_extends_trans: "heap_extends h h1 \<Longrightarrow> heap_extends h1 h' \<Longrightarrow> heap_extends h h'"
  by (auto simp: heap_extends_def)

lemma deepcopy_entries_step:
  obtains h1 q out1 where "deepcopy_entries h ((key, val) # es) out = deepcopy_entries h1 es out1"
    and "heap_extends h h1" and "copied h h1 val q"
    and "map_of out1 = (map_of out)(key \<mapsto> q)"
proof (cases val)
  case None
  show ?thesis
    by (rule that [of h _ None]) (auto simp: None heap_extends_def copied_def update_conv)
next
  case (Some i)
  show ?thesis
    by (rule that [of "h @ [h ! i]" _ "Some (length h)"])
      (auto simp: Some alloc_config_def Let_def heap_extends_def copied_def update_conv)
qed

lemma deepcopy_entries_spec:
  assumes "deepcopy_entries h es out = (out', h')" and "distinct (map fst es)"
    and "\<And>k i. (k, Some i) \<in> set es \<Longrightarrow> i < length h"
  shows "heap_extends h h' \<and> (\<forall>k. case map_of es k of
      None \<Rightarrow> map_of out' k = map_of out k
    | Some p \<Rightarrow> (\<exists>q. map_of out' k = Some q \<and> copied h h' p q))"
  using assms
proof (induction es arbitrary: h out)
  case Nil
  then show ?case by (auto simp: heap_extends_def)
next
  case (Cons e es)
  obtain key val where e: "e = (key, val)" by force
  obtain h1 q out1 where step: "deepcopy_entries h ((key, val) # es) out = deepcopy_entries h1 es out1"
    and ext: "heap_extends h h1" and cp: "copied h h1 val q"
    and out1: "map_of out1 = (map_of out)(key \<mapsto> q)"
    by (rule deepcopy_entries_step)
  have key: "map_of es key = None" using Cons.prems(2) by (simp add: e map_of_eq_None_iff)
  have bound: "i < length h" if "(k, Some i) \<in> set es" for k i
    using Cons.prems(3) [of k i] that by simp
  have "length h \<le> length h1" using ext by (auto simp: heap_extends_def)
  then have IH: "heap_extends h1 h' \<and> (\<forall>k. case map_of es k of
      None \<Rightarrow> map_of out' k = map_of out1 k
    | Some p \<Rightarrow> (\<exists>q. map_of out' k = Some q \<and> copied h1 h' p q))"
    using Cons.prems step bound by (intro Cons.IH) (auto simp: e intro: less_le_trans)
  then have ext': "heap_extends h1 h'" ..
  have "case map_of (e # es) k of None \<Rightarrow> map_of out' k = map_of out k
      | Some p \<Rightarrow> (\<exists>q. map_of out' k = Some q \<and> copied h h' p q)" for k
  proof (cases "k = key")
    case True
    have "map_of out' key = Some q"
      using conjunct2 [OF IH, rule_format, of key] key out1 by simp
    with True show ?thesis using copied_extends [OF cp ext'] by (simp add: e)
  next
    case False
    show ?thesis
    proof (cases "map_of es k")
      case None
      then show ?thesis using conjunct2 [OF IH, rule_format, of k] False out1 by (simp add: e)
    next
      case (Some p)
      then obtain q' where "map_of out' k = Some q'" "copied h1 h' p q'"
        using conjunct2 [OF IH, rule_format, of k] by auto
      moreover from this have "copied h h' p q'"
        using map_of_SomeD [OF Some] bound by (auto intro: copied_earlier [OF _ ext])
      ultimately show ?thesis using False Some by (simp add: e)
    qed
  qed
  with heap_extends_trans [OF ext ext'] show ?case by blast
qed

text \<open>Writing a cell the pointers do not reach leaves the table they stand for.\<close>

lemma table_value_other_cell:
  "(\<And>k p. mget gws k = Some (Some p) \<Longrightarrow> p \<noteq> i) \<Longrightarrow> table_value (h[i := c]) gws k = table_value h gws k"
  by (cases "mget gws k"; cases "the (mget gws k)") (auto simp: table_value_def ptr_value_def, metis nth_list_update_neq)

lemma deepcopy_Gateway_spec:
  assumes ord: "order_ok ord" and ok: "ptrs_ok h gws"
    and run: "deepcopy_Gateway ord h (Some gws) = (Some gws', h')"
  shows "heap_extends h h'" and "table_value h' gws' = table_value h gws"
    and "mget gws' k = Some (Some j) \<Longrightarrow> length h \<le> j \<and> j < length h'"
proof -
  have spec: "heap_extends h h' \<and> (\<forall>k. case mget gws k of
      None \<Rightarrow> mget gws' k = None
    | Some p \<Rightarrow> (\<exists>q. mget gws' k = Some q \<and> copied h h' p q))"
  proof (cases gws)
    case None
    with run show ?thesis
      by (auto simp: deepcopy_Gateway_def deepcopy_Gateway_into_def heap_extends_def)
  next
    case (Some m)
    then obtain out where d: "deepcopy_entries h (range_map ord m) [] = (out, h')" "gws' = Some out"
      using run by (auto simp: deepcopy_Gateway_def deepcopy_Gateway_into_def split: prod.splits)
    have bound: "i < length h" if "(k, Some i) \<in> set (range_map ord m)" for k i
      using ok that Some ord map_of_SomeD [of m k "Some i"]
      by (fastforce simp: ptrs_ok_def set_range_map)
    have "heap_extends h h' \<and> (\<forall>k. case map_of (range_map ord m) k of
        None \<Rightarrow> map_of out k = map_of [] k
      | Some p \<Rightarrow> (\<exists>q. map_of out k = Some q \<and> copied h h' p q))"
      by (rule deepcopy_entries_spec [OF d(1) distinct_range_map [OF ord]]) (rule bound)
    with ord show ?thesis by (simp add: Some d(2) cong: option.case_cong)
  qed
  show "heap_extends h h'" using spec ..
  show "table_value h' gws' = table_value h gws"
  proof
    fix k show "table_value h' gws' k = table_value h gws k"
      using conjunct2 [OF spec, rule_format, of k]
      by (auto simp: table_value_def ptr_value_def copied_def split: option.splits)
  qed
  show "length h \<le> j \<and> j < length h'" if "mget gws' k = Some (Some j)"
    using conjunct2 [OF spec, rule_format, of k] that
    by (auto simp: copied_def split: option.splits)
qed


subsection \<open>Properties\<close>

text \<open>C36: A table read from a ConfigMap answers every lookup by the user's entry, else by the default of
  that visibility; a visibility that has neither is a nil pointer the lookup dereferences.\<close>

theorem NewGateway_lookups:
  assumes "order_ok ord" and "NewGatewayFromConfigMap u ord cm = Inr c"
  shows "(case gateway_spec u (cm_Data cm) v of
      Some g \<Rightarrow> LookupGatewayNamespace c v = Inr (gc_Namespace g) \<and> LookupGatewayClass c v = Inr (gc_GatewayClass g)
        \<and> LookupAddress c v = Inr (gc_Address g)
    | None \<Rightarrow> LookupGatewayNamespace c v = Inl (Panic NilDeref) \<and> LookupGatewayClass c v = Inl (Panic NilDeref)
        \<and> LookupAddress c v = Inl (Panic NilDeref))
    \<and> gateway_spec u (cm_Data cm) DefaultVisibilityName \<noteq> None
    \<and> gateway_spec u (cm_Data cm) VisibilityClusterLocal \<noteq> None"
  by (simp add: LookupGatewayNamespace_def LookupGatewayClass_def LookupAddress_def gateway_at_spec [OF assms]
      gateway_spec_defaults split: option.split)

theorem NewGateway_lookups_witness:
  "\<exists>c. NewGatewayFromConfigMap (\<lambda>txt g. Inr (g\<lparr>gc_Namespace := txt\<rparr>)) id
         \<lparr>cm_Name = ''config-gateway'', cm_Data = Some [(''default'', ''ns1''), (''_example'', ''x'')]\<rparr> = Inr c
     \<and> LookupGatewayNamespace c ''default'' = Inr ''ns1''"
proof -
  let ?u = "\<lambda>txt g. Inr (g\<lparr>gc_Namespace := txt\<rparr>)"
  let ?cm = "\<lparr>cm_Name = ''config-gateway'', cm_Data = Some [(''default'', ''ns1''), (''_example'', ''x'')]\<rparr>"
  obtain c where c: "NewGatewayFromConfigMap ?u id ?cm = Inr c"
    using NewGateway_ok_iff [of id ?u ?cm] by auto
  from NewGateway_lookups [OF order_ok_id(2) this, of "''default''"] c show ?thesis
    by (auto simp: gateway_spec_def configured_def ExampleKey_def)
qed

text \<open>The constructor fails exactly when some entry other than the example does not parse, in whatever
  order the entries are visited.\<close>

theorem NewGateway_accepts:
  assumes "order_ok ord"
  shows "(\<exists>c. NewGatewayFromConfigMap u ord cm = Inr c) \<longleftrightarrow>
     (\<forall>k v. mget (cm_Data cm) k = Some v \<longrightarrow> k = ExampleKey \<or> (\<exists>cfg. u v zero_gateway_config = Inr cfg))"
  unfolding NewGateway_ok_iff [OF assms] by blast

theorem NewGateway_accepts_witness:
  "\<not> (\<exists>c. NewGatewayFromConfigMap (\<lambda>txt g. Inl (ErrorString ''EOF'')) rev
         \<lparr>cm_Name = ''config-gateway'', cm_Data = Some [(''default'', ''{'')]\<rparr> = Inr c)"
  using NewGateway_accepts [OF order_ok_rev, of "\<lambda>txt g. Inl (ErrorString ''EOF'')"
      "\<lparr>cm_Name = ''config-gateway'', cm_Data = Some [(''default'', ''{'')]\<rparr>"]
  by (auto simp: ExampleKey_def)

text \<open>The generated deep copy is equal to the original and independent of it: a write to a cell the copy
  reaches does not show in the original, nor one to a cell of the original in the copy.\<close>

theorem deepcopy_independent:
  assumes ord: "order_ok ord" and ok: "ptrs_ok h gws"
    and run: "deepcopy_Gateway ord h (Some gws) = (Some gws', h')"
  shows "table_value h' gws' = table_value h gws \<and> table_value h' gws = table_value h gws
    \<and> (\<forall>k i. mget gws' k = Some (Some i) \<longrightarrow> table_value (h'[i := c]) gws = table_value h gws)
    \<and> (\<forall>k i. mget gws k = Some (Some i) \<longrightarrow> table_value (h'[i := c]) gws' = table_value h gws)"
proof -
  note copy = deepcopy_Gateway_spec [OF assms]
  obtain t where t: "h' = h @ t" using copy(1) by (auto simp: heap_extends_def)
  have old: "i < length h" if "mget gws k = Some (Some i)" for k i
    using ok that by (cases gws) (auto simp: ptrs_ok_def dest!: map_of_SomeD)
  have same: "table_value h' gws = table_value h gws"
  proof
    fix k show "table_value h' gws k = table_value h gws k"
      using old [of k] by (cases "mget gws k"; cases "the (mget gws k)")
        (auto simp: table_value_def ptr_value_def t nth_append)
  qed
  have "table_value (h'[i := c]) gws = table_value h gws" if "mget gws' k = Some (Some i)" for k i
    using table_value_other_cell [of gws i h' c] old copy(3) [OF that] same by fastforce
  moreover have "table_value (h'[i := c]) gws' = table_value h gws" if "mget gws k = Some (Some i)" for k i
    using table_value_other_cell [of gws' i h' c] copy(2,3) old [OF that] by fastforce
  ultimately show ?thesis using copy(2) same by blast
qed

theorem deepcopy_independent_witness:
  "\<exists>gws' h'. deepcopy_Gateway id [zero_gateway_config] (Some (Some [(''default'', Some 0)])) = (Some gws', h')
     \<and> table_value (h'[0 := default_gateway]) gws' = table_value [zero_gateway_config] (Some [(''default'', Some 0)])"
proof -
  obtain gws' h' where run: "deepcopy_Gateway id [zero_gateway_config] (Some (Some [(''default'', Some 0)])) = (Some gws', h')"
    by (cases "deepcopy_Gateway_into id [zero_gateway_config] (Some [(''default'', Some 0)])")
      (simp add: deepcopy_Gateway_def)
  from deepcopy_independent [OF order_ok_id(2) _ this, of default_gateway] run show ?thesis
    by (auto simp: ptrs_ok_def)
qed

end
