(* ===== verification/DomainConfig.thy ===== *)
theory DomainConfig
  imports GatewayConfig
begin

text \<open>
  \<open>domain.go\<close> of serving's route config: the domains a route may live under, each with the
  label selector that picks it, and the choice among them. The constructor builds every selector
  it stores, so the pointers of the map are never nil and are modelled by the selectors
  themselves. \<open>cluster_domain\<close> is \<open>network.GetClusterDomainName()\<close>, read from the pod's
  \<open>resolv.conf\<close>.
\<close>

record label_selector =
  ls_Selector :: strmap

record domain_config =
  dc_Domains :: "(string, label_selector) gomap"

definition DefaultDomain :: string where
  "DefaultDomain = ''example.com''"

definition VisibilityLabelKey :: string where
  "VisibilityLabelKey = ''networking.knative.dev/visibility''"

definition specificity :: "label_selector \<Rightarrow> int" where
  "specificity s = int (length (go_keys (entries_of (ls_Selector s))))"

fun matches_loop :: "(string \<times> string) list \<Rightarrow> strmap \<Rightarrow> bool" where
  "matches_loop [] labels = True"
| "matches_loop ((label, expectedValue) # es) labels =
     (case mget labels label of
        None \<Rightarrow> False
      | Some value \<Rightarrow> if expectedValue \<noteq> value then False else matches_loop es labels)"

definition Matches :: "label_selector \<Rightarrow> strmap \<Rightarrow> bool" where
  "Matches s labels = matches_loop (range_map (\<lambda>ks. ks) (entries_of (ls_Selector s))) labels"

type_synonym selector_unmarshal = "string \<Rightarrow> label_selector \<Rightarrow> goerr + label_selector"

fun parse_domains ::
  "selector_unmarshal \<Rightarrow> (string \<times> string) list \<Rightarrow> (string, label_selector) gomap \<Rightarrow> bool
     \<Rightarrow> ((string, label_selector) gomap \<times> bool) result" where
  "parse_domains unmarshal [] ds hasDefault = Inr (ds, hasDefault)"
| "parse_domains unmarshal ((k, v) # es) ds hasDefault =
     (if k = ExampleKey then parse_domains unmarshal es ds hasDefault
      else (case unmarshal v \<lparr>ls_Selector = None\<rparr> of
              Inl err \<Rightarrow> Inl (Fail err)
            | Inr sel \<Rightarrow> parse_domains unmarshal es (AList.update k sel ds)
                (hasDefault \<or> go_keys (entries_of (ls_Selector sel)) = [])))"

definition NewDomainFromConfigMap ::
  "selector_unmarshal \<Rightarrow> key_order \<Rightarrow> config_map \<Rightarrow> domain_config result" where
  "NewDomainFromConfigMap unmarshal ord cm =
     rbind (parse_domains unmarshal (range_map ord (entries_of (cm_Data cm))) [] False)
       (\<lambda>(ds, hasDefault). Inr \<lparr>dc_Domains =
          (if hasDefault then ds else AList.update DefaultDomain \<lparr>ls_Selector = None\<rparr> ds)\<rparr>)"

fun lookup_loop :: "strmap \<Rightarrow> (string \<times> label_selector) list \<Rightarrow> string \<Rightarrow> int \<Rightarrow> string" where
  "lookup_loop labels [] domain spec = domain"
| "lookup_loop labels ((k, sel) # es) domain spec =
     (if \<not> Matches sel labels \<or> specificity sel < spec then lookup_loop labels es domain spec
      else if specificity sel > spec \<or> k < domain
      then lookup_loop labels es k (specificity sel)
      else lookup_loop labels es domain spec)"

definition LookupDomainForLabels :: "string \<Rightarrow> key_order \<Rightarrow> domain_config \<Rightarrow> strmap \<Rightarrow> string" where
  "LookupDomainForLabels cluster_domain ord c labels =
     (if sget labels VisibilityLabelKey = VisibilityClusterLocal then ''svc.'' @ cluster_domain
      else lookup_loop labels (range_map ord (dc_Domains c)) '''' (-1))"

subsection \<open>Lemmas\<close>

lemma matches_loop_iff: "matches_loop es labels \<longleftrightarrow> (\<forall>(k, v) \<in> set es. mget labels k = Some v)"
  by (induction es labels rule: matches_loop.induct) (auto split: option.splits)

lemma Matches_iff: "Matches s labels \<longleftrightarrow> mget (ls_Selector s) \<subseteq>\<^sub>m mget labels"
  by (force simp: Matches_def matches_loop_iff set_range_map mget_def map_le_def dom_def)

lemma specificity_card: "specificity s = int (card (dom (mget (ls_Selector s))))"
proof -
  have "length (go_keys es) = card (dom (map_of es))" for es :: "(string, string) gomap"
    by (metis distinct_card distinct_go_keys set_go_keys)
  moreover have "mget (ls_Selector s) = map_of (entries_of (ls_Selector s))"
    by (rule ext) (simp add: mget_def)
  ultimately show ?thesis by (simp add: specificity_def)
qed

text \<open>\<open>better labels a b\<close>: the loop keeps domain \<open>a\<close> rather than \<open>b\<close>.\<close>

definition domain_rank :: "string \<times> label_selector \<Rightarrow> string \<times> label_selector \<Rightarrow> bool" where
  "domain_rank a b \<longleftrightarrow> specificity (snd b) < specificity (snd a)
     \<or> specificity (snd b) = specificity (snd a) \<and> fst a \<le> fst b"

definition best_domain :: "strmap \<Rightarrow> (string \<times> label_selector) set \<Rightarrow> string \<times> label_selector \<Rightarrow> bool" where
  "best_domain labels D d \<longleftrightarrow> d \<in> D \<and> Matches (snd d) labels
     \<and> (\<forall>d' \<in> D. Matches (snd d') labels \<longrightarrow> domain_rank d d')"

lemma domain_rank_trans: "domain_rank a b \<Longrightarrow> domain_rank b c \<Longrightarrow> domain_rank a c"
  unfolding domain_rank_def by (elim disjE conjE) (auto intro: order_trans)

lemma best_domain_better:
  assumes "Matches (snd x) labels" and "domain_rank x d" and "best_domain labels (insert x S) e"
  shows "best_domain labels (insert d (insert x S)) e"
proof -
  have "domain_rank e x" using assms(1,3) unfolding best_domain_def by blast
  then have "domain_rank e d" using assms(2) by (rule domain_rank_trans)
  with assms(3) show ?thesis unfolding best_domain_def by blast
qed

lemma best_domain_skip:
  assumes "Matches (snd x) labels \<Longrightarrow> domain_rank d x" and "Matches (snd d) labels"
    and "best_domain labels (insert d S) e"
  shows "best_domain labels (insert d (insert x S)) e"
proof -
  have "domain_rank e d" using assms(2,3) unfolding best_domain_def by blast
  then have "domain_rank e x" if "Matches (snd x) labels"
    using assms(1) [OF that] by (rule domain_rank_trans)
  with assms(3) show ?thesis unfolding best_domain_def by blast
qed

lemma lookup_loop_from:
  assumes "Matches (snd d) labels"
  shows "\<exists>e. lookup_loop labels es (fst d) (specificity (snd d)) = fst e
     \<and> best_domain labels (insert d (set es)) e"
  using assms
proof (induction es arbitrary: d)
  case Nil
  then show ?case by (intro exI [of _ d]) (simp add: best_domain_def domain_rank_def)
next
  case (Cons x es)
  obtain k sel where x: "x = (k, sel)" by force
  show ?case
  proof (cases "Matches sel labels \<and> (specificity sel > specificity (snd d)
      \<or> specificity sel = specificity (snd d) \<and> k < fst d)")
    case True
    then have step: "lookup_loop labels (x # es) (fst d) (specificity (snd d))
        = lookup_loop labels es (fst x) (specificity (snd x))"
      by (auto simp: x)
    have "domain_rank x d" using True by (auto simp: x domain_rank_def)
    moreover obtain e where "lookup_loop labels es (fst x) (specificity (snd x)) = fst e"
      and "best_domain labels (insert x (set es)) e"
      using Cons.IH [of x] True x by auto
    ultimately have "best_domain labels (insert d (insert x (set es))) e"
      "lookup_loop labels (x # es) (fst d) (specificity (snd d)) = fst e"
      using step True x by (auto intro: best_domain_better)
    then show ?thesis by (intro exI [of _ e]) simp
  next
    case False
    then have step: "lookup_loop labels (x # es) (fst d) (specificity (snd d))
        = lookup_loop labels es (fst d) (specificity (snd d))"
      by (auto simp: x)
    have "domain_rank d x" if "Matches sel labels"
      using False that by (auto simp: x domain_rank_def not_less)
    moreover obtain e where "lookup_loop labels es (fst d) (specificity (snd d)) = fst e"
      and "best_domain labels (insert d (set es)) e"
      using Cons.IH [of d] Cons.prems by auto
    ultimately have "best_domain labels (insert d (insert x (set es))) e"
      "lookup_loop labels (x # es) (fst d) (specificity (snd d)) = fst e"
      using step Cons.prems x by (auto intro: best_domain_skip)
    then show ?thesis by (intro exI [of _ e]) simp
  qed
qed

lemma lookup_loop_none:
  "(\<And>k sel. (k, sel) \<in> set es \<Longrightarrow> \<not> Matches sel labels) \<Longrightarrow> lookup_loop labels es d n = d"
  by (induction labels es d n rule: lookup_loop.induct) auto

lemma lookup_loop_some:
  "\<exists>d \<in> set es. Matches (snd d) labels \<Longrightarrow>
     \<exists>e. lookup_loop labels es '''' (-1) = fst e \<and> best_domain labels (set es) e"
proof (induction es)
  case Nil
  then show ?case by simp
next
  case (Cons x es)
  obtain k sel where x: "x = (k, sel)" by force
  have pos: "specificity sel > -1" by (simp add: specificity_def)
  show ?case
  proof (cases "Matches sel labels")
    case True
    then show ?thesis using lookup_loop_from [of x labels es] pos by (simp add: x)
  next
    case False
    then have "\<exists>e. lookup_loop labels es '''' (-1) = fst e \<and> best_domain labels (set es) e"
      using Cons by (auto simp: x)
    with False show ?thesis by (auto simp: x best_domain_def)
  qed
qed

lemma best_domain_unique:
  assumes "best_domain labels D d" and "best_domain labels D e"
  shows "fst d = fst e"
proof -
  have "domain_rank d e" "domain_rank e d" using assms by (auto simp: best_domain_def)
  then show ?thesis by (auto simp: domain_rank_def)
qed

lemma LookupDomain_cluster_local:
  "sget labels VisibilityLabelKey = VisibilityClusterLocal \<Longrightarrow>
     LookupDomainForLabels cd ord c labels = ''svc.'' @ cd"
  by (simp add: LookupDomainForLabels_def)

text \<open>The domains of a config as a set of candidates.\<close>

definition domain_set :: "domain_config \<Rightarrow> (string \<times> label_selector) set" where
  "domain_set c = {(k, sel). map_of (dc_Domains c) k = Some sel}"

lemma LookupDomain_best:
  assumes "order_ok ord" and "sget labels VisibilityLabelKey \<noteq> VisibilityClusterLocal"
  shows "if \<exists>d \<in> domain_set c. Matches (snd d) labels
    then \<exists>d. best_domain labels (domain_set c) d \<and> LookupDomainForLabels cd ord c labels = fst d
    else LookupDomainForLabels cd ord c labels = ''''"
proof -
  have "set (range_map ord (dc_Domains c)) = domain_set c"
    using assms(1) by (simp add: set_range_map domain_set_def)
  with assms(2) show ?thesis
    using lookup_loop_some [of "range_map ord (dc_Domains c)" labels]
      lookup_loop_none [of "range_map ord (dc_Domains c)" labels]
    by (fastforce simp: LookupDomainForLabels_def)
qed

lemma LookupDomain_order:
  assumes "order_ok o1" and "order_ok o2"
  shows "LookupDomainForLabels cd o1 c labels = LookupDomainForLabels cd o2 c labels"
proof (cases "sget labels VisibilityLabelKey = VisibilityClusterLocal")
  case True
  then show ?thesis by (simp add: LookupDomainForLabels_def)
next
  case False
  from LookupDomain_best [OF assms(1) this, of c cd] LookupDomain_best [OF assms(2) this, of c cd]
  show ?thesis
    by (auto simp del: split_paired_Ex split: if_splits dest: best_domain_unique)
qed

lemma parse_domains_default:
  assumes "parse_domains u es ds b0 = Inr (ds', b1)" and "distinct (map fst es)"
    and "\<And>k. k \<in> fst ` set es \<Longrightarrow> map_of ds k = None"
    and "b0 \<Longrightarrow> \<exists>k sel. map_of ds k = Some sel \<and> mget (ls_Selector sel) = Map.empty"
  shows "b1 \<Longrightarrow> \<exists>k sel. map_of ds' k = Some sel \<and> mget (ls_Selector sel) = Map.empty"
  using assms
proof (induction u es ds b0 rule: parse_domains.induct)
  case (1 u ds b0)
  then show ?case by simp
next
  case (2 u k v es ds b0)
  show ?case
  proof (cases "k = ExampleKey")
    case True
    show ?thesis by (rule "2.IH"(1) [OF True]) (use 2 True in auto)
  next
    case False
    with "2.prems" obtain sel where sel: "u v \<lparr>ls_Selector = None\<rparr> = Inr sel"
      by (auto split: sum.splits)
    have empty: "mget (ls_Selector sel) = Map.empty" if "go_keys (entries_of (ls_Selector sel)) = []"
      using that set_go_keys [of "entries_of (ls_Selector sel)"] by (auto simp: mget_def fun_eq_iff)
    have new: "map_of ds k = None" using "2.prems"(4) by simp
    show ?thesis
    proof (rule "2.IH"(2) [OF False sel])
      show "b1" by fact
      show "parse_domains u es (AList.update k sel ds) (b0 \<or> go_keys (entries_of (ls_Selector sel)) = [])
          = Inr (ds', b1)" using "2.prems"(2) False sel by simp
      show "distinct (map fst es)" using "2.prems"(3) by simp
      show "map_of (AList.update k sel ds) k' = None" if "k' \<in> fst ` set es" for k'
        using that "2.prems"(3,4) by (auto simp: update_conv image_iff)
      show "\<exists>k' s. map_of (AList.update k sel ds) k' = Some s \<and> mget (ls_Selector s) = Map.empty"
        if "b0 \<or> go_keys (entries_of (ls_Selector sel)) = []"
      proof (cases b0)
        case True
        then obtain k' s where "map_of ds k' = Some s" "mget (ls_Selector s) = Map.empty"
          using "2.prems"(5) by blast
        moreover from this new have "k' \<noteq> k" by auto
        ultimately show ?thesis by (auto simp: update_conv)
      qed (use that empty in \<open>auto simp: update_conv\<close>)
    qed
  qed
qed

text \<open>A parsed configuration always has a domain whose selector matches every route.\<close>

lemma NewDomain_has_default:
  assumes "order_ok ord" and "NewDomainFromConfigMap u ord cm = Inr c"
  shows "\<exists>d \<in> domain_set c. Matches (snd d) labels"
proof -
  obtain ds b0 where p: "parse_domains u (range_map ord (entries_of (cm_Data cm))) [] False = Inr (ds, b0)"
    and c: "dc_Domains c = (if b0 then ds else AList.update DefaultDomain \<lparr>ls_Selector = None\<rparr> ds)"
    using assms(2) by (auto simp: NewDomainFromConfigMap_def)
  have "\<exists>k sel. map_of (dc_Domains c) k = Some sel \<and> mget (ls_Selector sel) = Map.empty"
  proof (cases b0)
    case True
    then show ?thesis
      using parse_domains_default [OF p distinct_range_map [OF assms(1)]] c by simp
  next
    case False
    then show ?thesis by (auto simp: c update_conv fun_eq_iff)
  qed
  then obtain k sel where "map_of (dc_Domains c) k = Some sel" "mget (ls_Selector sel) = Map.empty"
    by blast
  then show ?thesis
    by (intro bexI [of _ "(k, sel)"]) (simp_all add: domain_set_def Matches_iff)
qed


subsection \<open>Properties\<close>

text \<open>C37: For a route that is not cluster local, a parsed configuration always has a domain: the most
  specific one whose selector the labels satisfy, the smallest of those by name, whatever the order the
  map is visited in.\<close>

theorem LookupDomain_parsed:
  assumes "order_ok ord" and "NewDomainFromConfigMap u ord cm = Inr c" and "order_ok o1" and "order_ok o2"
    and "sget labels VisibilityLabelKey \<noteq> VisibilityClusterLocal"
  shows "\<exists>d. best_domain labels (domain_set c) d \<and> LookupDomainForLabels cd o1 c labels = fst d
     \<and> LookupDomainForLabels cd o2 c labels = fst d"
  using LookupDomain_best [OF assms(3,5), of c cd] NewDomain_has_default [OF assms(1,2), of labels]
    LookupDomain_order [OF assms(3,4), of cd c labels]
  by (simp del: split_paired_Ex)

theorem LookupDomain_parsed_witness:
  "\<exists>c. NewDomainFromConfigMap (\<lambda>txt sel. Inr \<lparr>ls_Selector = Some [(''app'', txt)]\<rparr>) id
         \<lparr>cm_Name = ''config-domain'', cm_Data = Some [(''prod.com'', ''prod'')]\<rparr> = Inr c
     \<and> (\<exists>d. best_domain (Some [(''app'', ''prod'')]) (domain_set c) d
          \<and> LookupDomainForLabels ''cluster.local'' rev c (Some [(''app'', ''prod'')]) = fst d)"
proof -
  let ?u = "\<lambda>txt sel. Inr \<lparr>ls_Selector = Some [(''app'', txt)]\<rparr>"
  let ?cm = "\<lparr>cm_Name = ''config-domain'', cm_Data = Some [(''prod.com'', ''prod'')]\<rparr>"
  obtain c where c: "NewDomainFromConfigMap ?u id ?cm = Inr c"
    by (auto simp: NewDomainFromConfigMap_def range_map_def go_keys_def List.map_filter_def ExampleKey_def)
  have "sget (Some [(''app'', ''prod'')]) VisibilityLabelKey \<noteq> VisibilityClusterLocal"
    by (simp add: sget_def VisibilityLabelKey_def VisibilityClusterLocal_def)
  from LookupDomain_parsed [OF order_ok_id(2) c order_ok_rev order_ok_id(1) this, of "''cluster.local''"] c
  show ?thesis by blast
qed

end
