(* ===== verification/ConfigStore.thy ===== *)
theory ConfigStore
  imports DomainConfig
begin

text \<open>
  \<open>config/store.go\<close> and what it is built from: the untyped store of \<open>knative.dev/pkg/configmap\<close>
  with its constructors and callbacks, the feature flags, and the \<open>Config\<close> a reconcile reads
  from its context. The constructor of \<open>network.Config\<close> (which runs test executions of the
  templates) is a parameter. A context is the \<open>Config\<close> it carries, if any.
\<close>

subsection \<open>Feature flags\<close>

datatype flag = Enabled | Disabled | Allowed

record features =
  ft_MultiContainer :: flag
  ft_PodSpecAffinity :: flag
  ft_PodSpecDryRun :: flag
  ft_PodSpecFieldRef :: flag
  ft_PodSpecHostAliases :: flag
  ft_PodSpecNodeSelector :: flag
  ft_PodSpecRuntimeClassName :: flag
  ft_PodSpecSecurityContext :: flag
  ft_ContainerSpecAddCapabilities :: flag
  ft_PodSpecTolerations :: flag
  ft_TagHeaderBasedRouting :: flag
  ft_AutoDetectHTTP2 :: flag

text \<open>\<open>strings.EqualFold\<close> on ASCII text.\<close>

definition fold_char :: "char \<Rightarrow> nat" where
  "fold_char c = (let n = of_char c :: nat in if 65 \<le> n \<and> n \<le> 90 then n + 32 else n)"

definition EqualFold :: "string \<Rightarrow> string \<Rightarrow> bool" where
  "EqualFold s t \<longleftrightarrow> map fold_char s = map fold_char t"

definition asFlag :: "strmap \<Rightarrow> string \<Rightarrow> flag \<Rightarrow> flag" where
  "asFlag data key target =
     (case mget data key of
        None \<Rightarrow> target
      | Some raw \<Rightarrow>
          (if EqualFold raw ''Enabled'' then Enabled
           else if EqualFold raw ''Allowed'' then Allowed
           else if EqualFold raw ''Disabled'' then Disabled
           else target))"

definition NewFeaturesConfigFromMap :: "strmap \<Rightarrow> features" where
  "NewFeaturesConfigFromMap data =
     \<lparr>ft_MultiContainer = asFlag data ''multi-container'' Enabled,
      ft_PodSpecAffinity = asFlag data ''kubernetes.podspec-affinity'' Disabled,
      ft_PodSpecDryRun = asFlag data ''kubernetes.podspec-dryrun'' Allowed,
      ft_PodSpecFieldRef = asFlag data ''kubernetes.podspec-fieldref'' Disabled,
      ft_PodSpecHostAliases = asFlag data ''kubernetes.podspec-hostaliases'' Disabled,
      ft_PodSpecNodeSelector = asFlag data ''kubernetes.podspec-nodeselector'' Disabled,
      ft_PodSpecRuntimeClassName = asFlag data ''kubernetes.podspec-runtimeclassname'' Disabled,
      ft_PodSpecSecurityContext = asFlag data ''kubernetes.podspec-securitycontext'' Disabled,
      ft_ContainerSpecAddCapabilities = asFlag data ''kubernetes.containerspec-addcapabilities'' Disabled,
      ft_PodSpecTolerations = asFlag data ''kubernetes.podspec-tolerations'' Disabled,
      ft_TagHeaderBasedRouting = asFlag data ''tag-header-based-routing'' Disabled,
      ft_AutoDetectHTTP2 = asFlag data ''autodetect-http2'' Disabled\<rparr>"

subsection \<open>Config and context\<close>

record network_config =
  nc_DomainTemplate :: string
  nc_TagTemplate :: string

record config =
  cfg_Domain :: domain_config
  cfg_Network :: network_config
  cfg_Features :: "features option"
  cfg_Gateway :: gateway_table

text \<open>What a context carries under \<open>cfgKey\<close>: nothing, or a pointer that may be nil.\<close>

type_synonym ctx_value = "config option option"

definition FromContext :: "ctx_value \<Rightarrow> config option result" where
  "FromContext v = (case v of None \<Rightarrow> Inl (Panic TypeAssertion) | Some p \<Rightarrow> Inr p)"

text \<open>\<open>&Config{}\<close> leaves every pointer nil; only the features are filled in. A loaded \<open>Config\<close> has the
  other three.\<close>

record partial_config =
  pc_Domain :: "domain_config option"
  pc_Network :: "network_config option"
  pc_Features :: "features option"
  pc_Gateway :: "gateway_table option"

definition partial_of :: "config \<Rightarrow> partial_config" where
  "partial_of c = \<lparr>pc_Domain = Some (cfg_Domain c), pc_Network = Some (cfg_Network c),
     pc_Features = cfg_Features c, pc_Gateway = Some (cfg_Gateway c)\<rparr>"

definition FromContextOrDefaults :: "ctx_value \<Rightarrow> partial_config result" where
  "FromContextOrDefaults v =
     rbind (FromContext v) (\<lambda>p.
       let cfg = (case p of
           None \<Rightarrow> \<lparr>pc_Domain = None, pc_Network = None, pc_Features = None, pc_Gateway = None\<rparr>
         | Some c \<Rightarrow> partial_of c)
       in Inr (if pc_Features cfg = None
               then cfg\<lparr>pc_Features := Some (NewFeaturesConfigFromMap (Some []))\<rparr> else cfg))"

definition ToContext :: "config \<Rightarrow> ctx_value" where
  "ToContext c = Some (Some c)"

subsection \<open>The untyped store\<close>

datatype config_value = CV_Domain domain_config | CV_Gateway gateway_table
  | CV_Network network_config | CV_Features features

datatype store_event = LogInfo string | LogError string goerr | LogFatal string goerr
  | AfterStore string config_value

type_synonym constructor = "config_map \<Rightarrow> config_value result"

record untyped_store =
  us_storages :: "(string, config_value option) gomap"
  us_constructors :: "(string, constructor) gomap"

definition registerConfig :: "untyped_store \<Rightarrow> string \<Rightarrow> constructor \<Rightarrow> untyped_store" where
  "registerConfig s nm c =
     s\<lparr>us_storages := AList.update nm None (us_storages s),
       us_constructors := AList.update nm c (us_constructors s)\<rparr>"

fun register_all :: "untyped_store \<Rightarrow> (string \<times> constructor) list \<Rightarrow> untyped_store" where
  "register_all s [] = s"
| "register_all s ((nm, c) # cs) = register_all (registerConfig s nm c) cs"

definition NewUntypedStore :: "(string, constructor) gomap \<Rightarrow> untyped_store" where
  "NewUntypedStore constructors =
     register_all \<lparr>us_storages = [], us_constructors = []\<rparr> (range_map (\<lambda>ks. ks) constructors)"

definition UntypedLoad :: "untyped_store \<Rightarrow> string \<Rightarrow> config_value option result" where
  "UntypedLoad s nm =
     (case map_of (us_storages s) nm of None \<Rightarrow> Inl (Panic NilDeref) | Some v \<Rightarrow> Inr v)"

text \<open>
  \<open>OnConfigChanged\<close>: the events list what is logged and the callbacks run; \<open>Fatalf\<close> exits the
  process with the usual loggers, the code itself only returns.
\<close>

definition OnConfigChanged ::
  "config_map \<Rightarrow> untyped_store \<times> store_event list \<Rightarrow> (untyped_store \<times> store_event list) result" where
  "OnConfigChanged c st =
     (let s = fst st; nm = cm_Name c in
      case map_of (us_constructors s) nm of
        None \<Rightarrow> Inl (Panic ExplicitPanic)
      | Some constructor \<Rightarrow>
          (case constructor c of
             Inl (Panic p) \<Rightarrow> Inl (Panic p)
           | Inl (Fail err) \<Rightarrow>
               rbind (UntypedLoad s nm) (\<lambda>old.
                 Inr (s, snd st @ [if old \<noteq> None then LogError nm err else LogFatal nm err]))
           | Inr res \<Rightarrow>
               Inr (s\<lparr>us_storages := AList.update nm (Some res) (us_storages s)\<rparr>,
                    snd st @ [LogInfo nm, AfterStore nm res])))"

fun run_changes :: "config_map list \<Rightarrow> untyped_store \<times> store_event list
    \<Rightarrow> (untyped_store \<times> store_event list) result" where
  "run_changes [] st = Inr st"
| "run_changes (c # cs) st = rbind (OnConfigChanged c st) (run_changes cs)"

subsection \<open>The route controller's store\<close>

definition DomainConfigName :: string where
  "DomainConfigName = ''config-domain''"

definition NetworkConfigName :: string where
  "NetworkConfigName = ''config-network''"

definition FeaturesConfigName :: string where
  "FeaturesConfigName = ''config-features''"

definition as_constructor :: "('a \<Rightarrow> config_value) \<Rightarrow> (config_map \<Rightarrow> 'a result) \<Rightarrow> constructor" where
  "as_constructor f mk c = rbind (mk c) (\<lambda>x. Inr (f x))"

definition NewStore ::
  "selector_unmarshal \<Rightarrow> yaml_unmarshal \<Rightarrow> key_order \<Rightarrow> (config_map \<Rightarrow> network_config result) \<Rightarrow> untyped_store" where
  "NewStore unmarshalSel unmarshalGw ord mkNetwork =
     NewUntypedStore
       [(DomainConfigName, as_constructor CV_Domain (NewDomainFromConfigMap unmarshalSel ord)),
        (GatewayConfigName, as_constructor CV_Gateway (NewGatewayFromConfigMap unmarshalGw ord)),
        (NetworkConfigName, as_constructor CV_Network mkNetwork),
        (FeaturesConfigName, as_constructor CV_Features (\<lambda>c. Inr (NewFeaturesConfigFromMap (cm_Data c))))]"

definition assert_domain :: "config_value option \<Rightarrow> domain_config result" where
  "assert_domain v = (case v of Some (CV_Domain d) \<Rightarrow> Inr d | _ \<Rightarrow> Inl (Panic TypeAssertion))"

definition assert_gateway :: "config_value option \<Rightarrow> gateway_table result" where
  "assert_gateway v = (case v of Some (CV_Gateway g) \<Rightarrow> Inr g | _ \<Rightarrow> Inl (Panic TypeAssertion))"

definition assert_network :: "config_value option \<Rightarrow> network_config result" where
  "assert_network v = (case v of Some (CV_Network n) \<Rightarrow> Inr n | _ \<Rightarrow> Inl (Panic TypeAssertion))"

definition assert_features :: "config_value option \<Rightarrow> features option result" where
  "assert_features v =
     (case v of None \<Rightarrow> Inr None | Some (CV_Features f) \<Rightarrow> Inr (Some f) | _ \<Rightarrow> Inl (Panic TypeAssertion))"

definition Load :: "untyped_store \<Rightarrow> config result" where
  "Load s =
     rbind (rbind (UntypedLoad s DomainConfigName) assert_domain) (\<lambda>d.
     rbind (rbind (UntypedLoad s GatewayConfigName) assert_gateway) (\<lambda>g.
     rbind (rbind (UntypedLoad s NetworkConfigName) assert_network) (\<lambda>n.
     rbind (rbind (UntypedLoad s FeaturesConfigName) assert_features) (\<lambda>f.
       Inr \<lparr>cfg_Domain = d, cfg_Network = n, cfg_Features = f, cfg_Gateway = g\<rparr>))))"

definition store_ToContext :: "untyped_store \<Rightarrow> ctx_value result" where
  "store_ToContext s = rbind (Load s) (\<lambda>c. Inr (ToContext c))"

text \<open>\<open>configmap.TypeFilter\<close> in front of the resync callback lets feature changes pass unseen.\<close>

definition resync_filter :: "config_value \<Rightarrow> bool" where
  "resync_filter v = (case v of CV_Features _ \<Rightarrow> False | _ \<Rightarrow> True)"

definition resyncs :: "store_event list \<Rightarrow> nat" where
  "resyncs evs = length (filter (\<lambda>e. case e of AfterStore _ v \<Rightarrow> resync_filter v | _ \<Rightarrow> False) evs)"

subsection \<open>Lemmas\<close>

text \<open>The value a name holds after a sequence of changes: the last one its constructor accepted.\<close>

definition last_from :: "config_value option \<Rightarrow> constructor \<Rightarrow> string \<Rightarrow> config_map list \<Rightarrow> config_value option" where
  "last_from v0 mk nm cs =
     fold (\<lambda>c v. if cm_Name c = nm then (case mk c of Inr x \<Rightarrow> Some x | Inl _ \<Rightarrow> v) else v) cs v0"

text \<open>Every registered name has both a storage and a constructor.\<close>

definition store_wf :: "untyped_store \<Rightarrow> bool" where
  "store_wf s \<longleftrightarrow> dom (map_of (us_storages s)) = dom (map_of (us_constructors s))"

definition quiet :: "constructor \<Rightarrow> bool" where
  "quiet mk \<longleftrightarrow> (\<forall>c p. mk c \<noteq> Inl (Panic p))"

lemma register_all_spec:
  assumes "distinct (map fst cs)"
  shows "map_of (us_constructors (register_all s cs)) = map_of (us_constructors s) ++ map_of cs"
    and "map_of (us_storages (register_all s cs))
      = (\<lambda>k. if k \<in> dom (map_of cs) then Some None else map_of (us_storages s) k)"
proof -
  have "map_of (us_constructors (register_all s cs)) = map_of (us_constructors s) ++ map_of cs
    \<and> map_of (us_storages (register_all s cs))
      = (\<lambda>k. if k \<in> dom (map_of cs) then Some None else map_of (us_storages s) k)"
    using assms
  proof (induction s cs rule: register_all.induct)
    case (1 s)
    then show ?case by simp
  next
    case (2 s nm c cs)
    then have "map_of cs nm = None" by (simp add: map_of_eq_None_iff)
    with 2 show ?case
      by (auto simp: registerConfig_def update_conv fun_eq_iff map_add_def split: option.splits)
  qed
  then show "map_of (us_constructors (register_all s cs)) = map_of (us_constructors s) ++ map_of cs"
    and "map_of (us_storages (register_all s cs))
      = (\<lambda>k. if k \<in> dom (map_of cs) then Some None else map_of (us_storages s) k)" by auto
qed

lemma NewUntypedStore_spec:
  "map_of (us_constructors (NewUntypedStore cs)) = map_of cs"
  "map_of (us_storages (NewUntypedStore cs)) = (\<lambda>k. if k \<in> dom (map_of cs) then Some None else None)"
  "store_wf (NewUntypedStore cs)"
proof -
  let ?s = "\<lparr>us_storages = [], us_constructors = []\<rparr> :: untyped_store"
  have d: "distinct (map fst (range_map (\<lambda>ks. ks) cs))" by (simp add: distinct_range_map)
  note r = register_all_spec [OF d, of ?s]
  show c: "map_of (us_constructors (NewUntypedStore cs)) = map_of cs"
    by (simp add: NewUntypedStore_def r)
  show s: "map_of (us_storages (NewUntypedStore cs)) = (\<lambda>k. if k \<in> dom (map_of cs) then Some None else None)"
    by (rule ext) (simp add: NewUntypedStore_def r)
  show "store_wf (NewUntypedStore cs)"
    by (auto simp: store_wf_def c s split: if_splits)
qed

lemma OnConfigChanged_step:
  assumes wf: "store_wf s" and reg: "map_of (us_constructors s) (cm_Name c) = Some mk"
    and quiet: "quiet mk"
  obtains s' evs' where "OnConfigChanged c (s, evs) = Inr (s', evs')"
    and "store_wf s'" and "us_constructors s' = us_constructors s"
    and "map_of (us_storages s') = (case mk c of
           Inl _ \<Rightarrow> map_of (us_storages s)
         | Inr x \<Rightarrow> (map_of (us_storages s))(cm_Name c \<mapsto> Some x))"
proof (cases "mk c")
  case (Inl f)
  with quiet obtain err where err: "mk c = Inl (Fail err)"
    by (cases f) (auto simp: quiet_def)
  obtain v where "map_of (us_storages s) (cm_Name c) = Some v"
    using wf reg by (auto simp: store_wf_def dom_def set_eq_iff)
  then show ?thesis
    using that wf reg err by (simp add: OnConfigChanged_def Let_def UntypedLoad_def)
next
  case (Inr x)
  have "store_wf (s\<lparr>us_storages := AList.update (cm_Name c) (Some x) (us_storages s)\<rparr>)"
    using wf reg by (simp add: store_wf_def update_conv' insert_absorb domIff)
  then show ?thesis
    using that reg Inr by (simp add: OnConfigChanged_def Let_def update_conv')
qed

lemma run_changes_spec:
  assumes "store_wf s" and "\<And>c. c \<in> set cs \<Longrightarrow> map_of (us_constructors s) (cm_Name c) \<noteq> None"
    and "\<And>nm mk. map_of (us_constructors s) nm = Some mk \<Longrightarrow> quiet mk"
  shows "\<exists>s' evs'. run_changes cs (s, evs) = Inr (s', evs') \<and> store_wf s'
    \<and> us_constructors s' = us_constructors s
    \<and> (\<forall>nm mk v. map_of (us_constructors s) nm = Some mk \<longrightarrow> map_of (us_storages s) nm = Some v
         \<longrightarrow> map_of (us_storages s') nm = Some (last_from v mk nm cs))"
  using assms
proof (induction cs arbitrary: s evs)
  case Nil
  then show ?case by (simp add: last_from_def)
next
  case (Cons c cs)
  obtain mk where mk: "map_of (us_constructors s) (cm_Name c) = Some mk"
    using Cons.prems(2) [of c] by auto
  obtain s1 evs1 where step: "OnConfigChanged c (s, evs) = Inr (s1, evs1)" "store_wf s1"
      "us_constructors s1 = us_constructors s"
    and st: "map_of (us_storages s1) = (case mk c of
           Inl _ \<Rightarrow> map_of (us_storages s)
         | Inr x \<Rightarrow> (map_of (us_storages s))(cm_Name c \<mapsto> Some x))"
    by (rule OnConfigChanged_step [OF Cons.prems(1) mk Cons.prems(3) [OF mk]])
  obtain s' evs' where run: "run_changes cs (s1, evs1) = Inr (s', evs')" "store_wf s'"
      "us_constructors s' = us_constructors s"
    and later: "\<And>nm mk v. map_of (us_constructors s) nm = Some mk \<Longrightarrow> map_of (us_storages s1) nm = Some v
         \<Longrightarrow> map_of (us_storages s') nm = Some (last_from v mk nm cs)"
    using Cons.IH [OF step(2), of evs1] Cons.prems(2,3) step(3) by auto
  have "map_of (us_storages s') nm = Some (last_from v mk' nm (c # cs))"
    if "map_of (us_constructors s) nm = Some mk'" "map_of (us_storages s) nm = Some v" for nm mk' v
  proof -
    have "map_of (us_storages s1) nm = Some (if cm_Name c = nm then (case mk' c of Inr x \<Rightarrow> Some x | Inl _ \<Rightarrow> v) else v)"
      using that mk st by (auto split: sum.splits)
    from later [OF that(1) this] show ?thesis by (simp add: last_from_def)
  qed
  with step(1) run show ?case by simp
qed

lemma Load_ok_iff:
  "Load s = Inr c \<longleftrightarrow>
     map_of (us_storages s) DomainConfigName = Some (Some (CV_Domain (cfg_Domain c)))
   \<and> map_of (us_storages s) GatewayConfigName = Some (Some (CV_Gateway (cfg_Gateway c)))
   \<and> map_of (us_storages s) NetworkConfigName = Some (Some (CV_Network (cfg_Network c)))
   \<and> map_of (us_storages s) FeaturesConfigName = Some (map_option CV_Features (cfg_Features c))"
proof -
  have d: "assert_domain v = Inr d \<longleftrightarrow> v = Some (CV_Domain d)"
    "assert_gateway v = Inr g \<longleftrightarrow> v = Some (CV_Gateway g)"
    "assert_network v = Inr n \<longleftrightarrow> v = Some (CV_Network n)"
    "assert_features v = Inr f \<longleftrightarrow> v = map_option CV_Features f" for v d g n f
    by (cases v; cases f; cases "the v"; auto simp: assert_domain_def assert_gateway_def
        assert_network_def assert_features_def)+
  have u: "UntypedLoad s nm = Inr v \<longleftrightarrow> map_of (us_storages s) nm = Some v" for nm v
    by (simp add: UntypedLoad_def split: option.splits)
  show ?thesis by (cases c) (auto simp: Load_def d u)
qed


text \<open>The constructors of the two configurations read from the repository fail, but do not panic.\<close>

lemma parse_domains_quiet: "parse_domains u es ds b \<noteq> Inl (Panic p)"
  by (induction u es ds b rule: parse_domains.induct) (auto split: sum.splits)

lemma config_constructors_quiet:
  "quiet (as_constructor CV_Domain (NewDomainFromConfigMap u ord))"
  "quiet (as_constructor CV_Gateway (NewGatewayFromConfigMap u' ord'))"
  "quiet (as_constructor CV_Features (\<lambda>c. Inr (NewFeaturesConfigFromMap (cm_Data c))))"
  using parse_domains_quiet parse_gateways_fault
  by (fastforce simp: quiet_def as_constructor_def NewDomainFromConfigMap_def NewGatewayFromConfigMap_def rbind_eq_Inl)+

lemma config_names [simp]:
  "DomainConfigName \<noteq> GatewayConfigName" "DomainConfigName \<noteq> NetworkConfigName" "DomainConfigName \<noteq> FeaturesConfigName"
  "GatewayConfigName \<noteq> NetworkConfigName" "GatewayConfigName \<noteq> FeaturesConfigName" "NetworkConfigName \<noteq> FeaturesConfigName"
  "GatewayConfigName \<noteq> DomainConfigName" "NetworkConfigName \<noteq> DomainConfigName" "FeaturesConfigName \<noteq> DomainConfigName"
  "NetworkConfigName \<noteq> GatewayConfigName" "FeaturesConfigName \<noteq> GatewayConfigName" "FeaturesConfigName \<noteq> NetworkConfigName"
  by (simp_all add: DomainConfigName_def GatewayConfigName_def NetworkConfigName_def FeaturesConfigName_def)

definition watched :: "string set" where
  "watched = {DomainConfigName, GatewayConfigName, NetworkConfigName, FeaturesConfigName}"

subsection \<open>Properties\<close>

text \<open>C21: After any sequence of ConfigMap changes the store holds, for each of the four configurations, the
  last value its constructor accepted: a rejected change leaves the old value in force. \<open>Load\<close> returns
  exactly those values, and fails while one of the first three has never been accepted.\<close>

theorem store_follows_changes:
  assumes net: "quiet (as_constructor CV_Network mkNet)" and cs: "cm_Name ` set cs \<subseteq> watched"
  shows "\<exists>s evs. run_changes cs (NewStore us ug ord mkNet, []) = Inr (s, evs)
    \<and> (\<forall>c. Load s = Inr c \<longleftrightarrow>
        last_from None (as_constructor CV_Domain (NewDomainFromConfigMap us ord)) DomainConfigName cs
          = Some (CV_Domain (cfg_Domain c))
      \<and> last_from None (as_constructor CV_Gateway (NewGatewayFromConfigMap ug ord)) GatewayConfigName cs
          = Some (CV_Gateway (cfg_Gateway c))
      \<and> last_from None (as_constructor CV_Network mkNet) NetworkConfigName cs = Some (CV_Network (cfg_Network c))
      \<and> last_from None (as_constructor CV_Features (\<lambda>c. Inr (NewFeaturesConfigFromMap (cm_Data c))))
          FeaturesConfigName cs = map_option CV_Features (cfg_Features c))"
proof -
  let ?cs = "[(DomainConfigName, as_constructor CV_Domain (NewDomainFromConfigMap us ord)),
     (GatewayConfigName, as_constructor CV_Gateway (NewGatewayFromConfigMap ug ord)),
     (NetworkConfigName, as_constructor CV_Network mkNet),
     (FeaturesConfigName, as_constructor CV_Features (\<lambda>c. Inr (NewFeaturesConfigFromMap (cm_Data c))))]"
  have s: "NewStore us ug ord mkNet = NewUntypedStore ?cs" by (simp add: NewStore_def)
  note new = NewUntypedStore_spec [of ?cs, folded s]
  have reg: "map_of ?cs (cm_Name c) \<noteq> None" if "c \<in> set cs" for c
    using cs that unfolding watched_def by (auto dest!: subsetD [OF _ imageI])
  have quiets: "quiet mk" if "map_of ?cs nm = Some mk" for nm mk
    using that net config_constructors_quiet by (auto split: if_splits)
  obtain s' evs where run: "run_changes cs (NewStore us ug ord mkNet, []) = Inr (s', evs)"
    and st: "\<And>nm mk v. map_of ?cs nm = Some mk \<Longrightarrow> map_of (us_storages (NewStore us ug ord mkNet)) nm = Some v
         \<Longrightarrow> map_of (us_storages s') nm = Some (last_from v mk nm cs)"
    using run_changes_spec [OF new(3), of cs "[]", unfolded new(1)] reg quiets by blast
  have fresh: "map_of (us_storages (NewStore us ug ord mkNet)) nm = Some None" if "nm \<in> watched" for nm
    unfolding new(2) using that by (auto simp: watched_def)
  show ?thesis
    using run by (simp add: Load_ok_iff st fresh watched_def)
qed


theorem store_follows_changes_witness:
  "\<exists>s evs c. run_changes
      [\<lparr>cm_Name = DomainConfigName, cm_Data = Some []\<rparr>, \<lparr>cm_Name = GatewayConfigName, cm_Data = Some []\<rparr>,
       \<lparr>cm_Name = NetworkConfigName, cm_Data = Some []\<rparr>]
      (NewStore (\<lambda>t sel. Inr sel) (\<lambda>t g. Inr g) id
         (\<lambda>c. Inr \<lparr>nc_DomainTemplate = ''d'', nc_TagTemplate = ''t''\<rparr>), []) = Inr (s, evs)
     \<and> Load s = Inr c \<and> nc_TagTemplate (cfg_Network c) = ''t''"
proof -
  let ?net = "\<lambda>c :: config_map. Inr \<lparr>nc_DomainTemplate = ''d'', nc_TagTemplate = ''t''\<rparr> :: network_config result"
  let ?us = "\<lambda>t sel. Inr sel :: goerr + label_selector"
  let ?ug = "\<lambda>t g. Inr g :: goerr + gateway_config"
  let ?cs = "[\<lparr>cm_Name = DomainConfigName, cm_Data = Some []\<rparr>, \<lparr>cm_Name = GatewayConfigName, cm_Data = Some []\<rparr>,
       \<lparr>cm_Name = NetworkConfigName, cm_Data = Some []\<rparr>]"
  obtain d g where dg: "NewDomainFromConfigMap ?us id \<lparr>cm_Name = DomainConfigName, cm_Data = Some []\<rparr> = Inr d"
    "NewGatewayFromConfigMap ?ug id \<lparr>cm_Name = GatewayConfigName, cm_Data = Some []\<rparr> = Inr g"
    by (simp add: NewDomainFromConfigMap_def NewGatewayFromConfigMap_def range_map_def go_keys_def List.map_filter_def)
  let ?c = "\<lparr>cfg_Domain = d, cfg_Network = \<lparr>nc_DomainTemplate = ''d'', nc_TagTemplate = ''t''\<rparr>,
      cfg_Features = None, cfg_Gateway = g\<rparr>"
  have "quiet (as_constructor CV_Network ?net)" by (simp add: quiet_def as_constructor_def)
  moreover have "cm_Name ` set ?cs \<subseteq> watched" by (simp add: watched_def)
  ultimately obtain s evs where run: "run_changes ?cs (NewStore ?us ?ug id ?net, []) = Inr (s, evs)"
    and load: "\<forall>c. Load s = Inr c \<longleftrightarrow>
        last_from None (as_constructor CV_Domain (NewDomainFromConfigMap ?us id)) DomainConfigName ?cs
          = Some (CV_Domain (cfg_Domain c))
      \<and> last_from None (as_constructor CV_Gateway (NewGatewayFromConfigMap ?ug id)) GatewayConfigName ?cs
          = Some (CV_Gateway (cfg_Gateway c))
      \<and> last_from None (as_constructor CV_Network ?net) NetworkConfigName ?cs = Some (CV_Network (cfg_Network c))
      \<and> last_from None (as_constructor CV_Features (\<lambda>c. Inr (NewFeaturesConfigFromMap (cm_Data c))))
          FeaturesConfigName ?cs = map_option CV_Features (cfg_Features c)"
    using store_follows_changes [of ?net ?cs ?us ?ug id] by blast
  have "Load s = Inr ?c"
    using load by (simp add: last_from_def as_constructor_def dg)
  with run show ?thesis by (intro exI [of _ s] exI [of _ evs] exI [of _ ?c]) simp
qed

end
