(* ===== verification/Conditions.thy ===== *)
theory Conditions
  imports Prelude
begin

text \<open>
  The condition manager of \<open>knative.dev/pkg/apis\<close> (\<open>condition_set.go\<close>): a set of dependent
  condition types and one happy condition that summarises them, kept in the status of a resource.
  The accessor is the state: the conditions stored in the status and the number of times the
  manager has read the clock, whose readings are the argument \<open>clk\<close>.
\<close>

subsection \<open>Conditions\<close>

datatype condition_status = ConditionTrue | ConditionFalse | ConditionUnknown | ConditionOther string

datatype condition_severity = SeverityError | SeverityWarning | SeverityInfo | SeverityOther string

type_synonym condition_type = string

record condition =
  c_Type :: condition_type
  c_Status :: condition_status
  c_Severity :: condition_severity
  c_LastTransitionTime :: nat
  c_Reason :: string
  c_Message :: string

definition ConditionReady :: condition_type where "ConditionReady = ''Ready''"

fun cond_IsTrue :: "condition option \<Rightarrow> bool" where
  "cond_IsTrue None = False"
| "cond_IsTrue (Some c) = (c_Status c = ConditionTrue)"

fun cond_IsFalse :: "condition option \<Rightarrow> bool" where
  "cond_IsFalse None = False"
| "cond_IsFalse (Some c) = (c_Status c = ConditionFalse)"

fun cond_IsUnknown :: "condition option \<Rightarrow> bool" where
  "cond_IsUnknown None = True"
| "cond_IsUnknown (Some c) = (c_Status c = ConditionUnknown)"

subsection \<open>Condition sets\<close>

record condition_set =
  happy :: condition_type
  dependents :: "condition_type list"

fun contains :: "condition_type list \<Rightarrow> condition_type \<Rightarrow> bool" where
  "contains [] t = False"
| "contains (c # ct) t = (if c = t then True else contains ct t)"

fun dedup_deps :: "condition_type \<Rightarrow> condition_type list \<Rightarrow> condition_type list \<Rightarrow> condition_type list" where
  "dedup_deps hp deps [] = deps"
| "dedup_deps hp deps (d # ds) =
     (if d = hp \<or> contains deps d then dedup_deps hp deps ds else dedup_deps hp (deps @ [d]) ds)"

definition newConditionSet :: "condition_type \<Rightarrow> condition_type list \<Rightarrow> condition_set" where
  "newConditionSet hp ds = \<lparr>happy = hp, dependents = dedup_deps hp [] ds\<rparr>"

definition NewLivingConditionSet :: "condition_type list \<Rightarrow> condition_set" where
  "NewLivingConditionSet ds = newConditionSet ConditionReady ds"

subsection \<open>The accessor\<close>

record accessor =
  acc_Conditions :: "condition list"
  acc_Reads :: nat

type_synonym clock = "nat \<Rightarrow> nat"

definition GetCondition :: "accessor \<Rightarrow> condition_type \<Rightarrow> condition option" where
  "GetCondition a t = List.find (\<lambda>c. c_Type c = t) (acc_Conditions a)"

text \<open>
  The loop of \<open>SetCondition\<close> walks the stored conditions. It drops those of the type being set
  and stops, leaving the accessor alone, at one that differs from the new condition in nothing
  but its transition time (\<open>None\<close>). Otherwise the new condition carries the time of the last
  condition it replaces until the clock is read.
\<close>

fun set_loop :: "condition \<Rightarrow> condition list \<Rightarrow> condition list \<Rightarrow> condition list option" where
  "set_loop cond kept [] = Some kept"
| "set_loop cond kept (c # cs) =
     (if c_Type c \<noteq> c_Type cond then set_loop cond (kept @ [c]) cs
      else let cond' = cond\<lparr>c_LastTransitionTime := c_LastTransitionTime c\<rparr>
           in if cond' = c then None else set_loop cond' kept cs)"

definition SetCondition :: "clock \<Rightarrow> condition \<Rightarrow> accessor \<Rightarrow> accessor" where
  "SetCondition clk cond a =
     (case set_loop cond [] (acc_Conditions a) of
        None \<Rightarrow> a
      | Some kept \<Rightarrow>
          \<lparr>acc_Conditions =
             sort_key c_Type (kept @ [cond\<lparr>c_LastTransitionTime := clk (acc_Reads a)\<rparr>]),
           acc_Reads = Suc (acc_Reads a)\<rparr>)"

definition isTerminal :: "condition_set \<Rightarrow> condition_type \<Rightarrow> bool" where
  "isTerminal r t \<longleftrightarrow> contains (dependents r) t \<or> t = happy r"

definition severity :: "condition_set \<Rightarrow> condition_type \<Rightarrow> condition_severity" where
  "severity r t = (if isTerminal r t then SeverityError else SeverityInfo)"

definition mk_condition ::
  "condition_set \<Rightarrow> condition_type \<Rightarrow> condition_status \<Rightarrow> string \<Rightarrow> string \<Rightarrow> condition" where
  "mk_condition r t st reason msg =
     \<lparr>c_Type = t, c_Status = st, c_Severity = severity r t, c_LastTransitionTime = 0,
      c_Reason = reason, c_Message = msg\<rparr>"

subsection \<open>The unhappy dependent\<close>

text \<open>Sorted by transition time, latest first.\<close>

definition by_time :: "condition list \<Rightarrow> condition list" where
  "by_time cs = sort_key (\<lambda>c. - int (c_LastTransitionTime c)) cs"

definition findUnhappyDependent :: "condition_set \<Rightarrow> accessor \<Rightarrow> condition option" where
  "findUnhappyDependent r a =
     (if dependents r = [] then None
      else
        let conditions = by_time (filter
              (\<lambda>c. c_Severity c = SeverityError \<and> c_Type c \<noteq> happy r) (acc_Conditions a))
        in case List.find (\<lambda>c. cond_IsFalse (Some c)) conditions of
             Some c \<Rightarrow> Some c
           | None \<Rightarrow>
               (case List.find (\<lambda>c. cond_IsUnknown (Some c)) conditions of
                  Some c \<Rightarrow> Some c
                | None \<Rightarrow>
                    (if length conditions < length (dependents r)
                     then Some \<lparr>c_Type = '''', c_Status = ConditionUnknown,
                                c_Severity = SeverityError, c_LastTransitionTime = 0,
                                c_Reason = '''', c_Message = ''''\<rparr>
                     else None)))"

definition recomputeHappiness ::
  "clock \<Rightarrow> condition_set \<Rightarrow> condition_type \<Rightarrow> accessor \<Rightarrow> accessor" where
  "recomputeHappiness clk r t a =
     (case findUnhappyDependent r a of
        Some c \<Rightarrow>
          SetCondition clk (mk_condition r (happy r) (c_Status c) (c_Reason c) (c_Message c)) a
      | None \<Rightarrow>
          (if t \<noteq> happy r then SetCondition clk (mk_condition r (happy r) ConditionTrue '''' '''') a
           else a))"

subsection \<open>Marking\<close>

text \<open>
  The message is the text \<open>fmt.Sprintf\<close> makes of the format and its operands.
\<close>

definition MarkTrue :: "clock \<Rightarrow> condition_set \<Rightarrow> condition_type \<Rightarrow> accessor \<Rightarrow> accessor" where
  "MarkTrue clk r t a =
     recomputeHappiness clk r t (SetCondition clk (mk_condition r t ConditionTrue '''' '''') a)"

definition MarkTrueWithReason ::
  "clock \<Rightarrow> condition_set \<Rightarrow> condition_type \<Rightarrow> string \<Rightarrow> string \<Rightarrow> accessor \<Rightarrow> accessor" where
  "MarkTrueWithReason clk r t reason msg a =
     recomputeHappiness clk r t (SetCondition clk (mk_condition r t ConditionTrue reason msg) a)"

definition MarkFalse ::
  "clock \<Rightarrow> condition_set \<Rightarrow> condition_type \<Rightarrow> string \<Rightarrow> string \<Rightarrow> accessor \<Rightarrow> accessor" where
  "MarkFalse clk r t reason msg a =
     fold (\<lambda>t' a'. SetCondition clk (mk_condition r t' ConditionFalse reason msg) a')
       (t # concat (map (\<lambda>cond. if cond = t then [happy r] else []) (dependents r))) a"

text \<open>
  The loop of \<open>MarkUnknown\<close> over the dependents: \<open>None\<close> when it meets a false one, else whether
  the marked type is a dependent.
\<close>

fun unknown_scan :: "accessor \<Rightarrow> condition_type \<Rightarrow> bool \<Rightarrow> condition_type list \<Rightarrow> bool option" where
  "unknown_scan a t isDependent [] = Some isDependent"
| "unknown_scan a t isDependent (cond # ds) =
     (if cond_IsFalse (GetCondition a cond) then None
      else unknown_scan a t (isDependent \<or> cond = t) ds)"

definition MarkUnknown ::
  "clock \<Rightarrow> condition_set \<Rightarrow> condition_type \<Rightarrow> string \<Rightarrow> string \<Rightarrow> accessor \<Rightarrow> accessor" where
  "MarkUnknown clk r t reason msg a =
     (let a1 = SetCondition clk (mk_condition r t ConditionUnknown reason msg) a in
      case unknown_scan a1 t False (dependents r) of
        None \<Rightarrow>
          (if cond_IsFalse (GetCondition a1 (happy r)) then a1
           else MarkFalse clk r (happy r) reason msg a1)
      | Some isDependent \<Rightarrow>
          (if isDependent
           then SetCondition clk (mk_condition r (happy r) ConditionUnknown reason msg) a1
           else a1))"

definition GetTopLevelCondition :: "condition_set \<Rightarrow> accessor \<Rightarrow> condition option" where
  "GetTopLevelCondition r a = GetCondition a (happy r)"

definition IsHappy :: "condition_set \<Rightarrow> accessor \<Rightarrow> bool" where
  "IsHappy r a = cond_IsTrue (GetTopLevelCondition r a)"

definition ClearCondition ::
  "condition_set \<Rightarrow> condition_type \<Rightarrow> accessor \<Rightarrow> unit result \<times> accessor" where
  "ClearCondition r t a =
     (if isTerminal r t then (Inl (Fail (ErrorString ''clearing terminal conditions not implemented'')), a)
      else (case GetCondition a t of
              None \<Rightarrow> (Inr (), a)
            | Some _ \<Rightarrow> (Inr (), a\<lparr>acc_Conditions :=
                sort_key c_Type (filter (\<lambda>c. c_Type c \<noteq> t) (acc_Conditions a))\<rparr>)))"

subsection \<open>Initialisation\<close>

definition init_condition :: "condition_type \<Rightarrow> condition_status \<Rightarrow> condition" where
  "init_condition t st = \<lparr>c_Type = t, c_Status = st, c_Severity = SeverityError,
     c_LastTransitionTime = 0, c_Reason = '''', c_Message = ''''\<rparr>"

definition initializeTerminalCondition ::
  "clock \<Rightarrow> condition_status \<Rightarrow> condition_type \<Rightarrow> accessor \<Rightarrow> accessor" where
  "initializeTerminalCondition clk st t a =
     (case GetCondition a t of Some _ \<Rightarrow> a | None \<Rightarrow> SetCondition clk (init_condition t st) a)"

definition InitializeConditions :: "clock \<Rightarrow> condition_set \<Rightarrow> accessor \<Rightarrow> accessor" where
  "InitializeConditions clk r a =
     (let (hp, a1) = (case GetCondition a (happy r) of
              Some c \<Rightarrow> (c, a)
            | None \<Rightarrow> (let c = init_condition (happy r) ConditionUnknown in (c, SetCondition clk c a)));
          st = (if c_Status hp = ConditionTrue then ConditionTrue else ConditionUnknown)
      in fold (initializeTerminalCondition clk st) (dependents r) a1)"

subsection \<open>Sequences of operations\<close>

datatype cond_op =
    OpMarkTrue condition_type
  | OpMarkTrueWithReason condition_type string string
  | OpMarkFalse condition_type string string
  | OpMarkUnknown condition_type string string
  | OpClear condition_type
  | OpInitialize
  | OpSet condition

fun run_cond_op :: "clock \<Rightarrow> condition_set \<Rightarrow> cond_op \<Rightarrow> accessor \<Rightarrow> accessor" where
  "run_cond_op clk r (OpMarkTrue t) a = MarkTrue clk r t a"
| "run_cond_op clk r (OpMarkTrueWithReason t reason msg) a = MarkTrueWithReason clk r t reason msg a"
| "run_cond_op clk r (OpMarkFalse t reason msg) a = MarkFalse clk r t reason msg a"
| "run_cond_op clk r (OpMarkUnknown t reason msg) a = MarkUnknown clk r t reason msg a"
| "run_cond_op clk r (OpClear t) a = snd (ClearCondition r t a)"
| "run_cond_op clk r OpInitialize a = InitializeConditions clk r a"
| "run_cond_op clk r (OpSet cond) a = SetCondition clk cond a"

definition empty_accessor :: accessor where
  "empty_accessor = \<lparr>acc_Conditions = [], acc_Reads = 0\<rparr>"

subsection \<open>Well-formed conditions\<close>

text \<open>
  What every operation keeps: one condition per type, terminal conditions are exactly those of
  severity error, and a terminal condition is true, false or unknown.
\<close>

definition conds_wf :: "condition_set \<Rightarrow> accessor \<Rightarrow> bool" where
  "conds_wf r a \<longleftrightarrow> distinct (map c_Type (acc_Conditions a))
     \<and> (\<forall>c \<in> set (acc_Conditions a).
          (c_Severity c = SeverityError) = isTerminal r (c_Type c)
          \<and> (isTerminal r (c_Type c) \<longrightarrow>
               c_Status c \<in> {ConditionTrue, ConditionFalse, ConditionUnknown}))"

definition set_wf :: "condition_set \<Rightarrow> bool" where
  "set_wf r \<longleftrightarrow> distinct (dependents r) \<and> happy r \<notin> set (dependents r)"

text \<open>A happy resource has every dependent true.\<close>

definition happy_inv :: "condition_set \<Rightarrow> accessor \<Rightarrow> bool" where
  "happy_inv r a \<longleftrightarrow>
     (IsHappy r a \<longrightarrow> (\<forall>d \<in> set (dependents r). cond_IsTrue (GetCondition a d)))"

lemma contains_iff [simp]: "contains ct t \<longleftrightarrow> t \<in> set ct"
  by (induction ct) auto

lemma dedup_deps_set: "set (dedup_deps hp deps ds) = set deps \<union> (set ds - {hp})"
  by (induction hp deps ds rule: dedup_deps.induct) auto

lemma dedup_deps_distinct: "distinct deps \<Longrightarrow> distinct (dedup_deps hp deps ds)"
  by (induction hp deps ds rule: dedup_deps.induct) auto

lemma newConditionSet_wf: "set_wf (newConditionSet hp ds)"
  by (simp add: set_wf_def newConditionSet_def dedup_deps_set dedup_deps_distinct)

lemma newConditionSet_simps [simp]:
  "happy (newConditionSet hp ds) = hp"
  "set (dependents (newConditionSet hp ds)) = set ds - {hp}"
  by (simp_all add: newConditionSet_def dedup_deps_set)

subsection \<open>Lookup after a write\<close>

lemma set_loop_Some:
  "set_loop cond kept cs = Some res \<Longrightarrow> res = kept @ filter (\<lambda>c. c_Type c \<noteq> c_Type cond) cs"
  by (induction cond kept cs rule: set_loop.induct) (auto simp: Let_def split: if_splits)

lemma set_loop_None:
  "set_loop cond kept cs = None \<Longrightarrow>
     \<exists>c \<in> set cs. c = cond\<lparr>c_LastTransitionTime := c_LastTransitionTime c\<rparr>"
proof (induction cond kept cs rule: set_loop.induct)
  case (1 cond kept)
  then show ?case by simp
next
  case (2 cond kept c cs)
  let ?cond' = "cond\<lparr>c_LastTransitionTime := c_LastTransitionTime c\<rparr>"
  show ?case
  proof (cases "c_Type c = c_Type cond \<and> ?cond' \<noteq> c")
    case True
    with "2.prems" have "set_loop ?cond' kept cs = None" by simp
    with "2.IH"(2) True obtain d where d: "d \<in> set cs"
        "d = ?cond'\<lparr>c_LastTransitionTime := c_LastTransitionTime d\<rparr>" by auto
    moreover have "?cond'\<lparr>c_LastTransitionTime := x\<rparr> = cond\<lparr>c_LastTransitionTime := x\<rparr>" for x
      by simp
    ultimately have "d = cond\<lparr>c_LastTransitionTime := c_LastTransitionTime d\<rparr>" by metis
    with d(1) show ?thesis by auto
  next
    case False
    with "2.prems" "2.IH"(1) show ?thesis
      by (cases "c_Type c = c_Type cond") (auto simp: Let_def)
  qed
qed

lemma SetCondition_cases:
  obtains (same) c where "SetCondition clk cond a = a" "c \<in> set (acc_Conditions a)"
      "c = cond\<lparr>c_LastTransitionTime := c_LastTransitionTime c\<rparr>"
    | (updated) "acc_Conditions (SetCondition clk cond a) =
        sort_key c_Type (filter (\<lambda>c. c_Type c \<noteq> c_Type cond) (acc_Conditions a)
          @ [cond\<lparr>c_LastTransitionTime := clk (acc_Reads a)\<rparr>])"
proof (cases "set_loop cond [] (acc_Conditions a)")
  case None
  with same show thesis
    using set_loop_None [OF None] by (auto simp: SetCondition_def)
next
  case (Some kept)
  with updated show thesis
    using set_loop_Some [OF Some] by (simp add: SetCondition_def)
qed

lemma distinct_map_sort_key: "distinct (map f (sort_key g xs)) = distinct (map f xs)"
proof -
  have "mset (map f (sort_key g xs)) = mset (map f xs)" by simp
  then show ?thesis by (rule mset_eq_imp_distinct_iff)
qed

lemma SetCondition_distinct:
  assumes "distinct (map c_Type (acc_Conditions a))"
  shows "distinct (map c_Type (acc_Conditions (SetCondition clk cond a)))"
proof (cases rule: SetCondition_cases [of clk cond a])
  case (same c)
  with assms show ?thesis by simp
next
  case updated
  have "distinct (map c_Type (filter (\<lambda>c. c_Type c \<noteq> c_Type cond) (acc_Conditions a)))"
    using assms by (induction "acc_Conditions a" arbitrary: a rule: list.induct)
      (simp_all add: distinct_map_filter)
  then show ?thesis unfolding updated distinct_map_sort_key by auto
qed

lemma find_type_iff:
  "distinct (map c_Type cs) \<Longrightarrow>
     List.find (\<lambda>c. c_Type c = t) cs = Some c \<longleftrightarrow> c \<in> set cs \<and> c_Type c = t"
  by (induction cs) (auto simp: image_iff)

lemma GetCondition_iff:
  "distinct (map c_Type (acc_Conditions a)) \<Longrightarrow>
     GetCondition a t = Some c \<longleftrightarrow> c \<in> set (acc_Conditions a) \<and> c_Type c = t"
  by (simp add: GetCondition_def find_type_iff)

lemma GetCondition_type: "GetCondition a t = Some c \<Longrightarrow> c_Type c = t \<and> c \<in> set (acc_Conditions a)"
  by (auto simp: GetCondition_def find_Some_iff)

lemma GetCondition_SetCondition_same:
  assumes "distinct (map c_Type (acc_Conditions a))"
  shows "\<exists>tm. GetCondition (SetCondition clk cond a) (c_Type cond)
                = Some (cond\<lparr>c_LastTransitionTime := tm\<rparr>)"
proof (cases rule: SetCondition_cases [of clk cond a])
  case (same c)
  have "c_Type (cond\<lparr>c_LastTransitionTime := c_LastTransitionTime c\<rparr>) = c_Type cond" by simp
  with same(3) have "c_Type c = c_Type cond" by metis
  then have "GetCondition (SetCondition clk cond a) (c_Type cond) = Some c"
    using same(1,2) assms by (simp add: GetCondition_iff)
  with same(3) show ?thesis by metis
next
  case updated
  have "GetCondition (SetCondition clk cond a) (c_Type cond)
      = Some (cond\<lparr>c_LastTransitionTime := clk (acc_Reads a)\<rparr>)"
    using SetCondition_distinct [OF assms, of clk cond] by (simp add: GetCondition_iff updated)
  then show ?thesis ..
qed

lemma GetCondition_SetCondition_other:
  assumes "distinct (map c_Type (acc_Conditions a))" and "t \<noteq> c_Type cond"
  shows "GetCondition (SetCondition clk cond a) t = GetCondition a t"
proof (cases rule: SetCondition_cases [of clk cond a])
  case (same c)
  then show ?thesis by simp
next
  case updated
  have "GetCondition (SetCondition clk cond a) t = Some c \<longleftrightarrow> GetCondition a t = Some c" for c
    using assms SetCondition_distinct [OF assms(1), of clk cond] by (auto simp: GetCondition_iff updated)
  then show ?thesis by (rule option_eq_by_Some)
qed

subsection \<open>Statuses\<close>

definition status_of :: "accessor \<Rightarrow> condition_type \<Rightarrow> condition_status option" where
  "status_of a t = map_option c_Status (GetCondition a t)"

abbreviation types_distinct :: "accessor \<Rightarrow> bool" where
  "types_distinct a \<equiv> distinct (map c_Type (acc_Conditions a))"

lemma cond_status_iff:
  "cond_IsTrue (GetCondition a t) \<longleftrightarrow> status_of a t = Some ConditionTrue"
  "cond_IsFalse (GetCondition a t) \<longleftrightarrow> status_of a t = Some ConditionFalse"
  "cond_IsUnknown (GetCondition a t) \<longleftrightarrow> status_of a t \<in> {None, Some ConditionUnknown}"
  by (cases "GetCondition a t"; simp add: status_of_def)+

lemma IsHappy_iff: "IsHappy r a \<longleftrightarrow> status_of a (happy r) = Some ConditionTrue"
  by (simp add: IsHappy_def GetTopLevelCondition_def cond_status_iff)

lemma status_SetCondition:
  assumes "types_distinct a"
  shows "status_of (SetCondition clk cond a) t
           = (if t = c_Type cond then Some (c_Status cond) else status_of a t)"
  using GetCondition_SetCondition_same [OF assms, of clk cond]
    GetCondition_SetCondition_other [OF assms, of t cond clk]
  by (auto simp: status_of_def)

lemma mk_condition_simps [simp]:
  "c_Type (mk_condition r t st reason msg) = t"
  "c_Status (mk_condition r t st reason msg) = st"
  "c_Severity (mk_condition r t st reason msg) = severity r t"
  "c_Reason (mk_condition r t st reason msg) = reason"
  "c_Message (mk_condition r t st reason msg) = msg"
  by (simp_all add: mk_condition_def)

lemma isTerminal_iff: "isTerminal r t \<longleftrightarrow> t \<in> set (dependents r) \<or> t = happy r"
  by (simp add: isTerminal_def)

lemma severity_error [simp]: "severity r t = SeverityError \<longleftrightarrow> isTerminal r t"
  by (simp add: severity_def)

lemma SetCondition_wf:
  assumes "conds_wf r a" and "(c_Severity cond = SeverityError) = isTerminal r (c_Type cond)"
    and "isTerminal r (c_Type cond) \<longrightarrow> c_Status cond \<in> {ConditionTrue, ConditionFalse, ConditionUnknown}"
  shows "conds_wf r (SetCondition clk cond a)"
proof (cases rule: SetCondition_cases [of clk cond a])
  case (same c)
  with assms(1) show ?thesis by simp
next
  case updated
  then have "set (acc_Conditions (SetCondition clk cond a))
      \<subseteq> insert (cond\<lparr>c_LastTransitionTime := clk (acc_Reads a)\<rparr>) (set (acc_Conditions a))"
    by auto
  with assms SetCondition_distinct [of a clk cond] show ?thesis
    unfolding conds_wf_def by fastforce
qed

lemma SetCondition_mk_wf:
  "conds_wf r a \<Longrightarrow> st \<in> {ConditionTrue, ConditionFalse, ConditionUnknown} \<Longrightarrow>
     conds_wf r (SetCondition clk (mk_condition r t st reason msg) a)"
  by (rule SetCondition_wf) auto

lemma conds_wf_distinct: "conds_wf r a \<Longrightarrow> types_distinct a"
  by (simp add: conds_wf_def)

lemma conds_wf_status:
  "conds_wf r a \<Longrightarrow> isTerminal r t \<Longrightarrow> status_of a t = Some st \<Longrightarrow>
     st \<in> {ConditionTrue, ConditionFalse, ConditionUnknown}"
  using GetCondition_type [of a t] by (force simp: conds_wf_def status_of_def)

lemma conds_wf_status_or_None:
  "conds_wf r a \<Longrightarrow> isTerminal r t \<Longrightarrow>
     status_of a t = None \<or> status_of a t = Some ConditionTrue
     \<or> status_of a t = Some ConditionFalse \<or> status_of a t = Some ConditionUnknown"
  using conds_wf_status [of r a t] by (cases "status_of a t") auto

subsection \<open>The unhappy dependent\<close>

lemma unhappy_conditions:
  assumes "conds_wf r a" and "set_wf r"
  shows "set (by_time (filter (\<lambda>c. c_Severity c = SeverityError \<and> c_Type c \<noteq> happy r) (acc_Conditions a)))
           = {c \<in> set (acc_Conditions a). c_Type c \<in> set (dependents r)}"
  using assms by (auto simp: by_time_def conds_wf_def isTerminal_iff set_wf_def)

lemma unhappy_length:
  assumes wf: "conds_wf r a" and sw: "set_wf r"
    and len: "\<not> length (by_time (filter (\<lambda>c. c_Severity c = SeverityError \<and> c_Type c \<noteq> happy r)
                   (acc_Conditions a))) < length (dependents r)"
  shows "set (dependents r) \<subseteq> c_Type ` set (acc_Conditions a)"
proof -
  let ?cs = "by_time (filter (\<lambda>c. c_Severity c = SeverityError \<and> c_Type c \<noteq> happy r) (acc_Conditions a))"
  have sub: "c_Type ` set ?cs \<subseteq> set (dependents r)"
    unfolding unhappy_conditions [OF wf sw] by auto
  have "distinct (map c_Type ?cs)"
    unfolding by_time_def distinct_map_sort_key
    using conds_wf_distinct [OF wf] by (simp add: distinct_map_filter)
  then have "card (c_Type ` set ?cs) = length ?cs"
    using distinct_card [of "map c_Type ?cs"] by simp
  moreover have "card (set (dependents r)) = length (dependents r)"
    using sw by (simp add: set_wf_def distinct_card)
  ultimately have "c_Type ` set ?cs = set (dependents r)"
    using sub len by (intro card_seteq) auto
  then show ?thesis unfolding unhappy_conditions [OF wf sw] by blast
qed

lemma status_of_Some_iff:
  "types_distinct a \<Longrightarrow>
     status_of a t = Some st \<longleftrightarrow> (\<exists>c \<in> set (acc_Conditions a). c_Type c = t \<and> c_Status c = st)"
  by (auto simp: status_of_def GetCondition_iff)

lemma findUnhappy_None:
  assumes wf: "conds_wf r a" and sw: "set_wf r" and none: "findUnhappyDependent r a = None"
    and d: "d \<in> set (dependents r)"
  shows "status_of a d = Some ConditionTrue"
proof -
  let ?cs = "by_time (filter (\<lambda>c. c_Severity c = SeverityError \<and> c_Type c \<noteq> happy r) (acc_Conditions a))"
  from none d have F: "List.find (\<lambda>c. cond_IsFalse (Some c)) ?cs = None"
    and U: "List.find (\<lambda>c. cond_IsUnknown (Some c)) ?cs = None"
    and L: "\<not> length ?cs < length (dependents r)"
    by (auto simp: findUnhappyDependent_def Let_def split: option.splits if_splits)
  from d obtain c where c: "c \<in> set (acc_Conditions a)" "c_Type c = d"
    using unhappy_length [OF wf sw L] by auto
  then have "c \<in> set ?cs" using d by (simp add: unhappy_conditions [OF wf sw])
  with F U have "c_Status c \<noteq> ConditionFalse" "c_Status c \<noteq> ConditionUnknown"
    by (auto simp: find_None_iff)
  moreover have "c_Status c \<in> {ConditionTrue, ConditionFalse, ConditionUnknown}"
    using wf c d by (auto simp: conds_wf_def isTerminal_iff)
  ultimately show ?thesis
    using c conds_wf_distinct [OF wf] by (auto simp: status_of_Some_iff)
qed

lemma findUnhappy_Some:
  assumes wf: "conds_wf r a" and sw: "set_wf r" and some: "findUnhappyDependent r a = Some c"
  shows "c_Status c \<in> {ConditionFalse, ConditionUnknown}"
    and "\<exists>d \<in> set (dependents r). status_of a d \<noteq> Some ConditionTrue"
    and "c_Status c = ConditionFalse \<longleftrightarrow>
           (\<exists>d \<in> set (dependents r). status_of a d = Some ConditionFalse)"
proof -
  let ?cs = "by_time (filter (\<lambda>c. c_Severity c = SeverityError \<and> c_Type c \<noteq> happy r) (acc_Conditions a))"
  have cs: "e \<in> set ?cs \<longleftrightarrow> e \<in> set (acc_Conditions a) \<and> c_Type e \<in> set (dependents r)" for e
    by (simp add: unhappy_conditions [OF wf sw])
  have st: "status_of a (c_Type e) = Some (c_Status e)" if "e \<in> set (acc_Conditions a)" for e
    using that conds_wf_distinct [OF wf] by (auto simp: status_of_Some_iff)
  have FN: "status_of a d \<noteq> Some ConditionFalse"
    if "List.find (\<lambda>c. cond_IsFalse (Some c)) ?cs = None" "d \<in> set (dependents r)" for d
    using that conds_wf_distinct [OF wf] by (auto simp: status_of_Some_iff find_None_iff cs)
  consider (F) "List.find (\<lambda>c. cond_IsFalse (Some c)) ?cs = Some c"
    | (U) "List.find (\<lambda>c. cond_IsFalse (Some c)) ?cs = None"
          "List.find (\<lambda>c. cond_IsUnknown (Some c)) ?cs = Some c"
    | (L) "List.find (\<lambda>c. cond_IsFalse (Some c)) ?cs = None"
          "length ?cs < length (dependents r)" "c_Status c = ConditionUnknown"
    using some by (auto simp: findUnhappyDependent_def Let_def split: option.splits if_splits)
  then have "c_Status c \<in> {ConditionFalse, ConditionUnknown}
      \<and> (\<exists>d \<in> set (dependents r). status_of a d \<noteq> Some ConditionTrue)
      \<and> (c_Status c = ConditionFalse \<longleftrightarrow>
           (\<exists>d \<in> set (dependents r). status_of a d = Some ConditionFalse))"
  proof cases
    case F
    then have "c \<in> set ?cs" "c_Status c = ConditionFalse" by (auto simp: find_Some_iff)
    with cs [of c] st [of c] show ?thesis by force
  next
    case U
    then have "c \<in> set ?cs" "c_Status c = ConditionUnknown" by (auto simp: find_Some_iff)
    with cs [of c] st [of c] FN [OF U(1)] show ?thesis by force
  next
    case L
    have "\<exists>d \<in> set (dependents r). status_of a d = None"
    proof (rule ccontr)
      assume "\<not> ?thesis"
      then have sub: "set (dependents r) \<subseteq> c_Type ` set ?cs"
        using GetCondition_type [of a] by (force simp: cs status_of_def)
      have "card (set (dependents r)) \<le> card (c_Type ` set ?cs)"
        using sub by (intro card_mono) auto
      also have "\<dots> \<le> length ?cs"
        using card_image_le [of "set ?cs" c_Type] card_length [of ?cs] by (meson List.finite_set le_trans)
      finally show False using L(2) sw by (simp add: set_wf_def distinct_card)
    qed
    with L(3) FN [OF L(1)] show ?thesis by force
  qed
  then show "c_Status c \<in> {ConditionFalse, ConditionUnknown}"
    and "\<exists>d \<in> set (dependents r). status_of a d \<noteq> Some ConditionTrue"
    and "c_Status c = ConditionFalse \<longleftrightarrow>
           (\<exists>d \<in> set (dependents r). status_of a d = Some ConditionFalse)"
    by blast+
qed

subsection \<open>The operations\<close>

lemma recompute_wf:
  assumes "conds_wf r a" and "set_wf r"
  shows "conds_wf r (recomputeHappiness clk r t a)"
  using assms findUnhappy_Some(1) [OF assms]
  by (auto simp: recomputeHappiness_def intro!: SetCondition_mk_wf split: option.splits)

lemma recompute_other:
  assumes "conds_wf r a" and "d \<noteq> happy r"
  shows "status_of (recomputeHappiness clk r t a) d = status_of a d"
  using assms by (auto simp: recomputeHappiness_def status_SetCondition conds_wf_distinct split: option.splits)

lemma recompute_happy:
  assumes wf: "conds_wf r a" and sw: "set_wf r"
  shows "status_of (recomputeHappiness clk r t a) (happy r) =
    (if \<forall>d \<in> set (dependents r). status_of a d = Some ConditionTrue
     then (if t \<noteq> happy r then Some ConditionTrue else status_of a (happy r))
     else if \<exists>d \<in> set (dependents r). status_of a d = Some ConditionFalse
     then Some ConditionFalse else Some ConditionUnknown)"
proof (cases "findUnhappyDependent r a")
  case None
  with findUnhappy_None [OF wf sw None] show ?thesis
    by (simp add: recomputeHappiness_def status_SetCondition conds_wf_distinct [OF wf])
next
  case (Some c)
  note facts = findUnhappy_Some [OF wf sw Some]
  have "status_of (recomputeHappiness clk r t a) (happy r) = Some (c_Status c)"
    by (simp add: recomputeHappiness_def Some status_SetCondition conds_wf_distinct [OF wf])
  with facts show ?thesis by auto
qed

lemma MarkTrue_wf: "conds_wf r a \<Longrightarrow> set_wf r \<Longrightarrow> conds_wf r (MarkTrue clk r t a)"
  by (simp add: MarkTrue_def recompute_wf SetCondition_mk_wf)

lemma MarkTrueWithReason_wf:
  "conds_wf r a \<Longrightarrow> set_wf r \<Longrightarrow> conds_wf r (MarkTrueWithReason clk r t reason msg a)"
  by (simp add: MarkTrueWithReason_def recompute_wf SetCondition_mk_wf)

lemma mark_true_status:
  assumes wf: "conds_wf r a" and sw: "set_wf r" and t: "t \<in> set (dependents r)"
    and a': "a' = recomputeHappiness clk r t (SetCondition clk (mk_condition r t ConditionTrue reason msg) a)"
  shows "d \<noteq> happy r \<Longrightarrow> status_of a' d = (if d = t then Some ConditionTrue else status_of a d)"
    and "status_of a' (happy r) =
      (if \<forall>d \<in> set (dependents r) - {t}. status_of a d = Some ConditionTrue then Some ConditionTrue
       else if \<exists>d \<in> set (dependents r) - {t}. status_of a d = Some ConditionFalse
       then Some ConditionFalse else Some ConditionUnknown)"
proof -
  let ?a1 = "SetCondition clk (mk_condition r t ConditionTrue reason msg) a"
  have wf1: "conds_wf r ?a1" using wf by (simp add: SetCondition_mk_wf)
  have st: "status_of ?a1 d = (if d = t then Some ConditionTrue else status_of a d)" for d
    using conds_wf_distinct [OF wf] by (simp add: status_SetCondition)
  show "status_of a' d = (if d = t then Some ConditionTrue else status_of a d)" if "d \<noteq> happy r"
    using that by (simp add: a' recompute_other [OF wf1] st)
  have "t \<noteq> happy r" using sw t by (auto simp: set_wf_def)
  then show "status_of a' (happy r) =
      (if \<forall>d \<in> set (dependents r) - {t}. status_of a d = Some ConditionTrue then Some ConditionTrue
       else if \<exists>d \<in> set (dependents r) - {t}. status_of a d = Some ConditionFalse
       then Some ConditionFalse else Some ConditionUnknown)"
    by (auto simp: a' recompute_happy [OF wf1 sw] st split: if_splits)
qed

lemmas MarkTrue_status = mark_true_status [OF _ _ _ MarkTrue_def]
lemmas MarkTrueWithReason_status = mark_true_status [OF _ _ _ MarkTrueWithReason_def]

text \<open>What a recomputation leaves always satisfies the happiness invariant, unless it was asked to
  mark the happy condition itself.\<close>

lemma recompute_happy_inv:
  assumes wf: "conds_wf r a" and sw: "set_wf r"
  shows "happy_inv r (recomputeHappiness clk r t a)"
proof -
  have "d \<noteq> happy r" if "d \<in> set (dependents r)" for d
    using that sw by (auto simp: set_wf_def)
  then show ?thesis
    by (auto simp: happy_inv_def IsHappy_iff cond_status_iff recompute_happy [OF wf sw]
        recompute_other [OF wf] split: if_splits)
qed

lemma happy_inv_iff:
  "happy_inv r a \<longleftrightarrow> (status_of a (happy r) = Some ConditionTrue \<longrightarrow>
     (\<forall>d \<in> set (dependents r). status_of a d = Some ConditionTrue))"
  by (simp add: happy_inv_def IsHappy_iff cond_status_iff)

lemma false_types:
  "distinct ds \<Longrightarrow>
     concat (map (\<lambda>cond. if cond = t then [h] else []) ds) = (if t \<in> set ds then [h] else [])"
  by (induction ds) auto

lemma MarkFalse_eq:
  assumes "set_wf r"
  shows "MarkFalse clk r t reason msg a =
    (let a1 = SetCondition clk (mk_condition r t ConditionFalse reason msg) a in
     if t \<in> set (dependents r) then SetCondition clk (mk_condition r (happy r) ConditionFalse reason msg) a1
     else a1)"
  using assms by (simp add: MarkFalse_def set_wf_def false_types Let_def)

lemma MarkFalse_wf: "conds_wf r a \<Longrightarrow> set_wf r \<Longrightarrow> conds_wf r (MarkFalse clk r t reason msg a)"
  by (simp add: MarkFalse_eq Let_def SetCondition_mk_wf)

lemma MarkFalse_status:
  assumes "conds_wf r a" and "set_wf r"
  shows "status_of (MarkFalse clk r t reason msg a) d =
    (if d = t \<or> (d = happy r \<and> t \<in> set (dependents r)) then Some ConditionFalse else status_of a d)"
proof -
  let ?a1 = "SetCondition clk (mk_condition r t ConditionFalse reason msg) a"
  have "types_distinct ?a1" using conds_wf_distinct [OF assms(1)] by (rule SetCondition_distinct)
  then show ?thesis
    by (simp add: MarkFalse_eq [OF assms(2)] Let_def status_SetCondition conds_wf_distinct [OF assms(1)])
qed

lemma unknown_scan_eq:
  "unknown_scan a t b ds =
    (if \<exists>d \<in> set ds. status_of a d = Some ConditionFalse then None else Some (b \<or> t \<in> set ds))"
  by (induction a t b ds rule: unknown_scan.induct) (auto simp: cond_status_iff)

lemma MarkUnknown_wf: "conds_wf r a \<Longrightarrow> set_wf r \<Longrightarrow> conds_wf r (MarkUnknown clk r t reason msg a)"
  by (auto simp: MarkUnknown_def Let_def intro!: MarkFalse_wf SetCondition_mk_wf split: option.splits)

text \<open>Marking a dependent unknown makes the resource unknown, unless another dependent is false.\<close>

lemma MarkUnknown_status:
  assumes wf: "conds_wf r a" and sw: "set_wf r" and t: "t \<in> set (dependents r)"
  shows "d \<noteq> happy r \<Longrightarrow> status_of (MarkUnknown clk r t reason msg a) d =
            (if d = t then Some ConditionUnknown else status_of a d)"
    and "status_of (MarkUnknown clk r t reason msg a) (happy r) =
            (if \<exists>d \<in> set (dependents r) - {t}. status_of a d = Some ConditionFalse
             then Some ConditionFalse else Some ConditionUnknown)"
proof -
  let ?a1 = "SetCondition clk (mk_condition r t ConditionUnknown reason msg) a"
  have wf1: "conds_wf r ?a1" using wf by (simp add: SetCondition_mk_wf)
  have st: "status_of ?a1 d = (if d = t then Some ConditionUnknown else status_of a d)" for d
    using conds_wf_distinct [OF wf] by (simp add: status_SetCondition)
  have h: "happy r \<notin> set (dependents r)" using sw by (simp add: set_wf_def)
  note eqs = MarkUnknown_def Let_def unknown_scan_eq st MarkFalse_status [OF wf1 sw]
    status_SetCondition [OF conds_wf_distinct [OF wf1]] cond_status_iff
  show "status_of (MarkUnknown clk r t reason msg a) d =
            (if d = t then Some ConditionUnknown else status_of a d)" if "d \<noteq> happy r"
    using that h t by (auto simp: eqs)
  show "status_of (MarkUnknown clk r t reason msg a) (happy r) =
            (if \<exists>d \<in> set (dependents r) - {t}. status_of a d = Some ConditionFalse
             then Some ConditionFalse else Some ConditionUnknown)"
    using t h by (auto simp: eqs)
qed

lemma MarkUnknown_happy_inv:
  assumes wf: "conds_wf r a" and sw: "set_wf r" and inv: "happy_inv r a"
  shows "happy_inv r (MarkUnknown clk r t reason msg a)"
proof (cases "t \<in> set (dependents r)")
  case True
  then show ?thesis
    by (auto simp: happy_inv_iff MarkUnknown_status(2) [OF wf sw True])
next
  case False
  let ?a1 = "SetCondition clk (mk_condition r t ConditionUnknown reason msg) a"
  have wf1: "conds_wf r ?a1" using wf by (simp add: SetCondition_mk_wf)
  have h: "happy r \<notin> set (dependents r)" using sw by (simp add: set_wf_def)
  have ne: "d \<noteq> t" if "d \<in> set (dependents r)" for d using that False by blast
  show ?thesis
    using inv False h ne
    by (auto simp: happy_inv_iff MarkUnknown_def Let_def unknown_scan_eq cond_status_iff
        MarkFalse_status [OF wf1 sw] status_SetCondition [OF conds_wf_distinct [OF wf]])
qed

lemma MarkFalse_happy_inv:
  assumes wf: "conds_wf r a" and sw: "set_wf r" and inv: "happy_inv r a"
  shows "happy_inv r (MarkFalse clk r t reason msg a)"
  using inv sw by (auto simp: happy_inv_iff MarkFalse_status [OF wf sw] set_wf_def)

lemma ClearCondition_inv:
  assumes wf: "conds_wf r a" and inv: "happy_inv r a"
  shows "conds_wf r (snd (ClearCondition r t a)) \<and> happy_inv r (snd (ClearCondition r t a))"
proof (cases "isTerminal r t \<or> GetCondition a t = None")
  case True
  with wf inv show ?thesis by (auto simp: ClearCondition_def)
next
  case False
  let ?a = "snd (ClearCondition r t a)"
  have set: "set (acc_Conditions ?a) = {c \<in> set (acc_Conditions a). c_Type c \<noteq> t}"
    using False by (auto simp: ClearCondition_def)
  have "types_distinct ?a"
    using False conds_wf_distinct [OF wf]
    by (auto simp: ClearCondition_def distinct_map_sort_key distinct_map_filter)
  moreover have "status_of ?a d = status_of a d" if "d \<noteq> t" for d
    using that conds_wf_distinct [OF wf] \<open>types_distinct ?a\<close>
    by (intro option_eq_by_Some) (auto simp: status_of_Some_iff set)
  ultimately have "conds_wf r ?a" and "happy_inv r ?a"
    using wf inv False unfolding conds_wf_def happy_inv_iff isTerminal_iff set by auto metis+
  then show ?thesis ..
qed

lemma initializeTerminal_wf:
  "conds_wf r a \<Longrightarrow> st \<in> {ConditionTrue, ConditionUnknown} \<Longrightarrow> isTerminal r t \<Longrightarrow>
     conds_wf r (initializeTerminalCondition clk st t a)"
  by (auto simp: initializeTerminalCondition_def init_condition_def intro!: SetCondition_wf
      split: option.splits)

lemma initializeTerminal_status:
  "types_distinct a \<Longrightarrow>
     status_of (initializeTerminalCondition clk st t a) d =
       (if d = t \<and> status_of a t = None then Some st else status_of a d)"
proof (cases "GetCondition a t")
  case None
  then have "status_of a t = None" by (simp add: status_of_def)
  then show "types_distinct a \<Longrightarrow> ?thesis"
    by (simp add: None initializeTerminalCondition_def init_condition_def status_SetCondition)
next
  case (Some c)
  then show ?thesis by (simp add: initializeTerminalCondition_def status_of_def)
qed

lemma init_fold:
  assumes "conds_wf r a" and "st \<in> {ConditionTrue, ConditionUnknown}"
    and "set ds \<subseteq> set (dependents r)"
  shows "conds_wf r (fold (initializeTerminalCondition clk st) ds a) \<and>
    status_of (fold (initializeTerminalCondition clk st) ds a) d =
      (if d \<in> set ds \<and> status_of a d = None then Some st else status_of a d)"
  using assms
proof (induction ds arbitrary: a)
  case Nil
  then show ?case by simp
next
  case (Cons t ds)
  let ?a1 = "initializeTerminalCondition clk st t a"
  have "conds_wf r ?a1"
    using Cons.prems by (intro initializeTerminal_wf) (auto simp: isTerminal_iff)
  with Cons.IH [of ?a1] Cons.prems show ?case
    by (auto simp: initializeTerminal_status conds_wf_distinct)
qed

text \<open>
  Initialising keeps what is set, makes the happy condition unknown when it is missing, and gives
  the missing dependents the status that agrees with the happy condition.
\<close>

lemma InitializeConditions_spec:
  assumes wf: "conds_wf r a" and sw: "set_wf r"
  shows "conds_wf r (InitializeConditions clk r a)"
    and "status_of (InitializeConditions clk r a) (happy r) =
           Some (case status_of a (happy r) of None \<Rightarrow> ConditionUnknown | Some st \<Rightarrow> st)"
    and "d \<in> set (dependents r) \<Longrightarrow> status_of (InitializeConditions clk r a) d =
           (case status_of a d of
              Some st \<Rightarrow> Some st
            | None \<Rightarrow> Some (if status_of a (happy r) = Some ConditionTrue then ConditionTrue
                            else ConditionUnknown))"
proof -
  have h: "happy r \<notin> set (dependents r)" using sw by (simp add: set_wf_def)
  define st where "st = (if status_of a (happy r) = Some ConditionTrue then ConditionTrue
    else ConditionUnknown)"
  define a1 where "a1 = (case GetCondition a (happy r) of Some c \<Rightarrow> a
    | None \<Rightarrow> SetCondition clk (init_condition (happy r) ConditionUnknown) a)"
  have eq: "InitializeConditions clk r a = fold (initializeTerminalCondition clk st) (dependents r) a1"
    by (auto simp: InitializeConditions_def a1_def st_def status_of_def init_condition_def Let_def
        split: option.splits)
  have wf1: "conds_wf r a1"
    using wf by (auto simp: a1_def init_condition_def isTerminal_iff intro!: SetCondition_wf
        split: option.splits)
  have st1: "status_of a1 d = (if d = happy r \<and> status_of a (happy r) = None
      then Some ConditionUnknown else status_of a d)" for d
  proof (cases "GetCondition a (happy r)")
    case None
    then have "status_of a (happy r) = None" by (simp add: status_of_def)
    with None show ?thesis
      using conds_wf_distinct [OF wf] by (simp add: a1_def init_condition_def status_SetCondition)
  next
    case (Some c)
    then show ?thesis by (simp add: a1_def status_of_def)
  qed
  note ini = init_fold [OF wf1, of st "dependents r" clk]
  show "conds_wf r (InitializeConditions clk r a)"
    using ini by (simp add: eq st_def)
  show "status_of (InitializeConditions clk r a) (happy r) =
           Some (case status_of a (happy r) of None \<Rightarrow> ConditionUnknown | Some st \<Rightarrow> st)"
    using ini [of "happy r"] h by (simp add: eq st_def st1 split: option.splits)
  show "status_of (InitializeConditions clk r a) d =
           (case status_of a d of
              Some st \<Rightarrow> Some st
            | None \<Rightarrow> Some (if status_of a (happy r) = Some ConditionTrue then ConditionTrue
                            else ConditionUnknown))" if "d \<in> set (dependents r)"
    using ini [of d] h that by (auto simp: eq st_def st1 split: option.splits)
qed

text \<open>
  \<open>SetCondition\<close> stores whatever it is given. It fits when the severity is the one of the type and the status
  of a terminal type is one of the three, and it is modest when it neither makes the happy condition true
  nor a dependent anything else.
\<close>

fun fitting_op :: "condition_set \<Rightarrow> cond_op \<Rightarrow> bool" where
  "fitting_op r (OpSet c) \<longleftrightarrow> (c_Severity c = SeverityError) = isTerminal r (c_Type c)
     \<and> (isTerminal r (c_Type c) \<longrightarrow> c_Status c \<in> {ConditionTrue, ConditionFalse, ConditionUnknown})"
| "fitting_op r _ \<longleftrightarrow> True"

fun modest_op :: "condition_set \<Rightarrow> cond_op \<Rightarrow> bool" where
  "modest_op r (OpSet c) \<longleftrightarrow> (c_Type c = happy r \<longrightarrow> c_Status c \<noteq> ConditionTrue)
     \<and> (c_Type c \<in> set (dependents r) \<longrightarrow> c_Status c = ConditionTrue)"
| "modest_op r _ \<longleftrightarrow> True"

text \<open>Marking something true, or a dependent false or unknown, recomputes the happy condition.\<close>

fun recomputes :: "condition_set \<Rightarrow> cond_op \<Rightarrow> bool" where
  "recomputes r (OpMarkTrue t) \<longleftrightarrow> True"
| "recomputes r (OpMarkTrueWithReason t reason msg) \<longleftrightarrow> True"
| "recomputes r (OpMarkFalse t reason msg) \<longleftrightarrow> t \<in> set (dependents r)"
| "recomputes r (OpMarkUnknown t reason msg) \<longleftrightarrow> t \<in> set (dependents r)"
| "recomputes r _ \<longleftrightarrow> False"

lemma run_cond_op_wf:
  assumes wf: "conds_wf r a" and sw: "set_wf r" and "fitting_op r x"
  shows "conds_wf r (run_cond_op clk r x a)"
proof (cases x)
  case (OpClear t)
  have "conds_wf r (snd (ClearCondition r t a))"
  proof (cases "isTerminal r t \<or> GetCondition a t = None")
    case True
    with wf show ?thesis by (auto simp: ClearCondition_def)
  next
    case False
    then have "acc_Conditions (snd (ClearCondition r t a)) = sort_key c_Type (filter (\<lambda>c. c_Type c \<noteq> t) (acc_Conditions a))"
      by (auto simp: ClearCondition_def)
    with wf show ?thesis by (auto simp: conds_wf_def distinct_map_sort_key distinct_map_filter)
  qed
  then show ?thesis by (simp add: OpClear)
qed (use assms in \<open>simp_all add: MarkTrue_wf MarkTrueWithReason_wf MarkFalse_wf MarkUnknown_wf
    InitializeConditions_spec(1) SetCondition_wf\<close>)

lemma run_cond_op_inv:
  assumes wf: "conds_wf r a" and sw: "set_wf r" and inv: "happy_inv r a" and "fitting_op r x" and m: "modest_op r x"
  shows "conds_wf r (run_cond_op clk r x a) \<and> happy_inv r (run_cond_op clk r x a)"
proof (intro conjI run_cond_op_wf wf sw assms(4))
  show "happy_inv r (run_cond_op clk r x a)"
  proof (cases x)
    case (OpMarkTrue t)
    then show ?thesis using recompute_happy_inv [OF SetCondition_mk_wf [OF wf] sw] by (simp add: MarkTrue_def)
  next
    case (OpMarkTrueWithReason t reason msg)
    then show ?thesis using recompute_happy_inv [OF SetCondition_mk_wf [OF wf] sw] by (simp add: MarkTrueWithReason_def)
  next
    case (OpMarkFalse t reason msg)
    then show ?thesis using MarkFalse_happy_inv [OF wf sw inv] by simp
  next
    case (OpMarkUnknown t reason msg)
    then show ?thesis using MarkUnknown_happy_inv [OF wf sw inv] by simp
  next
    case (OpClear t)
    then show ?thesis using ClearCondition_inv [OF wf inv] by simp
  next
    case OpInitialize
    then show ?thesis
      using inv InitializeConditions_spec [OF wf sw] by (auto simp: happy_inv_iff split: option.splits)
  next
    case (OpSet c)
    then show ?thesis
      using inv m sw by (auto simp: happy_inv_iff status_SetCondition conds_wf_distinct [OF wf] set_wf_def)
  qed
qed

lemma recomputes_happy:
  assumes wf: "conds_wf r a" and sw: "set_wf r" and "recomputes r x"
  shows "happy_inv r (run_cond_op clk r x a)"
proof (cases x)
  case (OpMarkTrue t)
  then show ?thesis using recompute_happy_inv [OF SetCondition_mk_wf [OF wf] sw] by (simp add: MarkTrue_def)
next
  case (OpMarkTrueWithReason t reason msg)
  then show ?thesis using recompute_happy_inv [OF SetCondition_mk_wf [OF wf] sw] by (simp add: MarkTrueWithReason_def)
next
  case (OpMarkFalse t reason msg)
  then show ?thesis using assms(3) MarkFalse_status [OF wf sw] by (auto simp: happy_inv_iff)
next
  case (OpMarkUnknown t reason msg)
  then show ?thesis using assms(3) MarkUnknown_status(2) [OF wf sw] by (auto simp: happy_inv_iff)
qed (use assms(3) in simp_all)

text \<open>Whatever is set, conditions stay sorted with one per type.\<close>

definition conds_ordered :: "accessor \<Rightarrow> bool" where
  "conds_ordered a \<longleftrightarrow> types_distinct a \<and> sorted (map c_Type (acc_Conditions a))"

lemma SetCondition_ordered: "conds_ordered a \<Longrightarrow> conds_ordered (SetCondition clk cond a)"
  using SetCondition_distinct [of a clk cond]
  by (cases rule: SetCondition_cases [of clk cond a]) (auto simp: conds_ordered_def)

lemma fold_ordered:
  assumes "\<And>t a. conds_ordered a \<Longrightarrow> conds_ordered (f t a)"
  shows "conds_ordered a \<Longrightarrow> conds_ordered (fold f ts a)"
  by (induction ts arbitrary: a) (simp_all add: assms)

lemma recompute_ordered: "conds_ordered a \<Longrightarrow> conds_ordered (recomputeHappiness clk r t a)"
  by (simp add: recomputeHappiness_def SetCondition_ordered split: option.split)

lemma MarkFalse_ordered: "conds_ordered a \<Longrightarrow> conds_ordered (MarkFalse clk r t reason msg a)"
  unfolding MarkFalse_def by (rule fold_ordered) (simp_all add: SetCondition_ordered)

lemma run_cond_op_ordered:
  assumes "conds_ordered a"
  shows "conds_ordered (run_cond_op clk r x a)"
proof (cases x)
  case (OpClear t)
  then show ?thesis
    using assms by (auto simp: conds_ordered_def ClearCondition_def distinct_map_sort_key distinct_map_filter split: option.split)
next
  case OpInitialize
  have "conds_ordered (initializeTerminalCondition clk st t a)" if "conds_ordered a" for st t a
    using that by (simp add: initializeTerminalCondition_def SetCondition_ordered split: option.split)
  with assms show ?thesis
    by (simp add: OpInitialize InitializeConditions_def Let_def SetCondition_ordered fold_ordered split: option.split)
qed (use assms in \<open>simp_all add: MarkTrue_def MarkTrueWithReason_def MarkUnknown_def Let_def SetCondition_ordered
    recompute_ordered MarkFalse_ordered split: option.split\<close>)

lemma run_cond_ops_ordered: "conds_ordered a \<Longrightarrow> conds_ordered (fold (run_cond_op clk r) ops a)"
  by (rule fold_ordered [OF run_cond_op_ordered])

lemma run_cond_ops_wf:
  "conds_wf r a \<Longrightarrow> set_wf r \<Longrightarrow> list_all (fitting_op r) ops \<Longrightarrow> conds_wf r (fold (run_cond_op clk r) ops a)"
  by (induction ops arbitrary: a) (simp_all add: run_cond_op_wf)

lemma run_cond_ops_inv:
  "conds_wf r a \<Longrightarrow> set_wf r \<Longrightarrow> happy_inv r a \<Longrightarrow> list_all (\<lambda>x. fitting_op r x \<and> modest_op r x) ops \<Longrightarrow>
     happy_inv r (fold (run_cond_op clk r) ops a)"
  by (induction ops arbitrary: a) (simp_all add: run_cond_op_inv)

subsection \<open>Properties\<close>

text \<open>C23: Any sequence of the condition manager's operations, \<open>SetCondition\<close> with any condition among them, leaves
  an object that had no conditions with one condition per type, sorted by type. When the conditions that
  were set fit, severity is error exactly on the terminal types and these are true, false or unknown; when
  they also were modest, the happy condition is true only when every dependent is. And after any fitting
  sequence, modest or not, the next operation that recomputes the happy condition makes this so again.\<close>

theorem condition_runs_keep_invariant:
  assumes "r = newConditionSet hp ds" and "a = fold (run_cond_op clk r) ops empty_accessor"
  shows "distinct (map c_Type (acc_Conditions a)) \<and> sorted (map c_Type (acc_Conditions a))
    \<and> (list_all (fitting_op r) ops \<longrightarrow> conds_wf r a)
    \<and> (list_all (fitting_op r) ops \<and> list_all (modest_op r) ops \<longrightarrow> happy_inv r a)
    \<and> (list_all (fitting_op r) ops \<longrightarrow> (\<forall>x. recomputes r x \<longrightarrow> happy_inv r (run_cond_op clk r x a)))"
proof -
  have sw: "set_wf r" by (simp add: assms(1) newConditionSet_wf)
  have "conds_wf r empty_accessor" "happy_inv r empty_accessor" "conds_ordered empty_accessor"
    by (simp_all add: conds_wf_def empty_accessor_def happy_inv_def IsHappy_def GetTopLevelCondition_def GetCondition_def conds_ordered_def)
  moreover have "list_all (\<lambda>x. fitting_op r x \<and> modest_op r x) ops" if "list_all (fitting_op r) ops" "list_all (modest_op r) ops"
    using that by (simp add: list_all_iff)
  ultimately show ?thesis
    using run_cond_ops_wf [OF _ sw] run_cond_ops_inv [OF _ sw] run_cond_ops_ordered recomputes_happy [OF _ sw]
    unfolding assms(2) conds_ordered_def by blast
qed

text \<open>A dependent set to false behind the manager's back leaves a ready object; marking the other dependent true
  again notices it.\<close>

theorem condition_runs_keep_invariant_witness:
  "let r = NewLivingConditionSet [''A'', ''B''];
       a = fold (run_cond_op (\<lambda>n. n) r) [OpMarkTrue ''A'', OpMarkTrue ''B'', OpSet (mk_condition r ''A'' ConditionFalse ''gone'' '''')] empty_accessor
   in IsHappy r a \<and> \<not> happy_inv r a \<and> conds_wf r a \<and> happy_inv r (run_cond_op (\<lambda>n. n) r (OpMarkTrue ''B'') a)
     \<and> map c_Type (acc_Conditions a) = [''A'', ''B'', ''Ready'']"
proof -
  define r where "r = newConditionSet ConditionReady [''A'', ''B'']"
  define ops where "ops = [OpMarkTrue ''A'', OpMarkTrue ''B'', OpSet (mk_condition r ''A'' ConditionFalse ''gone'' '''')]"
  define a where "a = fold (run_cond_op (\<lambda>n. n) r) ops empty_accessor"
  have fit: "list_all (fitting_op r) ops" by (simp add: ops_def)
  have "recomputes r (OpMarkTrue ''B'')" by simp
  then have "conds_wf r a \<and> happy_inv r (run_cond_op (\<lambda>n. n) r (OpMarkTrue ''B'') a)"
    using condition_runs_keep_invariant [OF r_def a_def] fit by blast
  moreover have "IsHappy r a \<and> \<not> happy_inv r a \<and> map c_Type (acc_Conditions a) = [''A'', ''B'', ''Ready'']"
    unfolding a_def ops_def r_def by code_simp
  ultimately show ?thesis
    unfolding Let_def NewLivingConditionSet_def r_def [symmetric] ops_def [symmetric] a_def [symmetric] by blast
qed

end
