(* ===== verification/RouteApi.thy ===== *)
theory RouteApi
  imports Kube Conditions
begin

text \<open>
  The Knative \<open>Route\<close> as serving defines it: its traffic targets, its status, and the status
  operations of \<open>route_lifecycle.go\<close> the controller calls. A status operation runs a condition
  manager over the conditions stored in the status; the second component of a managed status is
  the number of clock readings so far.
\<close>

subsection \<open>Types\<close>

record traffic_target =
  tt_Tag :: string
  tt_RevisionName :: string
  tt_ConfigurationName :: string
  tt_LatestRevision :: "bool option"
  tt_Percent :: "64 word option"
  tt_URL :: "string option"

record route_spec =
  rsp_Traffic :: "traffic_target list"

record route_status =
  rst_ObservedGeneration :: int
  rst_Conditions :: "condition list"
  rst_Annotations :: strmap
  rst_URL :: "string option"
  rst_Address :: "string option"
  rst_Traffic :: "traffic_target list"

type_synonym route = "(route_spec, route_status) kobject"

type_synonym managed_status = "route_status \<times> nat"

definition RouteConditionReady :: condition_type where
  "RouteConditionReady = ConditionReady"

definition RouteConditionAllTrafficAssigned :: condition_type where
  "RouteConditionAllTrafficAssigned = ''AllTrafficAssigned''"

definition RouteConditionIngressReady :: condition_type where
  "RouteConditionIngressReady = ''IngressReady''"

definition RouteConditionCertificateProvisioned :: condition_type where
  "RouteConditionCertificateProvisioned = ''CertificateProvisioned''"

definition routeCondSet :: condition_set where
  "routeCondSet = NewLivingConditionSet
     [RouteConditionAllTrafficAssigned, RouteConditionIngressReady,
      RouteConditionCertificateProvisioned]"

definition IngressConditionReady :: condition_type where
  "IngressConditionReady = ConditionReady"

definition AutoTLSNotEnabledMessage :: string where
  "AutoTLSNotEnabledMessage = ''autoTLS is not enabled''"

subsection \<open>Status operations\<close>

definition manage :: "(accessor \<Rightarrow> accessor) \<Rightarrow> managed_status \<Rightarrow> managed_status" where
  "manage f rs =
     (let a = f \<lparr>acc_Conditions = rst_Conditions (fst rs), acc_Reads = snd rs\<rparr>
      in ((fst rs)\<lparr>rst_Conditions := acc_Conditions a\<rparr>, acc_Reads a))"

definition route_GetCondition :: "route_status \<Rightarrow> condition_type \<Rightarrow> condition option" where
  "route_GetCondition rs t = List.find (\<lambda>c. c_Type c = t) (rst_Conditions rs)"

definition route_InitializeConditions :: "clock \<Rightarrow> managed_status \<Rightarrow> managed_status" where
  "route_InitializeConditions clk = manage (InitializeConditions clk routeCondSet)"

definition MarkTrafficAssigned :: "clock \<Rightarrow> managed_status \<Rightarrow> managed_status" where
  "MarkTrafficAssigned clk = manage (MarkTrue clk routeCondSet RouteConditionAllTrafficAssigned)"

definition MarkIngressNotConfigured :: "clock \<Rightarrow> managed_status \<Rightarrow> managed_status" where
  "MarkIngressNotConfigured clk =
     manage (MarkUnknown clk routeCondSet RouteConditionIngressReady
       ''IngressNotConfigured'' ''Ingress has not yet been reconciled.'')"

text \<open>The message of \<open>MarkTLSNotEnabled\<close> is a format without operands too; the callers pass constants without
  verbs, of which \<open>fmt.Sprintf\<close> makes themselves.\<close>

definition MarkTLSNotEnabled :: "clock \<Rightarrow> string \<Rightarrow> managed_status \<Rightarrow> managed_status" where
  "MarkTLSNotEnabled clk msg =
     manage (MarkTrueWithReason clk routeCondSet RouteConditionCertificateProvisioned
       ''TLSNotEnabled'' msg)"

text \<open>
  \<open>PropagateIngressStatus\<close>: \<open>sprintf0\<close> is \<open>fmt.Sprintf\<close> applied to a format with no
  operands; the message of a false or unknown ingress condition is used as such a format.
\<close>

definition PropagateIngressStatus ::
  "clock \<Rightarrow> (string \<Rightarrow> string) \<Rightarrow> condition list \<Rightarrow> managed_status \<Rightarrow> managed_status" where
  "PropagateIngressStatus clk sprintf0 cs rs =
     (case List.find (\<lambda>c. c_Type c = IngressConditionReady) cs of
        None \<Rightarrow> MarkIngressNotConfigured clk rs
      | Some cc \<Rightarrow>
          (case c_Status cc of
             ConditionTrue \<Rightarrow> manage (MarkTrue clk routeCondSet RouteConditionIngressReady) rs
           | ConditionFalse \<Rightarrow> manage (MarkFalse clk routeCondSet RouteConditionIngressReady
               (c_Reason cc) (sprintf0 (c_Message cc))) rs
           | ConditionUnknown \<Rightarrow> manage (MarkUnknown clk routeCondSet RouteConditionIngressReady
               (c_Reason cc) (sprintf0 (c_Message cc))) rs
           | ConditionOther _ \<Rightarrow> rs))"

definition route_IsReady :: "route \<Rightarrow> bool" where
  "route_IsReady r \<longleftrightarrow>
     rst_ObservedGeneration (obj_status r) = om_Generation (obj_meta r)
     \<and> cond_IsTrue (route_GetCondition (obj_status r) RouteConditionReady)"

definition route_IsFailed :: "route \<Rightarrow> bool" where
  "route_IsFailed r \<longleftrightarrow>
     rst_ObservedGeneration (obj_status r) = om_Generation (obj_meta r)
     \<and> cond_IsFalse (route_GetCondition (obj_status r) RouteConditionReady)"

subsection \<open>Lemmas\<close>

definition status_acc :: "managed_status \<Rightarrow> accessor" where
  "status_acc rs = \<lparr>acc_Conditions = rst_Conditions (fst rs), acc_Reads = snd rs\<rparr>"

definition route_conds_wf :: "route_status \<Rightarrow> bool" where
  "route_conds_wf rs \<longleftrightarrow> conds_wf routeCondSet (status_acc (rs, 0))"

lemma status_acc_manage [simp]: "status_acc (manage f rs) = f (status_acc rs)"
  by (simp add: status_acc_def manage_def Let_def)

lemma conds_wf_reads: "acc_Conditions a = acc_Conditions b \<Longrightarrow> conds_wf r a = conds_wf r b"
  by (simp add: conds_wf_def)

lemma route_conds_wf_acc: "route_conds_wf (fst ms) \<longleftrightarrow> conds_wf routeCondSet (status_acc ms)"
  unfolding route_conds_wf_def by (rule conds_wf_reads) (simp add: status_acc_def)

lemma route_GetCondition_acc: "route_GetCondition (fst ms) t = GetCondition (status_acc ms) t"
  by (simp add: route_GetCondition_def GetCondition_def status_acc_def)

lemma routeCondSet_wf [simp]: "set_wf routeCondSet"
  by (simp add: routeCondSet_def NewLivingConditionSet_def newConditionSet_wf)

lemma routeCondSet_simps [simp]:
  "happy routeCondSet = RouteConditionReady"
  "set (dependents routeCondSet) = {RouteConditionAllTrafficAssigned, RouteConditionIngressReady,
      RouteConditionCertificateProvisioned}"
  by (auto simp: routeCondSet_def NewLivingConditionSet_def RouteConditionReady_def ConditionReady_def
      RouteConditionAllTrafficAssigned_def RouteConditionIngressReady_def
      RouteConditionCertificateProvisioned_def)

lemma route_condition_types [simp]:
  "RouteConditionReady \<noteq> RouteConditionAllTrafficAssigned"
  "RouteConditionReady \<noteq> RouteConditionIngressReady"
  "RouteConditionReady \<noteq> RouteConditionCertificateProvisioned"
  "RouteConditionAllTrafficAssigned \<noteq> RouteConditionReady"
  "RouteConditionAllTrafficAssigned \<noteq> RouteConditionIngressReady"
  "RouteConditionAllTrafficAssigned \<noteq> RouteConditionCertificateProvisioned"
  "RouteConditionIngressReady \<noteq> RouteConditionReady"
  "RouteConditionIngressReady \<noteq> RouteConditionAllTrafficAssigned"
  "RouteConditionIngressReady \<noteq> RouteConditionCertificateProvisioned"
  "RouteConditionCertificateProvisioned \<noteq> RouteConditionReady"
  "RouteConditionCertificateProvisioned \<noteq> RouteConditionAllTrafficAssigned"
  "RouteConditionCertificateProvisioned \<noteq> RouteConditionIngressReady"
  by (simp_all add: RouteConditionReady_def ConditionReady_def RouteConditionAllTrafficAssigned_def
      RouteConditionIngressReady_def RouteConditionCertificateProvisioned_def)

abbreviation route_st :: "managed_status \<Rightarrow> condition_type \<Rightarrow> condition_status option" where
  "route_st ms t \<equiv> status_of (status_acc ms) t"

lemma manage_frame:
  "rst_ObservedGeneration (fst (manage f rs)) = rst_ObservedGeneration (fst rs)"
  "rst_Annotations (fst (manage f rs)) = rst_Annotations (fst rs)"
  "rst_URL (fst (manage f rs)) = rst_URL (fst rs)"
  "rst_Address (fst (manage f rs)) = rst_Address (fst rs)"
  "rst_Traffic (fst (manage f rs)) = rst_Traffic (fst rs)"
  by (simp_all add: manage_def Let_def)

text \<open>What the controller does to a ready route: the ingress and certificate conditions become true,
  and the route is as ready as its traffic assignment.\<close>

lemma PropagateIngressStatus_true:
  "List.find (\<lambda>c. c_Type c = IngressConditionReady) cs = Some cc \<Longrightarrow> c_Status cc = ConditionTrue \<Longrightarrow>
     PropagateIngressStatus clk sprintf0 cs ms = manage (MarkTrue clk routeCondSet RouteConditionIngressReady) ms"
  by (simp add: PropagateIngressStatus_def)

lemma ready_status:
  assumes wf: "route_conds_wf (fst ms)"
    and ms': "ms' = MarkTLSNotEnabled clk msg (manage (MarkTrue clk routeCondSet RouteConditionIngressReady) ms)"
  shows "route_st ms' RouteConditionIngressReady = Some ConditionTrue"
    and "route_st ms' RouteConditionCertificateProvisioned = Some ConditionTrue"
    and "route_st ms' RouteConditionAllTrafficAssigned = route_st ms RouteConditionAllTrafficAssigned"
    and "route_st ms' RouteConditionReady =
          (case route_st ms RouteConditionAllTrafficAssigned of
             None \<Rightarrow> Some ConditionUnknown | Some st \<Rightarrow> Some st)"
    and "route_conds_wf (fst ms')"
proof -
  let ?a = "status_acc ms"
  let ?a1 = "MarkTrue clk routeCondSet RouteConditionIngressReady ?a"
  have wfa: "conds_wf routeCondSet ?a" using wf by (simp add: route_conds_wf_acc)
  have wf1: "conds_wf routeCondSet ?a1" using wfa by (simp add: MarkTrue_wf)
  have acc: "status_acc ms' = MarkTrueWithReason clk routeCondSet RouteConditionCertificateProvisioned
      ''TLSNotEnabled'' msg ?a1"
    by (simp add: ms' MarkTLSNotEnabled_def)
  note m1 = MarkTrue_status [OF wfa routeCondSet_wf, of RouteConditionIngressReady]
  note m2 = MarkTrueWithReason_status [OF wf1 routeCondSet_wf, of RouteConditionCertificateProvisioned]
  show "route_st ms' RouteConditionIngressReady = Some ConditionTrue"
    "route_st ms' RouteConditionCertificateProvisioned = Some ConditionTrue"
    "route_st ms' RouteConditionAllTrafficAssigned = route_st ms RouteConditionAllTrafficAssigned"
    by (simp_all add: acc m1 m2)
  have "isTerminal routeCondSet RouteConditionAllTrafficAssigned" by (simp add: isTerminal_iff)
  then have tr: "route_st ms RouteConditionAllTrafficAssigned = None
      \<or> route_st ms RouteConditionAllTrafficAssigned = Some ConditionTrue
      \<or> route_st ms RouteConditionAllTrafficAssigned = Some ConditionFalse
      \<or> route_st ms RouteConditionAllTrafficAssigned = Some ConditionUnknown"
    by (rule conds_wf_status_or_None [OF wfa])
  have deps: "set (dependents routeCondSet) - {RouteConditionCertificateProvisioned}
      = {RouteConditionAllTrafficAssigned, RouteConditionIngressReady}"
    by auto
  have "route_st ms' (happy routeCondSet) =
      (if route_st ms RouteConditionAllTrafficAssigned = Some ConditionTrue then Some ConditionTrue
       else if route_st ms RouteConditionAllTrafficAssigned = Some ConditionFalse
       then Some ConditionFalse else Some ConditionUnknown)"
    unfolding acc by (subst m2(2)) (simp_all only: deps, simp_all add: m1)
  with tr show "route_st ms' RouteConditionReady =
          (case route_st ms RouteConditionAllTrafficAssigned of
             None \<Rightarrow> Some ConditionUnknown | Some st \<Rightarrow> Some st)"
    by auto
  show "route_conds_wf (fst ms')"
    unfolding route_conds_wf_acc acc using wf1 by (simp add: MarkTrueWithReason_wf)
qed

lemma not_ready_status:
  assumes wf: "route_conds_wf (fst ms)" and ms': "ms' = MarkIngressNotConfigured clk ms"
  shows "route_st ms' RouteConditionIngressReady = Some ConditionUnknown"
    and "t \<noteq> RouteConditionIngressReady \<Longrightarrow> t \<noteq> RouteConditionReady \<Longrightarrow> route_st ms' t = route_st ms t"
    and "route_st ms' RouteConditionReady \<noteq> Some ConditionTrue"
    and "route_conds_wf (fst ms')"
proof -
  let ?a = "status_acc ms"
  have wfa: "conds_wf routeCondSet ?a" using wf by (simp add: route_conds_wf_acc)
  note m = MarkUnknown_status [OF wfa routeCondSet_wf, of RouteConditionIngressReady]
  have acc: "status_acc ms' = MarkUnknown clk routeCondSet RouteConditionIngressReady
      ''IngressNotConfigured'' ''Ingress has not yet been reconciled.'' ?a"
    by (simp add: ms' MarkIngressNotConfigured_def)
  show "route_st ms' RouteConditionIngressReady = Some ConditionUnknown"
    "t \<noteq> RouteConditionIngressReady \<Longrightarrow> t \<noteq> RouteConditionReady \<Longrightarrow> route_st ms' t = route_st ms t"
    by (simp_all add: acc m)
  show "route_st ms' RouteConditionReady \<noteq> Some ConditionTrue"
    using MarkUnknown_status(2) [OF wfa routeCondSet_wf, of RouteConditionIngressReady]
    by (auto simp: acc split: if_splits)
  show "route_conds_wf (fst ms')"
    unfolding route_conds_wf_acc acc using wfa by (simp add: MarkUnknown_wf)
qed


subsection \<open>Properties\<close>

text \<open>The status an ingress condition propagates to.\<close>

fun propagated :: "condition option \<Rightarrow> condition_status option" where
  "propagated None = Some ConditionUnknown"
| "propagated (Some c) = (case c_Status c of ConditionOther _ \<Rightarrow> None | st \<Rightarrow> Some st)"

text \<open>Propagating an ingress status sets the route's ingress condition to the status of its ready
  condition, to unknown when there is none, and to nothing for a status that is no known one; a false
  ingress makes the route not ready at once.\<close>

theorem PropagateIngressStatus_outcome:
  assumes wf: "route_conds_wf (fst ms)" and ms': "ms' = PropagateIngressStatus clk sprintf0 cs ms"
  shows "route_conds_wf (fst ms')
    \<and> (case propagated (List.find (\<lambda>c. c_Type c = IngressConditionReady) cs) of
        None \<Rightarrow> ms' = ms
      | Some st \<Rightarrow> route_st ms' RouteConditionIngressReady = Some st
          \<and> (if st = ConditionFalse then route_st ms' RouteConditionReady = Some ConditionFalse else True))"
proof -
  have wfa: "conds_wf routeCondSet (status_acc ms)" using wf by (simp add: route_conds_wf_acc)
  have dep: "RouteConditionIngressReady \<in> set (dependents routeCondSet)" by simp
  note facts = MarkTrue_status(1) [OF wfa routeCondSet_wf dep] MarkFalse_status [OF wfa routeCondSet_wf]
    MarkUnknown_status(1) [OF wfa routeCondSet_wf dep]
    MarkTrue_wf [OF wfa routeCondSet_wf] MarkFalse_wf [OF wfa routeCondSet_wf] MarkUnknown_wf [OF wfa routeCondSet_wf]
  show ?thesis
  proof (cases "List.find (\<lambda>c. c_Type c = IngressConditionReady) cs")
    case None
    then show ?thesis
      using facts by (simp add: ms' PropagateIngressStatus_def MarkIngressNotConfigured_def route_conds_wf_acc)
  next
    case (Some cc)
    then show ?thesis
      using facts wf by (cases "c_Status cc") (simp_all add: ms' PropagateIngressStatus_def route_conds_wf_acc)
  qed
qed

theorem PropagateIngressStatus_outcome_witness:
  "route_st (PropagateIngressStatus (\<lambda>n. n) (\<lambda>m. m)
      [\<lparr>c_Type = IngressConditionReady, c_Status = ConditionFalse, c_Severity = SeverityError,
        c_LastTransitionTime = 0, c_Reason = ''r'', c_Message = ''m''\<rparr>]
      (\<lparr>rst_ObservedGeneration = 0, rst_Conditions = [], rst_Annotations = None, rst_URL = None,
        rst_Address = None, rst_Traffic = []\<rparr>, 0)) RouteConditionReady = Some ConditionFalse"
  using PropagateIngressStatus_outcome [OF _ refl, of
      "(\<lparr>rst_ObservedGeneration = 0, rst_Conditions = [], rst_Annotations = None, rst_URL = None,
        rst_Address = None, rst_Traffic = []\<rparr>, 0)" "\<lambda>n. n" "\<lambda>m. m"
      "[\<lparr>c_Type = IngressConditionReady, c_Status = ConditionFalse, c_Severity = SeverityError,
        c_LastTransitionTime = 0, c_Reason = ''r'', c_Message = ''m''\<rparr>]"]
  by (simp add: route_conds_wf_def conds_wf_def status_acc_def)

end
