(* ===== verification/Hosts.thy ===== *)
theory Hosts
  imports ConfigStore Kube RouteApi
begin

text \<open>
  The host names of a route: \<open>resources/utils.go\<close> (tag and domain templates), the DNS validation
  of apimachinery it calls, \<open>ingress.ExpandedHosts\<close>, and \<open>VisibilityToDomain\<close> of
  \<open>resources/gateway.go\<close>. Templates that are literal text and \<open>{{.Field}}\<close> actions over the
  string fields are interpreted here; any other template, and one that does not parse, is handed to
  the context's \<open>ctx_Template\<close>. A string is a list of bytes.
\<close>

subsection \<open>Templates\<close>

datatype template_node = TChar char | TField string

record template_values =
  tv_Fields :: "(string \<times> string) list"
  tv_Maps :: "(string \<times> strmap) list"

type_synonym template_ext = "string \<Rightarrow> template_values \<Rightarrow> string result"

record go_context =
  ctx_Config :: ctx_value
  ctx_ClusterDomain :: string
  ctx_Template :: template_ext
  ctx_DomainOrder :: key_order

definition letter :: "char \<Rightarrow> bool" where
  "letter c = (let n = of_char c :: nat in 65 \<le> n \<and> n \<le> 90 \<or> 97 \<le> n \<and> n \<le> 122)"

lemma dropWhile_drop_le: "length (dropWhile P (drop n xs)) - k \<le> length xs"
  using length_dropWhile_le [of P "drop n xs"] by simp

function tparse :: "string \<Rightarrow> template_node list option" where
  "tparse [] = Some []"
| "tparse (c # cs) =
     (if take 3 (c # cs) = ''{{.'' then
        (let field = takeWhile letter (drop 2 cs); rest = dropWhile letter (drop 2 cs)
         in if field \<noteq> [] \<and> take 2 rest = ''}}''
            then map_option (\<lambda>ns. TField field # ns) (tparse (drop 2 rest)) else None)
      else if take 2 (c # cs) = ''{{'' then None
      else map_option (\<lambda>ns. TChar c # ns) (tparse cs))"
  by pat_completeness auto
termination
  by (relation "measure length") (simp_all add: less_Suc_eq_le dropWhile_drop_le)

fun texec :: "(string \<times> string) list \<Rightarrow> template_node list \<Rightarrow> string option" where
  "texec flds [] = Some []"
| "texec flds (TChar c # ns) = map_option (\<lambda>s. c # s) (texec flds ns)"
| "texec flds (TField f # ns) =
     (case map_of flds f of
        None \<Rightarrow> None
      | Some v \<Rightarrow> map_option (\<lambda>s. v @ s) (texec flds ns))"

definition template_Execute :: "template_ext \<Rightarrow> string \<Rightarrow> template_values \<Rightarrow> string result" where
  "template_Execute ext templ data =
     (case tparse templ of
        None \<Rightarrow> ext templ data
      | Some ns \<Rightarrow> (case texec (tv_Fields data) ns of None \<Rightarrow> ext templ data | Some s \<Rightarrow> Inr s))"

definition DefaultDomainTemplate :: string where
  "DefaultDomainTemplate = ''{{.Name}}.{{.Namespace}}.{{.Domain}}''"

definition DefaultTagTemplate :: string where
  "DefaultTagTemplate = ''{{.Tag}}-{{.Name}}''"

definition TagTemplateValues :: "string \<Rightarrow> string \<Rightarrow> template_values" where
  "TagTemplateValues name tag = \<lparr>tv_Fields = [(''Name'', name), (''Tag'', tag)], tv_Maps = []\<rparr>"

definition DomainTemplateValues ::
  "string \<Rightarrow> string \<Rightarrow> string \<Rightarrow> strmap \<Rightarrow> strmap \<Rightarrow> template_values" where
  "DomainTemplateValues name namespace domain annotations labels =
     \<lparr>tv_Fields = [(''Name'', name), (''Namespace'', namespace), (''Domain'', domain)],
      tv_Maps = [(''Annotations'', annotations), (''Labels'', labels)]\<rparr>"

subsection \<open>DNS validation\<close>

definition dns_alnum :: "char \<Rightarrow> bool" where
  "dns_alnum c = (let n = of_char c :: nat in 97 \<le> n \<and> n \<le> 122 \<or> 48 \<le> n \<and> n \<le> 57)"

definition dns_inner :: "char \<Rightarrow> bool" where
  "dns_inner c \<longleftrightarrow> c = CHR ''-'' \<or> dns_alnum c"

text \<open>\<open>[a-z0-9]([-a-z0-9]*[a-z0-9])?\<close>, and that repeated with dots between.\<close>

definition dns1123LabelRegexp :: "string \<Rightarrow> bool" where
  "dns1123LabelRegexp s =
     (case s of
        [] \<Rightarrow> False
      | c # cs \<Rightarrow> dns_alnum c \<and> (cs = [] \<or> list_all dns_inner (butlast cs) \<and> dns_alnum (last cs)))"

definition dns1123SubdomainRegexp :: "string \<Rightarrow> bool" where
  "dns1123SubdomainRegexp s = list_all dns1123LabelRegexp (split_on CHR ''.'' s)"

definition dns1123LabelFmt :: string where
  "dns1123LabelFmt = ''[a-z0-9]([-a-z0-9]*[a-z0-9])?''"

definition RegexError_label :: string where
  "RegexError_label =
     ''a lowercase RFC 1123 label must consist of lower case alphanumeric characters or '-', and must start and end with an alphanumeric character''
     @ '' (e.g. 'my-name',  or '123-abc', regex used for validation is ''
     @ [CHR 39] @ dns1123LabelFmt @ [CHR 39] @ '')''"

definition RegexError_subdomain :: string where
  "RegexError_subdomain =
     ''a lowercase RFC 1123 subdomain must consist of lower case alphanumeric characters, '-' or '.', and must start and end with an alphanumeric character''
     @ '' (e.g. 'example.com', regex used for validation is ''
     @ [CHR 39] @ dns1123LabelFmt @ ''('' @ [CHR 92] @ ''.'' @ dns1123LabelFmt @ '')*'' @ [CHR 39] @ '')''"

definition IsDNS1123Label :: "string \<Rightarrow> string list" where
  "IsDNS1123Label value =
     (if length value > 63 then [''must be no more than 63 characters''] else [])
     @ (if \<not> dns1123LabelRegexp value then [RegexError_label] else [])"

definition IsDNS1123Subdomain :: "string \<Rightarrow> string list" where
  "IsDNS1123Subdomain value =
     (if length value > 253 then [''must be no more than 253 characters''] else [])
     @ (if \<not> dns1123SubdomainRegexp value then [RegexError_subdomain] else [])"

datatype field_error = FieldRequired string | FieldInvalid string string string

fun first_label_error :: "string \<Rightarrow> string list \<Rightarrow> field_error list" where
  "first_label_error fldPath [] = []"
| "first_label_error fldPath (l # ls) =
     (if IsDNS1123Label l \<noteq> [] then [FieldInvalid fldPath l (join_with '','' (IsDNS1123Label l))]
      else first_label_error fldPath ls)"

definition IsFullyQualifiedDomainName :: "string \<Rightarrow> string \<Rightarrow> field_error list" where
  "IsFullyQualifiedDomainName fldPath name0 =
     (if name0 = [] then [FieldRequired fldPath]
      else let name = (if has_suffix name0 ''.'' then take (length name0 - 1) name0 else name0) in
        if IsDNS1123Subdomain name \<noteq> []
        then [FieldInvalid fldPath name (join_with '','' (IsDNS1123Subdomain name))]
        else if length (split_on CHR ''.'' name) < 2
        then [FieldInvalid fldPath name
                ''should be a domain with at least two segments separated by dots'']
        else first_label_error fldPath (split_on CHR ''.'' name))"

definition field_error_text :: "field_error \<Rightarrow> string" where
  "field_error_text e =
     (case e of
        FieldRequired f \<Rightarrow> f @ '': Required value''
      | FieldInvalid f v d \<Rightarrow> f @ '': Invalid value: '' @ [CHR 34] @ v @ [CHR 34] @ '': '' @ d)"

text \<open>\<open>ToAggregate\<close> of the errors above, of which there is at most one.\<close>

definition ToAggregate :: "field_error list \<Rightarrow> goerr" where
  "ToAggregate es = ErrorString (join_with '', '' (remdups (map field_error_text es)))"

subsection \<open>Host names from templates\<close>

definition ctx_config :: "go_context \<Rightarrow> config result" where
  "ctx_config ctx =
     rbind (FromContext (ctx_Config ctx))
       (\<lambda>p. case p of None \<Rightarrow> Inl (Panic NilDeref) | Some c \<Rightarrow> Inr c)"

definition wrap_fail :: "string \<Rightarrow> 'a result \<Rightarrow> 'a result" where
  "wrap_fail msg r = (case r of Inl (Fail e) \<Rightarrow> Inl (Fail (WrapError msg e)) | _ \<Rightarrow> r)"

definition HostnameFromTemplate :: "go_context \<Rightarrow> string \<Rightarrow> string \<Rightarrow> string result" where
  "HostnameFromTemplate ctx name tag =
     (if tag = '''' then Inr name
      else rbind (ctx_config ctx) (\<lambda>cfg.
        wrap_fail ''error executing the TagTemplate''
          (template_Execute (ctx_Template ctx) (nc_TagTemplate (cfg_Network cfg))
             (TagTemplateValues name tag))))"

definition DomainNameFromTemplate :: "go_context \<Rightarrow> object_meta \<Rightarrow> string \<Rightarrow> string result" where
  "DomainNameFromTemplate ctx r name =
     rbind (ctx_config ctx) (\<lambda>cfg.
       let rLabels = om_Labels r;
           domain = LookupDomainForLabels (ctx_ClusterDomain ctx) (ctx_DomainOrder ctx)
                      (cfg_Domain cfg) rLabels;
           data = DomainTemplateValues name (om_Namespace r) domain (om_Annotations r) rLabels;
           templ = (if sget rLabels VisibilityLabelKey = VisibilityClusterLocal
                    then DefaultDomainTemplate else nc_DomainTemplate (cfg_Network cfg))
       in rbind (wrap_fail ''error executing the DomainTemplate''
                   (template_Execute (ctx_Template ctx) templ data)) (\<lambda>buf.
          let urlErrs = IsFullyQualifiedDomainName ''url'' buf in
          if urlErrs \<noteq> []
          then Inl (Fail (WrapError (''invalid domain name '' @ [CHR 34] @ buf @ [CHR 34])
                                    (ToAggregate urlErrs)))
          else Inr buf))"

subsection \<open>Expanded hosts\<close>

definition isValidTopLevelDomain :: "string \<Rightarrow> bool" where
  "isValidTopLevelDomain domain =
     (let parts = split_on CHR ''.'' domain; tld = parts ! (length parts - 1) in
      if length tld > 63 then False
      else list_ex (\<lambda>c. c = CHR ''-'' \<or> (of_char c :: nat) > 57) tld)"

definition expand_one :: "string \<Rightarrow> string \<Rightarrow> strset \<Rightarrow> strset" where
  "expand_one h suffix expanded =
     (let th = trim_suffix h suffix in
      if suffix = '''' \<or> length th < length h
      then if isValidTopLevelDomain th then sset_insert th expanded else expanded
      else expanded)"

definition ExpandedHosts :: "string \<Rightarrow> strset \<Rightarrow> strset" where
  "ExpandedHosts cluster_domain hosts =
     (let allowedSuffixes = ['''', ''.'' @ cluster_domain, ''.svc.'' @ cluster_domain]
      in fold (\<lambda>h expanded. fold (expand_one h) allowedSuffixes expanded) (sset_list hosts) [])"

subsection \<open>Hosts per visibility\<close>

definition VisibilityToDomain ::
  "go_context \<Rightarrow> string \<Rightarrow> route \<Rightarrow> (string, string list) gomap result" where
  "VisibilityToDomain ctx targetName r =
     rbind (HostnameFromTemplate ctx (om_Name (obj_meta r)) targetName) (\<lambda>hostname.
       let vis = sget (om_Labels (obj_meta r)) VisibilityLabelKey;
           visibility = (if vis = '''' then DefaultVisibilityName else vis);
           meta = obj_meta r
       in rbind (if visibility \<noteq> VisibilityClusterLocal
                 then rbind (DomainNameFromTemplate ctx meta hostname) (\<lambda>d. Inr [d]) else Inr [])
            (\<lambda>domains.
          let m1 = AList.update visibility domains [] in
          rbind (mput VisibilityLabelKey VisibilityClusterLocal (om_Labels meta)) (\<lambda>labels.
          rbind (DomainNameFromTemplate ctx (meta\<lparr>om_Labels := labels\<rparr>) hostname) (\<lambda>domain.
            let expanded = sset_list (ExpandedHosts (ctx_ClusterDomain ctx) [domain])
            in Inr (AList.update VisibilityClusterLocal expanded m1)))))"

subsection \<open>Lemmas\<close>

lemma tparse_defaults:
  "tparse DefaultDomainTemplate = Some [TField ''Name'', TChar CHR ''.'', TField ''Namespace'',
     TChar CHR ''.'', TField ''Domain'']"
  "tparse DefaultTagTemplate = Some [TField ''Tag'', TChar CHR ''-'', TField ''Name'']"
  by (simp_all add: DefaultDomainTemplate_def DefaultTagTemplate_def letter_def Let_def)

lemma template_Execute_default:
  "template_Execute ext DefaultDomainTemplate (DomainTemplateValues name ns domain ann labels)
     = Inr (name @ ''.'' @ ns @ ''.'' @ domain)"
  "template_Execute ext DefaultTagTemplate (TagTemplateValues name tag) = Inr (tag @ ''-'' @ name)"
  by (simp_all add: template_Execute_def tparse_defaults DomainTemplateValues_def TagTemplateValues_def)

lemma dns1123LabelRegexp_iff:
  "dns1123LabelRegexp s \<longleftrightarrow> s \<noteq> [] \<and> dns_alnum (hd s) \<and> dns_alnum (last s) \<and> list_all dns_inner s"
proof (cases s)
  case (Cons c cs)
  have "list_all dns_inner cs \<longleftrightarrow> list_all dns_inner (butlast cs) \<and> dns_inner (last cs)" if "cs \<noteq> []"
    using that by (induction cs) auto
  then show ?thesis by (cases "cs = []") (auto simp: dns1123LabelRegexp_def Cons dns_inner_def)
qed (simp add: dns1123LabelRegexp_def)

lemma first_label_error_iff:
  "first_label_error f ls = [] \<longleftrightarrow> (\<forall>l \<in> set ls. IsDNS1123Label l = [])"
  by (induction f ls rule: first_label_error.induct) auto

lemma IsDNS1123Label_iff: "IsDNS1123Label l = [] \<longleftrightarrow> length l \<le> 63 \<and> dns1123LabelRegexp l"
  by (auto simp: IsDNS1123Label_def not_less)

lemma IsDNS1123Subdomain_iff:
  "IsDNS1123Subdomain s = [] \<longleftrightarrow> length s \<le> 253 \<and> (\<forall>l \<in> set (split_on CHR ''.'' s). dns1123LabelRegexp l)"
  by (auto simp: IsDNS1123Subdomain_def dns1123SubdomainRegexp_def list_all_iff not_less)

text \<open>
  Fully qualified domain names, apart from the code: at least two labels with dots between, at most 253
  characters, and possibly a closing dot. A label has 1 to 63 lower case letters, digits and hyphens, and
  neither starts nor ends with a hyphen.
\<close>

definition label_char :: "char \<Rightarrow> bool" where
  "label_char c \<longleftrightarrow> CHR ''a'' \<le> c \<and> c \<le> CHR ''z'' \<or> CHR ''0'' \<le> c \<and> c \<le> CHR ''9'' \<or> c = CHR ''-''"

definition dns_label :: "string \<Rightarrow> bool" where
  "dns_label l \<longleftrightarrow> 1 \<le> length l \<and> length l \<le> 63 \<and> (\<forall>c \<in> set l. label_char c)
     \<and> l ! 0 \<noteq> CHR ''-'' \<and> l ! (length l - 1) \<noteq> CHR ''-''"

primrec dotted :: "string list \<Rightarrow> string" where
  "dotted [] = ''''"
| "dotted (l # ls) = l @ concat (map (\<lambda>k. CHR ''.'' # k) ls)"

definition fqdn :: "string \<Rightarrow> bool" where
  "fqdn s \<longleftrightarrow> (\<exists>ls. (s = dotted ls \<or> s = dotted ls @ ''.'') \<and> 2 \<le> length ls \<and> length (dotted ls) \<le> 253
     \<and> (\<forall>l \<in> set ls. dns_label l))"

lemma label_char_iff: "label_char c \<longleftrightarrow> dns_inner c"
  by (auto simp: label_char_def dns_inner_def dns_alnum_def less_eq_char_def Let_def)

lemma dns_alnum_iff: "dns_alnum c \<longleftrightarrow> dns_inner c \<and> c \<noteq> CHR ''-''"
proof -
  have "\<not> dns_alnum CHR ''-''" by (simp add: dns_alnum_def)
  then show ?thesis by (auto simp: dns_inner_def)
qed

lemma dns_label_iff: "dns_label l \<longleftrightarrow> length l \<le> 63 \<and> dns1123LabelRegexp l"
proof (cases "l = []")
  case False
  have ends: "hd l \<in> set l" "last l \<in> set l" using False by simp_all
  have "dns_label l \<longleftrightarrow> length l \<le> 63 \<and> list_all dns_inner l \<and> hd l \<noteq> CHR ''-'' \<and> last l \<noteq> CHR ''-''"
    using False by (auto simp: dns_label_def label_char_iff list_all_iff hd_conv_nth last_conv_nth Suc_le_eq)
  also have "\<dots> \<longleftrightarrow> length l \<le> 63 \<and> list_all dns_inner l \<and> dns_alnum (hd l) \<and> dns_alnum (last l)"
    using ends by (auto simp: list_all_iff dns_alnum_iff)
  finally show ?thesis using False by (auto simp: dns1123LabelRegexp_iff)
qed (simp add: dns_label_def dns1123LabelRegexp_def)

lemma dns_label_no_dot: "dns_label l \<Longrightarrow> CHR ''.'' \<notin> set l"
proof
  have "\<not> label_char CHR ''.''" by (simp add: label_char_def less_eq_char_def)
  moreover assume "dns_label l" "CHR ''.'' \<in> set l"
  ultimately show False unfolding dns_label_def by blast
qed

lemma split_dotted: "ls \<noteq> [] \<Longrightarrow> \<forall>l \<in> set ls. CHR ''.'' \<notin> set l \<Longrightarrow> split_on CHR ''.'' (dotted ls) = ls"
proof (induction ls)
  case (Cons l ls)
  show ?case
  proof (cases ls)
    case Nil
    then show ?thesis using Cons.prems by (simp add: split_on_no_sep)
  next
    case (Cons k ks)
    have "dotted (l # ls) = l @ CHR ''.'' # dotted ls" by (simp add: Cons)
    then show ?thesis using Cons.IH Cons.prems by (simp only: split_on_app) (simp add: Cons split_on_app)
  qed
qed simp

lemma dotted_join: "dotted ls = join_with ''.'' ls"
proof (induction ls)
  case (Cons l ls)
  then show ?case by (cases ls) simp_all
qed simp

lemma split_on_end: "\<exists>q ps. split_on c (p @ [c]) = q # ps @ [[]]"
proof (induction p)
  case (Cons x p)
  then obtain q ps where "split_on c (p @ [c]) = q # ps @ [[]]" by blast
  then show ?case by (cases "x = c") (auto intro: exI [of _ "q # ps"])
qed simp

lemma dotted_end: "ls \<noteq> [] \<Longrightarrow> \<forall>l \<in> set ls. dns_label l \<Longrightarrow> \<not> has_suffix (dotted ls) ''.''"
proof
  assume ls: "ls \<noteq> []" "\<forall>l \<in> set ls. dns_label l" and "has_suffix (dotted ls) ''.''"
  then obtain p where p: "dotted ls = p @ ''.''" by (auto simp: has_suffix_iff)
  have "split_on CHR ''.'' (dotted ls) = ls" using ls dns_label_no_dot by (intro split_dotted) auto
  moreover have "[] \<in> set (split_on CHR ''.'' (p @ ''.''))" using split_on_end [of "CHR ''.''" p] by auto
  ultimately have "[] \<in> set ls" by (simp add: p)
  with ls(2) show False by (auto simp: dns_label_def)
qed

lemma fqdn_iff:
  "fqdn s \<longleftrightarrow> (let n = trim_suffix s ''.'' in s \<noteq> [] \<and> length n \<le> 253 \<and> 2 \<le> length (split_on CHR ''.'' n)
     \<and> (\<forall>l \<in> set (split_on CHR ''.'' n). length l \<le> 63 \<and> dns1123LabelRegexp l))" (is "?L = ?R")
proof
  assume ?L
  then obtain ls where ls: "s = dotted ls \<or> s = dotted ls @ ''.''" "2 \<le> length ls" "length (dotted ls) \<le> 253"
      "\<forall>l \<in> set ls. dns_label l"
    unfolding fqdn_def by blast
  have ne: "ls \<noteq> []" using ls(2) by auto
  have "trim_suffix s ''.'' = dotted ls"
    using ls(1) dotted_end [OF ne ls(4)] by (auto simp: trim_suffix_other)
  moreover have "split_on CHR ''.'' (dotted ls) = ls" using ls(4) ne dns_label_no_dot by (intro split_dotted) auto
  moreover have "s \<noteq> []" using ls ne by (cases ls) (auto simp: dns_label_def)
  ultimately show ?R using ls by (simp add: Let_def dns_label_iff)
next
  assume ?R
  let ?n = "trim_suffix s ''.''" and ?ls = "split_on CHR ''.'' (trim_suffix s ''.'')"
  have "dotted ?ls = ?n" by (simp add: dotted_join)
  moreover have "s = ?n \<or> s = ?n @ ''.''" by (cases "has_suffix s ''.''") (auto simp: has_suffix_iff trim_suffix_other)
  ultimately show ?L
    using \<open>?R\<close> unfolding fqdn_def Let_def by (intro exI [of _ ?ls]) (simp add: dns_label_iff)
qed

lemma IsFullyQualifiedDomainName_iff: "IsFullyQualifiedDomainName f s = [] \<longleftrightarrow> fqdn s"
proof -
  have "trim_suffix s ''.'' = (if has_suffix s ''.'' then take (length s - 1) s else s)"
    by (simp add: trim_suffix_def)
  then show ?thesis
    by (auto simp: IsFullyQualifiedDomainName_def fqdn_iff Let_def first_label_error_iff
        IsDNS1123Label_iff IsDNS1123Subdomain_iff not_less)
qed

lemma first_label_error_one: "length (first_label_error f ls) \<le> 1"
  by (induction f ls rule: first_label_error.induct) auto

lemma wrap_fail_eq_Inr [simp]: "wrap_fail msg r = Inr x \<longleftrightarrow> r = Inr x"
  by (auto simp: wrap_fail_def split: sum.splits fault.splits)

lemma wrap_fail_Inr [simp]: "wrap_fail msg (Inr x) = Inr x"
  by (simp add: wrap_fail_def)

text \<open>Expansion: a host, and the host without the cluster domain or without \<open>svc\<close> and it.\<close>

definition expansions :: "string \<Rightarrow> string \<Rightarrow> string set" where
  "expansions cd h = {h} \<union> {th. h = th @ ''.'' @ cd} \<union> {th. h = th @ ''.svc.'' @ cd}"

lemma set_expand_one:
  "set (expand_one h suf ex) = set ex \<union> {th. h = th @ suf \<and> isValidTopLevelDomain th}"
proof (cases "has_suffix h suf")
  case True
  then obtain p where p: "h = p @ suf" by (auto simp: has_suffix_iff)
  then show ?thesis by (auto simp: expand_one_def)
next
  case False
  then have "suf \<noteq> []" "\<And>th. h \<noteq> th @ suf" by (auto simp: has_suffix_iff)
  with False show ?thesis by (simp add: expand_one_def trim_suffix_other)
qed

lemma set_expand_suffixes:
  "set (fold (expand_one h) sufs ex) = set ex \<union> {th. \<exists>suf \<in> set sufs. h = th @ suf \<and> isValidTopLevelDomain th}"
  by (induction sufs arbitrary: ex) (auto simp: set_expand_one)

lemma set_expand_all:
  "set (fold (\<lambda>h ex. fold (expand_one h) sufs ex) hs ex)
     = set ex \<union> {th. \<exists>h \<in> set hs. \<exists>suf \<in> set sufs. h = th @ suf \<and> isValidTopLevelDomain th}"
  by (induction hs arbitrary: ex) (auto simp: set_expand_suffixes)

lemma set_ExpandedHosts:
  "set (ExpandedHosts cd hosts) = {th. \<exists>h \<in> set hosts. th \<in> expansions cd h \<and> isValidTopLevelDomain th}"
  unfolding ExpandedHosts_def Let_def set_expand_all by (auto simp: expansions_def)

lemma DomainNameFromTemplate_fqdn: "DomainNameFromTemplate ctx r name = Inr d \<Longrightarrow> fqdn d"
  by (auto simp: DomainNameFromTemplate_def Let_def IsFullyQualifiedDomainName_iff split: if_splits)

definition local_domain :: "go_context \<Rightarrow> string \<Rightarrow> string \<Rightarrow> string" where
  "local_domain ctx name ns = name @ ''.'' @ ns @ ''.svc.'' @ ctx_ClusterDomain ctx"

lemma DomainNameFromTemplate_local:
  assumes "sget (om_Labels r) VisibilityLabelKey = VisibilityClusterLocal" and "ctx_config ctx = Inr cfg"
  shows "DomainNameFromTemplate ctx r name = Inr d \<longleftrightarrow>
     d = local_domain ctx name (om_Namespace r) \<and> fqdn d"
  using assms by (auto simp: DomainNameFromTemplate_def Let_def LookupDomain_cluster_local local_domain_def
      template_Execute_default IsFullyQualifiedDomainName_iff split: if_splits)

lemma DomainNameFromTemplate_ctx: "DomainNameFromTemplate ctx r name = Inr d \<Longrightarrow> \<exists>cfg. ctx_config ctx = Inr cfg"
  by (auto simp: DomainNameFromTemplate_def)

definition route_visibility :: "route \<Rightarrow> string" where
  "route_visibility r = (let v = sget (om_Labels (obj_meta r)) VisibilityLabelKey in
     if v = '''' then DefaultVisibilityName else v)"

lemma VisibilityToDomain_unfold:
  "VisibilityToDomain ctx tag r =
     rbind (HostnameFromTemplate ctx (om_Name (obj_meta r)) tag) (\<lambda>host.
     rbind (if route_visibility r \<noteq> VisibilityClusterLocal
            then rbind (DomainNameFromTemplate ctx (obj_meta r) host) (\<lambda>d. Inr [d]) else Inr []) (\<lambda>domains.
     rbind (mput VisibilityLabelKey VisibilityClusterLocal (om_Labels (obj_meta r))) (\<lambda>labels.
     rbind (DomainNameFromTemplate ctx ((obj_meta r)\<lparr>om_Labels := labels\<rparr>) host) (\<lambda>domain.
       Inr (AList.update VisibilityClusterLocal (sset_list (ExpandedHosts (ctx_ClusterDomain ctx) [domain]))
              (AList.update (route_visibility r) domains []))))))"
  by (simp add: VisibilityToDomain_def route_visibility_def Let_def)

text \<open>What \<open>VisibilityToDomain\<close> returns: at the route's own visibility the external domain, at
  \<open>cluster-local\<close> the expansions of the local domain, and nothing else.\<close>

definition local_hosts :: "go_context \<Rightarrow> string \<Rightarrow> string \<Rightarrow> string list" where
  "local_hosts ctx host ns = sset_list (ExpandedHosts (ctx_ClusterDomain ctx) [local_domain ctx host ns])"

lemma sget_mput: "mput k v m = Inr m' \<Longrightarrow> sget m' k = v"
  by (simp add: sget_def mput_lookup)

lemma VisibilityToDomain_okE:
  assumes "VisibilityToDomain ctx tag r = Inr m"
  obtains host where "HostnameFromTemplate ctx (om_Name (obj_meta r)) tag = Inr host"
    and "om_Labels (obj_meta r) \<noteq> None"
    and "fqdn (local_domain ctx host (om_Namespace (obj_meta r)))"
    and "map_of m VisibilityClusterLocal = Some (local_hosts ctx host (om_Namespace (obj_meta r)))"
    and "route_visibility r \<noteq> VisibilityClusterLocal \<Longrightarrow>
           \<exists>d. DomainNameFromTemplate ctx (obj_meta r) host = Inr d \<and> map_of m (route_visibility r) = Some [d]"
    and "dom (map_of m) = {route_visibility r, VisibilityClusterLocal}"
proof -
  obtain host domains labels domain where run:
    "HostnameFromTemplate ctx (om_Name (obj_meta r)) tag = Inr host"
    "(if route_visibility r \<noteq> VisibilityClusterLocal
      then rbind (DomainNameFromTemplate ctx (obj_meta r) host) (\<lambda>d. Inr [d]) else Inr []) = Inr domains"
    "mput VisibilityLabelKey VisibilityClusterLocal (om_Labels (obj_meta r)) = Inr labels"
    "DomainNameFromTemplate ctx ((obj_meta r)\<lparr>om_Labels := labels\<rparr>) host = Inr domain"
    "m = AList.update VisibilityClusterLocal (sset_list (ExpandedHosts (ctx_ClusterDomain ctx) [domain]))
              (AList.update (route_visibility r) domains [])"
    using assms unfolding VisibilityToDomain_unfold by (auto simp del: split_paired_Ex)
  obtain cfg where cfg: "ctx_config ctx = Inr cfg" using DomainNameFromTemplate_ctx [OF run(4)] by blast
  have "domain = local_domain ctx host (om_Namespace (obj_meta r)) \<and> fqdn domain"
    using DomainNameFromTemplate_local [of "(obj_meta r)\<lparr>om_Labels := labels\<rparr>" ctx cfg host domain]
      run(4) cfg sget_mput [OF run(3)] by auto
  moreover have "om_Labels (obj_meta r) \<noteq> None" using run(3) by (auto simp: mput_def split: option.splits)
  ultimately show ?thesis
    using that run(1,2,5) by (auto simp: update_conv' local_hosts_def split: if_splits)
qed

lemma VisibilityToDomain_nil_labels:
  assumes "om_Labels (obj_meta r) = None"
    and "HostnameFromTemplate ctx (om_Name (obj_meta r)) tag = Inr host"
    and "DomainNameFromTemplate ctx (obj_meta r) host = Inr d"
  shows "VisibilityToDomain ctx tag r = Inl (Panic NilMapWrite)"
  using assms by (auto simp: VisibilityToDomain_unfold mput_def route_visibility_def sget_def Let_def)

lemma VisibilityToDomain_okI:
  assumes "om_Labels (obj_meta r) \<noteq> None"
    and "HostnameFromTemplate ctx (om_Name (obj_meta r)) tag = Inr host"
    and "route_visibility r \<noteq> VisibilityClusterLocal \<Longrightarrow> DomainNameFromTemplate ctx (obj_meta r) host = Inr d"
    and "ctx_config ctx = Inr cfg" and "fqdn (local_domain ctx host (om_Namespace (obj_meta r)))"
  shows "\<exists>m. VisibilityToDomain ctx tag r = Inr m"
proof -
  obtain labels where l: "mput VisibilityLabelKey VisibilityClusterLocal (om_Labels (obj_meta r)) = Inr labels"
    using assms(1) by (auto simp: mput_def)
  have "DomainNameFromTemplate ctx ((obj_meta r)\<lparr>om_Labels := labels\<rparr>) host
      = Inr (local_domain ctx host (om_Namespace (obj_meta r)))"
    using DomainNameFromTemplate_local [of "(obj_meta r)\<lparr>om_Labels := labels\<rparr>" ctx cfg host]
      assms(4,5) sget_mput [OF l] by simp
  then show ?thesis
    using assms(2,3) l by (auto simp: VisibilityToDomain_unfold)
qed


subsection \<open>Properties\<close>

text \<open>C38: The check passes exactly the fully qualified domain names: two labels at least with dots between
  them, 253 characters at most, and possibly one closing dot, where a label has 1 to 63 lower case letters,
  digits and hyphens and neither starts nor ends with a hyphen. For any other name it reports one error.\<close>

theorem IsFullyQualifiedDomainName_decides:
  "(IsFullyQualifiedDomainName path name = [] \<longleftrightarrow> fqdn name)
   \<and> (length (IsFullyQualifiedDomainName path name) = 1 \<longleftrightarrow> \<not> fqdn name)"
proof -
  have "length (IsFullyQualifiedDomainName path name) \<le> 1"
    using first_label_error_one by (simp add: IsFullyQualifiedDomainName_def Let_def)
  then have "length (IsFullyQualifiedDomainName path name) = 1 \<longleftrightarrow> IsFullyQualifiedDomainName path name \<noteq> []"
    by (cases "IsFullyQualifiedDomainName path name") auto
  with IsFullyQualifiedDomainName_iff show ?thesis by blast
qed

text \<open>The expanded hosts of a set are its hosts, and each of them without the cluster domain, with or
  without the \<open>svc\<close> label, whose last label is a possible top level domain; nothing else.\<close>

theorem ExpandedHosts_exact:
  "set (ExpandedHosts cd hosts) = {th. \<exists>h \<in> set hosts. th \<in> expansions cd h \<and> isValidTopLevelDomain th}"
  by (rule set_ExpandedHosts)


text \<open>C20: When \<open>VisibilityToDomain\<close> returns, its map has the route's own visibility and
  \<open>cluster-local\<close> and no other key: at \<open>cluster-local\<close> the expansions of the local name of the host, at
  any other visibility one fully qualified domain.\<close>

theorem VisibilityToDomain_result:
  assumes "VisibilityToDomain ctx tag r = Inr m"
  shows "\<exists>host. HostnameFromTemplate ctx (om_Name (obj_meta r)) tag = Inr host
    \<and> map_of m VisibilityClusterLocal = Some (local_hosts ctx host (om_Namespace (obj_meta r)))
    \<and> fqdn (local_domain ctx host (om_Namespace (obj_meta r)))
    \<and> dom (map_of m) = {route_visibility r, VisibilityClusterLocal}
    \<and> (if route_visibility r = VisibilityClusterLocal then True
       else \<exists>d. map_of m (route_visibility r) = Some [d] \<and> fqdn d)"
  by (rule VisibilityToDomain_okE [OF assms]) (auto intro: DomainNameFromTemplate_fqdn)

text \<open>An example: a configuration with the defaults and a route of it.\<close>

definition demo_table :: gateway_table where
  "demo_table = \<lparr>gt_Gateways = Some
     [(DefaultVisibilityName, Some \<lparr>gc_GatewayClass = ''istio'', gc_Namespace = ''istio-system'', gc_Address = ''''\<rparr>),
      (VisibilityClusterLocal, Some default_local_gateway)]\<rparr>"

definition demo_config :: config where
  "demo_config = \<lparr>cfg_Domain = \<lparr>dc_Domains = [(''example.com'', \<lparr>ls_Selector = None\<rparr>)]\<rparr>,
     cfg_Network = \<lparr>nc_DomainTemplate = DefaultDomainTemplate, nc_TagTemplate = DefaultTagTemplate\<rparr>,
     cfg_Features = None, cfg_Gateway = demo_table\<rparr>"

definition demo_ctx :: go_context where
  "demo_ctx = \<lparr>ctx_Config = ToContext demo_config, ctx_ClusterDomain = ''cluster.local'',
     ctx_Template = (\<lambda>t v. Inl (Fail (ErrorString t))), ctx_DomainOrder = id\<rparr>"

definition demo_meta :: object_meta where
  "demo_meta = zero_meta\<lparr>om_Name := ''app'', om_Namespace := ''prod'', om_Labels := Some []\<rparr>"

definition demo_target :: traffic_target where
  "demo_target = \<lparr>tt_Tag = '''', tt_RevisionName = ''app-1'', tt_ConfigurationName = ''app'',
     tt_LatestRevision = None, tt_Percent = Some 100, tt_URL = None\<rparr>"

definition demo_status :: route_status where
  "demo_status = \<lparr>rst_ObservedGeneration = 0, rst_Conditions = [], rst_Annotations = None, rst_URL = None,
     rst_Address = None, rst_Traffic = [demo_target]\<rparr>"

lemma demo_ctx_config [simp]: "ctx_config demo_ctx = Inr demo_config"
  by (simp add: ctx_config_def demo_ctx_def FromContext_def ToContext_def)

theorem VisibilityToDomain_result_witness:
  "\<exists>m. VisibilityToDomain demo_ctx '''' \<lparr>obj_meta = demo_meta, obj_spec = \<lparr>rsp_Traffic = []\<rparr>, obj_status = demo_status\<rparr>
      = Inr m \<and> map_of m VisibilityClusterLocal = Some (local_hosts demo_ctx ''app'' ''prod'')"
proof -
  let ?r = "\<lparr>obj_meta = demo_meta, obj_spec = \<lparr>rsp_Traffic = []\<rparr>, obj_status = demo_status\<rparr> :: route"
  have d: "DomainNameFromTemplate demo_ctx demo_meta ''app'' = Inr ''app.prod.example.com''" by code_simp
  have f: "fqdn (local_domain demo_ctx ''app'' ''prod'')"
    unfolding IsFullyQualifiedDomainName_iff [of "''url''", symmetric] by code_simp
  have h: "HostnameFromTemplate demo_ctx ''app'' '''' = Inr ''app''" by (simp add: HostnameFromTemplate_def)
  obtain m where m: "VisibilityToDomain demo_ctx '''' ?r = Inr m"
    using VisibilityToDomain_okI [of ?r demo_ctx "''''" "''app''" "''app.prod.example.com''" demo_config] d f h
    by (auto simp: demo_meta_def)
  from VisibilityToDomain_result [OF m] h m show ?thesis by (auto simp: demo_meta_def)
qed

text \<open>A route without a label map can never be expanded: writing the visibility label into the nil map
  panics, unless an earlier step has failed already.\<close>

theorem VisibilityToDomain_needs_labels:
  assumes "om_Labels (obj_meta r) = None"
  shows "(\<forall>m. VisibilityToDomain ctx tag r \<noteq> Inr m)
    \<and> (if (\<exists>host d. HostnameFromTemplate ctx (om_Name (obj_meta r)) tag = Inr host
            \<and> DomainNameFromTemplate ctx (obj_meta r) host = Inr d)
       then VisibilityToDomain ctx tag r = Inl (Panic NilMapWrite) else True)"
proof
  show "\<forall>m. VisibilityToDomain ctx tag r \<noteq> Inr m"
    using assms by (auto elim: VisibilityToDomain_okE)
qed (auto intro: VisibilityToDomain_nil_labels [OF assms])

theorem VisibilityToDomain_needs_labels_witness:
  "VisibilityToDomain demo_ctx '''' \<lparr>obj_meta = demo_meta\<lparr>om_Labels := None\<rparr>, obj_spec = \<lparr>rsp_Traffic = []\<rparr>,
      obj_status = demo_status\<rparr> = Inl (Panic NilMapWrite)"
proof -
  let ?r = "\<lparr>obj_meta = demo_meta\<lparr>om_Labels := None\<rparr>, obj_spec = \<lparr>rsp_Traffic = []\<rparr>, obj_status = demo_status\<rparr> :: route"
  have "HostnameFromTemplate demo_ctx (om_Name (obj_meta ?r)) '''' = Inr ''app''"
    by (simp add: HostnameFromTemplate_def demo_meta_def)
  moreover have "DomainNameFromTemplate demo_ctx (obj_meta ?r) ''app'' = Inr ''app.prod.example.com''" by code_simp
  ultimately show ?thesis
    using VisibilityToDomain_needs_labels [of ?r demo_ctx "''''"] by auto
qed

end
