(* ===== verification/GatewayApi.thy ===== *)
theory GatewayApi
  imports Kube
begin

text \<open>
  The resources the controller creates: \<open>Gateway\<close> and \<open>HTTPRoute\<close> of the Gateway API
  (\<open>v1alpha1\<close>) and the core \<open>Service\<close>, with the semantic equality the reconciler compares
  desired and observed specs by. Under semantic equality a nil slice or map equals an empty one,
  so slices are lists; a nil slice is kept apart only in the route status, where the code tests it.
\<close>

subsection \<open>Types\<close>

record local_ref =
  lr_Group :: string
  lr_Kind :: string
  lr_Name :: string

record label_requirement =
  lq_Key :: string
  lq_Operator :: string
  lq_Values :: "string list"

record meta_selector =
  ms_MatchLabels :: strmap
  ms_MatchExpressions :: "label_requirement list"

record meta_condition =
  mc_Type :: string
  mc_Status :: string
  mc_ObservedGeneration :: int
  mc_LastTransitionTime :: nat
  mc_Reason :: string
  mc_Message :: string

record gateway_tls =
  tls_Mode :: string
  tls_CertificateRef :: "local_ref option"
  tls_RouteOverrideCertificate :: string
  tls_Options :: strmap

record route_namespaces =
  rn_From :: string
  rn_Selector :: meta_selector

record route_binding =
  rb_Namespaces :: route_namespaces
  rb_Selector :: meta_selector
  rb_Group :: string
  rb_Kind :: string

record listener =
  li_Hostname :: "string option"
  li_Port :: "32 word"
  li_Protocol :: string
  li_TLS :: "gateway_tls option"
  li_Routes :: route_binding

record gateway_address =
  ga_Type :: string
  ga_Value :: string

record gateway_spec =
  gs_GatewayClassName :: string
  gs_Listeners :: "listener list"
  gs_Addresses :: "gateway_address list"

record listener_status =
  lst_Port :: "32 word"
  lst_Protocol :: string
  lst_Hostname :: "string option"
  lst_Conditions :: "meta_condition list"

record gateway_status =
  gst_Addresses :: "gateway_address list"
  gst_Conditions :: "meta_condition list"
  gst_Listeners :: "listener_status list"

type_synonym gateway = "(gateway_spec, gateway_status) kobject"

record gateway_ref =
  gr_Name :: string
  gr_Namespace :: string

record route_gateways =
  rg_Allow :: string
  rg_GatewayRefs :: "gateway_ref list"

record header_filter =
  hf_Set :: strmap
  hf_Add :: strmap
  hf_Remove :: "string list"

record mirror_filter =
  mf_ServiceName :: "string option"
  mf_BackendRef :: "local_ref option"
  mf_Port :: "32 word option"

record httproute_filter =
  rf_Type :: string
  rf_RequestHeaderModifier :: "header_filter option"
  rf_RequestMirror :: "mirror_filter option"
  rf_ExtensionRef :: "local_ref option"

record forward_to =
  fw_ServiceName :: "string option"
  fw_BackendRef :: "local_ref option"
  fw_Port :: "32 word option"
  fw_Weight :: "32 word"
  fw_Filters :: "httproute_filter list"

record header_match =
  hm_Type :: string
  hm_Values :: strmap

record httproute_match =
  rm_PathType :: string
  rm_PathValue :: string
  rm_Headers :: "header_match option"
  rm_ExtensionRef :: "local_ref option"

record httproute_rule =
  rr_Matches :: "httproute_match list"
  rr_Filters :: "httproute_filter list"
  rr_ForwardTo :: "forward_to list"

record httproute_spec =
  hs_Gateways :: route_gateways
  hs_Hostnames :: "string list"
  hs_TLS :: "local_ref option"
  hs_Rules :: "httproute_rule list"

record route_gateway_status =
  rgs_GatewayRef :: gateway_ref
  rgs_Conditions :: "meta_condition list"

record httproute_status =
  hst_Gateways :: "route_gateway_status list option"

type_synonym httproute = "(httproute_spec, httproute_status) kobject"

datatype int_or_string = FromInt "32 word" | FromString string

record service_port =
  sp_Name :: string
  sp_Protocol :: string
  sp_AppProtocol :: "string option"
  sp_Port :: "32 word"
  sp_TargetPort :: int_or_string
  sp_NodePort :: "32 word"

record service_spec =
  ss_Ports :: "service_port list"
  ss_Selector :: strmap
  ss_ClusterIP :: string
  ss_ClusterIPs :: "string list"
  ss_Type :: string
  ss_ExternalIPs :: "string list"
  ss_SessionAffinity :: string
  ss_LoadBalancerIP :: string
  ss_LoadBalancerSourceRanges :: "string list"
  ss_ExternalName :: string
  ss_ExternalTrafficPolicy :: string
  ss_HealthCheckNodePort :: "32 word"
  ss_PublishNotReadyAddresses :: bool
  ss_SessionAffinityTimeout :: "32 word option option"
  ss_TopologyKeys :: "string list"
  ss_IPFamilies :: "string list"
  ss_IPFamilyPolicy :: "string option"
  ss_AllocateLoadBalancerNodePorts :: "bool option"

record service_status =
  svs_Ingress :: "string list"

type_synonym service = "(service_spec, service_status) kobject"

text \<open>The other kinds of the API group, which the generated clients also serve.\<close>

record gatewayclass_spec =
  gcs_Controller :: string
  gcs_ParametersRef :: "(local_ref \<times> string \<times> string) option"

record gatewayclass_status =
  gcst_Conditions :: "meta_condition list"

type_synonym gatewayclass = "(gatewayclass_spec, gatewayclass_status) kobject"

record backend_ref =
  br_Group :: string
  br_Kind :: string
  br_Name :: string
  br_Port :: "32 word option"

record backend_tls =
  bt_CertificateAuthorityRef :: "local_ref option"
  bt_Options :: strmap

record backendpolicy_spec =
  bp_BackendRefs :: "backend_ref list"
  bp_TLS :: "backend_tls option"

record backendpolicy_status =
  bpst_Conditions :: "meta_condition list"

type_synonym backendpolicy = "(backendpolicy_spec, backendpolicy_status) kobject"

record route_forward =
  rfw_ServiceName :: "string option"
  rfw_BackendRef :: "local_ref option"
  rfw_Port :: "32 word option"
  rfw_Weight :: "32 word"

record l4_match =
  l4m_SNIs :: "string list"
  l4m_ExtensionRef :: "local_ref option"

record l4_rule =
  l4_Matches :: "l4_match list"
  l4_ForwardTo :: "route_forward list"

record l4_spec =
  l4s_Rules :: "l4_rule list"
  l4s_Gateways :: route_gateways

record l4_status =
  l4st_Gateways :: "route_gateway_status list option"

text \<open>TCP, TLS and UDP routes share one shape; only the match of a TLS route has SNIs.\<close>

datatype l4_kind = TCPKind | TLSKind | UDPKind

type_synonym l4_route = "(l4_spec, l4_status) kobject"

definition ConditionRouteAdmitted :: string where
  "ConditionRouteAdmitted = ''Admitted''"

definition metav1_ConditionTrue :: string where
  "metav1_ConditionTrue = ''True''"

subsection \<open>Semantic equality\<close>

definition DeepEqual_ptr :: "('a \<Rightarrow> 'a \<Rightarrow> bool) \<Rightarrow> 'a option \<Rightarrow> 'a option \<Rightarrow> bool" where
  "DeepEqual_ptr eq p q =
     (case (p, q) of (None, None) \<Rightarrow> True | (Some x, Some y) \<Rightarrow> eq x y | _ \<Rightarrow> False)"

definition DeepEqual_slice :: "('a \<Rightarrow> 'a \<Rightarrow> bool) \<Rightarrow> 'a list \<Rightarrow> 'a list \<Rightarrow> bool" where
  "DeepEqual_slice eq xs ys \<longleftrightarrow> length xs = length ys \<and> list_all (\<lambda>(x, y). eq x y) (zip xs ys)"

definition DeepEqual_selector :: "meta_selector \<Rightarrow> meta_selector \<Rightarrow> bool" where
  "DeepEqual_selector a b \<longleftrightarrow> DeepEqual_map (ms_MatchLabels a) (ms_MatchLabels b)
     \<and> ms_MatchExpressions a = ms_MatchExpressions b"

definition DeepEqual_tls :: "gateway_tls \<Rightarrow> gateway_tls \<Rightarrow> bool" where
  "DeepEqual_tls a b \<longleftrightarrow> tls_Mode a = tls_Mode b \<and> tls_CertificateRef a = tls_CertificateRef b
     \<and> tls_RouteOverrideCertificate a = tls_RouteOverrideCertificate b
     \<and> DeepEqual_map (tls_Options a) (tls_Options b)"

definition DeepEqual_binding :: "route_binding \<Rightarrow> route_binding \<Rightarrow> bool" where
  "DeepEqual_binding a b \<longleftrightarrow> rn_From (rb_Namespaces a) = rn_From (rb_Namespaces b)
     \<and> DeepEqual_selector (rn_Selector (rb_Namespaces a)) (rn_Selector (rb_Namespaces b))
     \<and> DeepEqual_selector (rb_Selector a) (rb_Selector b)
     \<and> rb_Group a = rb_Group b \<and> rb_Kind a = rb_Kind b"

definition DeepEqual_listener :: "listener \<Rightarrow> listener \<Rightarrow> bool" where
  "DeepEqual_listener a b \<longleftrightarrow> li_Hostname a = li_Hostname b \<and> li_Port a = li_Port b
     \<and> li_Protocol a = li_Protocol b \<and> DeepEqual_ptr DeepEqual_tls (li_TLS a) (li_TLS b)
     \<and> DeepEqual_binding (li_Routes a) (li_Routes b)"

definition DeepEqual_gateway_spec :: "gateway_spec \<Rightarrow> gateway_spec \<Rightarrow> bool" where
  "DeepEqual_gateway_spec a b \<longleftrightarrow> gs_GatewayClassName a = gs_GatewayClassName b
     \<and> DeepEqual_slice DeepEqual_listener (gs_Listeners a) (gs_Listeners b)
     \<and> gs_Addresses a = gs_Addresses b"

definition DeepEqual_header_filter :: "header_filter \<Rightarrow> header_filter \<Rightarrow> bool" where
  "DeepEqual_header_filter a b \<longleftrightarrow> DeepEqual_map (hf_Set a) (hf_Set b)
     \<and> DeepEqual_map (hf_Add a) (hf_Add b) \<and> hf_Remove a = hf_Remove b"

definition DeepEqual_filter :: "httproute_filter \<Rightarrow> httproute_filter \<Rightarrow> bool" where
  "DeepEqual_filter a b \<longleftrightarrow> rf_Type a = rf_Type b
     \<and> DeepEqual_ptr DeepEqual_header_filter (rf_RequestHeaderModifier a) (rf_RequestHeaderModifier b)
     \<and> rf_RequestMirror a = rf_RequestMirror b \<and> rf_ExtensionRef a = rf_ExtensionRef b"

definition DeepEqual_forward :: "forward_to \<Rightarrow> forward_to \<Rightarrow> bool" where
  "DeepEqual_forward a b \<longleftrightarrow> fw_ServiceName a = fw_ServiceName b
     \<and> fw_BackendRef a = fw_BackendRef b \<and> fw_Port a = fw_Port b \<and> fw_Weight a = fw_Weight b
     \<and> DeepEqual_slice DeepEqual_filter (fw_Filters a) (fw_Filters b)"

definition DeepEqual_match :: "httproute_match \<Rightarrow> httproute_match \<Rightarrow> bool" where
  "DeepEqual_match a b \<longleftrightarrow> rm_PathType a = rm_PathType b \<and> rm_PathValue a = rm_PathValue b
     \<and> DeepEqual_ptr (\<lambda>x y. hm_Type x = hm_Type y \<and> DeepEqual_map (hm_Values x) (hm_Values y))
         (rm_Headers a) (rm_Headers b)
     \<and> rm_ExtensionRef a = rm_ExtensionRef b"

definition DeepEqual_rule :: "httproute_rule \<Rightarrow> httproute_rule \<Rightarrow> bool" where
  "DeepEqual_rule a b \<longleftrightarrow> DeepEqual_slice DeepEqual_match (rr_Matches a) (rr_Matches b)
     \<and> DeepEqual_slice DeepEqual_filter (rr_Filters a) (rr_Filters b)
     \<and> DeepEqual_slice DeepEqual_forward (rr_ForwardTo a) (rr_ForwardTo b)"

definition DeepEqual_httproute_spec :: "httproute_spec \<Rightarrow> httproute_spec \<Rightarrow> bool" where
  "DeepEqual_httproute_spec a b \<longleftrightarrow> hs_Gateways a = hs_Gateways b
     \<and> hs_Hostnames a = hs_Hostnames b \<and> hs_TLS a = hs_TLS b
     \<and> DeepEqual_slice DeepEqual_rule (hs_Rules a) (hs_Rules b)"

definition DeepEqual_service_spec :: "service_spec \<Rightarrow> service_spec \<Rightarrow> bool" where
  "DeepEqual_service_spec a b \<longleftrightarrow> DeepEqual_map (ss_Selector a) (ss_Selector b)
     \<and> a\<lparr>ss_Selector := None\<rparr> = b\<lparr>ss_Selector := None\<rparr>"

subsection \<open>Lemmas\<close>

lemma DeepEqual_ptr_refl [simp]: "(\<And>x. eq x x) \<Longrightarrow> DeepEqual_ptr eq p p"
  by (simp add: DeepEqual_ptr_def split: option.splits)

lemma DeepEqual_slice_iff:
  "DeepEqual_slice eq xs ys \<longleftrightarrow> length xs = length ys \<and> (\<forall>i < length xs. eq (xs ! i) (ys ! i))"
  by (auto simp: DeepEqual_slice_def list_all_length)

lemma DeepEqual_slice_refl [simp]: "(\<And>x. eq x x) \<Longrightarrow> DeepEqual_slice eq xs xs"
  by (simp add: DeepEqual_slice_iff)

lemma DeepEqual_parts_refl [simp]:
  "DeepEqual_selector s s" "DeepEqual_tls t t" "DeepEqual_binding b b" "DeepEqual_listener l l"
  "DeepEqual_header_filter h h" "DeepEqual_filter f f" "DeepEqual_forward w w" "DeepEqual_match m m"
  "DeepEqual_rule r r"
  by (simp_all add: DeepEqual_selector_def DeepEqual_tls_def DeepEqual_binding_def DeepEqual_listener_def
      DeepEqual_header_filter_def DeepEqual_filter_def DeepEqual_forward_def DeepEqual_match_def
      DeepEqual_rule_def)

lemma DeepEqual_spec_refl [simp]:
  "DeepEqual_gateway_spec g g" "DeepEqual_httproute_spec h h" "DeepEqual_service_spec s s"
  by (simp_all add: DeepEqual_gateway_spec_def DeepEqual_httproute_spec_def DeepEqual_service_spec_def)

lemma DeepEqual_service_spec_cong:
  "DeepEqual_service_spec a b \<Longrightarrow> ss_ExternalName a = ss_ExternalName b \<and> ss_Ports a = ss_Ports b
     \<and> ss_Type a = ss_Type b"
  unfolding DeepEqual_service_spec_def by (cases a; cases b) simp

end
