(* ===== verification/Resources.thy ===== *)
theory Resources
  imports Names Hosts GatewayApi
begin

text \<open>
  The builders of \<open>resources/gateway.go\<close>, \<open>resources/httproute.go\<close> and \<open>resources/service.go\<close>:
  what the controller wants the cluster to hold for a route. The forwarding rules are built over an
  explicit heap, because they keep the address of the loop variable and read it after the loop.
\<close>

subsection \<open>Constants\<close>

definition GatewayAPIAnnotation :: string where
  "GatewayAPIAnnotation = ''features.knative.dev/gateway-api''"

definition RouteLabelKey :: string where
  "RouteLabelKey = ''serving.knative.dev/route''"

definition RouteNamespaceLabelKey :: string where
  "RouteNamespaceLabelKey = ''serving.knative.dev/routeNamespace''"

definition LastAppliedConfigAnnotation :: string where
  "LastAppliedConfigAnnotation = ''kubectl.kubernetes.io/last-applied-configuration''"

definition RevisionHeaderName :: string where
  "RevisionHeaderName = ''Knative-Serving-Revision''"

definition RevisionHeaderNamespace :: string where
  "RevisionHeaderNamespace = ''Knative-Serving-Namespace''"

definition ServiceHTTPPort :: "32 word" where
  "ServiceHTTPPort = 80"

subsection \<open>Gateway\<close>

definition GatewayName :: "object_meta \<Rightarrow> string \<Rightarrow> string result" where
  "GatewayName route visibility =
     (let suffix = (if visibility \<noteq> '''' then ''-'' @ visibility else visibility)
      in ChildName (om_Name route @ ''-'' @ om_Namespace route) suffix)"

definition empty_selector :: meta_selector where
  "empty_selector = \<lparr>ms_MatchLabels = None, ms_MatchExpressions = []\<rparr>"

definition route_labels :: "route \<Rightarrow> strmap" where
  "route_labels r = Some [(RouteLabelKey, om_Name (obj_meta r)),
                          (RouteNamespaceLabelKey, om_Namespace (obj_meta r))]"

definition make_listener :: "route \<Rightarrow> string \<Rightarrow> listener" where
  "make_listener r host =
     \<lparr>li_Hostname = Some host, li_Port = 80, li_Protocol = ''HTTP'', li_TLS = None,
      li_Routes = \<lparr>rb_Namespaces = \<lparr>rn_From = ''All'', rn_Selector = empty_selector\<rparr>,
        rb_Selector = \<lparr>ms_MatchLabels = route_labels r, ms_MatchExpressions = []\<rparr>,
        rb_Group = '''', rb_Kind = ''HTTPRoute''\<rparr>\<rparr>"

definition makeGatewaySpec ::
  "route \<Rightarrow> string list \<Rightarrow> string \<Rightarrow> gateway_table \<Rightarrow> gateway_spec result" where
  "makeGatewaySpec r hosts visibility gwConfig =
     (let listeners = map (make_listener r) hosts in
      rbind (LookupGatewayClass gwConfig visibility) (\<lambda>cls.
      let gwSpec = \<lparr>gs_GatewayClassName = cls, gs_Listeners = listeners, gs_Addresses = []\<rparr> in
      rbind (LookupAddress gwConfig visibility) (\<lambda>ad.
      Inr (if ad \<noteq> ''''
           then gwSpec\<lparr>gs_Addresses := [\<lparr>ga_Type = ''NamedAddress'', ga_Value = ad\<rparr>]\<rparr>
           else gwSpec))))"

definition child_labels :: "route \<Rightarrow> strmap" where
  "child_labels r = UnionMaps_kmeta [om_Labels (obj_meta r), route_labels r]"

definition child_annotations :: "route \<Rightarrow> strmap" where
  "child_annotations r =
     FilterMap (om_Annotations (obj_meta r)) (\<lambda>key. key = LastAppliedConfigAnnotation)"

definition MakeGateway ::
  "go_context \<Rightarrow> route \<Rightarrow> string list \<Rightarrow> string \<Rightarrow> gateway result" where
  "MakeGateway ctx r hosts visibility =
     rbind (ctx_config ctx) (\<lambda>cfg.
     rbind (LookupGatewayNamespace (cfg_Gateway cfg) visibility) (\<lambda>ns.
     let gatewayNamespace = (if ns = '''' then om_Namespace (obj_meta r) else ns) in
     rbind (GatewayName (obj_meta r) visibility) (\<lambda>name.
     rbind (makeGatewaySpec r hosts visibility (cfg_Gateway cfg)) (\<lambda>spec.
     Inr \<lparr>obj_meta = zero_meta\<lparr>om_Name := name, om_Namespace := gatewayNamespace,
            om_Labels := child_labels r, om_Annotations := child_annotations r\<rparr>,
          obj_spec = spec, obj_status = \<lparr>gst_Addresses = [], gst_Conditions = [], gst_Listeners = []\<rparr>\<rparr>))))"

subsection \<open>HTTPRoute rules over a heap\<close>

datatype cell = TargetCell traffic_target | PortCell "32 word"

type_synonym rule_heap = "cell list"

record forward_ptrs =
  fp_ServiceName :: nat
  fp_Port :: nat
  fp_Weight :: "32 word"
  fp_Filters :: "httproute_filter list"

definition header_modifier :: "string \<Rightarrow> traffic_target \<Rightarrow> httproute_filter" where
  "header_modifier ns t =
     \<lparr>rf_Type = ''RequestHeaderModifier'',
      rf_RequestHeaderModifier = Some
        \<lparr>hf_Set = Some [(RevisionHeaderName, tt_RevisionName t), (RevisionHeaderNamespace, ns)],
         hf_Add = None, hf_Remove = []\<rparr>,
      rf_RequestMirror = None, rf_ExtensionRef = None\<rparr>"

text \<open>
  The loop variable \<open>t\<close> lives in one cell for the whole loop; each iteration overwrites it.
  \<open>portNum\<close> is a fresh cell per iteration.
\<close>

fun rule_loop ::
  "string \<Rightarrow> nat \<Rightarrow> traffic_target list \<Rightarrow> rule_heap \<Rightarrow> forward_ptrs list
     \<Rightarrow> (forward_ptrs list \<times> rule_heap) result" where
  "rule_loop ns tvar [] h splits = Inr (splits, h)"
| "rule_loop ns tvar (target # targets) h splits =
     (let h = h[tvar := TargetCell target] in
      case tt_Percent target of
        None \<Rightarrow> Inl (Panic NilDeref)
      | Some percent \<Rightarrow>
          if percent = 0 then rule_loop ns tvar targets h splits
          else
            (let portNum = length h; h = h @ [PortCell ServiceHTTPPort] in
             rule_loop ns tvar targets h
               (splits @ [\<lparr>fp_ServiceName = tvar, fp_Port = portNum, fp_Weight = ucast percent,
                           fp_Filters = [header_modifier ns target]\<rparr>])))"

definition read_name :: "rule_heap \<Rightarrow> nat \<Rightarrow> string option" where
  "read_name h p =
     (case h ! p of TargetCell t \<Rightarrow> Some (tt_RevisionName t) | PortCell _ \<Rightarrow> None)"

definition read_port :: "rule_heap \<Rightarrow> nat \<Rightarrow> 32 word option" where
  "read_port h p = (case h ! p of TargetCell _ \<Rightarrow> None | PortCell w \<Rightarrow> Some w)"

definition read_forward :: "rule_heap \<Rightarrow> forward_ptrs \<Rightarrow> forward_to" where
  "read_forward h f =
     \<lparr>fw_ServiceName = read_name h (fp_ServiceName f), fw_BackendRef = None,
      fw_Port = read_port h (fp_Port f), fw_Weight = fp_Weight f, fw_Filters = fp_Filters f\<rparr>"

definition zero_target :: traffic_target where
  "zero_target = \<lparr>tt_Tag = '''', tt_RevisionName = '''', tt_ConfigurationName = '''',
     tt_LatestRevision = None, tt_Percent = None, tt_URL = None\<rparr>"

definition makeHTTPRouteRule :: "string \<Rightarrow> traffic_target list \<Rightarrow> httproute_rule result" where
  "makeHTTPRouteRule ns targets =
     rbind (rule_loop ns 0 targets [TargetCell zero_target] []) (\<lambda>(splits, h).
       Inr \<lparr>rr_Matches = [], rr_Filters = [], rr_ForwardTo = map (read_forward h) splits\<rparr>)"

subsection \<open>HTTPRoute\<close>

definition hostnames :: "go_context \<Rightarrow> key_order \<Rightarrow> string \<Rightarrow> route \<Rightarrow> string list result" where
  "hostnames ctx ord targetName r =
     rbind (VisibilityToDomain ctx targetName r) (\<lambda>m. Inr (concat (map snd (range_map ord m))))"

text \<open>\<open>ords i\<close> is the order of the map loop for the \<open>i\<close>-th traffic target.\<close>

fun collect_domains ::
  "go_context \<Rightarrow> (nat \<Rightarrow> key_order) \<Rightarrow> route \<Rightarrow> traffic_target list \<Rightarrow> nat \<Rightarrow> string list
     \<Rightarrow> string list result" where
  "collect_domains ctx ords r [] i domains = Inr domains"
| "collect_domains ctx ords r (traffic # ts) i domains =
     rbind (hostnames ctx (ords i) (tt_Tag traffic) r)
       (\<lambda>d. collect_domains ctx ords r ts (Suc i) (domains @ d))"

definition gateway_reference :: "gateway \<Rightarrow> gateway_ref" where
  "gateway_reference gw =
     \<lparr>gr_Name = om_Name (obj_meta gw), gr_Namespace = om_Namespace (obj_meta gw)\<rparr>"

definition makeHTTPRouteSpec ::
  "go_context \<Rightarrow> (nat \<Rightarrow> key_order) \<Rightarrow> route \<Rightarrow> gateway list \<Rightarrow> httproute_spec result" where
  "makeHTTPRouteSpec ctx ords r gateways =
     rbind (collect_domains ctx ords r (rst_Traffic (obj_status r)) 0 []) (\<lambda>domains.
     rbind (makeHTTPRouteRule (om_Namespace (obj_meta r)) (rst_Traffic (obj_status r))) (\<lambda>rule.
     Inr \<lparr>hs_Gateways = \<lparr>rg_Allow = ''FromList'', rg_GatewayRefs = map gateway_reference gateways\<rparr>,
          hs_Hostnames = domains, hs_TLS = None, hs_Rules = [rule]\<rparr>))"

definition route_controller_ref :: "route \<Rightarrow> owner_reference" where
  "route_controller_ref r = NewControllerRef (obj_meta r) ''serving.knative.dev/v1'' ''Route''"

definition MakeHTTPRoute ::
  "go_context \<Rightarrow> (nat \<Rightarrow> key_order) \<Rightarrow> route \<Rightarrow> gateway list \<Rightarrow> httproute result" where
  "MakeHTTPRoute ctx ords r gateways =
     rbind (makeHTTPRouteSpec ctx ords r gateways) (\<lambda>spec.
     Inr \<lparr>obj_meta = zero_meta\<lparr>om_Name := om_Name (obj_meta r), om_Namespace := om_Namespace (obj_meta r),
            om_Labels := child_labels r, om_Annotations := child_annotations r,
            om_OwnerReferences := [route_controller_ref r]\<rparr>,
          obj_spec = spec, obj_status = \<lparr>hst_Gateways = None\<rparr>\<rparr>)"

subsection \<open>Placeholder service\<close>

definition zero_service_spec :: service_spec where
  "zero_service_spec = \<lparr>ss_Ports = [], ss_Selector = None, ss_ClusterIP = '''', ss_ClusterIPs = [],
     ss_Type = '''', ss_ExternalIPs = [], ss_SessionAffinity = '''', ss_LoadBalancerIP = '''',
     ss_LoadBalancerSourceRanges = [], ss_ExternalName = '''', ss_ExternalTrafficPolicy = '''',
     ss_HealthCheckNodePort = 0, ss_PublishNotReadyAddresses = False, ss_SessionAffinityTimeout = None,
     ss_TopologyKeys = [], ss_IPFamilies = [], ss_IPFamilyPolicy = None,
     ss_AllocateLoadBalancerNodePorts = None\<rparr>"

definition makeServiceSpec :: "go_context \<Rightarrow> service_spec result" where
  "makeServiceSpec ctx =
     rbind (ctx_config ctx) (\<lambda>cfg.
     rbind (LookupAddress (cfg_Gateway cfg) ''cluster-local'') (\<lambda>externalName.
     Inr (zero_service_spec\<lparr>ss_Type := ''ExternalName'', ss_ExternalName := externalName,
       ss_SessionAffinity := ''None'',
       ss_Ports := [\<lparr>sp_Name = ''http2'', sp_Protocol = '''', sp_AppProtocol = None, sp_Port = 80,
                     sp_TargetPort = FromInt 80, sp_NodePort = 0\<rparr>]\<rparr>)))"

definition MakePlaceholderService :: "go_context \<Rightarrow> route \<Rightarrow> string \<Rightarrow> service result" where
  "MakePlaceholderService ctx r hostname =
     rbind (makeServiceSpec ctx) (\<lambda>spec.
     Inr \<lparr>obj_meta = zero_meta\<lparr>om_Name := hostname, om_Namespace := om_Namespace (obj_meta r),
            om_OwnerReferences := [route_controller_ref r],
            om_Labels := om_Labels (obj_meta r), om_Annotations := om_Annotations (obj_meta r)\<rparr>,
          obj_spec = spec, obj_status = \<lparr>svs_Ingress = []\<rparr>\<rparr>)"

subsection \<open>Lemmas\<close>

text \<open>Labels and annotations of the children.\<close>

lemma route_label_keys [simp]: "RouteLabelKey \<noteq> RouteNamespaceLabelKey" "RouteNamespaceLabelKey \<noteq> RouteLabelKey"
  by (simp_all add: RouteLabelKey_def RouteNamespaceLabelKey_def)

lemma route_labels_lookup [go_map]:
  "mget (route_labels r) k = (if k = RouteLabelKey then Some (om_Name (obj_meta r))
     else if k = RouteNamespaceLabelKey then Some (om_Namespace (obj_meta r)) else None)"
  by (simp add: route_labels_def)

lemma child_labels_lookup [go_map]:
  "mget (child_labels r) k = (if k = RouteLabelKey then Some (om_Name (obj_meta r))
     else if k = RouteNamespaceLabelKey then Some (om_Namespace (obj_meta r))
     else mget (om_Labels (obj_meta r)) k)"
  by (simp add: child_labels_def UnionMaps_kmeta_lookup route_labels_lookup)

lemma child_annotations_lookup [go_map]:
  "mget (child_annotations r) k =
     (if k = LastAppliedConfigAnnotation then None else mget (om_Annotations (obj_meta r)) k)"
  by (simp add: child_annotations_def FilterMap_lookup)

lemma route_labels_child: "mget (route_labels r) \<subseteq>\<^sub>m mget (child_labels r)"
  by (auto simp: map_le_def go_map)

text \<open>A child of \<open>r\<close> carries the labels of \<open>r'\<close> only when both have the same name and namespace.\<close>

lemma route_labels_child_iff:
  "mget (route_labels r') \<subseteq>\<^sub>m mget (child_labels r) \<longleftrightarrow>
     om_Name (obj_meta r') = om_Name (obj_meta r) \<and> om_Namespace (obj_meta r') = om_Namespace (obj_meta r)"
proof
  assume le: "mget (route_labels r') \<subseteq>\<^sub>m mget (child_labels r)"
  have "mget (child_labels r) RouteLabelKey = Some (om_Name (obj_meta r'))"
    "mget (child_labels r) RouteNamespaceLabelKey = Some (om_Namespace (obj_meta r'))"
    using bspec [OF le [unfolded map_le_def], of RouteLabelKey]
      bspec [OF le [unfolded map_le_def], of RouteNamespaceLabelKey]
    by (simp_all add: route_labels_lookup domIff)
  then show "om_Name (obj_meta r') = om_Name (obj_meta r) \<and> om_Namespace (obj_meta r') = om_Namespace (obj_meta r)"
    by (simp add: child_labels_lookup)
qed (auto simp: map_le_def go_map)

text \<open>The rule builder.\<close>

definition percent_set :: "traffic_target \<Rightarrow> bool" where
  "percent_set t \<longleftrightarrow> tt_Percent t \<noteq> None"

definition routed :: "traffic_target list \<Rightarrow> traffic_target list" where
  "routed targets = filter (\<lambda>t. tt_Percent t \<noteq> Some 0) targets"

definition forward_spec :: "string \<Rightarrow> string \<Rightarrow> traffic_target \<Rightarrow> forward_to" where
  "forward_spec ns service t =
     \<lparr>fw_ServiceName = Some service, fw_BackendRef = None, fw_Port = Some ServiceHTTPPort,
      fw_Weight = ucast (the (tt_Percent t)), fw_Filters = [header_modifier ns t]\<rparr>"

lemma rule_loop_spec:
  assumes "list_all percent_set targets" and "v < length h"
  shows "\<exists>new h'. rule_loop ns v targets h splits = Inr (splits @ new, h')
    \<and> length h \<le> length h'
    \<and> (\<forall>i < length h. i \<noteq> v \<longrightarrow> h' ! i = h ! i)
    \<and> (if targets = [] then h' ! v = h ! v else h' ! v = TargetCell (last targets))
    \<and> length new = length (routed targets)
    \<and> (\<forall>i < length new. fp_ServiceName (new ! i) = v \<and> v < fp_Port (new ! i)
         \<and> fp_Port (new ! i) < length h' \<and> length h \<le> fp_Port (new ! i)
         \<and> h' ! fp_Port (new ! i) = PortCell ServiceHTTPPort
         \<and> fp_Weight (new ! i) = ucast (the (tt_Percent (routed targets ! i)))
         \<and> fp_Filters (new ! i) = [header_modifier ns (routed targets ! i)])"
  using assms
proof (induction targets arbitrary: h splits)
  case Nil
  then show ?case by (simp add: routed_def)
next
  case (Cons t ts)
  obtain p where p: "tt_Percent t = Some p" using Cons.prems(1) by (auto simp: percent_set_def)
  let ?h1 = "h[v := TargetCell t]"
  show ?case
  proof (cases "p = 0")
    case True
    obtain new h' where IH: "rule_loop ns v ts ?h1 splits = Inr (splits @ new, h')"
      "length ?h1 \<le> length h'" "\<forall>i < length ?h1. i \<noteq> v \<longrightarrow> h' ! i = ?h1 ! i"
      "if ts = [] then h' ! v = ?h1 ! v else h' ! v = TargetCell (last ts)"
      "length new = length (routed ts)"
      "\<forall>i < length new. fp_ServiceName (new ! i) = v \<and> v < fp_Port (new ! i)
         \<and> fp_Port (new ! i) < length h' \<and> length ?h1 \<le> fp_Port (new ! i)
         \<and> h' ! fp_Port (new ! i) = PortCell ServiceHTTPPort
         \<and> fp_Weight (new ! i) = ucast (the (tt_Percent (routed ts ! i)))
         \<and> fp_Filters (new ! i) = [header_modifier ns (routed ts ! i)]"
      using Cons.IH [of ?h1 splits] Cons.prems by auto
    have r: "routed (t # ts) = routed ts" using p True by (simp add: routed_def)
    show ?thesis
      using IH Cons.prems(2) p True unfolding r
      by (intro exI [of _ new] exI [of _ h']) (auto simp: Let_def)
  next
    case False
    let ?h2 = "?h1 @ [PortCell ServiceHTTPPort]"
    let ?f = "\<lparr>fp_ServiceName = v, fp_Port = length h, fp_Weight = ucast p,
                fp_Filters = [header_modifier ns t]\<rparr>"
    obtain new h' where IH: "rule_loop ns v ts ?h2 (splits @ [?f]) = Inr ((splits @ [?f]) @ new, h')"
      "length ?h2 \<le> length h'" "\<forall>i < length ?h2. i \<noteq> v \<longrightarrow> h' ! i = ?h2 ! i"
      "if ts = [] then h' ! v = ?h2 ! v else h' ! v = TargetCell (last ts)"
      "length new = length (routed ts)"
      "\<forall>i < length new. fp_ServiceName (new ! i) = v \<and> v < fp_Port (new ! i)
         \<and> fp_Port (new ! i) < length h' \<and> length ?h2 \<le> fp_Port (new ! i)
         \<and> h' ! fp_Port (new ! i) = PortCell ServiceHTTPPort
         \<and> fp_Weight (new ! i) = ucast (the (tt_Percent (routed ts ! i)))
         \<and> fp_Filters (new ! i) = [header_modifier ns (routed ts ! i)]"
      using Cons.IH [of ?h2 "splits @ [?f]"] Cons.prems by auto
    have r: "routed (t # ts) = t # routed ts" using p False by (simp add: routed_def)
    have run: "rule_loop ns v (t # ts) h splits = Inr (splits @ ?f # new, h')"
      using IH(1) p False by (simp add: Let_def)
    have port: "h' ! length h = PortCell ServiceHTTPPort"
      using IH(3) Cons.prems(2) by (auto simp: nth_append)
    show ?thesis
      using run IH(2-6) Cons.prems(2) port p unfolding r
      by (intro exI [of _ "?f # new"] exI [of _ h'])
        (auto simp: nth_append nth_Cons split: nat.splits if_splits)
  qed
qed

lemma makeHTTPRouteRule_ok:
  assumes "list_all percent_set targets"
  shows "makeHTTPRouteRule ns targets = Inr \<lparr>rr_Matches = [], rr_Filters = [],
     rr_ForwardTo = map (forward_spec ns (tt_RevisionName (last targets))) (routed targets)\<rparr>"
proof -
  let ?h = "[TargetCell zero_target]"
  obtain new h' where L: "rule_loop ns 0 targets ?h [] = Inr ([] @ new, h')"
    "if targets = [] then h' ! 0 = ?h ! 0 else h' ! 0 = TargetCell (last targets)"
    "length new = length (routed targets)"
    "\<forall>i < length new. fp_ServiceName (new ! i) = 0
         \<and> h' ! fp_Port (new ! i) = PortCell ServiceHTTPPort
         \<and> fp_Weight (new ! i) = ucast (the (tt_Percent (routed targets ! i)))
         \<and> fp_Filters (new ! i) = [header_modifier ns (routed targets ! i)]"
    using rule_loop_spec [OF assms, of 0 ?h ns "[]"] by auto
  have "map (read_forward h') new = map (forward_spec ns (tt_RevisionName (last targets))) (routed targets)"
  proof (rule nth_equalityI)
    fix i assume i: "i < length (map (read_forward h') new)"
    then have "targets \<noteq> []" using L(3) by (auto simp: routed_def)
    with L i show "map (read_forward h') new ! i
        = map (forward_spec ns (tt_RevisionName (last targets))) (routed targets) ! i"
      by (simp add: read_forward_def read_name_def read_port_def forward_spec_def)
  qed (simp add: L(3))
  then show ?thesis by (simp add: makeHTTPRouteRule_def L(1))
qed

lemma rule_loop_panic:
  "\<not> list_all percent_set targets \<Longrightarrow> rule_loop ns v targets h splits = Inl (Panic NilDeref)"
  by (induction ns v targets h splits rule: rule_loop.induct)
    (auto simp: percent_set_def Let_def split: option.splits)

lemma makeHTTPRouteRule_panic:
  "\<not> list_all percent_set targets \<Longrightarrow> makeHTTPRouteRule ns targets = Inl (Panic NilDeref)"
  by (simp add: makeHTTPRouteRule_def rule_loop_panic)

text \<open>The gateway builder.\<close>

lemma GatewayName_length: "GatewayName m visibility = Inr n \<Longrightarrow> length n \<le> 63"
  by (auto simp: GatewayName_def Let_def intro: ChildName_length)

lemma MakeGateway_ok:
  assumes "ctx_config ctx = Inr cfg" and "gateway_at (cfg_Gateway cfg) visibility = Inr gc"
    and "GatewayName (obj_meta r) visibility = Inr name"
  shows "MakeGateway ctx r hosts visibility = Inr
     \<lparr>obj_meta = zero_meta\<lparr>om_Name := name,
        om_Namespace := (if gc_Namespace gc = '''' then om_Namespace (obj_meta r) else gc_Namespace gc),
        om_Labels := child_labels r, om_Annotations := child_annotations r\<rparr>,
      obj_spec = \<lparr>gs_GatewayClassName = gc_GatewayClass gc, gs_Listeners = map (make_listener r) hosts,
        gs_Addresses = (if gc_Address gc = '''' then []
          else [\<lparr>ga_Type = ''NamedAddress'', ga_Value = gc_Address gc\<rparr>])\<rparr>,
      obj_status = \<lparr>gst_Addresses = [], gst_Conditions = [], gst_Listeners = []\<rparr>\<rparr>"
  using assms by (simp add: MakeGateway_def makeGatewaySpec_def LookupGatewayNamespace_def
      LookupGatewayClass_def LookupAddress_def Let_def)

lemma MakeGateway_labels:
  assumes "MakeGateway ctx r hosts visibility = Inr gw"
  shows "om_Labels (obj_meta gw) = child_labels r" "om_Annotations (obj_meta gw) = child_annotations r"
    "GatewayName (obj_meta r) visibility = Inr (om_Name (obj_meta gw))"
    "gs_Listeners (obj_spec gw) = map (make_listener r) hosts"
  using assms by (auto simp: MakeGateway_def makeGatewaySpec_def Let_def)

text \<open>The host names of an HTTPRoute: their order depends on the map loop, what they are does not.\<close>

lemma hostnames_mset:
  assumes "hostnames ctx o1 tag r = Inr a" and "hostnames ctx o2 tag r = Inr b" and "order_ok o1" and "order_ok o2"
  shows "mset a = mset b"
proof -
  obtain m where m: "a = concat (map snd (range_map o1 m))" "b = concat (map snd (range_map o2 m))"
    using assms(1,2) by (auto simp: hostnames_def)
  have "mset (map snd (range_map o1 m)) = mset (map snd (range_map o2 m))"
    using mset_range_map [OF assms(3,4), of m m] by (simp only: mset_map)
  then show ?thesis unfolding m mset_concat by (metis mset_map sum_mset_sum_list)
qed

lemma hostnames_set:
  assumes "hostnames ctx ord tag r = Inr hs" and "order_ok ord" and "VisibilityToDomain ctx tag r = Inr m"
  shows "set hs = {h. \<exists>k ds. map_of m k = Some ds \<and> h \<in> set ds}"
proof -
  have "hs = concat (map snd (range_map ord m))" using assms(1,3) by (simp add: hostnames_def)
  then have "set hs = (\<Union>(k, ds) \<in> {(k, ds). map_of m k = Some ds}. set ds)"
    using set_range_map [OF assms(2), of m] by (auto simp del: map_of_range_map)
  then show ?thesis by auto
qed

lemma collect_domains_set:
  assumes "collect_domains ctx ords r ts i ds = Inr out" and "\<And>i. order_ok (ords i)"
  shows "set out = set ds \<union> {h. \<exists>t \<in> set ts. \<exists>hs. hostnames ctx (\<lambda>ks. ks) (tt_Tag t) r = Inr hs \<and> h \<in> set hs}"
  using assms(1)
proof (induction ts arbitrary: i ds)
  case Nil
  then show ?case by simp
next
  case (Cons traffic ts)
  obtain d where d: "hostnames ctx (ords i) (tt_Tag traffic) r = Inr d"
    and rest: "collect_domains ctx ords r ts (Suc i) (ds @ d) = Inr out"
    using Cons.prems by auto
  obtain d' where d': "hostnames ctx (\<lambda>ks. ks) (tt_Tag traffic) r = Inr d'"
    using d by (auto simp: hostnames_def)
  have "set d = set d'"
    using hostnames_mset [OF d d' assms(2) order_ok_id(1)] by (rule mset_eq_setD)
  then show ?case using Cons.IH [OF rest] d' by auto
qed

lemma collect_domains_mset:
  assumes "collect_domains ctx o1 r ts i ds = Inr a" and "collect_domains ctx o2 r ts i es = Inr b"
    and "mset ds = mset es" and "\<And>i. order_ok (o1 i)" and "\<And>i. order_ok (o2 i)"
  shows "mset a = mset b"
  using assms(1-3)
proof (induction ts arbitrary: i ds es)
  case Nil
  then show ?case by simp
next
  case (Cons t ts)
  obtain d e where de: "hostnames ctx (o1 i) (tt_Tag t) r = Inr d" "hostnames ctx (o2 i) (tt_Tag t) r = Inr e"
    and rest: "collect_domains ctx o1 r ts (Suc i) (ds @ d) = Inr a"
      "collect_domains ctx o2 r ts (Suc i) (es @ e) = Inr b"
    using Cons.prems by auto
  have "mset (ds @ d) = mset (es @ e)" using hostnames_mset [OF de assms(4,5)] Cons.prems(3) by simp
  from Cons.IH [OF rest this] show ?case .
qed

lemma makeHTTPRouteSpec_ok:
  assumes "makeHTTPRouteSpec ctx ords r gws = Inr spec"
  shows "hs_Gateways spec = \<lparr>rg_Allow = ''FromList'', rg_GatewayRefs = map gateway_reference gws\<rparr>"
    and "\<exists>rule. makeHTTPRouteRule (om_Namespace (obj_meta r)) (rst_Traffic (obj_status r)) = Inr rule
        \<and> hs_Rules spec = [rule]"
    and "collect_domains ctx ords r (rst_Traffic (obj_status r)) 0 [] = Inr (hs_Hostnames spec)"
    and "hs_TLS spec = None"
  using assms by (auto simp: makeHTTPRouteSpec_def)

lemma MakeHTTPRoute_meta:
  assumes "MakeHTTPRoute ctx ords r gws = Inr hr"
  shows "om_Name (obj_meta hr) = om_Name (obj_meta r)" "om_Namespace (obj_meta hr) = om_Namespace (obj_meta r)"
    "om_Labels (obj_meta hr) = child_labels r" "om_Annotations (obj_meta hr) = child_annotations r"
    "om_OwnerReferences (obj_meta hr) = [route_controller_ref r]"
    "makeHTTPRouteSpec ctx ords r gws = Inr (obj_spec hr)" "hst_Gateways (obj_status hr) = None"
  using assms by (auto simp: MakeHTTPRoute_def)

text \<open>The placeholder service.\<close>

lemma MakePlaceholderService_ok:
  assumes "ctx_config ctx = Inr cfg" and "gateway_at (cfg_Gateway cfg) VisibilityClusterLocal = Inr gc"
  shows "\<exists>svc. MakePlaceholderService ctx r target = Inr svc
    \<and> obj_key svc = (om_Namespace (obj_meta r), target)
    \<and> ss_Type (obj_spec svc) = ''ExternalName'' \<and> ss_ExternalName (obj_spec svc) = gc_Address gc
    \<and> GetControllerOf (om_OwnerReferences (obj_meta svc)) = Some (route_controller_ref r)
    \<and> om_Labels (obj_meta svc) = om_Labels (obj_meta r)
    \<and> om_Annotations (obj_meta svc) = om_Annotations (obj_meta r)"
  using assms by (simp add: MakePlaceholderService_def makeServiceSpec_def LookupAddress_def obj_key_def
      VisibilityClusterLocal_def route_controller_ref_def NewControllerRef_def)

lemma MakePlaceholderService_key:
  "MakePlaceholderService ctx r target = Inr svc \<Longrightarrow>
     om_Name (obj_meta svc) = target \<and> om_Namespace (obj_meta svc) = om_Namespace (obj_meta r)"
  by (auto simp: MakePlaceholderService_def)

lemma MakeGateway_ns:
  assumes "MakeGateway ctx r hs v = Inr d" and "ctx_config ctx = Inr cfg"
  shows "\<exists>ns0. LookupGatewayNamespace (cfg_Gateway cfg) v = Inr ns0
      \<and> om_Namespace (obj_meta d) = (if ns0 = '''' then om_Namespace (obj_meta r) else ns0)"
proof -
  obtain ns0 where ns0: "LookupGatewayNamespace (cfg_Gateway cfg) v = Inr ns0"
    using assms by (cases "LookupGatewayNamespace (cfg_Gateway cfg) v") (simp_all add: MakeGateway_def)
  obtain n where n: "GatewayName (obj_meta r) v = Inr n"
    using assms ns0 by (cases "GatewayName (obj_meta r) v") (simp_all add: MakeGateway_def Let_def)
  show ?thesis
    using assms(1) unfolding MakeGateway_def assms(2) rbind.simps ns0 n Let_def
    by (cases "makeGatewaySpec r hs v (cfg_Gateway cfg)") auto
qed


text \<open>Two orders of the host names give HTTPRoutes that differ in the order of the host names only.\<close>

lemma MakeHTTPRoute_orders:
  assumes d1: "MakeHTTPRoute ctx o1 r gws = Inr d1" and d2: "MakeHTTPRoute ctx o2 r gws = Inr d2"
    and "\<And>i. order_ok (o1 i)" and "\<And>i. order_ok (o2 i)"
  shows "mset (hs_Hostnames (obj_spec d1)) = mset (hs_Hostnames (obj_spec d2))"
    and "hs_Hostnames (obj_spec d1) = hs_Hostnames (obj_spec d2) \<Longrightarrow> d1 = d2"
proof -
  have sp: "makeHTTPRouteSpec ctx o1 r gws = Inr (obj_spec d1)" "makeHTTPRouteSpec ctx o2 r gws = Inr (obj_spec d2)"
    using MakeHTTPRoute_meta(6) d1 d2 by blast+
  show "mset (hs_Hostnames (obj_spec d1)) = mset (hs_Hostnames (obj_spec d2))"
    by (rule collect_domains_mset [OF makeHTTPRouteSpec_ok(3) [OF sp(1)] makeHTTPRouteSpec_ok(3) [OF sp(2)] refl assms(3,4)])
  assume "hs_Hostnames (obj_spec d1) = hs_Hostnames (obj_spec d2)"
  then have "obj_spec d1 = obj_spec d2"
    using makeHTTPRouteSpec_ok [OF sp(1)] makeHTTPRouteSpec_ok [OF sp(2)] by (auto intro!: httproute_spec.equality)
  then show "d1 = d2" using d1 d2 by (auto simp: MakeHTTPRoute_def split: sum.splits)
qed

subsection \<open>Properties\<close>

text \<open>C18: The rule of a route: it can be built exactly when every target has a percentage; then it forwards to
  the targets whose percentage is not zero, in their order, each with its own weight and revision
  headers, on port 80. All of them name the revision of the last target as their service, because the
  address of the loop variable is kept.\<close>

theorem makeHTTPRouteRule_outcome:
  "makeHTTPRouteRule ns targets =
     (if list_all percent_set targets
      then Inr \<lparr>rr_Matches = [], rr_Filters = [],
        rr_ForwardTo = map (forward_spec ns (tt_RevisionName (last targets))) (routed targets)\<rparr>
      else Inl (Panic NilDeref))"
  using makeHTTPRouteRule_ok makeHTTPRouteRule_panic by auto

text \<open>With two targets that share the traffic the first is not routed to its own revision.\<close>

theorem first_target_misrouted:
  assumes "tt_Percent a = Some p" and "p \<noteq> 0" and "tt_Percent b = Some q" and "q \<noteq> 0"
    and "tt_RevisionName a \<noteq> tt_RevisionName b"
  shows "\<exists>rule fa fb. makeHTTPRouteRule ns [a, b] = Inr rule \<and> rr_ForwardTo rule = [fa, fb]
     \<and> fw_ServiceName fa \<noteq> Some (tt_RevisionName a) \<and> fw_ServiceName fb = Some (tt_RevisionName b)
     \<and> fw_Weight fa = ucast p \<and> fw_Weight fb = ucast q"
  using assms by (simp add: makeHTTPRouteRule_ok percent_set_def routed_def forward_spec_def)

theorem first_target_misrouted_witness:
  "\<exists>rule fa fb. makeHTTPRouteRule ''prod''
      [demo_target\<lparr>tt_RevisionName := ''app-1'', tt_Percent := Some 90\<rparr>,
       demo_target\<lparr>tt_RevisionName := ''app-2'', tt_Percent := Some 10\<rparr>] = Inr rule
     \<and> rr_ForwardTo rule = [fa, fb] \<and> fw_ServiceName fa \<noteq> Some ''app-1''"
  using first_target_misrouted [of "demo_target\<lparr>tt_RevisionName := ''app-1'', tt_Percent := Some 90\<rparr>" 90
      "demo_target\<lparr>tt_RevisionName := ''app-2'', tt_Percent := Some 10\<rparr>" 10 "''prod''"]
  by fastforce

text \<open>C40: The gateway wanted for a visibility: named after the route and the visibility within 63 characters,
  in the configured namespace or else the route's, with the configured class, one listener per host on
  port 80 and the configured address when there is one.\<close>

theorem MakeGateway_desired:
  assumes "ctx_config ctx = Inr cfg" and "gateway_at (cfg_Gateway cfg) visibility = Inr gc"
  shows "\<exists>gw. MakeGateway ctx r hosts visibility = Inr gw
    \<and> GatewayName (obj_meta r) visibility = Inr (om_Name (obj_meta gw)) \<and> length (om_Name (obj_meta gw)) \<le> 63
    \<and> om_Namespace (obj_meta gw) = (if gc_Namespace gc = '''' then om_Namespace (obj_meta r) else gc_Namespace gc)
    \<and> gs_GatewayClassName (obj_spec gw) = gc_GatewayClass gc
    \<and> map li_Hostname (gs_Listeners (obj_spec gw)) = map Some hosts
    \<and> (\<forall>l \<in> set (gs_Listeners (obj_spec gw)). li_Port l = 80 \<and> li_Protocol l = ''HTTP'')
    \<and> map ga_Value (gs_Addresses (obj_spec gw)) = (if gc_Address gc = '''' then [] else [gc_Address gc])"
proof -
  obtain n where "GatewayName (obj_meta r) visibility = Inr n" "length n \<le> 63"
    using ChildName_length by (cases "om_Name (obj_meta r) @ ''-'' @ om_Namespace (obj_meta r)"
      "if visibility \<noteq> '''' then ''-'' @ visibility else visibility" rule: ChildName_cases)
      (auto simp: GatewayName_def Let_def)
  then show ?thesis
    using MakeGateway_ok [OF assms, of r n hosts] by (simp add: make_listener_def comp_def)
qed

theorem MakeGateway_desired_witness:
  "\<exists>gw. MakeGateway demo_ctx \<lparr>obj_meta = demo_meta, obj_spec = \<lparr>rsp_Traffic = []\<rparr>, obj_status = demo_status\<rparr>
       [''app.prod.example.com''] ''default'' = Inr gw
     \<and> om_Namespace (obj_meta gw) = ''istio-system''
     \<and> map li_Hostname (gs_Listeners (obj_spec gw)) = [Some ''app.prod.example.com'']"
proof -
  have "gateway_at (cfg_Gateway demo_config) ''default''
      = Inr \<lparr>gc_GatewayClass = ''istio'', gc_Namespace = ''istio-system'', gc_Address = ''''\<rparr>"
    by (simp add: demo_config_def demo_table_def gateway_at_def DefaultVisibilityName_def)
  from MakeGateway_desired [OF demo_ctx_config this,
      of "\<lparr>obj_meta = demo_meta, obj_spec = \<lparr>rsp_Traffic = []\<rparr>, obj_status = demo_status\<rparr>" "[''app.prod.example.com'']"]
  show ?thesis by auto
qed

text \<open>C19: A gateway and an HTTPRoute made for one route fit together: every listener selects the HTTPRoute's
  labels, and the selector of a route's finalizer selects the gateway exactly when it was made for a route
  of that name and namespace. Every other label of the route is passed on.\<close>

theorem children_are_selected:
  fixes r' :: route
  assumes "MakeGateway ctx r hosts visibility = Inr gw" and "MakeHTTPRoute ctx' ords r gws = Inr hr"
  shows "(\<forall>l \<in> set (gs_Listeners (obj_spec gw)).
        mget (ms_MatchLabels (rb_Selector (li_Routes l))) \<subseteq>\<^sub>m mget (om_Labels (obj_meta hr)))
    \<and> (selector_matches (SelectorFromSet (Some [(RouteNamespaceLabelKey, om_Namespace (obj_meta r')),
          (RouteLabelKey, om_Name (obj_meta r'))])) (om_Labels (obj_meta gw))
        \<longleftrightarrow> om_Name (obj_meta r') = om_Name (obj_meta r) \<and> om_Namespace (obj_meta r') = om_Namespace (obj_meta r))"
proof -
  note gw = MakeGateway_labels [OF assms(1)] and hr = MakeHTTPRoute_meta [OF assms(2)]
  have "mget (Some [(RouteNamespaceLabelKey, om_Namespace (obj_meta r')), (RouteLabelKey, om_Name (obj_meta r'))])
      = mget (route_labels r')"
    by (auto simp: route_labels_lookup)
  then show ?thesis
    using route_labels_child [of r] route_labels_child_iff [of r' r]
    by (auto simp: gw hr make_listener_def selector_matches_iff)
qed

definition demo_route :: route where
  "demo_route = \<lparr>obj_meta = demo_meta\<lparr>om_Annotations := Some [(GatewayAPIAnnotation, ''enabled'')]\<rparr>,
     obj_spec = \<lparr>rsp_Traffic = []\<rparr>, obj_status = demo_status\<rparr>"

lemma demo_hosts:
  "VisibilityToDomain demo_ctx '''' demo_route =
     Inr [(''default'', [''app.prod.example.com'']),
          (''cluster-local'', [''app.prod'', ''app.prod.svc'', ''app.prod.svc.cluster.local''])]"
  by code_simp

lemma demo_gateway_at:
  "gateway_at (cfg_Gateway demo_config) ''default''
      = Inr \<lparr>gc_GatewayClass = ''istio'', gc_Namespace = ''istio-system'', gc_Address = ''''\<rparr>"
  "gateway_at (cfg_Gateway demo_config) VisibilityClusterLocal = Inr default_local_gateway"
  by (simp_all add: demo_config_def demo_table_def gateway_at_def DefaultVisibilityName_def VisibilityClusterLocal_def)

lemma demo_gateway_ok: "\<exists>gw. MakeGateway demo_ctx demo_route hosts ''default'' = Inr gw"
proof -
  obtain n where "GatewayName (obj_meta demo_route) ''default'' = Inr n"
    using ChildName_short [of "''app-prod''" "''-default''"]
    by (simp add: GatewayName_def demo_route_def demo_meta_def)
  from MakeGateway_ok [OF demo_ctx_config demo_gateway_at(1) this] show ?thesis by blast
qed

lemma demo_httproute_ok: "\<exists>hr. MakeHTTPRoute demo_ctx (\<lambda>i. id) demo_route gws = Inr hr"
proof -
  have "rst_Traffic (obj_status demo_route) = [demo_target]" by (simp add: demo_route_def demo_status_def)
  moreover have "tt_Tag demo_target = ''''" "list_all percent_set [demo_target]"
    by (simp_all add: demo_target_def percent_set_def)
  ultimately show ?thesis
    by (simp add: MakeHTTPRoute_def makeHTTPRouteSpec_def hostnames_def demo_hosts makeHTTPRouteRule_ok)
qed

theorem children_are_selected_witness:
  "\<exists>gw. MakeGateway demo_ctx demo_route [] ''default'' = Inr gw
     \<and> selector_matches (SelectorFromSet (Some [(RouteNamespaceLabelKey, ''prod''), (RouteLabelKey, ''app'')]))
         (om_Labels (obj_meta gw))"
proof -
  obtain gw hr where gw: "MakeGateway demo_ctx demo_route [] ''default'' = Inr gw"
    and hr: "MakeHTTPRoute demo_ctx (\<lambda>i. id) demo_route [] = Inr hr"
    using demo_gateway_ok demo_httproute_ok by blast
  from children_are_selected [OF gw hr, of demo_route] gw show ?thesis
    by (auto simp: demo_route_def demo_meta_def)
qed

text \<open>The host names of an HTTPRoute depend on the order of a map loop only in their order: two runs over
  the same map give the same names with the same multiplicities, and they are the names of all
  visibilities.\<close>

theorem hostnames_permute:
  assumes "hostnames ctx o1 tag r = Inr a" and "order_ok o1" and "order_ok o2"
  shows "\<exists>b m. hostnames ctx o2 tag r = Inr b \<and> mset a = mset b \<and> VisibilityToDomain ctx tag r = Inr m
     \<and> set a = (\<Union>v \<in> dom (map_of m). set (the (map_of m v)))"
proof -
  obtain m where m: "VisibilityToDomain ctx tag r = Inr m" using assms(1) by (auto simp: hostnames_def)
  then obtain b where b: "hostnames ctx o2 tag r = Inr b" by (auto simp: hostnames_def)
  have "set a = (\<Union>v \<in> dom (map_of m). set (the (map_of m v)))"
    unfolding hostnames_set [OF assms(1,2) m] by force
  with hostnames_mset [OF assms(1) b assms(2,3)] b m show ?thesis by blast
qed

theorem hostnames_permute_witness:
  "\<exists>b. hostnames demo_ctx rev '''' demo_route = Inr b
     \<and> mset b = mset [''app.prod.example.com'', ''app.prod'', ''app.prod.svc'', ''app.prod.svc.cluster.local'']
     \<and> b \<noteq> [''app.prod.example.com'', ''app.prod'', ''app.prod.svc'', ''app.prod.svc.cluster.local'']"
proof -
  have a: "hostnames demo_ctx id '''' demo_route
      = Inr [''app.prod.example.com'', ''app.prod'', ''app.prod.svc'', ''app.prod.svc.cluster.local'']"
    "hostnames demo_ctx rev '''' demo_route
      = Inr [''app.prod'', ''app.prod.svc'', ''app.prod.svc.cluster.local'', ''app.prod.example.com'']"
    by (simp_all add: hostnames_def demo_hosts range_map_def go_keys_def List.map_filter_def)
  from hostnames_permute [OF a(1) order_ok_id(2) order_ok_rev] a(2) show ?thesis by auto
qed

text \<open>The placeholder service of a host points to the address of the local gateway, is controlled by the
  route and lives in its namespace under the host's name.\<close>

theorem MakePlaceholderService_desired:
  assumes "ctx_config ctx = Inr cfg" and "gateway_at (cfg_Gateway cfg) VisibilityClusterLocal = Inr gc"
  shows "\<exists>svc. MakePlaceholderService ctx r target = Inr svc
    \<and> obj_key svc = (om_Namespace (obj_meta r), target)
    \<and> ss_Type (obj_spec svc) = ''ExternalName'' \<and> ss_ExternalName (obj_spec svc) = gc_Address gc
    \<and> GetControllerOf (om_OwnerReferences (obj_meta svc)) = Some (route_controller_ref r)"
  using MakePlaceholderService_ok [OF assms] by blast

theorem MakePlaceholderService_desired_witness:
  "\<exists>svc. MakePlaceholderService demo_ctx demo_route ''app'' = Inr svc
     \<and> ss_ExternalName (obj_spec svc) = ''knative-local-gateway.istio-system.svc.cluster.local''"
  using MakePlaceholderService_desired [OF demo_ctx_config demo_gateway_at(2), of demo_route "''app''"]
  by (auto simp: default_local_gateway_def DefaultLocalGatewayService_def)

end
