(* ===== verification/Listers.thy ===== *)
theory Listers
  imports GatewayApi
begin

text \<open>
  The informer cache and the generated listers over it: client-go's \<open>threadSafeMap\<close> with its
  namespace index, \<open>ListAll\<close> and \<open>ListAllByNamespace\<close>, and the listers of
  \<open>listers/apis/v1alpha1\<close>. A cache holds the objects of one kind, so the type assertions of the
  listers cannot fail. Loops over the items take the order they visit them in.
\<close>

subsection \<open>The thread safe store\<close>

definition MetaNamespaceKeyFunc :: "object_meta \<Rightarrow> string" where
  "MetaNamespaceKeyFunc m =
     (if length (om_Namespace m) > 0 then om_Namespace m @ ''/'' @ om_Name m else om_Name m)"

definition SplitMetaNamespaceKey :: "string \<Rightarrow> (string \<times> string) result" where
  "SplitMetaNamespaceKey key =
     (case split_on CHR ''/'' key of
        [name] \<Rightarrow> Inr ('''', name)
      | [namespace, name] \<Rightarrow> Inr (namespace, name)
      | _ \<Rightarrow> Inl (Fail (ErrorString ''unexpected key format'')))"

text \<open>\<open>ix_Index\<close> maps a namespace to the keys of its objects; \<open>None\<close> when the cache was built
  without the namespace index.\<close>

record 'o indexer =
  ix_Items :: "(string, 'o) gomap"
  ix_Index :: "(string, string list) gomap option"

type_synonym ('a, 'b) cache = "('a, 'b) kobject indexer"

definition NewIndexer :: "bool \<Rightarrow> 'o indexer" where
  "NewIndexer by_namespace = \<lparr>ix_Items = [], ix_Index = (if by_namespace then Some [] else None)\<rparr>"

definition deleteFromIndices :: "('a, 'b) kobject \<Rightarrow> string \<Rightarrow> ('a, 'b) cache \<Rightarrow> ('a, 'b) cache" where
  "deleteFromIndices obj key c =
     (case ix_Index c of
        None \<Rightarrow> c
      | Some index \<Rightarrow>
          (let indexValue = om_Namespace (obj_meta obj) in
           case map_of index indexValue of
             None \<Rightarrow> c
           | Some keys \<Rightarrow>
               (let keys = removeAll key keys in
                if keys = [] then c\<lparr>ix_Index := Some (AList.delete indexValue index)\<rparr>
                else c\<lparr>ix_Index := Some (AList.update indexValue keys index)\<rparr>)))"

definition index_insert :: "('a, 'b) kobject \<Rightarrow> string \<Rightarrow> ('a, 'b) cache \<Rightarrow> ('a, 'b) cache" where
  "index_insert newObj key c =
     (case ix_Index c of
        None \<Rightarrow> c
      | Some index \<Rightarrow>
          (let indexValue = om_Namespace (obj_meta newObj);
               keys = (case map_of index indexValue of None \<Rightarrow> [] | Some ks \<Rightarrow> ks)
           in c\<lparr>ix_Index := Some (AList.update indexValue (sset_insert key keys) index)\<rparr>))"

definition updateIndices ::
  "('a, 'b) kobject option \<Rightarrow> ('a, 'b) kobject \<Rightarrow> string \<Rightarrow> ('a, 'b) cache \<Rightarrow> ('a, 'b) cache" where
  "updateIndices oldObj newObj key c =
     index_insert newObj key (case oldObj of None \<Rightarrow> c | Some old \<Rightarrow> deleteFromIndices old key c)"

definition ix_Add :: "string \<Rightarrow> ('a, 'b) kobject \<Rightarrow> ('a, 'b) cache \<Rightarrow> ('a, 'b) cache" where
  "ix_Add key obj c =
     (let oldObject = map_of (ix_Items c) key in
      updateIndices oldObject obj key (c\<lparr>ix_Items := AList.update key obj (ix_Items c)\<rparr>))"

definition ix_Delete :: "string \<Rightarrow> ('a, 'b) cache \<Rightarrow> ('a, 'b) cache" where
  "ix_Delete key c =
     (case map_of (ix_Items c) key of
        None \<Rightarrow> c
      | Some obj \<Rightarrow>
          (let c = deleteFromIndices obj key c in c\<lparr>ix_Items := AList.delete key (ix_Items c)\<rparr>))"

definition ix_Replace ::
  "key_order \<Rightarrow> (string, ('a, 'b) kobject) gomap \<Rightarrow> ('a, 'b) cache \<Rightarrow> ('a, 'b) cache" where
  "ix_Replace ord items c =
     fold (\<lambda>(key, item) c. updateIndices None item key c) (range_map ord items)
       (c\<lparr>ix_Items := items, ix_Index := map_option (\<lambda>_. []) (ix_Index c)\<rparr>)"

definition ix_List :: "key_order \<Rightarrow> ('a, 'b) cache \<Rightarrow> ('a, 'b) kobject list" where
  "ix_List ord c = map snd (range_map ord (ix_Items c))"

definition ix_GetByKey :: "string \<Rightarrow> ('a, 'b) cache \<Rightarrow> ('a, 'b) kobject option" where
  "ix_GetByKey key c = map_of (ix_Items c) key"

definition ix_ByNamespace :: "key_order \<Rightarrow> string \<Rightarrow> ('a, 'b) cache \<Rightarrow> goerr + ('a, 'b) kobject list" where
  "ix_ByNamespace ord ns c =
     (case ix_Index c of
        None \<Rightarrow> Inl (ErrorString ''Index with name namespace does not exist'')
      | Some index \<Rightarrow>
          (let storeKeySet = (case map_of index ns of None \<Rightarrow> [] | Some ks \<Rightarrow> ks)
           in Inr (map (\<lambda>k. the (map_of (ix_Items c) k)) (ord storeKeySet))))"

subsection \<open>Listing with a selector\<close>

fun list_all_loop :: "bool \<Rightarrow> selector \<Rightarrow> ('a, 'b) kobject list \<Rightarrow> ('a, 'b) kobject list \<Rightarrow> ('a, 'b) kobject list" where
  "list_all_loop selectAll sel [] out = out"
| "list_all_loop selectAll sel (m # ms) out =
     (if selectAll then list_all_loop selectAll sel ms (out @ [m])
      else if selector_matches sel (om_Labels (obj_meta m)) then list_all_loop selectAll sel ms (out @ [m])
      else list_all_loop selectAll sel ms out)"

definition ListAll :: "key_order \<Rightarrow> ('a, 'b) cache \<Rightarrow> selector \<Rightarrow> ('a, 'b) kobject list" where
  "ListAll ord store sel = list_all_loop (selector_empty sel) sel (ix_List ord store) []"

definition ListAllByNamespace ::
  "key_order \<Rightarrow> ('a, 'b) cache \<Rightarrow> string \<Rightarrow> selector \<Rightarrow> ('a, 'b) kobject list" where
  "ListAllByNamespace ord store ns sel =
     (if ns = '''' then list_all_loop (selector_empty sel) sel (ix_List ord store) []
      else case ix_ByNamespace ord ns store of
        Inl err \<Rightarrow>
          filter (\<lambda>m. om_Namespace (obj_meta m) = ns \<and> selector_matches sel (om_Labels (obj_meta m)))
            (ix_List ord store)
      | Inr items \<Rightarrow> list_all_loop (selector_empty sel) sel items [])"

subsection \<open>Generated listers\<close>

record 'o namespace_lister =
  nl_List :: "selector \<Rightarrow> 'o list"
  nl_Get :: "string \<Rightarrow> 'o result"

record 'o generated_lister =
  gl_List :: "selector \<Rightarrow> 'o list"
  gl_Namespace :: "string \<Rightarrow> 'o namespace_lister"

definition namespaced_lister ::
  "string \<Rightarrow> key_order \<Rightarrow> ('a, 'b) cache \<Rightarrow> ('a, 'b) kobject generated_lister" where
  "namespaced_lister resource ord indexer =
     \<lparr>gl_List = ListAll ord indexer,
      gl_Namespace = (\<lambda>ns.
        \<lparr>nl_List = ListAllByNamespace ord indexer ns,
         nl_Get = (\<lambda>name.
           case ix_GetByKey (ns @ ''/'' @ name) indexer of
             None \<Rightarrow> Inl (Fail (NewNotFound resource name)) | Some obj \<Rightarrow> Inr obj)\<rparr>)\<rparr>"

definition NewGatewayLister :: "key_order \<Rightarrow> (gateway_spec, gateway_status) cache \<Rightarrow> gateway generated_lister" where
  "NewGatewayLister = namespaced_lister ''gateway''"

definition NewHTTPRouteLister :: "key_order \<Rightarrow> (httproute_spec, httproute_status) cache \<Rightarrow> httproute generated_lister" where
  "NewHTTPRouteLister = namespaced_lister ''httproute''"

definition NewBackendPolicyLister ::
  "key_order \<Rightarrow> (backendpolicy_spec, backendpolicy_status) cache \<Rightarrow> backendpolicy generated_lister" where
  "NewBackendPolicyLister = namespaced_lister ''backendpolicy''"

definition NewTCPRouteLister :: "key_order \<Rightarrow> (l4_spec, l4_status) cache \<Rightarrow> l4_route generated_lister" where
  "NewTCPRouteLister = namespaced_lister ''tcproute''"

definition NewTLSRouteLister :: "key_order \<Rightarrow> (l4_spec, l4_status) cache \<Rightarrow> l4_route generated_lister" where
  "NewTLSRouteLister = namespaced_lister ''tlsroute''"

definition NewUDPRouteLister :: "key_order \<Rightarrow> (l4_spec, l4_status) cache \<Rightarrow> l4_route generated_lister" where
  "NewUDPRouteLister = namespaced_lister ''udproute''"

text \<open>The core \<open>ServiceLister\<close> of client-go has the same shape.\<close>

definition NewServiceLister :: "key_order \<Rightarrow> (service_spec, service_status) cache \<Rightarrow> service generated_lister" where
  "NewServiceLister = namespaced_lister ''service''"

record 'o cluster_lister =
  cl_List :: "selector \<Rightarrow> 'o list"
  cl_Get :: "string \<Rightarrow> 'o result"

definition NewGatewayClassLister ::
  "key_order \<Rightarrow> (gatewayclass_spec, gatewayclass_status) cache \<Rightarrow> gatewayclass cluster_lister" where
  "NewGatewayClassLister ord indexer =
     \<lparr>cl_List = ListAll ord indexer,
      cl_Get = (\<lambda>name.
        case ix_GetByKey name indexer of
          None \<Rightarrow> Inl (Fail (NewNotFound ''gatewayclass'' name)) | Some obj \<Rightarrow> Inr obj)\<rparr>"

subsection \<open>The cache invariant\<close>

text \<open>Every object is stored under its own key; the index, when there is one, lists exactly the keys
  of each namespace.\<close>

definition index_ok :: "('a, 'b) cache \<Rightarrow> bool" where
  "index_ok c \<longleftrightarrow> (\<forall>index. ix_Index c = Some index \<longrightarrow>
     (\<forall>ns k. (\<exists>ks. map_of index ns = Some ks \<and> k \<in> set ks) \<longleftrightarrow>
             (\<exists>x. map_of (ix_Items c) k = Some x \<and> om_Namespace (obj_meta x) = ns)))"

definition keys_ok :: "('a, 'b) cache \<Rightarrow> bool" where
  "keys_ok c \<longleftrightarrow> (\<forall>k x. map_of (ix_Items c) k = Some x \<longrightarrow> k = MetaNamespaceKeyFunc (obj_meta x))"

definition distinct_values :: "(string \<Rightarrow> string list option) \<Rightarrow> bool" where
  "distinct_values m \<longleftrightarrow> (\<forall>ks \<in> ran m. distinct ks)"

definition index_distinct :: "('a, 'b) cache \<Rightarrow> bool" where
  "index_distinct c \<longleftrightarrow> (case ix_Index c of None \<Rightarrow> True | Some index \<Rightarrow> distinct_values (map_of index))"

definition cache_ok :: "('a, 'b) cache \<Rightarrow> bool" where
  "cache_ok c \<longleftrightarrow> index_ok c \<and> keys_ok c \<and> index_distinct c"

definition in_index :: "('a, 'b) cache \<Rightarrow> string \<Rightarrow> string \<Rightarrow> bool" where
  "in_index c ns k \<longleftrightarrow> (\<exists>index ks. ix_Index c = Some index \<and> map_of index ns = Some ks \<and> k \<in> set ks)"

lemma index_ok_iff: "index_ok c \<longleftrightarrow> ix_Index c = None \<or> (\<forall>ns k. in_index c ns k \<longleftrightarrow>
     (\<exists>x. map_of (ix_Items c) k = Some x \<and> om_Namespace (obj_meta x) = ns))"
  by (cases "ix_Index c") (auto simp: index_ok_def in_index_def)

lemma deleteFromIndices_frame [simp]:
  "ix_Items (deleteFromIndices x k c) = ix_Items c"
  "ix_Index (deleteFromIndices x k c) = None \<longleftrightarrow> ix_Index c = None"
  by (auto simp: deleteFromIndices_def Let_def split: option.splits)

lemma index_insert_frame [simp]:
  "ix_Items (index_insert x k c) = ix_Items c"
  "ix_Index (index_insert x k c) = None \<longleftrightarrow> ix_Index c = None"
  by (auto simp: index_insert_def Let_def split: option.splits)

lemma updateIndices_frame [simp]:
  "ix_Items (updateIndices old x k c) = ix_Items c"
  "ix_Index (updateIndices old x k c) = None \<longleftrightarrow> ix_Index c = None"
  by (cases old; simp add: updateIndices_def)+

lemma removeAll_Nil_iff: "removeAll k xs = [] \<longleftrightarrow> set xs \<subseteq> {k}"
  by (induction xs) auto

lemma in_index_delete:
  "in_index (deleteFromIndices x k c) ns k' \<longleftrightarrow>
     in_index c ns k' \<and> \<not> (ns = om_Namespace (obj_meta x) \<and> k' = k)"
  by (auto simp: in_index_def deleteFromIndices_def Let_def update_conv' delete_conv' removeAll_Nil_iff
      split: option.splits if_splits)

lemma in_index_insert:
  "ix_Index c \<noteq> None \<Longrightarrow> in_index (index_insert x k c) ns k' \<longleftrightarrow>
     ns = om_Namespace (obj_meta x) \<and> k' = k \<or> in_index c ns k'"
  by (auto simp: in_index_def index_insert_def Let_def update_conv' split: option.splits if_splits)

lemma in_index_update:
  "ix_Index c \<noteq> None \<Longrightarrow> in_index (updateIndices old x k c) ns k' \<longleftrightarrow>
     ns = om_Namespace (obj_meta x) \<and> k' = k
     \<or> in_index c ns k' \<and> (case old of None \<Rightarrow> True | Some y \<Rightarrow> \<not> (ns = om_Namespace (obj_meta y) \<and> k' = k))"
  by (cases old) (simp_all add: updateIndices_def in_index_insert in_index_delete)

lemma distinct_sset_insert [simp]: "distinct ks \<Longrightarrow> distinct (sset_insert k ks)"
  by (simp add: sset_insert_def)

lemma distinct_values_upd: "distinct_values m \<Longrightarrow> distinct ks \<Longrightarrow> distinct_values (m(ns \<mapsto> ks))"
  by (auto simp: distinct_values_def ran_def)

lemma distinct_values_del: "distinct_values m \<Longrightarrow> distinct_values (m(ns := None))"
  by (auto simp: distinct_values_def ran_def)

lemma distinct_valuesD: "distinct_values m \<Longrightarrow> m ns = Some ks \<Longrightarrow> distinct ks"
  by (auto simp: distinct_values_def intro: ranI)

lemma index_distinct_insert [simp]:
  "index_distinct c \<Longrightarrow> index_distinct (index_insert x k c)"
  by (auto simp: index_distinct_def index_insert_def Let_def update_conv' intro!: distinct_values_upd
      distinct_sset_insert intro: distinct_valuesD split: option.splits)

lemma index_distinct_delete [simp]:
  "index_distinct c \<Longrightarrow> index_distinct (deleteFromIndices x k c)"
  by (auto simp: index_distinct_def deleteFromIndices_def Let_def update_conv' delete_conv'
      intro!: distinct_values_upd distinct_values_del distinct_removeAll
      intro: distinct_valuesD split: option.splits)

lemma index_distinct_update [simp]: "index_distinct c \<Longrightarrow> index_distinct (updateIndices old x k c)"
  by (cases old) (simp_all add: updateIndices_def)

lemma in_index_items [simp]: "in_index (c\<lparr>ix_Items := items\<rparr>) = in_index c"
  by (simp add: in_index_def fun_eq_iff)

lemma index_distinct_items [simp]: "index_distinct (c\<lparr>ix_Items := items\<rparr>) = index_distinct c"
  by (simp add: index_distinct_def)

lemma ix_Add_ok:
  assumes "cache_ok c" and "key = MetaNamespaceKeyFunc (obj_meta x)"
  shows "cache_ok (ix_Add key x c)" and "map_of (ix_Items (ix_Add key x c)) = (map_of (ix_Items c))(key \<mapsto> x)"
proof -
  show items: "map_of (ix_Items (ix_Add key x c)) = (map_of (ix_Items c))(key \<mapsto> x)"
    by (simp add: ix_Add_def Let_def update_conv')
  have "index_ok (ix_Add key x c)"
  proof (cases "ix_Index c")
    case None
    then show ?thesis by (simp add: index_ok_iff ix_Add_def Let_def)
  next
    case (Some index)
    have old: "in_index c ns k \<longleftrightarrow> (\<exists>x. map_of (ix_Items c) k = Some x \<and> om_Namespace (obj_meta x) = ns)" for ns k
      using assms(1) Some by (simp add: cache_ok_def index_ok_iff)
    have "in_index (ix_Add key x c) ns k \<longleftrightarrow>
        (\<exists>y. map_of (ix_Items (ix_Add key x c)) k = Some y \<and> om_Namespace (obj_meta y) = ns)" for ns k
      unfolding items using Some
      by (auto simp: ix_Add_def Let_def in_index_update old split: option.splits)
    then show ?thesis by (simp add: index_ok_iff)
  qed
  moreover have "keys_ok (ix_Add key x c)"
    using assms unfolding cache_ok_def keys_ok_def items by auto
  moreover have "index_distinct (ix_Add key x c)"
    using assms(1) by (simp add: cache_ok_def ix_Add_def Let_def)
  ultimately show "cache_ok (ix_Add key x c)" by (simp add: cache_ok_def)
qed

lemma ix_Delete_ok:
  assumes "cache_ok c"
  shows "cache_ok (ix_Delete key c)" and "map_of (ix_Items (ix_Delete key c)) = (map_of (ix_Items c))(key := None)"
proof -
  show items: "map_of (ix_Items (ix_Delete key c)) = (map_of (ix_Items c))(key := None)"
    by (auto simp: ix_Delete_def Let_def delete_conv' split: option.splits)
  have "index_ok (ix_Delete key c)"
  proof (cases "ix_Index c")
    case None
    then show ?thesis by (simp add: index_ok_iff ix_Delete_def Let_def split: option.splits)
  next
    case (Some index)
    have old: "in_index c ns k \<longleftrightarrow> (\<exists>x. map_of (ix_Items c) k = Some x \<and> om_Namespace (obj_meta x) = ns)" for ns k
      using assms(1) Some by (simp add: cache_ok_def index_ok_iff)
    have "in_index (ix_Delete key c) ns k \<longleftrightarrow>
        (\<exists>y. map_of (ix_Items (ix_Delete key c)) k = Some y \<and> om_Namespace (obj_meta y) = ns)" for ns k
      unfolding items
      by (auto simp: ix_Delete_def Let_def in_index_delete old split: option.splits)
    then show ?thesis by (simp add: index_ok_iff)
  qed
  moreover have "keys_ok (ix_Delete key c)"
    using assms unfolding cache_ok_def keys_ok_def items by auto
  moreover have "index_distinct (ix_Delete key c)"
    using assms(1) by (simp add: cache_ok_def ix_Delete_def Let_def split: option.splits)
  ultimately show "cache_ok (ix_Delete key c)" by (simp add: cache_ok_def)
qed

subsection \<open>What the listers return\<close>

lemma list_all_loop_filter:
  "list_all_loop a sel ms out = out @ filter (\<lambda>m. a \<or> selector_matches sel (om_Labels (obj_meta m))) ms"
  by (induction a sel ms out rule: list_all_loop.induct) auto

lemma selector_empty_matches: "selector_empty sel \<Longrightarrow> selector_matches sel ls"
  by (simp add: selector_empty_def selector_matches_def)

lemma list_all_loop_selector:
  "list_all_loop (selector_empty sel) sel ms [] = filter (\<lambda>m. selector_matches sel (om_Labels (obj_meta m))) ms"
  using selector_empty_matches by (auto simp: list_all_loop_filter intro: filter_cong)

lemma set_ListAll:
  assumes "order_ok ord"
  shows "set (ListAll ord c sel) =
    {x. \<exists>k. map_of (ix_Items c) k = Some x \<and> selector_matches sel (om_Labels (obj_meta x))}"
  using assms by (force simp: ListAll_def list_all_loop_selector ix_List_def set_range_map)

text \<open>With or without the index, a namespaced list is the filter of all objects of the namespace.\<close>

lemma set_ListAllByNamespace:
  assumes "order_ok ord" and "cache_ok c"
  shows "set (ListAllByNamespace ord c ns sel) =
    {x. \<exists>k. map_of (ix_Items c) k = Some x \<and> (ns = '''' \<or> om_Namespace (obj_meta x) = ns)
       \<and> selector_matches sel (om_Labels (obj_meta x))}"
proof (cases "ns = ''''")
  case True
  then show ?thesis
    using set_ListAll [OF assms(1), of c sel] by (simp add: ListAllByNamespace_def ListAll_def)
next
  case ns: False
  show ?thesis
  proof (cases "ix_Index c")
    case None
    then show ?thesis
      using ns assms(1) by (force simp: ListAllByNamespace_def ix_ByNamespace_def ix_List_def set_range_map)
  next
    case (Some index)
    let ?keys = "case map_of index ns of None \<Rightarrow> [] | Some ks \<Rightarrow> ks"
    have keys: "k \<in> set ?keys \<longleftrightarrow> (\<exists>x. map_of (ix_Items c) k = Some x \<and> om_Namespace (obj_meta x) = ns)" for k
    proof -
      have "in_index c ns k \<longleftrightarrow> (\<exists>x. map_of (ix_Items c) k = Some x \<and> om_Namespace (obj_meta x) = ns)"
        using assms(2) Some by (simp add: cache_ok_def index_ok_iff)
      moreover have "in_index c ns k \<longleftrightarrow> k \<in> set ?keys"
        using Some by (cases "map_of index ns") (simp_all add: in_index_def)
      ultimately show ?thesis by simp
    qed
    have "set (map (\<lambda>k. the (map_of (ix_Items c) k)) (ord ?keys)) =
        {x. \<exists>k. map_of (ix_Items c) k = Some x \<and> om_Namespace (obj_meta x) = ns}"
      using keys by (force simp: order_ok_set [OF assms(1)] image_iff)
    then show ?thesis
      using ns by (auto simp: ListAllByNamespace_def ix_ByNamespace_def Some list_all_loop_selector)
  qed
qed

lemma ListAll_distinct:
  assumes "order_ok ord" and "keys_ok c"
  shows "distinct (ListAll ord c sel)"
proof -
  have inj: "inj_on snd (set (range_map ord (ix_Items c)))"
  proof (rule inj_onI)
    fix a b assume "a \<in> set (range_map ord (ix_Items c))" "b \<in> set (range_map ord (ix_Items c))" "snd a = snd b"
    moreover from this have "map_of (ix_Items c) (fst a) = Some (snd a)"
      "map_of (ix_Items c) (fst b) = Some (snd b)"
      by (auto simp: set_range_map [OF assms(1)])
    then have "fst a = MetaNamespaceKeyFunc (obj_meta (snd a))"
      "fst b = MetaNamespaceKeyFunc (obj_meta (snd b))"
      using assms(2) unfolding keys_ok_def by blast+
    ultimately show "a = b" by (simp add: prod_eq_iff)
  qed
  have "distinct (range_map ord (ix_Items c))"
    using distinct_range_map [OF assms(1)] distinct_map by blast
  then show ?thesis
    using inj by (simp add: ListAll_def list_all_loop_selector ix_List_def distinct_map)
qed

text \<open>Keys: a namespace that can be written in a key, and the object a key stands for.\<close>

definition ok_ns :: "string \<Rightarrow> bool" where
  "ok_ns ns \<longleftrightarrow> ns \<noteq> '''' \<and> CHR ''/'' \<notin> set ns"

lemma key_split_unique: "x \<notin> set a \<Longrightarrow> x \<notin> set b \<Longrightarrow> a @ x # c = b @ x # d \<Longrightarrow> a = b \<and> c = d"
proof (induction a arbitrary: b)
  case Nil
  then show ?case by (cases b) auto
next
  case (Cons y a)
  then show ?case by (cases b) auto
qed

definition cview :: "('a, 'b) cache \<Rightarrow> object_key \<Rightarrow> ('a, 'b) kobject option" where
  "cview c k = map_of (ix_Items c) (fst k @ ''/'' @ snd k)"

text \<open>The namespaces of the cached objects are well-formed.\<close>

definition cache_ns_ok :: "('a, 'b) cache \<Rightarrow> bool" where
  "cache_ns_ok c \<longleftrightarrow> (\<forall>k x. map_of (ix_Items c) k = Some x \<longrightarrow> ok_ns (om_Namespace (obj_meta x)))"

lemma cview_key:
  assumes "keys_ok c" and "cache_ns_ok c" and "ok_ns (fst k)" and "cview c k = Some x"
  shows "obj_key x = k"
proof -
  have x: "fst k @ ''/'' @ snd k = MetaNamespaceKeyFunc (obj_meta x)" "ok_ns (om_Namespace (obj_meta x))"
    using assms(1,2,4) by (auto simp: cview_def keys_ok_def cache_ns_ok_def)
  then have "om_Namespace (obj_meta x) @ CHR ''/'' # om_Name (obj_meta x) = fst k @ CHR ''/'' # snd k"
    by (simp add: MetaNamespaceKeyFunc_def ok_ns_def)
  moreover have "CHR ''/'' \<notin> set (om_Namespace (obj_meta x))" "CHR ''/'' \<notin> set (fst k)"
    using x(2) assms(3) by (simp_all add: ok_ns_def)
  ultimately have "om_Namespace (obj_meta x) = fst k \<and> om_Name (obj_meta x) = snd k"
    by (metis key_split_unique)
  then show ?thesis by (simp only: obj_key_def prod_eq_iff fst_conv snd_conv)
qed

lemma cview_self:
  assumes "keys_ok c" and "cache_ns_ok c" and "map_of (ix_Items c) k = Some x"
  shows "cview c (obj_key x) = Some x"
proof -
  have "k = MetaNamespaceKeyFunc (obj_meta x)" "ok_ns (om_Namespace (obj_meta x))"
    using assms by (auto simp: keys_ok_def cache_ns_ok_def)
  then have "k = om_Namespace (obj_meta x) @ ''/'' @ om_Name (obj_meta x)"
    by (simp add: MetaNamespaceKeyFunc_def ok_ns_def)
  with assms(3) show ?thesis by (simp add: cview_def obj_key_def)
qed

lemma MetaNamespaceKey_roundtrip:
  assumes "CHR ''/'' \<notin> set (om_Namespace m)" and "CHR ''/'' \<notin> set (om_Name m)"
  shows "SplitMetaNamespaceKey (MetaNamespaceKeyFunc m) = Inr (om_Namespace m, om_Name m)"
  using assms split_on_app [of "CHR ''/''" "om_Namespace m" "om_Name m"]
  by (simp add: SplitMetaNamespaceKey_def MetaNamespaceKeyFunc_def split_on_no_sep)

lemma lister_get:
  "nl_Get (gl_Namespace (namespaced_lister res ord c) ns) name =
     (case cview c (ns, name) of None \<Rightarrow> Inl (Fail (NewNotFound res name)) | Some x \<Rightarrow> Inr x)"
  by (simp add: namespaced_lister_def ix_GetByKey_def cview_def)


subsection \<open>The cache over the thread safe store\<close>

text \<open>The operations of \<open>cache\<close> in \<open>store.go\<close>: the key is that of the object. Updating does
  what adding does.\<close>

definition store_Add :: "('a, 'b) kobject \<Rightarrow> ('a, 'b) cache \<Rightarrow> ('a, 'b) cache" where
  "store_Add obj c = ix_Add (MetaNamespaceKeyFunc (obj_meta obj)) obj c"

definition store_Update :: "('a, 'b) kobject \<Rightarrow> ('a, 'b) cache \<Rightarrow> ('a, 'b) cache" where
  "store_Update obj c = ix_Add (MetaNamespaceKeyFunc (obj_meta obj)) obj c"

definition store_Delete :: "('a, 'b) kobject \<Rightarrow> ('a, 'b) cache \<Rightarrow> ('a, 'b) cache" where
  "store_Delete obj c = ix_Delete (MetaNamespaceKeyFunc (obj_meta obj)) c"

fun key_items :: "('a, 'b) kobject list \<Rightarrow> (string, ('a, 'b) kobject) gomap \<Rightarrow> (string, ('a, 'b) kobject) gomap" where
  "key_items [] items = items"
| "key_items (item # xs) items = key_items xs (AList.update (MetaNamespaceKeyFunc (obj_meta item)) item items)"

definition store_Replace :: "key_order \<Rightarrow> ('a, 'b) kobject list \<Rightarrow> ('a, 'b) cache \<Rightarrow> ('a, 'b) cache" where
  "store_Replace ord xs c = ix_Replace ord (key_items xs []) c"

text \<open>What an informer does to its cache, one change after the other.\<close>

datatype ('a, 'b) cache_op =
    CacheAdd "('a, 'b) kobject"
  | CacheUpdate "('a, 'b) kobject"
  | CacheDelete "('a, 'b) kobject"
  | CacheReplace key_order "('a, 'b) kobject list"

fun run_cache_op :: "('a, 'b) cache_op \<Rightarrow> ('a, 'b) cache \<Rightarrow> ('a, 'b) cache" where
  "run_cache_op (CacheAdd x) c = store_Add x c"
| "run_cache_op (CacheUpdate x) c = store_Update x c"
| "run_cache_op (CacheDelete x) c = store_Delete x c"
| "run_cache_op (CacheReplace ord xs) c = store_Replace ord xs c"

fun cache_op_ok :: "('a, 'b) cache_op \<Rightarrow> bool" where
  "cache_op_ok (CacheReplace ord xs) = order_ok ord"
| "cache_op_ok _ = True"

text \<open>The same changes of a plain map from keys to objects.\<close>

fun spec_cache_op ::
  "('a, 'b) cache_op \<Rightarrow> (string \<Rightarrow> ('a, 'b) kobject option) \<Rightarrow> string \<Rightarrow> ('a, 'b) kobject option" where
  "spec_cache_op (CacheAdd x) m = m(MetaNamespaceKeyFunc (obj_meta x) \<mapsto> x)"
| "spec_cache_op (CacheUpdate x) m = m(MetaNamespaceKeyFunc (obj_meta x) \<mapsto> x)"
| "spec_cache_op (CacheDelete x) m = m(MetaNamespaceKeyFunc (obj_meta x) := None)"
| "spec_cache_op (CacheReplace ord xs) m = map_of (rev (map (\<lambda>x. (MetaNamespaceKeyFunc (obj_meta x), x)) xs))"

lemma key_items_lookup:
  "map_of (key_items xs items) = map_of items ++ map_of (rev (map (\<lambda>x. (MetaNamespaceKeyFunc (obj_meta x), x)) xs))"
  by (induction xs items rule: key_items.induct) (simp_all add: update_conv' fun_eq_iff map_add_def split: option.split)

lemma key_items_keys: "map_of (key_items xs []) k = Some x \<Longrightarrow> k = MetaNamespaceKeyFunc (obj_meta x)"
  by (auto simp: key_items_lookup dest!: map_of_SomeD)

text \<open>Rebuilding the index from nothing.\<close>

definition reindex :: "(string \<times> ('a, 'b) kobject) list \<Rightarrow> ('a, 'b) cache \<Rightarrow> ('a, 'b) cache" where
  "reindex es c = fold (\<lambda>(key, item) c. updateIndices None item key c) es c"

lemma reindex_frame: "ix_Items (reindex es c) = ix_Items c" "ix_Index (reindex es c) = None \<longleftrightarrow> ix_Index c = None"
  unfolding reindex_def by (induction es arbitrary: c) auto

lemma reindex_distinct: "index_distinct c \<Longrightarrow> index_distinct (reindex es c)"
  unfolding reindex_def by (induction es arbitrary: c) auto

lemma in_index_reindex:
  "ix_Index c \<noteq> None \<Longrightarrow> in_index (reindex es c) ns k \<longleftrightarrow>
     in_index c ns k \<or> (\<exists>x. (k, x) \<in> set es \<and> om_Namespace (obj_meta x) = ns)"
  unfolding reindex_def
proof (induction es arbitrary: c)
  case (Cons e es)
  obtain k' x where e: "e = (k', x)" by force
  have "ix_Index (updateIndices None x k' c) \<noteq> None" using Cons.prems by simp
  from Cons.IH [OF this] show ?case
    using Cons.prems by (auto simp: e in_index_update)
qed simp

lemma ix_Replace_ok:
  assumes ord: "order_ok ord" and keys: "\<And>k x. map_of items k = Some x \<Longrightarrow> k = MetaNamespaceKeyFunc (obj_meta x)"
  shows "cache_ok (ix_Replace ord items c)" and "ix_Items (ix_Replace ord items c) = items"
proof -
  let ?c = "c\<lparr>ix_Items := items, ix_Index := map_option (\<lambda>_. []) (ix_Index c)\<rparr>"
  have r: "ix_Replace ord items c = reindex (range_map ord items) ?c"
    by (simp add: ix_Replace_def reindex_def)
  show items: "ix_Items (ix_Replace ord items c) = items" by (simp add: r reindex_frame)
  have "index_ok (ix_Replace ord items c)"
  proof (cases "ix_Index c")
    case None
    then show ?thesis by (simp add: index_ok_iff r reindex_frame)
  next
    case (Some index)
    then have "in_index (reindex (range_map ord items) ?c) ns k \<longleftrightarrow>
        (\<exists>x. map_of items k = Some x \<and> om_Namespace (obj_meta x) = ns)" for ns k
      by (simp add: in_index_reindex set_range_map [OF ord]) (simp add: in_index_def)
    then show ?thesis by (simp add: index_ok_iff r reindex_frame)
  qed
  moreover have "index_distinct (ix_Replace ord items c)"
    unfolding r by (rule reindex_distinct) (simp add: index_distinct_def distinct_values_def split: option.split)
  ultimately show "cache_ok (ix_Replace ord items c)" using keys by (simp add: cache_ok_def keys_ok_def items)
qed

lemma run_cache_op_ok:
  assumes "cache_ok c" and "cache_op_ok x"
  shows "cache_ok (run_cache_op x c) \<and> map_of (ix_Items (run_cache_op x c)) = spec_cache_op x (map_of (ix_Items c))"
proof (cases x)
  case (CacheReplace ord xs)
  have "order_ok ord" using assms(2) by (simp add: CacheReplace)
  then have "cache_ok (ix_Replace ord (key_items xs []) c) \<and> ix_Items (ix_Replace ord (key_items xs []) c) = key_items xs []"
    using ix_Replace_ok key_items_keys by metis
  then show ?thesis
    by (simp add: CacheReplace store_Replace_def) (simp add: key_items_lookup)
qed (simp_all add: store_Add_def store_Update_def store_Delete_def ix_Add_ok [OF assms(1)] ix_Delete_ok [OF assms(1)])

lemma run_cache_ops_ok:
  assumes "cache_ok c" and "list_all cache_op_ok ops"
  shows "cache_ok (fold run_cache_op ops c)
    \<and> map_of (ix_Items (fold run_cache_op ops c)) = fold spec_cache_op ops (map_of (ix_Items c))"
  using assms by (induction ops arbitrary: c) (simp_all add: run_cache_op_ok)

lemma NewIndexer_ok [simp]: "cache_ok (NewIndexer b)" "ix_Items (NewIndexer b) = []"
  by (simp_all add: NewIndexer_def cache_ok_def index_ok_def keys_ok_def index_distinct_def distinct_values_def)


subsection \<open>Properties\<close>

text \<open>C22: Every sequence of additions, updates, deletions and replacements leaves a cache that holds exactly
  the objects of the same sequence over a plain map, each under its own key, with a namespace index that
  lists the keys of every namespace once, whatever order a replacement visits its items in.\<close>

theorem cache_runs_refine_map:
  assumes "list_all cache_op_ok ops"
  shows "cache_ok (fold run_cache_op ops (NewIndexer b))
    \<and> map_of (ix_Items (fold run_cache_op ops (NewIndexer b))) = fold spec_cache_op ops Map.empty"
  using run_cache_ops_ok [OF NewIndexer_ok(1) assms] by simp

definition demo_object :: "string \<Rightarrow> string \<Rightarrow> (unit, unit) kobject" where
  "demo_object ns name = \<lparr>obj_meta = zero_meta\<lparr>om_Name := name, om_Namespace := ns\<rparr>, obj_spec = (), obj_status = ()\<rparr>"

theorem cache_runs_refine_map_witness:
  "map_of (ix_Items (fold run_cache_op
      [CacheReplace rev [demo_object ''ns'' ''a'', demo_object ''ns'' ''b''], CacheDelete (demo_object ''ns'' ''a'')]
      (NewIndexer True))) ''ns/b'' = Some (demo_object ''ns'' ''b'')"
  using cache_runs_refine_map [of "[CacheReplace rev [demo_object ''ns'' ''a'', demo_object ''ns'' ''b''],
      CacheDelete (demo_object ''ns'' ''a'')]" True]
  by (simp add: order_ok_rev demo_object_def MetaNamespaceKeyFunc_def)

text \<open>A namespaced list of a consistent cache, with or without the namespace index, returns the objects of
  the namespace that match the selector, and a list of all namespaces those of every namespace, each
  object once.\<close>

theorem ListAllByNamespace_selects:
  assumes "order_ok ord" and "cache_ok c"
  shows "set (ListAllByNamespace ord c ns sel) =
      {x \<in> set (ListAll ord c []). (ns = '''' \<or> om_Namespace (obj_meta x) = ns)
         \<and> selector_matches sel (om_Labels (obj_meta x))}
    \<and> set (ListAll ord c []) = ran (map_of (ix_Items c)) \<and> distinct (ListAll ord c sel)"
  using set_ListAllByNamespace [OF assms, of ns sel] set_ListAll [OF assms(1), of c "[]"]
    ListAll_distinct [OF assms(1), of c sel] assms(2)
  by (auto simp: cache_ok_def selector_matches_def ran_def)

theorem ListAllByNamespace_selects_witness:
  "demo_object ''ns'' ''a'' \<in> set (ListAllByNamespace rev
      (fold run_cache_op [CacheAdd (demo_object ''ns'' ''a''), CacheAdd (demo_object ''other'' ''b'')] (NewIndexer True))
      ''ns'' [])
   \<and> demo_object ''other'' ''b'' \<notin> set (ListAllByNamespace rev
      (fold run_cache_op [CacheAdd (demo_object ''ns'' ''a''), CacheAdd (demo_object ''other'' ''b'')] (NewIndexer True))
      ''ns'' [])"
proof -
  let ?ops = "[CacheAdd (demo_object ''ns'' ''a''), CacheAdd (demo_object ''other'' ''b'')]"
  have ok: "cache_ok (fold run_cache_op ?ops (NewIndexer True))"
    and items: "map_of (ix_Items (fold run_cache_op ?ops (NewIndexer True))) = fold spec_cache_op ?ops Map.empty"
    using run_cache_ops_ok [OF NewIndexer_ok(1), of ?ops True] by simp_all
  have "map_of (ix_Items (fold run_cache_op ?ops (NewIndexer True))) ''ns/a'' = Some (demo_object ''ns'' ''a'')"
    unfolding items by (simp add: demo_object_def MetaNamespaceKeyFunc_def)
  then have "demo_object ''ns'' ''a'' \<in> ran (map_of (ix_Items (fold run_cache_op ?ops (NewIndexer True))))"
    by (rule ranI)
  moreover have "om_Namespace (obj_meta (demo_object ns n)) = ns" for ns n by (simp add: demo_object_def)
  ultimately show ?thesis
    using ListAllByNamespace_selects [OF order_ok_rev ok, of "''ns''" "[]"]
    by (simp del: fold.simps add: selector_matches_def)
qed

end
