(* ===== verification/Interfaces.thy ===== *)
theory Interfaces
  imports Resources Listers
begin

text \<open>
  What the reconciler uses of its environment: for each resource a lister (the informer cache) and
  a typed client (the API server), and the event recorder. The locale \<open>object_store\<close> states the
  contract of a lister and a client over a world; the facts the reconciler's properties rest on are
  proved inside it, and the world of fake clients interprets it.
\<close>

subsection \<open>Operations\<close>

record ('o, 's) lister =
  l_Get :: "string \<Rightarrow> string \<Rightarrow> ('s, 'o) action"
  l_List :: "selector \<Rightarrow> ('s, 'o list) action"

record ('o, 's) typed_client =
  tc_Create :: "string \<Rightarrow> 'o \<Rightarrow> ('s, 'o) action"
  tc_Update :: "string \<Rightarrow> 'o \<Rightarrow> ('s, 'o) action"
  tc_Delete :: "string \<Rightarrow> string \<Rightarrow> ('s, unit) action"

datatype event_arg = ArgError goerr | ArgString string

datatype event_type = EventTypeNormal | EventTypeWarning

record event =
  ev_Object :: object_key
  ev_Type :: event_type
  ev_Reason :: string
  ev_Format :: string
  ev_Args :: "event_arg list"

text \<open>The object a write keeps: what the builder set, under the key it set.\<close>

definition same_desired :: "('a, 'b) kobject \<Rightarrow> ('a, 'b) kobject \<Rightarrow> bool" where
  "same_desired x y \<longleftrightarrow> obj_key x = obj_key y \<and> obj_spec x = obj_spec y
     \<and> om_Labels (obj_meta x) = om_Labels (obj_meta y)
     \<and> om_Annotations (obj_meta x) = om_Annotations (obj_meta y)"

lemma same_desired_refl [simp]: "same_desired x x"
  by (simp add: same_desired_def)

lemma same_desired_key: "same_desired x y \<Longrightarrow> obj_key x = obj_key y"
  by (simp add: same_desired_def)

subsection \<open>The pattern the reconciler repeats\<close>

text \<open>
  Look the object up in the cache; create the desired one when it is not found; update the cached
  one when it differs. \<open>on_create\<close> and \<open>on_update\<close> wrap the API error, \<open>created\<close> and
  \<open>failed\<close> record events.
\<close>

datatype ensured = Created | Updated | Unchanged

definition overwrite :: "('a, 'b) kobject \<Rightarrow> ('a, 'b) kobject \<Rightarrow> ('a, 'b) kobject" where
  "overwrite cur desired =
     cur\<lparr>obj_spec := obj_spec desired,
         obj_meta := (obj_meta cur)\<lparr>om_Annotations := om_Annotations (obj_meta desired),
                                    om_Labels := om_Labels (obj_meta desired)\<rparr>\<rparr>"

definition up_to_date ::
  "('a \<Rightarrow> 'a \<Rightarrow> bool) \<Rightarrow> ('a, 'b) kobject \<Rightarrow> ('a, 'b) kobject \<Rightarrow> bool" where
  "up_to_date eqSpec cur desired \<longleftrightarrow> eqSpec (obj_spec cur) (obj_spec desired)
     \<and> DeepEqual_map (om_Annotations (obj_meta cur)) (om_Annotations (obj_meta desired))
     \<and> DeepEqual_map (om_Labels (obj_meta cur)) (om_Labels (obj_meta desired))"

lemma overwrite_simps [simp]:
  "obj_spec (overwrite cur d) = obj_spec d" "obj_status (overwrite cur d) = obj_status cur"
  "om_Labels (obj_meta (overwrite cur d)) = om_Labels (obj_meta d)"
  "om_Annotations (obj_meta (overwrite cur d)) = om_Annotations (obj_meta d)"
  "om_Name (obj_meta (overwrite cur d)) = om_Name (obj_meta cur)"
  "om_Namespace (obj_meta (overwrite cur d)) = om_Namespace (obj_meta cur)"
  "om_OwnerReferences (obj_meta (overwrite cur d)) = om_OwnerReferences (obj_meta cur)"
  "obj_key (overwrite cur d) = obj_key cur"
  by (simp_all add: overwrite_def obj_key_def)

lemma up_to_date_overwrite [simp]: "(\<And>x. eqSpec x x) \<Longrightarrow> up_to_date eqSpec (overwrite cur d) d"
  by (simp add: up_to_date_def)

definition ensure ::
  "(('a, 'b) kobject, 's) lister \<Rightarrow> (('a, 'b) kobject, 's) typed_client \<Rightarrow> ('a \<Rightarrow> 'a \<Rightarrow> bool)
     \<Rightarrow> (goerr \<Rightarrow> ('s, unit) action) \<Rightarrow> (('a, 'b) kobject \<Rightarrow> ('s, unit) action)
     \<Rightarrow> string \<Rightarrow> string \<Rightarrow> string \<Rightarrow> string \<Rightarrow> (('a, 'b) kobject \<Rightarrow> string)
     \<Rightarrow> ('a, 'b) kobject result \<Rightarrow> ('s, ensured \<times> ('a, 'b) kobject) action" where
  "ensure L C eqSpec failed created createMsg updateMsg ns name createNs desired =
     bnd (attempt (l_Get L ns name)) (\<lambda>res.
       case res of
         Inl err \<Rightarrow>
           if IsNotFound err then
             bnd (lift desired) (\<lambda>d.
             bnd (attempt (tc_Create C (createNs d) d)) (\<lambda>cr.
               case cr of
                 Inl err \<Rightarrow> bnd (failed err) (\<lambda>_. lift (Inl (Fail (WrapError createMsg err))))
               | Inr obj \<Rightarrow> bnd (created obj) (\<lambda>_. ret (Created, obj))))
           else lift (Inl (Fail err))
       | Inr cur \<Rightarrow>
           bnd (lift desired) (\<lambda>d.
             if \<not> up_to_date eqSpec cur d then
               (let origin = overwrite cur d in
                bnd (attempt (tc_Update C (om_Namespace (obj_meta origin)) origin)) (\<lambda>ur.
                  case ur of
                    Inl err \<Rightarrow> lift (Inl (Fail (WrapError updateMsg err)))
                  | Inr upd \<Rightarrow> ret (Updated, upd)))
             else ret (Unchanged, cur)))"

subsection \<open>The contract of a lister and a client\<close>

text \<open>
  \<open>cache\<close> is what the lister sees, \<open>server\<close> what the API server holds, \<open>wf\<close> an invariant of the
  world. A write changes the server only, at the key of the object; the cache follows later. A call
  that fails changes neither.
\<close>

locale object_store =
  fixes L :: "(('a, 'b) kobject, 's) lister"
    and C :: "(('a, 'b) kobject, 's) typed_client"
    and cache :: "'s \<Rightarrow> object_key \<Rightarrow> ('a, 'b) kobject option"
    and server :: "'s \<Rightarrow> object_key \<Rightarrow> ('a, 'b) kobject option"
    and wf :: "'s \<Rightarrow> bool"
    and res :: string
  assumes get_law: "l_Get L ns name s =
      (case cache s (ns, name) of None \<Rightarrow> Inl (Fail (NewNotFound res name)) | Some x \<Rightarrow> Inr x, s)"
    and list_law: "wf s \<Longrightarrow> \<exists>xs. l_List L sel s = (Inr xs, s) \<and> distinct xs
      \<and> (\<forall>x. x \<in> set xs \<longleftrightarrow> cache s (obj_key x) = Some x \<and> ok_ns (om_Namespace (obj_meta x))
             \<and> selector_matches sel (om_Labels (obj_meta x)))"
    and cache_key: "wf s \<Longrightarrow> ok_ns (fst k) \<Longrightarrow> cache s k = Some x \<Longrightarrow> obj_key x = k"
    and create_law: "wf s \<Longrightarrow> ok_ns (om_Namespace (obj_meta x)) \<Longrightarrow>
      \<exists>r s'. tc_Create C (om_Namespace (obj_meta x)) x s = (r, s') \<and> wf s' \<and> cache s' = cache s
        \<and> (case r of
             Inl f \<Rightarrow> (\<exists>e. f = Fail e) \<and> server s (obj_key x) \<noteq> None \<and> server s' = server s
           | Inr y \<Rightarrow> same_desired x y \<and> server s (obj_key x) = None \<and> server s' = (server s)(obj_key x \<mapsto> y))"
    and update_law: "wf s \<Longrightarrow> ok_ns (om_Namespace (obj_meta x)) \<Longrightarrow>
      \<exists>r s'. tc_Update C (om_Namespace (obj_meta x)) x s = (r, s') \<and> wf s' \<and> cache s' = cache s
        \<and> (case r of
             Inl f \<Rightarrow> (\<exists>e. f = Fail e) \<and> server s (obj_key x) = None \<and> server s' = server s
           | Inr y \<Rightarrow> same_desired x y \<and> server s (obj_key x) \<noteq> None \<and> server s' = (server s)(obj_key x \<mapsto> y))"
    and delete_law: "wf s \<Longrightarrow>
      \<exists>r s'. tc_Delete C ns name s = (r, s') \<and> wf s' \<and> cache s' = cache s
        \<and> (case r of
             Inl f \<Rightarrow> (\<exists>e. f = Fail e) \<and> server s (ns, name) = None \<and> server s' = server s
           | Inr _ \<Rightarrow> server s (ns, name) \<noteq> None \<and> server s' = (server s)((ns, name) := None))"
begin

text \<open>A computation that leaves both views alone, as recording an event does.\<close>

definition inert :: "('s, unit) action \<Rightarrow> bool" where
  "inert m \<longleftrightarrow> (\<forall>s. \<exists>s'. m s = (Inr (), s') \<and> (wf s \<longrightarrow> wf s') \<and> server s' = server s \<and> cache s' = cache s)"

lemma inertE:
  assumes "inert m"
  obtains s' where "m s = (Inr (), s')" "wf s \<Longrightarrow> wf s'" "server s' = server s" "cache s' = cache s"
  using assms unfolding inert_def by blast

text \<open>The cache knows whether the server has an object under the key.\<close>

definition in_step :: "object_key \<Rightarrow> 's \<Rightarrow> bool" where
  "in_step k s \<longleftrightarrow> (cache s k = None \<longleftrightarrow> server s k = None)"

text \<open>What an object is after \<open>ensure\<close>, by what \<open>ensure\<close> did.\<close>

definition ensured_as ::
  "('a \<Rightarrow> 'a \<Rightarrow> bool) \<Rightarrow> object_key \<Rightarrow> ('a, 'b) kobject \<Rightarrow> 's \<Rightarrow> ensured \<times> ('a, 'b) kobject \<Rightarrow> 's \<Rightarrow> bool" where
  "ensured_as eqSpec k d s out s' \<longleftrightarrow>
     (case out of
        (Created, y) \<Rightarrow> cache s k = None \<and> server s k = None \<and> same_desired d y
          \<and> server s' = (server s)(k \<mapsto> y)
      | (Updated, y) \<Rightarrow> (\<exists>cur. cache s k = Some cur \<and> \<not> up_to_date eqSpec cur d
          \<and> server s k \<noteq> None \<and> same_desired (overwrite cur d) y) \<and> server s' = (server s)(k \<mapsto> y)
      | (Unchanged, y) \<Rightarrow> cache s k = Some y \<and> up_to_date eqSpec y d \<and> server s' = server s)"

lemma ensure_spec:
  assumes wf: "wf s" and ns: "ok_ns ns"
    and key: "\<And>d. desired = Inr d \<Longrightarrow> obj_key d = (ns, name) \<and> createNs d = ns"
    and inert: "\<And>e. inert (failed e)" "\<And>x. inert (created x)"
  shows "\<exists>r s'. ensure L C eqSpec failed created createMsg updateMsg ns name createNs desired s = (r, s')
    \<and> wf s' \<and> cache s' = cache s
    \<and> (case r of
         Inl f \<Rightarrow> server s' = server s \<and> (isl desired \<or> \<not> in_step (ns, name) s)
       | Inr out \<Rightarrow> (\<exists>d. desired = Inr d \<and> ensured_as eqSpec (ns, name) d s out s'))"
proof (cases "cache s (ns, name)")
  case None
  show ?thesis
  proof (cases desired)
    case (Inl f)
    with None wf show ?thesis
      by (simp add: ensure_def bnd_def attempt_def get_law)
  next
    case (Inr d)
    have d: "om_Namespace (obj_meta d) = ns" "createNs d = ns" "obj_key d = (ns, name)"
      using key [OF Inr] by (auto simp: obj_key_def)
    obtain r s1 where c: "tc_Create C ns d s = (r, s1)" "wf s1" "cache s1 = cache s"
      and r: "case r of
             Inl f \<Rightarrow> (\<exists>e. f = Fail e) \<and> server s (ns, name) \<noteq> None \<and> server s1 = server s
           | Inr y \<Rightarrow> same_desired d y \<and> server s (ns, name) = None \<and> server s1 = (server s)((ns, name) \<mapsto> y)"
      using create_law [OF wf, of d, unfolded d(1,3)] ns by blast
    show ?thesis
    proof (cases r)
      case (Inl f)
      then obtain e where f: "f = Fail e" and sv: "server s1 = server s" "server s (ns, name) \<noteq> None" using r by auto
      obtain s2 where "failed e s1 = (Inr (), s2)" "wf s2" "server s2 = server s1" "cache s2 = cache s1"
        using inertE [OF inert(1), of e s1] c(2) by metis
      then show ?thesis
        using None c Inl Inr sv f d by (simp add: ensure_def bnd_def attempt_def get_law in_step_def)
    next
      case y: (Inr y)
      obtain s2 where "created y s1 = (Inr (), s2)" "wf s2" "server s2 = server s1" "cache s2 = cache s1"
        using inertE [OF inert(2), of y s1] c(2) by metis
      then show ?thesis
        using None c y Inr r d by (simp add: ensure_def bnd_def attempt_def get_law ensured_as_def)
    qed
  qed
next
  case (Some cur)
  have cur: "obj_key cur = (ns, name)" by (rule cache_key [OF wf _ Some]) (simp add: ns)
  show ?thesis
  proof (cases desired)
    case (Inl f)
    with Some wf show ?thesis
      by (simp add: ensure_def bnd_def attempt_def get_law)
  next
    case (Inr d)
    show ?thesis
    proof (cases "up_to_date eqSpec cur d")
      case True
      then show ?thesis
        using Some wf Inr by (simp add: ensure_def bnd_def attempt_def get_law ensured_as_def)
    next
      case False
      let ?o = "overwrite cur d"
      have o': "om_Namespace (obj_meta cur) = ns" "obj_key ?o = (ns, name)"
        "om_Namespace (obj_meta ?o) = ns"
        using cur by (auto simp: obj_key_def)
      obtain r s1 where c: "tc_Update C ns ?o s = (r, s1)" "wf s1" "cache s1 = cache s"
        and r: "case r of
             Inl f \<Rightarrow> (\<exists>e. f = Fail e) \<and> server s (ns, name) = None \<and> server s1 = server s
           | Inr y \<Rightarrow> same_desired ?o y \<and> server s (ns, name) \<noteq> None \<and> server s1 = (server s)((ns, name) \<mapsto> y)"
        using update_law [OF wf, of ?o, unfolded o'(2,3)] ns by blast
      show ?thesis
      proof (cases r)
        case (Inl f)
        then show ?thesis
          using Some c Inr r False o' by (auto simp: ensure_def bnd_def attempt_def get_law Let_def in_step_def)
      next
        case y: (Inr y)
        then show ?thesis
          using Some c Inr r False o' by (auto simp: ensure_def bnd_def attempt_def get_law Let_def ensured_as_def)
      qed
    qed
  qed
qed

lemma ensured_as_frame:
  "ensured_as eqSpec k d s out s' \<Longrightarrow> k' \<noteq> k \<Longrightarrow> server s' k' = server s k'"
  by (auto simp: ensured_as_def split: prod.splits ensured.splits)

text \<open>The object returned is wanted: its specification, labels and annotations are those desired.\<close>

lemma ensured_as_current:
  assumes "ensured_as eqSpec k d s (kind, y) s'" and "\<And>x. eqSpec x x"
  shows "up_to_date eqSpec y d" and "kind \<noteq> Unchanged \<Longrightarrow> server s' k = Some y"
    and "kind = Unchanged \<Longrightarrow> cache s k = Some y \<and> server s' = server s"
  using assms
  by (cases kind; auto simp: ensured_as_def same_desired_def up_to_date_def split: ensured.splits)+

lemma ensured_as_kind:
  "ensured_as eqSpec k d s (kind, y) s' \<Longrightarrow> kind = Unchanged \<longleftrightarrow> (\<exists>x. cache s k = Some x \<and> up_to_date eqSpec x d)"
  by (cases kind) (auto simp: ensured_as_def)

end

lemma keeps_ensure [keeps_intro]:
  assumes "\<And>ns n. keeps V (l_Get L ns n)" "\<And>ns x. keeps V (tc_Create C ns x)" "\<And>ns x. keeps V (tc_Update C ns x)"
    and "\<And>e. keeps V (failed e)" "\<And>x. keeps V (created x)"
  shows "keeps V (ensure L C eqSpec failed created m1 m2 ns name createNs desired)"
  unfolding ensure_def Let_def by (intro keeps_intro assms)

end
