(* ===== verification/Reconcile.thy ===== *)
theory Reconcile
  imports Interfaces
begin

text \<open>
  The reconciler: \<open>route.go\<close> and \<open>reconcile_resources.go\<close>. Its fields are the listers, clients
  and the event recorder of \<open>Interfaces\<close> over any world. Each loop over a Go map takes the order it
  visits the map in. Logging, the ten second deadline of the context and the tracker field are left
  out: they decide nothing here.
\<close>

record 's reconciler =
  rc_Services :: "(service, 's) typed_client"
  rc_Gateways :: "(gateway, 's) typed_client"
  rc_HTTPRoutes :: "(httproute, 's) typed_client"
  rc_serviceLister :: "(service, 's) lister"
  rc_gatewayLister :: "(gateway, 's) lister"
  rc_httprouteLister :: "(httproute, 's) lister"
  rc_Eventf :: "event \<Rightarrow> 's \<Rightarrow> 's"

definition Eventf ::
  "'s reconciler \<Rightarrow> route \<Rightarrow> event_type \<Rightarrow> string \<Rightarrow> string \<Rightarrow> event_arg list \<Rightarrow> ('s, unit) action" where
  "Eventf c r ty reason fmt args s =
     (Inr (), rc_Eventf c \<lparr>ev_Object = obj_key r, ev_Type = ty, ev_Reason = reason,
                           ev_Format = fmt, ev_Args = args\<rparr> s)"

subsection \<open>Placeholder services\<close>

fun placeholder_targets ::
  "go_context \<Rightarrow> string \<Rightarrow> traffic_target list \<Rightarrow> string list \<Rightarrow> string list result" where
  "placeholder_targets ctx name [] targets = Inr targets"
| "placeholder_targets ctx name (traffic # ts) targets =
     rbind (HostnameFromTemplate ctx name (tt_Tag traffic))
       (\<lambda>target. placeholder_targets ctx name ts (targets @ [target]))"

fun placeholder_loop :: "'s reconciler \<Rightarrow> go_context \<Rightarrow> route \<Rightarrow> string list \<Rightarrow> ('s, unit) action" where
  "placeholder_loop c ctx r [] = ret ()"
| "placeholder_loop c ctx r (target # targets) =
     bnd (attempt (l_Get (rc_serviceLister c) (om_Namespace (obj_meta r)) target)) (\<lambda>res.
       case res of
         Inl err \<Rightarrow>
           if IsNotFound err then
             bnd (lift (MakePlaceholderService ctx r target)) (\<lambda>desired.
             bnd (attempt (tc_Create (rc_Services c) (om_Namespace (obj_meta desired)) desired)) (\<lambda>cr.
               case cr of
                 Inl err \<Rightarrow>
                   bnd (Eventf c r EventTypeWarning ''CreationFailed'' ''Failed to create Service: %v''
                          [ArgError err])
                     (\<lambda>_. lift (Inl (Fail (WrapError ''failed to create Service'' err))))
               | Inr svc \<Rightarrow>
                   bnd (Eventf c r EventTypeNormal ''Created'' ''Created HTTPRoute %q''
                          [ArgString (om_Name (obj_meta svc))])
                     (\<lambda>_. ret ())))
           else lift (Inl (Fail err))
       | Inr svc \<Rightarrow>
           bnd (lift (MakePlaceholderService ctx r target)) (\<lambda>desired.
             if \<not> DeepEqual_service_spec (obj_spec svc) (obj_spec desired)
              \<or> \<not> DeepEqual_map (om_Annotations (obj_meta svc)) (om_Annotations (obj_meta desired))
              \<or> \<not> DeepEqual_map (om_Labels (obj_meta svc)) (om_Labels (obj_meta desired))
             then
               (let origin = svc\<lparr>obj_spec := obj_spec desired,
                   obj_meta := (obj_meta svc)\<lparr>om_Annotations := om_Annotations (obj_meta desired),
                                              om_Labels := om_Labels (obj_meta desired)\<rparr>\<rparr> in
                bnd (attempt (tc_Update (rc_Services c) (om_Namespace (obj_meta origin)) origin)) (\<lambda>ur.
                  case ur of
                    Inl err \<Rightarrow> lift (Inl (Fail (WrapError ''failed to update Service'' err)))
                  | Inr _ \<Rightarrow> ret ()))
             else placeholder_loop c ctx r targets))"

definition reconcilePlaceholderServices :: "'s reconciler \<Rightarrow> go_context \<Rightarrow> route \<Rightarrow> ('s, unit) action" where
  "reconcilePlaceholderServices c ctx r =
     bnd (lift (placeholder_targets ctx (om_Name (obj_meta r)) (rst_Traffic (obj_status r)) []))
       (placeholder_loop c ctx r)"

subsection \<open>Gateways\<close>

text \<open>\<open>UnionMaps\<close> of this package appends the values of a shared key.\<close>

fun append_all :: "(string, string list) gomap \<Rightarrow> (string \<times> string list) list \<Rightarrow> (string, string list) gomap" where
  "append_all out [] = out"
| "append_all out ((k, v) # es) =
     append_all (AList.update k ((case map_of out k of None \<Rightarrow> [] | Some old \<Rightarrow> old) @ v) out) es"

fun union_maps_loop ::
  "(string, string list) gomap \<Rightarrow> (string, string list) gomap list \<Rightarrow> (string, string list) gomap" where
  "union_maps_loop out [] = out"
| "union_maps_loop out (m # ms) = union_maps_loop (append_all out (range_map (\<lambda>ks. ks) m)) ms"

definition UnionMaps :: "(string, string list) gomap list \<Rightarrow> (string, string list) gomap" where
  "UnionMaps maps = (if length maps = 0 then [] else union_maps_loop [] maps)"

fun collect_visibilities ::
  "go_context \<Rightarrow> route \<Rightarrow> traffic_target list \<Rightarrow> (string, string list) gomap
     \<Rightarrow> (string, string list) gomap result" where
  "collect_visibilities ctx r [] visibilityToDomain = Inr visibilityToDomain"
| "collect_visibilities ctx r (traffic # ts) visibilityToDomain =
     rbind (VisibilityToDomain ctx (tt_Tag traffic) r)
       (\<lambda>mp. collect_visibilities ctx r ts (UnionMaps [visibilityToDomain, mp]))"

fun gateway_loop ::
  "'s reconciler \<Rightarrow> go_context \<Rightarrow> route \<Rightarrow> gateway_table \<Rightarrow> (string \<times> string list) list \<Rightarrow> gateway list
     \<Rightarrow> ('s, gateway list) action" where
  "gateway_loop c ctx r gatewayConfig [] gws = ret gws"
| "gateway_loop c ctx r gatewayConfig ((visibility, hosts) # es) gws =
     bnd (lift (LookupGatewayNamespace gatewayConfig visibility)) (\<lambda>ns0.
     let ns = (if ns0 = '''' then om_Namespace (obj_meta r) else ns0) in
     bnd (lift (GatewayName (obj_meta r) visibility)) (\<lambda>name.
     bnd (attempt (l_Get (rc_gatewayLister c) ns name)) (\<lambda>res.
       case res of
         Inl err \<Rightarrow>
           if IsNotFound err then
             bnd (lift (MakeGateway ctx r hosts visibility)) (\<lambda>desired.
             bnd (attempt (tc_Create (rc_Gateways c) ns desired)) (\<lambda>cr.
               case cr of
                 Inl err \<Rightarrow>
                   bnd (Eventf c r EventTypeWarning ''CreationFailed'' ''Failed to create Gateway: %v''
                          [ArgError err])
                     (\<lambda>_. lift (Inl (Fail (WrapError ''failed to create Gateway'' err))))
               | Inr gw \<Rightarrow>
                   bnd (Eventf c r EventTypeNormal ''Created'' ''Created Gateway %q''
                          [ArgString (om_Name (obj_meta gw))])
                     (\<lambda>_. gateway_loop c ctx r gatewayConfig es (gws @ [gw]))))
           else lift (Inl (Fail err))
       | Inr gw \<Rightarrow>
           bnd (lift (MakeGateway ctx r hosts visibility)) (\<lambda>desired.
             if \<not> DeepEqual_gateway_spec (obj_spec gw) (obj_spec desired)
              \<or> \<not> DeepEqual_map (om_Annotations (obj_meta gw)) (om_Annotations (obj_meta desired))
              \<or> \<not> DeepEqual_map (om_Labels (obj_meta gw)) (om_Labels (obj_meta desired))
             then
               (let origin = gw\<lparr>obj_spec := obj_spec desired,
                   obj_meta := (obj_meta gw)\<lparr>om_Annotations := om_Annotations (obj_meta desired),
                                             om_Labels := om_Labels (obj_meta desired)\<rparr>\<rparr> in
                bnd (attempt (tc_Update (rc_Gateways c) (om_Namespace (obj_meta origin)) origin)) (\<lambda>ur.
                  case ur of
                    Inl err \<Rightarrow> lift (Inl (Fail (WrapError ''failed to update HTTPRoute'' err)))
                  | Inr upd \<Rightarrow> gateway_loop c ctx r gatewayConfig es (gws @ [upd])))
             else gateway_loop c ctx r gatewayConfig es gws))))"

definition reconcileGateway ::
  "'s reconciler \<Rightarrow> go_context \<Rightarrow> key_order \<Rightarrow> route \<Rightarrow> ('s, gateway list) action" where
  "reconcileGateway c ctx ord r =
     bnd (lift (collect_visibilities ctx r (rst_Traffic (obj_status r)) [])) (\<lambda>visibilityToDomain.
     bnd (lift (ctx_config ctx)) (\<lambda>cfg.
     gateway_loop c ctx r (cfg_Gateway cfg) (range_map ord visibilityToDomain) []))"

subsection \<open>HTTPRoute\<close>

definition reconcileHTTPRoute ::
  "'s reconciler \<Rightarrow> go_context \<Rightarrow> (nat \<Rightarrow> key_order) \<Rightarrow> route \<Rightarrow> gateway list \<Rightarrow> ('s, httproute) action" where
  "reconcileHTTPRoute c ctx ords r gateways =
     bnd (lift (Ingress_name (obj_meta r))) (\<lambda>name.
     bnd (attempt (l_Get (rc_httprouteLister c) (om_Namespace (obj_meta r)) name)) (\<lambda>res.
       case res of
         Inl err \<Rightarrow>
           if IsNotFound err then
             bnd (lift (MakeHTTPRoute ctx ords r gateways)) (\<lambda>desired.
             bnd (attempt (tc_Create (rc_HTTPRoutes c) (om_Namespace (obj_meta desired)) desired)) (\<lambda>cr.
               case cr of
                 Inl err \<Rightarrow>
                   bnd (Eventf c r EventTypeWarning ''CreationFailed'' ''Failed to create HTTPRoute: %v''
                          [ArgError err])
                     (\<lambda>_. lift (Inl (Fail (WrapError ''failed to create HTTPRoute'' err))))
               | Inr httproute \<Rightarrow>
                   bnd (Eventf c r EventTypeNormal ''Created'' ''Created HTTPRoute %q''
                          [ArgString (om_Name (obj_meta httproute))])
                     (\<lambda>_. ret httproute)))
           else lift (Inl (Fail err))
       | Inr httproute \<Rightarrow>
           bnd (lift (MakeHTTPRoute ctx ords r gateways)) (\<lambda>desired.
             if \<not> DeepEqual_httproute_spec (obj_spec httproute) (obj_spec desired)
              \<or> \<not> DeepEqual_map (om_Annotations (obj_meta httproute)) (om_Annotations (obj_meta desired))
              \<or> \<not> DeepEqual_map (om_Labels (obj_meta httproute)) (om_Labels (obj_meta desired))
             then
               (let origin = httproute\<lparr>obj_spec := obj_spec desired,
                   obj_meta := (obj_meta httproute)\<lparr>om_Annotations := om_Annotations (obj_meta desired),
                                                   om_Labels := om_Labels (obj_meta desired)\<rparr>\<rparr> in
                bnd (attempt (tc_Update (rc_HTTPRoutes c) (om_Namespace (obj_meta origin)) origin)) (\<lambda>ur.
                  case ur of
                    Inl err \<Rightarrow> lift (Inl (Fail (WrapError ''failed to update HTTPRoute'' err)))
                  | Inr updated \<Rightarrow> ret updated))
             else ret httproute)))"

subsection \<open>Readiness\<close>

fun admitted_loop :: "meta_condition list \<Rightarrow> bool" where
  "admitted_loop [] = False"
| "admitted_loop (c # cs) =
     (if mc_Type c = ConditionRouteAdmitted then mc_Status c = metav1_ConditionTrue else admitted_loop cs)"

definition isGatewayAdmitted :: "route_gateway_status \<Rightarrow> bool" where
  "isGatewayAdmitted gw = admitted_loop (rgs_Conditions gw)"

fun all_admitted :: "route_gateway_status list \<Rightarrow> bool" where
  "all_admitted [] = True"
| "all_admitted (gw # gws) = (if \<not> isGatewayAdmitted gw then False else all_admitted gws)"

definition IsHTTPRouteReady :: "httproute \<Rightarrow> bool result" where
  "IsHTTPRouteReady r =
     (case hst_Gateways (obj_status r) of None \<Rightarrow> Inr False | Some gws \<Rightarrow> Inr (all_admitted gws))"

subsection \<open>ReconcileKind and FinalizeKind\<close>

definition ready_condition :: condition where
  "ready_condition = \<lparr>c_Type = IngressConditionReady, c_Status = ConditionTrue, c_Severity = SeverityError,
     c_LastTransitionTime = 0, c_Reason = '''', c_Message = ''''\<rparr>"

record orders =
  od_Visibility :: key_order
  od_Hostnames :: "nat \<Rightarrow> key_order"

definition ReconcileKind ::
  "'s reconciler \<Rightarrow> go_context \<Rightarrow> clock \<Rightarrow> (string \<Rightarrow> string) \<Rightarrow> orders \<Rightarrow> route \<Rightarrow> ('s, route) action" where
  "ReconcileKind c ctx clk sprintf0 od r =
     (if sget (om_Annotations (obj_meta r)) GatewayAPIAnnotation = ''enabled'' then
        bnd (reconcilePlaceholderServices c ctx r) (\<lambda>_.
        bnd (reconcileGateway c ctx (od_Visibility od) r) (\<lambda>gateways.
        bnd (reconcileHTTPRoute c ctx (od_Hostnames od) r gateways) (\<lambda>httproute.
        bnd (lift (IsHTTPRouteReady httproute)) (\<lambda>ready.
          let st = (obj_status r, 0);
              st' = (if ready
                     then MarkTLSNotEnabled clk AutoTLSNotEnabledMessage
                            (PropagateIngressStatus clk sprintf0 [ready_condition] st)
                     else MarkIngressNotConfigured clk st)
          in ret (r\<lparr>obj_status := fst st'\<rparr>)))))
      else ret r)"

fun finalize_loop :: "'s reconciler \<Rightarrow> gateway list \<Rightarrow> ('s, unit) action" where
  "finalize_loop c [] = ret ()"
| "finalize_loop c (gw # gws) =
     bnd (tc_Delete (rc_Gateways c) (om_Namespace (obj_meta gw)) (om_Name (obj_meta gw)))
       (\<lambda>_. finalize_loop c gws)"

definition FinalizeKind :: "'s reconciler \<Rightarrow> route \<Rightarrow> ('s, unit) action" where
  "FinalizeKind c r =
     bnd (l_List (rc_gatewayLister c)
            (SelectorFromSet (Some [(RouteNamespaceLabelKey, om_Namespace (obj_meta r)),
                                    (RouteLabelKey, om_Name (obj_meta r))])))
       (finalize_loop c)"

subsection \<open>The handlers as instances of the repeated pattern\<close>

definition ensure_service ::
  "'s reconciler \<Rightarrow> go_context \<Rightarrow> route \<Rightarrow> string \<Rightarrow> ('s, ensured \<times> service) action" where
  "ensure_service c ctx r target =
     ensure (rc_serviceLister c) (rc_Services c) DeepEqual_service_spec
       (\<lambda>err. Eventf c r EventTypeWarning ''CreationFailed'' ''Failed to create Service: %v'' [ArgError err])
       (\<lambda>svc. Eventf c r EventTypeNormal ''Created'' ''Created HTTPRoute %q'' [ArgString (om_Name (obj_meta svc))])
       ''failed to create Service'' ''failed to update Service'' (om_Namespace (obj_meta r)) target
       (\<lambda>d. om_Namespace (obj_meta d)) (MakePlaceholderService ctx r target)"

definition ensure_gateway ::
  "'s reconciler \<Rightarrow> go_context \<Rightarrow> route \<Rightarrow> string \<Rightarrow> string \<Rightarrow> string list \<Rightarrow> string
     \<Rightarrow> ('s, ensured \<times> gateway) action" where
  "ensure_gateway c ctx r ns name hosts visibility =
     ensure (rc_gatewayLister c) (rc_Gateways c) DeepEqual_gateway_spec
       (\<lambda>err. Eventf c r EventTypeWarning ''CreationFailed'' ''Failed to create Gateway: %v'' [ArgError err])
       (\<lambda>gw. Eventf c r EventTypeNormal ''Created'' ''Created Gateway %q'' [ArgString (om_Name (obj_meta gw))])
       ''failed to create Gateway'' ''failed to update HTTPRoute'' ns name
       (\<lambda>d. ns) (MakeGateway ctx r hosts visibility)"

definition ensure_httproute ::
  "'s reconciler \<Rightarrow> go_context \<Rightarrow> (nat \<Rightarrow> key_order) \<Rightarrow> route \<Rightarrow> gateway list \<Rightarrow> string
     \<Rightarrow> ('s, ensured \<times> httproute) action" where
  "ensure_httproute c ctx ords r gws name =
     ensure (rc_httprouteLister c) (rc_HTTPRoutes c) DeepEqual_httproute_spec
       (\<lambda>err. Eventf c r EventTypeWarning ''CreationFailed'' ''Failed to create HTTPRoute: %v'' [ArgError err])
       (\<lambda>hr. Eventf c r EventTypeNormal ''Created'' ''Created HTTPRoute %q'' [ArgString (om_Name (obj_meta hr))])
       ''failed to create HTTPRoute'' ''failed to update HTTPRoute'' (om_Namespace (obj_meta r)) name
       (\<lambda>d. om_Namespace (obj_meta d)) (MakeHTTPRoute ctx ords r gws)"

lemma not_up_to_date:
  "\<not> up_to_date eqSpec cur d \<longleftrightarrow> \<not> eqSpec (obj_spec cur) (obj_spec d)
     \<or> \<not> DeepEqual_map (om_Annotations (obj_meta cur)) (om_Annotations (obj_meta d))
     \<or> \<not> DeepEqual_map (om_Labels (obj_meta cur)) (om_Labels (obj_meta d))"
  by (auto simp: up_to_date_def)

lemma reconcileHTTPRoute_ensure:
  "reconcileHTTPRoute c ctx ords r gws =
     bnd (lift (Ingress_name (obj_meta r))) (\<lambda>name.
     bnd (ensure_httproute c ctx ords r gws name) (\<lambda>(_, hr). ret hr))"
  unfolding reconcileHTTPRoute_def ensure_httproute_def ensure_def bnd_algebra not_up_to_date
    overwrite_def Let_def
  by (simp cong: sum.case_cong if_cong)

lemma placeholder_loop_ensure:
  "placeholder_loop c ctx r (target # targets) =
     bnd (ensure_service c ctx r target) (\<lambda>(k, _).
       if k = Unchanged then placeholder_loop c ctx r targets else ret ())"
  unfolding placeholder_loop.simps ensure_service_def ensure_def bnd_algebra not_up_to_date
    overwrite_def Let_def
  by (simp cong: sum.case_cong if_cong)

lemma gateway_loop_ensure:
  "gateway_loop c ctx r tbl ((visibility, hosts) # es) gws =
     bnd (lift (LookupGatewayNamespace tbl visibility)) (\<lambda>ns0.
     let ns = (if ns0 = '''' then om_Namespace (obj_meta r) else ns0) in
     bnd (lift (GatewayName (obj_meta r) visibility)) (\<lambda>name.
     bnd (ensure_gateway c ctx r ns name hosts visibility) (\<lambda>(k, gw).
       gateway_loop c ctx r tbl es (if k = Unchanged then gws else gws @ [gw]))))"
  unfolding gateway_loop.simps ensure_gateway_def ensure_def bnd_algebra not_up_to_date
    overwrite_def Let_def
  by (simp cong: sum.case_cong if_cong)

declare placeholder_loop.simps(2) [simp del] gateway_loop.simps(2) [simp del]

end
