(* ===== verification/Cluster.thy ===== *)
theory Cluster
  imports Reconcile
begin

text \<open>
  The reconciler's properties, proved over any cluster: a world in which the three pairs of lister
  and client satisfy \<open>object_store\<close>, a write to one kind leaves the others alone, and an event
  changes nothing a lister or a client sees.
\<close>

type_synonym service_view = "object_key \<Rightarrow> service option"

text \<open>A target whose cached service is as the controller wants it.\<close>

definition service_current :: "service_view \<Rightarrow> go_context \<Rightarrow> route \<Rightarrow> string \<Rightarrow> bool" where
  "service_current cache ctx r t \<longleftrightarrow> (\<exists>x d. cache (om_Namespace (obj_meta r), t) = Some x
     \<and> MakePlaceholderService ctx r t = Inr d \<and> up_to_date DeepEqual_service_spec x d)"

text \<open>The server differs only in the service of the first target that is not current, which is now
  as wanted.\<close>

definition wrote_first ::
  "service_view \<Rightarrow> go_context \<Rightarrow> route \<Rightarrow> string list \<Rightarrow> service_view \<Rightarrow> service_view \<Rightarrow> bool" where
  "wrote_first cache ctx r ts server server' \<longleftrightarrow>
     (\<exists>us t vs y d. ts = us @ t # vs \<and> list_all (service_current cache ctx r) us
        \<and> \<not> service_current cache ctx r t \<and> MakePlaceholderService ctx r t = Inr d
        \<and> up_to_date DeepEqual_service_spec y d
        \<and> server' = server((om_Namespace (obj_meta r), t) \<mapsto> y))"

lemma wrote_first_here:
  "\<not> service_current cache ctx r t \<Longrightarrow> MakePlaceholderService ctx r t = Inr d
     \<Longrightarrow> up_to_date DeepEqual_service_spec y d
     \<Longrightarrow> wrote_first cache ctx r (t # ts) server (server((om_Namespace (obj_meta r), t) \<mapsto> y))"
  unfolding wrote_first_def
  by (intro exI [of _ "[]"] exI [of _ t] exI [of _ ts] exI [of _ y] exI [of _ d]) simp

lemma wrote_first_later:
  assumes "service_current cache ctx r t" and "wrote_first cache ctx r ts server server'"
  shows "wrote_first cache ctx r (t # ts) server server'"
proof -
  obtain us t' vs y d where "ts = us @ t' # vs" "list_all (service_current cache ctx r) us"
    "\<not> service_current cache ctx r t'" "MakePlaceholderService ctx r t' = Inr d"
    "up_to_date DeepEqual_service_spec y d" "server' = server((om_Namespace (obj_meta r), t') \<mapsto> y)"
    using assms(2) unfolding wrote_first_def by blast
  with assms(1) show ?thesis
    unfolding wrote_first_def
    by (intro exI [of _ "t # us"] exI [of _ t'] exI [of _ vs] exI [of _ y] exI [of _ d]) simp
qed

text \<open>Where the gateway of a visibility lives, and the gateways a list of visibilities asks for.\<close>

definition gateway_key :: "gateway_table \<Rightarrow> route \<Rightarrow> string \<Rightarrow> object_key result" where
  "gateway_key tbl r visibility =
     rbind (LookupGatewayNamespace tbl visibility) (\<lambda>ns0.
     rbind (GatewayName (obj_meta r) visibility) (\<lambda>name.
     Inr (if ns0 = '''' then om_Namespace (obj_meta r) else ns0, name)))"

type_synonym gateway_view = "object_key \<Rightarrow> gateway option"

text \<open>The gateway of an entry is as wanted: \<open>y\<close>, either as cached or as the server now holds it.\<close>

definition gateway_ensured ::
  "go_context \<Rightarrow> gateway_table \<Rightarrow> route \<Rightarrow> gateway_view \<Rightarrow> gateway_view \<Rightarrow> gateway_view \<Rightarrow> string \<times> string list \<Rightarrow> bool" where
  "gateway_ensured ctx tbl r cache server server' e \<longleftrightarrow>
     (\<exists>k d y. gateway_key tbl r (fst e) = Inr k \<and> MakeGateway ctx r (snd e) (fst e) = Inr d
        \<and> up_to_date DeepEqual_gateway_spec y d
        \<and> (cache k = Some y \<and> server' k = server k \<or> server' k = Some y))"

definition gateway_current ::
  "go_context \<Rightarrow> gateway_table \<Rightarrow> route \<Rightarrow> gateway_view \<Rightarrow> string \<times> string list \<Rightarrow> bool" where
  "gateway_current ctx tbl r cache e \<longleftrightarrow>
     (\<exists>k d y. gateway_key tbl r (fst e) = Inr k \<and> MakeGateway ctx r (snd e) (fst e) = Inr d
        \<and> cache k = Some y \<and> up_to_date DeepEqual_gateway_spec y d)"

text \<open>The gateways the server holds for entries that were not current in the cache.\<close>

definition gateways_renewed ::
  "go_context \<Rightarrow> gateway_table \<Rightarrow> route \<Rightarrow> gateway_view \<Rightarrow> gateway_view \<Rightarrow> (string \<times> string list) set \<Rightarrow> gateway set" where
  "gateways_renewed ctx tbl r cache server es =
     {y. \<exists>e \<in> es. \<not> gateway_current ctx tbl r cache e
        \<and> (\<exists>k. gateway_key tbl r (fst e) = Inr k \<and> server k = Some y)}"

definition gateway_keys :: "gateway_table \<Rightarrow> route \<Rightarrow> (string \<times> string list) list \<Rightarrow> object_key set" where
  "gateway_keys tbl r es = {k. \<exists>e \<in> set es. gateway_key tbl r (fst e) = Inr k}"

text \<open>The namespaces the gateways of a route are put in can be written in a key.\<close>

definition gateway_ns_ok :: "gateway_table \<Rightarrow> route \<Rightarrow> (string \<times> string list) list \<Rightarrow> bool" where
  "gateway_ns_ok tbl r es \<longleftrightarrow> (\<forall>k \<in> gateway_keys tbl r es. ok_ns (fst k))"

lemma gateway_loop_key:
  "gateway_loop c ctx r tbl ((v, hs) # es) gws =
     bnd (lift (gateway_key tbl r v)) (\<lambda>k.
     bnd (ensure_gateway c ctx r (fst k) (snd k) hs v) (\<lambda>(kind, gw).
       gateway_loop c ctx r tbl es (if kind = Unchanged then gws else gws @ [gw])))"
  by (rule ext, cases "LookupGatewayNamespace tbl v"; cases "GatewayName (obj_meta r) v")
    (simp_all add: gateway_loop_ensure gateway_key_def Let_def)

lemma MakeGateway_key:
  assumes "MakeGateway ctx r hs v = Inr d" and "ctx_config ctx = Inr cfg"
  shows "gateway_key (cfg_Gateway cfg) r v = Inr (obj_key d)"
proof -
  obtain ns0 where "LookupGatewayNamespace (cfg_Gateway cfg) v = Inr ns0"
      "om_Namespace (obj_meta d) = (if ns0 = '''' then om_Namespace (obj_meta r) else ns0)"
    using MakeGateway_ns [OF assms] by blast
  with MakeGateway_labels(3) [OF assms(1)] show ?thesis
    by (simp add: gateway_key_def obj_key_def)
qed

text \<open>The gateways a route's finalizer is to delete: those the cache holds with the route's labels.\<close>

definition finalized :: "gateway_view \<Rightarrow> route \<Rightarrow> object_key set" where
  "finalized cache r = {k. \<exists>g. cache k = Some g \<and> ok_ns (fst k)
      \<and> mget (om_Labels (obj_meta g)) RouteLabelKey = Some (om_Name (obj_meta r))
      \<and> mget (om_Labels (obj_meta g)) RouteNamespaceLabelKey = Some (om_Namespace (obj_meta r))}"

locale cluster =
  svc: object_store "rc_serviceLister c" "rc_Services c" svc_cache svc_server wf "''service''" +
  gw: object_store "rc_gatewayLister c" "rc_Gateways c" gw_cache gw_server wf "''gateway''" +
  hr: object_store "rc_httprouteLister c" "rc_HTTPRoutes c" hr_cache hr_server wf "''httproute''"
  for c :: "'s reconciler"
    and svc_cache svc_server :: "'s \<Rightarrow> object_key \<Rightarrow> service option"
    and gw_cache gw_server :: "'s \<Rightarrow> object_key \<Rightarrow> gateway option"
    and hr_cache hr_server :: "'s \<Rightarrow> object_key \<Rightarrow> httproute option"
    and wf :: "'s \<Rightarrow> bool" +
  assumes event_wf: "wf s \<Longrightarrow> wf (rc_Eventf c e s)"
    and event_svc: "svc_cache (rc_Eventf c e s) = svc_cache s" "svc_server (rc_Eventf c e s) = svc_server s"
    and event_gw: "gw_cache (rc_Eventf c e s) = gw_cache s" "gw_server (rc_Eventf c e s) = gw_server s"
    and event_hr: "hr_cache (rc_Eventf c e s) = hr_cache s" "hr_server (rc_Eventf c e s) = hr_server s"
    and svc_frame: "keeps gw_cache (tc_Create (rc_Services c) ns x)" "keeps gw_server (tc_Create (rc_Services c) ns x)"
      "keeps hr_cache (tc_Create (rc_Services c) ns x)" "keeps hr_server (tc_Create (rc_Services c) ns x)"
      "keeps gw_cache (tc_Update (rc_Services c) ns x)" "keeps gw_server (tc_Update (rc_Services c) ns x)"
      "keeps hr_cache (tc_Update (rc_Services c) ns x)" "keeps hr_server (tc_Update (rc_Services c) ns x)"
    and gw_frame: "keeps svc_cache (tc_Create (rc_Gateways c) ns g)" "keeps svc_server (tc_Create (rc_Gateways c) ns g)"
      "keeps hr_cache (tc_Create (rc_Gateways c) ns g)" "keeps hr_server (tc_Create (rc_Gateways c) ns g)"
      "keeps svc_cache (tc_Update (rc_Gateways c) ns g)" "keeps svc_server (tc_Update (rc_Gateways c) ns g)"
      "keeps hr_cache (tc_Update (rc_Gateways c) ns g)" "keeps hr_server (tc_Update (rc_Gateways c) ns g)"
      "keeps svc_server (tc_Delete (rc_Gateways c) ns n)" "keeps hr_server (tc_Delete (rc_Gateways c) ns n)"
    and hr_frame: "keeps svc_cache (tc_Create (rc_HTTPRoutes c) ns h)" "keeps svc_server (tc_Create (rc_HTTPRoutes c) ns h)"
      "keeps gw_cache (tc_Create (rc_HTTPRoutes c) ns h)" "keeps gw_server (tc_Create (rc_HTTPRoutes c) ns h)"
      "keeps svc_cache (tc_Update (rc_HTTPRoutes c) ns h)" "keeps svc_server (tc_Update (rc_HTTPRoutes c) ns h)"
      "keeps gw_cache (tc_Update (rc_HTTPRoutes c) ns h)" "keeps gw_server (tc_Update (rc_HTTPRoutes c) ns h)"
begin

lemma keeps_event [keeps_intro]:
  "keeps svc_cache (Eventf c r ty a f args)" "keeps svc_server (Eventf c r ty a f args)"
  "keeps gw_cache (Eventf c r ty a f args)" "keeps gw_server (Eventf c r ty a f args)"
  "keeps hr_cache (Eventf c r ty a f args)" "keeps hr_server (Eventf c r ty a f args)"
  by (simp_all add: keeps_def Eventf_def event_svc event_gw event_hr)

lemma keeps_gets [keeps_intro]:
  "keeps V (l_Get (rc_serviceLister c) ns n)" "keeps V (l_Get (rc_gatewayLister c) ns n)"
  "keeps V (l_Get (rc_httprouteLister c) ns n)"
  by (simp_all add: keeps_def svc.get_law gw.get_law hr.get_law)

lemma inert_event:
  "svc.inert (Eventf c r ty a f args)" "gw.inert (Eventf c r ty a f args)" "hr.inert (Eventf c r ty a f args)"
  by (auto simp: svc.inert_def gw.inert_def hr.inert_def Eventf_def event_wf event_svc event_gw event_hr)

subsection \<open>Frames of the handlers\<close>

lemma keeps_ensure_service:
  "keeps gw_cache (ensure_service c ctx r t)" "keeps gw_server (ensure_service c ctx r t)"
  "keeps hr_cache (ensure_service c ctx r t)" "keeps hr_server (ensure_service c ctx r t)"
  unfolding ensure_service_def by (intro keeps_intro svc_frame)+

lemma keeps_ensure_gateway:
  "keeps svc_cache (ensure_gateway c ctx r ns n hs v)" "keeps svc_server (ensure_gateway c ctx r ns n hs v)"
  "keeps hr_cache (ensure_gateway c ctx r ns n hs v)" "keeps hr_server (ensure_gateway c ctx r ns n hs v)"
  unfolding ensure_gateway_def by (intro keeps_intro gw_frame)+

lemma keeps_ensure_httproute:
  "keeps svc_cache (ensure_httproute c ctx od r gws n)" "keeps svc_server (ensure_httproute c ctx od r gws n)"
  "keeps gw_cache (ensure_httproute c ctx od r gws n)" "keeps gw_server (ensure_httproute c ctx od r gws n)"
  unfolding ensure_httproute_def by (intro keeps_intro hr_frame)+

lemma keeps_placeholder_loop:
  assumes "\<And>t. keeps V (ensure_service c ctx r t)"
  shows "keeps V (placeholder_loop c ctx r ts)"
proof (induction ts)
  case Nil
  show ?case by (simp only: placeholder_loop.simps keeps_ret)
next
  case (Cons t ts)
  show ?case
    unfolding placeholder_loop_ensure split_beta by (intro keeps_intro assms Cons)
qed

lemma keeps_gateway_loop:
  assumes "\<And>ns n hs v. keeps V (ensure_gateway c ctx r ns n hs v)"
  shows "keeps V (gateway_loop c ctx r tbl es gws)"
proof (induction es arbitrary: gws)
  case Nil
  show ?case by (simp only: gateway_loop.simps keeps_ret)
next
  case (Cons e es)
  obtain v hs where e: "e = (v, hs)" by force
  show ?case
    unfolding e gateway_loop_ensure split_beta Let_def by (intro keeps_intro assms Cons)
qed

lemmas keeps_loops =
  keeps_placeholder_loop [OF keeps_ensure_service(1)] keeps_placeholder_loop [OF keeps_ensure_service(2)]
  keeps_placeholder_loop [OF keeps_ensure_service(3)] keeps_placeholder_loop [OF keeps_ensure_service(4)]
  keeps_gateway_loop [OF keeps_ensure_gateway(1)] keeps_gateway_loop [OF keeps_ensure_gateway(2)]
  keeps_gateway_loop [OF keeps_ensure_gateway(3)] keeps_gateway_loop [OF keeps_ensure_gateway(4)]

subsection \<open>Placeholder services\<close>

lemma ensure_service_spec:
  assumes wf: "wf s" and ns: "ok_ns (om_Namespace (obj_meta r))"
  shows "\<exists>res s'. ensure_service c ctx r t s = (res, s') \<and> wf s' \<and> svc_cache s' = svc_cache s
    \<and> (case res of
         Inl f \<Rightarrow> svc_server s' = svc_server s
           \<and> (isl (MakePlaceholderService ctx r t) \<or> \<not> svc.in_step (om_Namespace (obj_meta r), t) s)
       | Inr out \<Rightarrow> (\<exists>d. MakePlaceholderService ctx r t = Inr d
           \<and> svc.ensured_as DeepEqual_service_spec (om_Namespace (obj_meta r), t) d s out s'))"
  unfolding ensure_service_def
  by (rule svc.ensure_spec [OF wf ns]) (auto simp: inert_event obj_key_def dest: MakePlaceholderService_key)

text \<open>The loop skips the targets that are current and acts on the first that is not: it writes that
  one service, or fails and writes nothing. Later targets are not looked at.\<close>

lemma placeholder_loop_spec:
  assumes wf: "wf s" and ns: "ok_ns (om_Namespace (obj_meta r))"
  shows "\<exists>res s'. placeholder_loop c ctx r ts s = (res, s') \<and> wf s' \<and> svc_cache s' = svc_cache s
    \<and> (case res of
         Inl f \<Rightarrow> svc_server s' = svc_server s \<and> \<not> list_all (service_current (svc_cache s) ctx r) ts
           \<and> (\<exists>t \<in> set ts. isl (MakePlaceholderService ctx r t) \<or> \<not> svc.in_step (om_Namespace (obj_meta r), t) s)
       | Inr _ \<Rightarrow>
           list_all (service_current (svc_cache s) ctx r) ts \<and> svc_server s' = svc_server s
         \<or> wrote_first (svc_cache s) ctx r ts (svc_server s) (svc_server s'))"
  using wf
proof (induction ts arbitrary: s)
  case Nil
  then show ?case by simp
next
  case (Cons t ts)
  let ?k = "(om_Namespace (obj_meta r), t)"
  obtain res s1 where step: "ensure_service c ctx r t s = (res, s1)" "wf s1" "svc_cache s1 = svc_cache s"
    and res: "case res of
         Inl f \<Rightarrow> svc_server s1 = svc_server s \<and> (isl (MakePlaceholderService ctx r t) \<or> \<not> svc.in_step ?k s)
       | Inr out \<Rightarrow> (\<exists>d. MakePlaceholderService ctx r t = Inr d
           \<and> svc.ensured_as DeepEqual_service_spec ?k d s out s1)"
    using ensure_service_spec [OF Cons.prems ns, of ctx t] by blast
  show ?case
  proof (cases res)
    case (Inl f)
    have "\<not> service_current (svc_cache s) ctx r t"
    proof
      assume "service_current (svc_cache s) ctx r t"
      then obtain x d where x: "svc_cache s ?k = Some x" "MakePlaceholderService ctx r t = Inr d"
        "up_to_date DeepEqual_service_spec x d" by (auto simp: service_current_def)
      then have "ensure_service c ctx r t s = (Inr (Unchanged, x), s)"
        by (simp add: ensure_service_def ensure_def bnd_def attempt_def svc.get_law)
      with step(1) Inl show False by simp
    qed
    moreover have "placeholder_loop c ctx r (t # ts) s = (Inl f, s1)"
      using step(1) Inl by (simp add: placeholder_loop_ensure bnd_def)
    moreover have "svc_server s1 = svc_server s" "isl (MakePlaceholderService ctx r t) \<or> \<not> svc.in_step ?k s"
      using res Inl by simp_all
    ultimately show ?thesis using step(2,3) by auto
  next
    case (Inr out)
    obtain kind y where out: "out = (kind, y)" by force
    obtain d where d: "MakePlaceholderService ctx r t = Inr d"
      and en: "svc.ensured_as DeepEqual_service_spec ?k d s (kind, y) s1"
      using res by (auto simp: Inr out)
    note cur = svc.ensured_as_current [OF en DeepEqual_spec_refl(3)]
    show ?thesis
    proof (cases "kind = Unchanged")
      case True
      then have same: "svc_cache s ?k = Some y" "svc_server s1 = svc_server s" using cur(3) by auto
      have here: "service_current (svc_cache s) ctx r t" using same cur(1) d by (auto simp: service_current_def)
      have run: "placeholder_loop c ctx r (t # ts) s = placeholder_loop c ctx r ts s1"
        using step(1) Inr out True by (simp add: placeholder_loop_ensure bnd_def)
      obtain res' s' where IH: "placeholder_loop c ctx r ts s1 = (res', s')" "wf s'" "svc_cache s' = svc_cache s"
        and post: "case res' of
         Inl f \<Rightarrow> svc_server s' = svc_server s \<and> \<not> list_all (service_current (svc_cache s) ctx r) ts
           \<and> (\<exists>t \<in> set ts. isl (MakePlaceholderService ctx r t) \<or> \<not> svc.in_step (om_Namespace (obj_meta r), t) s)
       | Inr _ \<Rightarrow>
           list_all (service_current (svc_cache s) ctx r) ts \<and> svc_server s' = svc_server s
         \<or> wrote_first (svc_cache s) ctx r ts (svc_server s) (svc_server s')"
        using Cons.IH [OF step(2)] unfolding step(3) same(2) svc.in_step_def by blast
      show ?thesis
        using IH post here wrote_first_later [OF here] by (cases res') (auto simp: run)
    next
      case False
      have run: "placeholder_loop c ctx r (t # ts) s = (Inr (), s1)"
        using step(1) Inr out False by (simp add: placeholder_loop_ensure bnd_def)
      have sv: "svc_server s1 = (svc_server s)(?k \<mapsto> y)"
        using en False by (auto simp: svc.ensured_as_def split: ensured.splits)
      have "\<not> service_current (svc_cache s) ctx r t"
        using en False d by (auto simp: svc.ensured_as_def service_current_def split: ensured.splits)
      then have "wrote_first (svc_cache s) ctx r (t # ts) (svc_server s) (svc_server s1)"
        unfolding sv using d cur(1) by (rule wrote_first_here)
      with run step show ?thesis by simp
    qed
  qed
qed

subsection \<open>Gateways\<close>

lemma ensure_gateway_spec:
  assumes wf: "wf s" and ns: "ok_ns (fst k)" and cfg: "ctx_config ctx = Inr cfg"
    and k: "gateway_key (cfg_Gateway cfg) r v = Inr k"
  shows "\<exists>res s'. ensure_gateway c ctx r (fst k) (snd k) hs v s = (res, s') \<and> wf s' \<and> gw_cache s' = gw_cache s
    \<and> (case res of
         Inl f \<Rightarrow> gw_server s' = gw_server s \<and> (isl (MakeGateway ctx r hs v) \<or> \<not> gw.in_step (fst k, snd k) s)
       | Inr out \<Rightarrow> (\<exists>d. MakeGateway ctx r hs v = Inr d
           \<and> gw.ensured_as DeepEqual_gateway_spec (fst k, snd k) d s out s'))"
  unfolding ensure_gateway_def
  by (rule gw.ensure_spec [OF wf ns])
    (use MakeGateway_key [OF _ cfg, of r hs v] k in \<open>auto simp: inert_event\<close>)

text \<open>When every entry is current the loop writes nothing and returns what it was given: the gateways
  found up to date are not in the result.\<close>

lemma gateway_loop_current:
  "list_all (gateway_current ctx tbl r (gw_cache s)) es \<Longrightarrow>
     gateway_loop c ctx r tbl es gws s = (Inr gws, s)"
proof (induction es)
  case Nil
  then show ?case by simp
next
  case (Cons e es)
  obtain v hs where e: "e = (v, hs)" by force
  obtain k d y where k: "gateway_key tbl r v = Inr k" "MakeGateway ctx r hs v = Inr d"
    "gw_cache s k = Some y" "up_to_date DeepEqual_gateway_spec y d"
    using Cons.prems unfolding gateway_current_def e by auto
  then have "ensure_gateway c ctx r (fst k) (snd k) hs v s = (Inr (Unchanged, y), s)"
    by (simp add: ensure_gateway_def ensure_def bnd_def attempt_def gw.get_law)
  with Cons k show ?case by (simp add: e gateway_loop_key bnd_def)
qed

text \<open>An entry the loop can fail at.\<close>

definition gateway_fails :: "go_context \<Rightarrow> gateway_table \<Rightarrow> route \<Rightarrow> 's \<Rightarrow> string \<times> string list \<Rightarrow> bool" where
  "gateway_fails ctx tbl r s e \<longleftrightarrow> isl (gateway_key tbl r (fst e)) \<or> isl (MakeGateway ctx r (snd e) (fst e))
     \<or> (\<exists>k. gateway_key tbl r (fst e) = Inr k \<and> \<not> gw.in_step k s)"

lemma gateway_loop_spec:
  assumes wf: "wf s" and cfg: "ctx_config ctx = Inr cfg" and ns: "gateway_ns_ok (cfg_Gateway cfg) r es"
    and dist: "distinct (map (gateway_key (cfg_Gateway cfg) r \<circ> fst) es)"
  shows "\<exists>res s'. gateway_loop c ctx r (cfg_Gateway cfg) es gws s = (res, s') \<and> wf s' \<and> gw_cache s' = gw_cache s
    \<and> (\<forall>k. k \<notin> gateway_keys (cfg_Gateway cfg) r es \<longrightarrow> gw_server s' k = gw_server s k)
    \<and> (case res of
         Inl f \<Rightarrow> (\<exists>e \<in> set es. gateway_fails ctx (cfg_Gateway cfg) r s e)
       | Inr out \<Rightarrow> list_all (gateway_ensured ctx (cfg_Gateway cfg) r (gw_cache s) (gw_server s) (gw_server s')) es
           \<and> set out = set gws \<union> gateways_renewed ctx (cfg_Gateway cfg) r (gw_cache s) (gw_server s') (set es))"
  using wf ns dist
proof (induction es arbitrary: gws s)
  case Nil
  then show ?case by (simp add: gateways_renewed_def)
next
  case (Cons e es)
  let ?tbl = "cfg_Gateway cfg"
  obtain v hs where e: "e = (v, hs)" by force
  show ?case
  proof (cases "gateway_key ?tbl r v")
    case (Inl f)
    then show ?thesis using Cons.prems(1) by (simp add: e gateway_loop_key gateway_fails_def)
  next
    case (Inr k)
    have keys: "gateway_keys ?tbl r (e # es) = insert k (gateway_keys ?tbl r es)"
      using Inr by (auto simp: gateway_keys_def e)
    have nsk: "ok_ns (fst k)" and ns': "gateway_ns_ok ?tbl r es"
      using Cons.prems(2) by (auto simp: gateway_ns_ok_def keys)
    have dist': "distinct (map (gateway_key ?tbl r \<circ> fst) es)"
      using Cons.prems(3) by (simp add: comp_def)
    have fresh: "k \<notin> gateway_keys ?tbl r es"
    proof
      assume "k \<in> gateway_keys ?tbl r es"
      then obtain e' where "e' \<in> set es" "gateway_key ?tbl r (fst e') = Inr k" by (auto simp: gateway_keys_def)
      then have "gateway_key ?tbl r (fst e) \<in> set (map (gateway_key ?tbl r \<circ> fst) es)"
        using Inr by (force simp: e image_iff)
      with Cons.prems(3) show False by simp
    qed
    obtain res s1 where step: "ensure_gateway c ctx r (fst k) (snd k) hs v s = (res, s1)" "wf s1"
        "gw_cache s1 = gw_cache s"
      and res: "case res of
         Inl f \<Rightarrow> gw_server s1 = gw_server s \<and> (isl (MakeGateway ctx r hs v) \<or> \<not> gw.in_step (fst k, snd k) s)
       | Inr out \<Rightarrow> (\<exists>d. MakeGateway ctx r hs v = Inr d
           \<and> gw.ensured_as DeepEqual_gateway_spec (fst k, snd k) d s out s1)"
      using ensure_gateway_spec [OF Cons.prems(1) nsk cfg Inr, of hs] by blast
    show ?thesis
    proof (cases res)
      case fail: (Inl f)
      have "gateway_fails ctx ?tbl r s e"
        using res fail Inr unfolding gateway_fails_def e fst_conv snd_conv prod.collapse by auto
      then show ?thesis using step res fail Inr by (simp add: e gateway_loop_key bnd_def)
    next
      case ok: (Inr out)
      obtain kind y where out: "out = (kind, y)" by force
      obtain d where d: "MakeGateway ctx r hs v = Inr d"
        and en: "gw.ensured_as DeepEqual_gateway_spec (fst k, snd k) d s (kind, y) s1"
        using res by (auto simp: ok out)
      note cur = gw.ensured_as_current [OF en DeepEqual_spec_refl(1)]
      let ?gws = "if kind = Unchanged then gws else gws @ [y]"
      have run: "gateway_loop c ctx r ?tbl (e # es) gws s = gateway_loop c ctx r ?tbl es ?gws s1"
        using step(1) Inr ok out by (simp add: e gateway_loop_key bnd_def)
      obtain res' s' where IH: "gateway_loop c ctx r ?tbl es ?gws s1 = (res', s')" "wf s'" "gw_cache s' = gw_cache s"
        and frame: "\<forall>k. k \<notin> gateway_keys ?tbl r es \<longrightarrow> gw_server s' k = gw_server s1 k"
        and post1: "case res' of Inl f \<Rightarrow> \<exists>e \<in> set es. gateway_fails ctx ?tbl r s1 e
          | Inr out \<Rightarrow> list_all (gateway_ensured ctx ?tbl r (gw_cache s) (gw_server s1) (gw_server s')) es
              \<and> set out = set ?gws \<union> gateways_renewed ctx ?tbl r (gw_cache s) (gw_server s') (set es)"
        using Cons.IH [OF step(2) ns' dist', of ?gws] unfolding step(3) by blast
      have same: "gw_server s1 k' = gw_server s k'" if "gateway_key ?tbl r (fst e') = Inr k'" "e' \<in> set es" for e' k'
      proof -
        have "k' \<noteq> k" using that fresh by (auto simp: gateway_keys_def)
        then show ?thesis using gw.ensured_as_frame [OF en] by simp
      qed
      have post: "case res' of Inl f \<Rightarrow> \<exists>e \<in> set es. gateway_fails ctx ?tbl r s e
          | Inr out \<Rightarrow> list_all (gateway_ensured ctx ?tbl r (gw_cache s) (gw_server s) (gw_server s')) es"
      proof (cases res')
        case (Inl f)
        have "gateway_fails ctx ?tbl r s e'" if "gateway_fails ctx ?tbl r s1 e'" "e' \<in> set es" for e'
          using that same [OF _ that(2)] step(3) unfolding gateway_fails_def gw.in_step_def by metis
        then show ?thesis using post1 Inl by auto
      next
        case (Inr out')
        have "gateway_ensured ctx ?tbl r (gw_cache s) (gw_server s) (gw_server s') e'" if "e' \<in> set es" for e'
          using post1 Inr that same [OF _ that] unfolding gateway_ensured_def list_all_iff by fastforce
        then show ?thesis by (simp add: Inr list_all_iff)
      qed
      have frame': "\<forall>k'. k' \<notin> gateway_keys ?tbl r (e # es) \<longrightarrow> gw_server s' k' = gw_server s k'"
        using frame gw.ensured_as_frame [OF en] unfolding keys by (metis insert_iff prod.collapse)
      have here: "gateway_ensured ctx ?tbl r (gw_cache s) (gw_server s) (gw_server s') e"
      proof (cases "kind = Unchanged")
        case True
        then have "gw_cache s k = Some y" "gw_server s' k = gw_server s k"
          using cur(3) frame [rule_format, OF fresh] by simp_all
        then show ?thesis using Inr d cur(1) unfolding gateway_ensured_def e fst_conv snd_conv by blast
      next
        case False
        then have "gw_server s1 k = Some y" using cur(2) by simp
        then have "gw_server s' k = Some y" using frame fresh by metis
        then show ?thesis using Inr d cur(1) unfolding gateway_ensured_def e fst_conv snd_conv by blast
      qed
      have "kind = Unchanged \<longleftrightarrow> gateway_current ctx ?tbl r (gw_cache s) e"
        using gw.ensured_as_kind [OF en] Inr d by (auto simp: gateway_current_def e)
      moreover have "gw_server s' k = Some y" if "kind \<noteq> Unchanged"
        using that cur(2) frame fresh by (metis prod.collapse)
      ultimately have "gateways_renewed ctx ?tbl r (gw_cache s) (gw_server s') (set (e # es)) =
          (if kind = Unchanged then {} else {y}) \<union> gateways_renewed ctx ?tbl r (gw_cache s) (gw_server s') (set es)"
        using Inr by (auto simp: gateways_renewed_def e simp del: split_paired_Ex split_paired_All)
      then have out': "set out' = set gws \<union> gateways_renewed ctx ?tbl r (gw_cache s) (gw_server s') (set (e # es))"
        if "res' = Inr out'" for out'
        using post1 that by auto
      show ?thesis
        using IH frame' post here out' by (cases res') (auto simp: run)
    qed
  qed
qed

subsection \<open>HTTPRoute\<close>

lemma reconcileHTTPRoute_spec:
  assumes wf: "wf s" and ns: "ok_ns (om_Namespace (obj_meta r))" and len: "length (om_Name (obj_meta r)) \<le> 63"
  defines "k \<equiv> (om_Namespace (obj_meta r), om_Name (obj_meta r))"
  shows "\<exists>res s'. reconcileHTTPRoute c ctx od r gws s = (res, s') \<and> wf s' \<and> hr_cache s' = hr_cache s
    \<and> (\<forall>k'. k' \<noteq> k \<longrightarrow> hr_server s' k' = hr_server s k')
    \<and> (case res of
         Inl f \<Rightarrow> hr_server s' = hr_server s \<and> (isl (MakeHTTPRoute ctx od r gws) \<or> \<not> hr.in_step k s)
       | Inr y \<Rightarrow> (\<exists>d. MakeHTTPRoute ctx od r gws = Inr d \<and> up_to_date DeepEqual_httproute_spec y d
           \<and> (\<forall>x. hr_cache s k = Some x \<longrightarrow> up_to_date DeepEqual_httproute_spec x d \<longrightarrow> hr_server s' = hr_server s))
           \<and> (hr_server s' k = Some y \<or> hr_cache s k = Some y \<and> hr_server s' = hr_server s))"
proof -
  have name: "Ingress_name (obj_meta r) = Inr (om_Name (obj_meta r))"
    using len by (simp add: Ingress_name_def ChildName_short)
  obtain res s' where step: "ensure_httproute c ctx od r gws (om_Name (obj_meta r)) s = (res, s')" "wf s'"
      "hr_cache s' = hr_cache s"
    and res: "case res of
         Inl f \<Rightarrow> hr_server s' = hr_server s \<and> (isl (MakeHTTPRoute ctx od r gws) \<or> \<not> hr.in_step k s)
       | Inr out \<Rightarrow> (\<exists>d. MakeHTTPRoute ctx od r gws = Inr d
           \<and> hr.ensured_as DeepEqual_httproute_spec k d s out s')"
    unfolding ensure_httproute_def k_def
    using hr.ensure_spec [OF wf ns, of "MakeHTTPRoute ctx od r gws" "om_Name (obj_meta r)"
        "\<lambda>d. om_Namespace (obj_meta d)"
        "\<lambda>err. Eventf c r EventTypeWarning ''CreationFailed'' ''Failed to create HTTPRoute: %v'' [ArgError err]"
        "\<lambda>x. Eventf c r EventTypeNormal ''Created'' ''Created HTTPRoute %q'' [ArgString (om_Name (obj_meta x))]"
        DeepEqual_httproute_spec "''failed to create HTTPRoute''" "''failed to update HTTPRoute''"]
      MakeHTTPRoute_meta(1,2) inert_event(3)
    by (simp add: obj_key_def) blast
  show ?thesis
  proof (cases res)
    case (Inl f)
    then show ?thesis using step res by (simp add: reconcileHTTPRoute_ensure name bnd_def)
  next
    case (Inr out)
    obtain kind y where out: "out = (kind, y)" by force
    obtain d where d: "MakeHTTPRoute ctx od r gws = Inr d"
      and en: "hr.ensured_as DeepEqual_httproute_spec k d s (kind, y) s'"
      using res by (auto simp: Inr out)
    note cur = hr.ensured_as_current [OF en DeepEqual_spec_refl(2)]
    have run: "reconcileHTTPRoute c ctx od r gws s = (Inr y, s')"
      using step(1) Inr out by (simp add: reconcileHTTPRoute_ensure name bnd_def)
    have "\<forall>k'. k' \<noteq> k \<longrightarrow> hr_server s' k' = hr_server s k'"
      using hr.ensured_as_frame [OF en] by blast
    moreover have "hr_server s' k = Some y \<or> hr_cache s k = Some y \<and> hr_server s' = hr_server s"
      using cur(2,3) by blast
    moreover have "\<forall>x. hr_cache s k = Some x \<longrightarrow> up_to_date DeepEqual_httproute_spec x d \<longrightarrow> hr_server s' = hr_server s"
      using en by (auto simp: hr.ensured_as_def split: ensured.splits)
    ultimately show ?thesis using run step(2,3) d cur(1) by simp
  qed
qed

subsection \<open>Finalization\<close>

text \<open>Deleting a list of gateways in order: all of them, or those before the first the server does not
  have, and the error of that one.\<close>

lemma finalize_loop_spec:
  assumes "wf s"
  shows "\<exists>res s'. finalize_loop c gws s = (res, s') \<and> wf s' \<and> gw_cache s' = gw_cache s
    \<and> (\<forall>k. k \<notin> obj_key ` set gws \<longrightarrow> gw_server s' k = gw_server s k)
    \<and> (case res of
         Inl f \<Rightarrow> \<exists>e. f = Fail e
       | Inr _ \<Rightarrow> \<forall>k \<in> obj_key ` set gws. gw_server s' k = None)
    \<and> ((\<forall>g \<in> set gws. gw_server s (obj_key g) \<noteq> None) \<longrightarrow> distinct (map obj_key gws) \<longrightarrow> res = Inr ())"
  using assms
proof (induction gws arbitrary: s)
  case Nil
  then show ?case by simp
next
  case (Cons g gws)
  let ?k = "(om_Namespace (obj_meta g), om_Name (obj_meta g))"
  obtain r s1 where del: "tc_Delete (rc_Gateways c) (om_Namespace (obj_meta g)) (om_Name (obj_meta g)) s = (r, s1)"
      "wf s1" "gw_cache s1 = gw_cache s"
    and r: "case r of
             Inl f \<Rightarrow> (\<exists>e. f = Fail e) \<and> gw_server s ?k = None \<and> gw_server s1 = gw_server s
           | Inr _ \<Rightarrow> gw_server s ?k \<noteq> None \<and> gw_server s1 = (gw_server s)(?k := None)"
    using gw.delete_law [OF Cons.prems, of "om_Namespace (obj_meta g)" "om_Name (obj_meta g)"] by blast
  have k: "obj_key g = ?k" by (simp add: obj_key_def)
  show ?case
  proof (cases r)
    case (Inl f)
    then show ?thesis using del r k by (auto simp: bnd_def)
  next
    case (Inr u)
    have sv: "gw_server s1 = (gw_server s)(?k := None)" using r Inr by simp
    obtain res s' where IH: "finalize_loop c gws s1 = (res, s')" "wf s'" "gw_cache s' = gw_cache s1"
      and frame: "\<forall>k. k \<notin> obj_key ` set gws \<longrightarrow> gw_server s' k = gw_server s1 k"
      and post: "case res of Inl f \<Rightarrow> \<exists>e. f = Fail e | Inr _ \<Rightarrow> \<forall>k \<in> obj_key ` set gws. gw_server s' k = None"
      and total: "(\<forall>g \<in> set gws. gw_server s1 (obj_key g) \<noteq> None) \<longrightarrow> distinct (map obj_key gws) \<longrightarrow> res = Inr ()"
      using Cons.IH [OF del(2)] by blast
    have run: "finalize_loop c (g # gws) s = (res, s')" using del(1) Inr IH(1) by (simp add: bnd_def)
    have "gw_server s' k' = gw_server s k'" if "k' \<notin> obj_key ` set (g # gws)" for k'
    proof -
      have "gw_server s' k' = gw_server s1 k'" using frame that by (simp del: split_paired_All)
      then show ?thesis using that sv k by simp
    qed
    moreover have "case res of Inl f \<Rightarrow> \<exists>e. f = Fail e
        | Inr _ \<Rightarrow> \<forall>k \<in> obj_key ` set (g # gws). gw_server s' k = None"
    proof (cases res)
      case ok: (Inr u')
      have "gw_server s' ?k = None"
        using frame post sv k ok by (cases "?k \<in> obj_key ` set gws") auto
      with ok post k show ?thesis by simp
    qed (use post in simp)
    moreover have "res = Inr ()" if "\<forall>g \<in> set (g # gws). gw_server s (obj_key g) \<noteq> None"
        "distinct (map obj_key (g # gws))"
    proof -
      have "\<forall>g' \<in> set gws. gw_server s1 (obj_key g') \<noteq> None"
        using that sv k by (auto simp: image_iff)
      with total that(2) show ?thesis by simp
    qed
    ultimately show ?thesis using run IH(2,3) del(3) by simp
  qed
qed

text \<open>The gateways a route's finalizer selects.\<close>

lemma finalizer_selects:
  "selector_matches (SelectorFromSet (Some [(RouteNamespaceLabelKey, om_Namespace (obj_meta r)),
       (RouteLabelKey, om_Name (obj_meta r))])) ls
   \<longleftrightarrow> mget ls RouteLabelKey = Some (om_Name (obj_meta r))
     \<and> mget ls RouteNamespaceLabelKey = Some (om_Namespace (obj_meta r))"
  by (auto simp: selector_matches_iff map_le_def)

lemma FinalizeKind_spec:
  assumes wf: "wf s"
  shows "\<exists>res s'. FinalizeKind c r s = (res, s') \<and> wf s' \<and> gw_cache s' = gw_cache s
    \<and> (\<forall>k. k \<notin> finalized (gw_cache s) r \<longrightarrow> gw_server s' k = gw_server s k)
    \<and> (case res of Inl f \<Rightarrow> \<exists>e. f = Fail e | Inr _ \<Rightarrow> \<forall>k \<in> finalized (gw_cache s) r. gw_server s' k = None)
    \<and> ((\<forall>k \<in> finalized (gw_cache s) r. gw_server s k \<noteq> None) \<longrightarrow> res = Inr ())"
proof -
  let ?K = "finalized (gw_cache s) r"
  let ?sel = "SelectorFromSet (Some [(RouteNamespaceLabelKey, om_Namespace (obj_meta r)),
       (RouteLabelKey, om_Name (obj_meta r))])"
  obtain gws where L: "l_List (rc_gatewayLister c) ?sel s = (Inr gws, s)" "distinct gws"
    and mem: "\<And>g. g \<in> set gws \<longleftrightarrow> gw_cache s (obj_key g) = Some g \<and> ok_ns (om_Namespace (obj_meta g))
        \<and> selector_matches ?sel (om_Labels (obj_meta g))"
    using gw.list_law [OF wf, of ?sel] by blast
  have K: "obj_key ` set gws = ?K"
  proof
    show "obj_key ` set gws \<subseteq> ?K"
    proof
      fix k assume "k \<in> obj_key ` set gws"
      then obtain g where "k = obj_key g" "g \<in> set gws" by blast
      then show "k \<in> ?K"
        using mem [of g] finalizer_selects [of r "om_Labels (obj_meta g)"]
        unfolding finalized_def by (auto simp: obj_key_def)
    qed
    show "?K \<subseteq> obj_key ` set gws"
    proof
      fix k assume "k \<in> ?K"
      then obtain g where g: "gw_cache s k = Some g" "ok_ns (fst k)" "selector_matches ?sel (om_Labels (obj_meta g))"
        unfolding finalized_def finalizer_selects [of r] by blast
      moreover from this have "obj_key g = k" by (intro gw.cache_key [OF wf])
      ultimately show "k \<in> obj_key ` set gws" using mem [of g] by (force simp: obj_key_def)
    qed
  qed
  have "inj_on obj_key (set gws)"
  proof (rule inj_onI)
    fix a b assume "a \<in> set gws" "b \<in> set gws" "obj_key a = obj_key b"
    then show "a = b" using mem [of a] mem [of b] by simp
  qed
  then have dist: "distinct (map obj_key gws)" using L(2) by (simp add: distinct_map)
  have all: "(\<forall>g \<in> set gws. gw_server s (obj_key g) \<noteq> None) \<longleftrightarrow> (\<forall>k \<in> ?K. gw_server s k \<noteq> None)"
    unfolding K [symmetric] by simp
  have run: "FinalizeKind c r s = finalize_loop c gws s" by (simp add: FinalizeKind_def bnd_def L(1))
  obtain res s' where fl: "finalize_loop c gws s = (res, s')" "wf s'" "gw_cache s' = gw_cache s"
      "\<forall>k. k \<notin> ?K \<longrightarrow> gw_server s' k = gw_server s k"
      "case res of Inl f \<Rightarrow> \<exists>e. f = Fail e | Inr _ \<Rightarrow> \<forall>k \<in> ?K. gw_server s' k = None"
      "(\<forall>k \<in> ?K. gw_server s k \<noteq> None) \<longrightarrow> distinct (map obj_key gws) \<longrightarrow> res = Inr ()"
    using finalize_loop_spec [OF wf, of gws] unfolding K all by blast
  show ?thesis
    unfolding run using fl(1-5) fl(6) dist
    by (intro exI [of _ res] exI [of _ s'] conjI impI) (assumption | blast)+
qed

end

end
