(* ===== verification/RouteSync.thy ===== *)
theory RouteSync
  imports Cluster
begin

text \<open>
  A whole pass over a route: the visibilities its targets ask for, the gateways, the HTTPRoute and
  the status, in any \<open>cluster\<close>.
\<close>

subsection \<open>Visibilities\<close>

text \<open>\<open>UnionMaps\<close> of two maps: the values of a key of both are appended.\<close>

definition appended :: "string list option \<Rightarrow> string list option \<Rightarrow> string list option" where
  "appended a b = (case a of None \<Rightarrow> b | Some x \<Rightarrow> (case b of None \<Rightarrow> a | Some y \<Rightarrow> Some (x @ y)))"

lemma appended_simps [simp]:
  "appended None b = b" "appended a None = a" "appended (Some x) (Some y) = Some (x @ y)"
  by (simp_all add: appended_def split: option.splits)

lemma append_all_lookup:
  "distinct (map fst es) \<Longrightarrow> map_of (append_all out es) k = appended (map_of out k) (map_of es k)"
proof (induction out es rule: append_all.induct)
  case (2 out k' v es)
  then have "map_of es k' = None" by (simp add: map_of_eq_None_iff)
  with 2 show ?case by (cases "map_of out k'") (auto simp: update_conv')
qed simp

lemma union_maps_lookup:
  "map_of (union_maps_loop out ms) k = fold (\<lambda>m a. appended a (map_of m k)) ms (map_of out k)"
  by (induction ms arbitrary: out) (simp_all add: append_all_lookup distinct_range_map)

lemma UnionMaps_lookup: "map_of (UnionMaps ms) k = fold (\<lambda>m a. appended a (map_of m k)) ms None"
  by (cases ms) (simp_all add: UnionMaps_def union_maps_lookup append_all_lookup distinct_range_map)

lemma UnionMaps_two: "map_of (UnionMaps [a, b]) k = appended (map_of a k) (map_of b k)"
  unfolding UnionMaps_lookup by simp

lemma UnionMaps_two_dom: "dom (map_of (UnionMaps [a, b])) \<subseteq> dom (map_of a) \<union> dom (map_of b)"
proof
  fix k assume "k \<in> dom (map_of (UnionMaps [a, b]))"
  then show "k \<in> dom (map_of a) \<union> dom (map_of b)"
    unfolding Un_iff domIff UnionMaps_two by (cases "map_of a k") simp_all
qed

lemma collect_visibilities_dom:
  "collect_visibilities ctx r ts acc = Inr m \<Longrightarrow> dom (map_of m) \<subseteq> dom (map_of acc) \<union> {route_visibility r, VisibilityClusterLocal}"
proof (induction ts arbitrary: acc)
  case (Cons traffic ts)
  obtain mp where mp: "VisibilityToDomain ctx (tt_Tag traffic) r = Inr mp"
    and rest: "collect_visibilities ctx r ts (UnionMaps [acc, mp]) = Inr m"
    using Cons.prems unfolding collect_visibilities.simps rbind_eq_Inr by blast
  let ?S = "{route_visibility r, VisibilityClusterLocal}"
  have "dom (map_of mp) = ?S"
    by (rule VisibilityToDomain_okE [OF mp])
  then have 1: "dom (map_of (UnionMaps [acc, mp])) \<subseteq> dom (map_of acc) \<union> ?S"
    using UnionMaps_two_dom [of acc mp] by simp
  have "dom (map_of m) \<subseteq> dom (map_of (UnionMaps [acc, mp])) \<union> ?S" by (rule Cons.IH [OF rest])
  also have "\<dots> \<subseteq> (dom (map_of acc) \<union> ?S) \<union> ?S" by (rule Un_mono [OF 1 order_refl])
  finally show ?case by (simp only: Un_assoc Un_absorb)
qed (simp add: subset_insertI2)

subsection \<open>Gateway names of the two visibilities\<close>

lemma ChildName_ends:
  assumes "s \<noteq> []" and "length s < 31"
  shows "\<exists>n. ChildName p s = Inr n \<and> last n = last s"
  by (cases p s rule: ChildName_cases) (use assms in auto)

lemma GatewayName_default_local:
  "\<exists>a b. GatewayName m DefaultVisibilityName = Inr a \<and> GatewayName m VisibilityClusterLocal = Inr b \<and> a \<noteq> b"
proof -
  let ?p = "om_Name m @ ''-'' @ om_Namespace m"
  obtain a where a: "ChildName ?p ''-default'' = Inr a" "last a = CHR ''t''"
    using ChildName_ends [of "''-default''" ?p] by auto
  obtain b where b: "ChildName ?p ''-cluster-local'' = Inr b" "last b = CHR ''l''"
    using ChildName_ends [of "''-cluster-local''" ?p] by auto
  have "a \<noteq> b" using a(2) b(2) by auto
  with a b show ?thesis
    by (simp add: GatewayName_def DefaultVisibilityName_def VisibilityClusterLocal_def)
qed

text \<open>The table has both visibilities, in namespaces that can be written in a key.\<close>

definition table_serves :: "gateway_table \<Rightarrow> bool" where
  "table_serves tbl \<longleftrightarrow> (\<forall>v \<in> {DefaultVisibilityName, VisibilityClusterLocal}.
     \<exists>gc. gateway_at tbl v = Inr gc \<and> CHR ''/'' \<notin> set (gc_Namespace gc))"

lemma table_serves_key:
  assumes "table_serves tbl" and "ok_ns (om_Namespace (obj_meta r))"
    and "v = DefaultVisibilityName \<or> v = VisibilityClusterLocal"
  shows "\<exists>k. gateway_key tbl r v = Inr k \<and> ok_ns (fst k) \<and> GatewayName (obj_meta r) v = Inr (snd k)"
proof -
  obtain gc where gc: "gateway_at tbl v = Inr gc" "CHR ''/'' \<notin> set (gc_Namespace gc)"
    using assms(1,3) by (auto simp: table_serves_def)
  obtain n where "GatewayName (obj_meta r) v = Inr n"
    using GatewayName_default_local [of "obj_meta r"] assms(3) by auto
  with gc assms(2) show ?thesis by (auto simp: gateway_key_def LookupGatewayNamespace_def ok_ns_def)
qed

lemma served_entries:
  assumes tbl: "table_serves tbl" and ns: "ok_ns (om_Namespace (obj_meta r))"
    and vis: "fst ` set es \<subseteq> {DefaultVisibilityName, VisibilityClusterLocal}" and d: "distinct (map fst es)"
  shows "gateway_ns_ok tbl r es" and "distinct (map (gateway_key tbl r \<circ> fst) es)"
proof -
  show "gateway_ns_ok tbl r es"
    unfolding gateway_ns_ok_def
  proof
    fix k assume "k \<in> gateway_keys tbl r es"
    then obtain e where e: "e \<in> set es" "gateway_key tbl r (fst e) = Inr k" by (auto simp: gateway_keys_def)
    then have "fst e = DefaultVisibilityName \<or> fst e = VisibilityClusterLocal" using vis by blast
    from table_serves_key [OF tbl ns this] e(2) show "ok_ns (fst k)" by auto
  qed
  have ne: "gateway_key tbl r DefaultVisibilityName \<noteq> gateway_key tbl r VisibilityClusterLocal"
    using table_serves_key [OF tbl ns, of DefaultVisibilityName] table_serves_key [OF tbl ns, of VisibilityClusterLocal]
      GatewayName_default_local [of "obj_meta r"] by auto
  have "inj_on (gateway_key tbl r) {DefaultVisibilityName, VisibilityClusterLocal}"
    using ne by (auto simp: inj_on_def)
  then have "inj_on (gateway_key tbl r) (fst ` set es)" using vis by (rule inj_on_subset)
  with d show "distinct (map (gateway_key tbl r \<circ> fst) es)"
    by (simp add: distinct_map comp_inj_on map_map [symmetric] del: map_map)
qed


subsection \<open>What a pass leaves\<close>

definition route_cond :: "route_status \<Rightarrow> condition_type \<Rightarrow> condition_status option" where
  "route_cond st t = map_option c_Status (route_GetCondition st t)"

text \<open>The status of a ready route follows its traffic assignment; that of a route that is not ready
  says its ingress is unknown. Nothing else of the status changes.\<close>

definition status_synced :: "bool \<Rightarrow> route_status \<Rightarrow> route_status \<Rightarrow> bool" where
  "status_synced ready st st' \<longleftrightarrow> route_conds_wf st' \<and> rst_Traffic st' = rst_Traffic st \<and> rst_URL st' = rst_URL st
     \<and> rst_ObservedGeneration st' = rst_ObservedGeneration st
     \<and> route_cond st' RouteConditionAllTrafficAssigned = route_cond st RouteConditionAllTrafficAssigned
     \<and> (if ready
        then route_cond st' RouteConditionIngressReady = Some ConditionTrue
          \<and> route_cond st' RouteConditionCertificateProvisioned = Some ConditionTrue
          \<and> route_cond st' RouteConditionReady =
              (case route_cond st RouteConditionAllTrafficAssigned of
                 None \<Rightarrow> Some ConditionUnknown | Some x \<Rightarrow> Some x)
        else route_cond st' RouteConditionIngressReady = Some ConditionUnknown
          \<and> route_cond st' RouteConditionReady \<noteq> Some ConditionTrue)"

lemma route_cond_st: "route_st ms t = route_cond (fst ms) t"
  by (simp add: status_of_def route_cond_def route_GetCondition_acc)

lemma mark_synced:
  assumes wf: "route_conds_wf st"
  shows "status_synced ready st (fst (if ready
      then MarkTLSNotEnabled clk AutoTLSNotEnabledMessage (PropagateIngressStatus clk sprintf0 [ready_condition] (st, 0))
      else MarkIngressNotConfigured clk (st, 0)))"
proof (cases ready)
  case True
  define ms' where "ms' = MarkTLSNotEnabled clk AutoTLSNotEnabledMessage
    (manage (MarkTrue clk routeCondSet RouteConditionIngressReady) (st, 0))"
  have "PropagateIngressStatus clk sprintf0 [ready_condition] (st, 0)
      = manage (MarkTrue clk routeCondSet RouteConditionIngressReady) (st, 0)"
    by (rule PropagateIngressStatus_true [of _ ready_condition]) (simp_all add: ready_condition_def)
  moreover note ready_status [of "(st, 0)" ms' clk AutoTLSNotEnabledMessage, unfolded route_cond_st fst_conv, OF wf ms'_def]
  moreover have "rst_Traffic (fst ms') = rst_Traffic st" "rst_URL (fst ms') = rst_URL st"
    "rst_ObservedGeneration (fst ms') = rst_ObservedGeneration st"
    by (simp_all add: ms'_def MarkTLSNotEnabled_def manage_frame)
  ultimately show ?thesis using True by (simp add: status_synced_def ms'_def)
next
  case False
  define ms' where "ms' = MarkIngressNotConfigured clk (st, 0)"
  note n = not_ready_status [of "(st, 0)" ms' clk, unfolded route_cond_st fst_conv, OF wf ms'_def]
  have "rst_Traffic (fst ms') = rst_Traffic st" "rst_URL (fst ms') = rst_URL st"
    "rst_ObservedGeneration (fst ms') = rst_ObservedGeneration st"
    by (simp_all add: ms'_def MarkIngressNotConfigured_def manage_frame)
  with n n(2) [of RouteConditionAllTrafficAssigned] False show ?thesis
    by (simp add: status_synced_def ms'_def [symmetric])
qed

definition services_synced ::
  "go_context \<Rightarrow> route \<Rightarrow> service_view \<Rightarrow> service_view \<Rightarrow> service_view \<Rightarrow> bool" where
  "services_synced ctx r cache server server' \<longleftrightarrow>
     (\<exists>ts. placeholder_targets ctx (om_Name (obj_meta r)) (rst_Traffic (obj_status r)) [] = Inr ts
        \<and> (list_all (service_current cache ctx r) ts \<and> server' = server
           \<or> wrote_first cache ctx r ts server server'))"

text \<open>Every gateway asked for is as wanted, and \<open>gws\<close> are those that had to be written.\<close>

definition gateways_synced ::
  "go_context \<Rightarrow> gateway_table \<Rightarrow> route \<Rightarrow> gateway_view \<Rightarrow> gateway_view \<Rightarrow> gateway_view \<Rightarrow> gateway list \<Rightarrow> bool" where
  "gateways_synced ctx tbl r cache server server' gws \<longleftrightarrow>
     (\<exists>m. collect_visibilities ctx r (rst_Traffic (obj_status r)) [] = Inr m
        \<and> (\<forall>v hs. map_of m v = Some hs \<longrightarrow> gateway_ensured ctx tbl r cache server server' (v, hs))
        \<and> set gws = gateways_renewed ctx tbl r cache server' {(v, hs). map_of m v = Some hs})"

definition gateways_current :: "go_context \<Rightarrow> gateway_table \<Rightarrow> route \<Rightarrow> gateway_view \<Rightarrow> bool" where
  "gateways_current ctx tbl r cache \<longleftrightarrow>
     (\<exists>m. collect_visibilities ctx r (rst_Traffic (obj_status r)) [] = Inr m
        \<and> (\<forall>v hs. map_of m v = Some hs \<longrightarrow> gateway_current ctx tbl r cache (v, hs)))"

type_synonym httproute_view = "object_key \<Rightarrow> httproute option"

text \<open>\<open>hr\<close> is what the builder wants for the gateways \<open>gws\<close>, and is in the server or was in the cache.\<close>

definition httproute_synced ::
  "go_context \<Rightarrow> (nat \<Rightarrow> key_order) \<Rightarrow> route \<Rightarrow> gateway list \<Rightarrow> httproute_view \<Rightarrow> httproute_view
     \<Rightarrow> httproute_view \<Rightarrow> httproute \<Rightarrow> bool" where
  "httproute_synced ctx ords r gws cache server server' hr \<longleftrightarrow>
     (\<exists>d. MakeHTTPRoute ctx ords r gws = Inr d \<and> up_to_date DeepEqual_httproute_spec hr d
        \<and> (\<forall>k. k \<noteq> obj_key r \<longrightarrow> server' k = server k)
        \<and> (server' (obj_key r) = Some hr \<or> cache (obj_key r) = Some hr \<and> server' = server)
        \<and> (\<forall>x. cache (obj_key r) = Some x \<longrightarrow> up_to_date DeepEqual_httproute_spec x d \<longrightarrow> server' = server))"

text \<open>Every object the route asks for can be built.\<close>

definition routable :: "go_context \<Rightarrow> (nat \<Rightarrow> key_order) \<Rightarrow> route \<Rightarrow> bool" where
  "routable ctx ords r \<longleftrightarrow>
     \<not> isl (placeholder_targets ctx (om_Name (obj_meta r)) (rst_Traffic (obj_status r)) [])
     \<and> \<not> isl (collect_visibilities ctx r (rst_Traffic (obj_status r)) [])
     \<and> (\<forall>t. \<not> isl (MakePlaceholderService ctx r t))
     \<and> (\<forall>v \<in> {DefaultVisibilityName, VisibilityClusterLocal}. \<forall>hs. \<not> isl (MakeGateway ctx r hs v))
     \<and> (\<forall>gws. \<not> isl (MakeHTTPRoute ctx ords r gws))"

definition gateway_api_enabled :: "route \<Rightarrow> bool" where
  "gateway_api_enabled r \<longleftrightarrow> sget (om_Annotations (obj_meta r)) GatewayAPIAnnotation = ''enabled''"

text \<open>A route whose gateways the configuration serves: named and labelled so that its children have
  the names and places the code looks for.\<close>

definition served :: "go_context \<Rightarrow> route \<Rightarrow> bool" where
  "served ctx r \<longleftrightarrow> (\<exists>cfg. ctx_config ctx = Inr cfg \<and> table_serves (cfg_Gateway cfg))
     \<and> ok_ns (om_Namespace (obj_meta r)) \<and> length (om_Name (obj_meta r)) \<le> 63
     \<and> route_visibility r \<in> {DefaultVisibilityName, VisibilityClusterLocal}
     \<and> route_conds_wf (obj_status r)"

context cluster begin

text \<open>The caches know of every object the servers have and of no other.\<close>

definition stepped :: "'s \<Rightarrow> bool" where
  "stepped s \<longleftrightarrow> (\<forall>k. ok_ns (fst k) \<longrightarrow> svc.in_step k s \<and> gw.in_step k s \<and> hr.in_step k s)"

lemma keeps_httproute:
  "keeps svc_cache (reconcileHTTPRoute c ctx od r gws)" "keeps svc_server (reconcileHTTPRoute c ctx od r gws)"
  "keeps gw_cache (reconcileHTTPRoute c ctx od r gws)" "keeps gw_server (reconcileHTTPRoute c ctx od r gws)"
  unfolding reconcileHTTPRoute_ensure split_beta by (intro keeps_intro keeps_ensure_httproute)+

lemma reconcilePlaceholderServices_spec:
  assumes wf: "wf s" and ns: "ok_ns (om_Namespace (obj_meta r))"
  shows "\<exists>res s'. reconcilePlaceholderServices c ctx r s = (res, s') \<and> wf s' \<and> svc_cache s' = svc_cache s
    \<and> (case res of
         Inl _ \<Rightarrow> svc_server s' = svc_server s
           \<and> \<not> (routable ctx ords r \<and> (\<forall>k. ok_ns (fst k) \<longrightarrow> svc.in_step k s))
       | Inr _ \<Rightarrow> services_synced ctx r (svc_cache s) (svc_server s) (svc_server s'))
    \<and> gw_cache s' = gw_cache s \<and> gw_server s' = gw_server s \<and> hr_cache s' = hr_cache s \<and> hr_server s' = hr_server s"
proof (cases "placeholder_targets ctx (om_Name (obj_meta r)) (rst_Traffic (obj_status r)) []")
  case (Inl f)
  then show ?thesis using wf by (simp add: reconcilePlaceholderServices_def routable_def)
next
  case (Inr ts)
  obtain res s' where L: "placeholder_loop c ctx r ts s = (res, s')" "wf s'" "svc_cache s' = svc_cache s"
    and post: "case res of
         Inl f \<Rightarrow> svc_server s' = svc_server s \<and> \<not> list_all (service_current (svc_cache s) ctx r) ts
           \<and> (\<exists>t \<in> set ts. isl (MakePlaceholderService ctx r t) \<or> \<not> svc.in_step (om_Namespace (obj_meta r), t) s)
       | Inr _ \<Rightarrow>
           list_all (service_current (svc_cache s) ctx r) ts \<and> svc_server s' = svc_server s
         \<or> wrote_first (svc_cache s) ctx r ts (svc_server s) (svc_server s')"
    using placeholder_loop_spec [OF wf ns] by blast
  have run: "reconcilePlaceholderServices c ctx r s = (res, s')"
    using Inr L(1) by (simp add: reconcilePlaceholderServices_def)
  have fr: "gw_cache s' = gw_cache s" "gw_server s' = gw_server s" "hr_cache s' = hr_cache s" "hr_server s' = hr_server s"
    using keeps_loops(1) [THEN keepsD, OF L(1)] keeps_loops(2) [THEN keepsD, OF L(1)] keeps_loops(3) [THEN keepsD, OF L(1)] keeps_loops(4) [THEN keepsD, OF L(1)] by blast+
  have "\<not> (routable ctx ords r \<and> (\<forall>k. ok_ns (fst k) \<longrightarrow> svc.in_step k s))" if "res = Inl f" for f
    using post that ns by (fastforce simp: routable_def)
  then show ?thesis
    using run L(2,3) fr post Inr by (cases res) (simp_all add: services_synced_def)
qed

lemma reconcileGateway_spec:
  assumes wf: "wf s" and sv: "served ctx r" and ord: "order_ok ord" and cfg: "ctx_config ctx = Inr cfg"
  shows "\<exists>res s'. reconcileGateway c ctx ord r s = (res, s') \<and> wf s' \<and> gw_cache s' = gw_cache s
    \<and> (case res of
         Inl _ \<Rightarrow> \<not> (routable ctx ords r \<and> (\<forall>k. ok_ns (fst k) \<longrightarrow> gw.in_step k s))
       | Inr gws \<Rightarrow> gateways_synced ctx (cfg_Gateway cfg) r (gw_cache s) (gw_server s) (gw_server s') gws
           \<and> (gateways_current ctx (cfg_Gateway cfg) r (gw_cache s) \<longrightarrow> gws = [] \<and> s' = s))
    \<and> svc_cache s' = svc_cache s \<and> svc_server s' = svc_server s \<and> hr_cache s' = hr_cache s \<and> hr_server s' = hr_server s"
proof (cases "collect_visibilities ctx r (rst_Traffic (obj_status r)) []")
  case (Inl f)
  then show ?thesis using wf by (simp add: reconcileGateway_def routable_def)
next
  case (Inr m)
  let ?es = "range_map ord m"
  have tbl: "table_serves (cfg_Gateway cfg)" and ns: "ok_ns (om_Namespace (obj_meta r))"
    and vis: "route_visibility r \<in> {DefaultVisibilityName, VisibilityClusterLocal}"
    using sv cfg by (auto simp: served_def)
  have "fst ` set ?es = dom (map_of m)"
    using set_range_map [OF ord, of m] by (force simp: image_iff)
  also have "\<dots> \<subseteq> {route_visibility r, VisibilityClusterLocal}"
    using collect_visibilities_dom [OF Inr] by simp
  also have "\<dots> \<subseteq> {DefaultVisibilityName, VisibilityClusterLocal}" using vis by blast
  finally have es: "fst ` set ?es \<subseteq> {DefaultVisibilityName, VisibilityClusterLocal}" .
  note es_ok = served_entries [OF tbl ns es distinct_range_map [OF ord]]
  obtain res s' where L: "gateway_loop c ctx r (cfg_Gateway cfg) ?es [] s = (res, s')" "wf s'" "gw_cache s' = gw_cache s"
    and post: "case res of Inl f \<Rightarrow> \<exists>e \<in> set ?es. gateway_fails ctx (cfg_Gateway cfg) r s e
       | Inr out \<Rightarrow> list_all (gateway_ensured ctx (cfg_Gateway cfg) r (gw_cache s) (gw_server s) (gw_server s')) ?es
           \<and> set out = gateways_renewed ctx (cfg_Gateway cfg) r (gw_cache s) (gw_server s') (set ?es)"
    using gateway_loop_spec [OF wf cfg es_ok, of "[]"] by (auto simp only: list.set(1) Un_empty_left)
  have run: "reconcileGateway c ctx ord r s = (res, s')"
    using Inr L(1) cfg by (simp add: reconcileGateway_def)
  have fr: "svc_cache s' = svc_cache s" "svc_server s' = svc_server s" "hr_cache s' = hr_cache s" "hr_server s' = hr_server s"
    using keeps_loops(5) [THEN keepsD, OF L(1)] keeps_loops(6) [THEN keepsD, OF L(1)] keeps_loops(7) [THEN keepsD, OF L(1)] keeps_loops(8) [THEN keepsD, OF L(1)] by blast+
  have "gateways_synced ctx (cfg_Gateway cfg) r (gw_cache s) (gw_server s) (gw_server s') out" if "res = Inr out" for out
    using post that Inr unfolding gateways_synced_def list_all_iff set_range_map [OF ord, of m]
    by (auto simp del: split_paired_All)
  moreover have "\<not> (routable ctx ords r \<and> (\<forall>k. ok_ns (fst k) \<longrightarrow> gw.in_step k s))" if res: "res = Inl f" for f
  proof
    assume ok: "routable ctx ords r \<and> (\<forall>k. ok_ns (fst k) \<longrightarrow> gw.in_step k s)"
    obtain e where e: "e \<in> set ?es" "gateway_fails ctx (cfg_Gateway cfg) r s e" using post res by auto
    then have v: "fst e \<in> {DefaultVisibilityName, VisibilityClusterLocal}" using es by blast
    then obtain k where "gateway_key (cfg_Gateway cfg) r (fst e) = Inr k" "ok_ns (fst k)"
      using table_serves_key [OF tbl ns, of "fst e"] by blast
    with e(2) v ok show False by (auto simp: gateway_fails_def routable_def)
  qed
  moreover have "out = [] \<and> s' = s"
    if "res = Inr out" and cur: "gateways_current ctx (cfg_Gateway cfg) r (gw_cache s)" for out
  proof -
    have "list_all (gateway_current ctx (cfg_Gateway cfg) r (gw_cache s)) ?es"
      using cur Inr set_range_map [OF ord, of m] by (auto simp: gateways_current_def list_all_iff)
    from gateway_loop_current [OF this, of "[]"] L(1) that(1) show ?thesis by simp
  qed
  ultimately show ?thesis using run L(2,3) fr by (cases res) simp_all
qed

lemma IsHTTPRouteReady_total: "\<exists>b. IsHTTPRouteReady hr = Inr b"
  by (cases "hst_Gateways (obj_status hr)") (auto simp: IsHTTPRouteReady_def)

text \<open>The steps run in order: no gateway is written before the services are synced, no HTTPRoute
  before the gateways are; a pass that fails has written no HTTPRoute and changes no status.\<close>

lemma ReconcileKind_spec:
  assumes wf: "wf s" and sv: "served ctx r" and ord: "order_ok (od_Visibility od)"
    and cfg: "ctx_config ctx = Inr cfg" and en: "gateway_api_enabled r"
  shows "\<exists>res s'. ReconcileKind c ctx clk sprintf0 od r s = (res, s') \<and> wf s'
    \<and> svc_cache s' = svc_cache s \<and> gw_cache s' = gw_cache s \<and> hr_cache s' = hr_cache s
    \<and> (case res of
         Inl _ \<Rightarrow> hr_server s' = hr_server s
           \<and> (gw_server s' = gw_server s \<or> services_synced ctx r (svc_cache s) (svc_server s) (svc_server s'))
           \<and> \<not> (routable ctx (od_Hostnames od) r \<and> stepped s)
       | Inr r' \<Rightarrow> services_synced ctx r (svc_cache s) (svc_server s) (svc_server s')
           \<and> (\<exists>gws hr st'. gateways_synced ctx (cfg_Gateway cfg) r (gw_cache s) (gw_server s) (gw_server s') gws
                \<and> (gateways_current ctx (cfg_Gateway cfg) r (gw_cache s)
                  \<longrightarrow> gws = [] \<and> gw_server s' = gw_server s)
                \<and> httproute_synced ctx (od_Hostnames od) r gws (hr_cache s) (hr_server s) (hr_server s') hr
                \<and> r' = r\<lparr>obj_status := st'\<rparr>
                \<and> status_synced (IsHTTPRouteReady hr = Inr True) (obj_status r) st'))"
proof -
  have ns: "ok_ns (om_Namespace (obj_meta r))" and len: "length (om_Name (obj_meta r)) \<le> 63"
    and st: "route_conds_wf (obj_status r)"
    using sv by (auto simp: served_def)
  note start = ReconcileKind_def en [unfolded gateway_api_enabled_def] bnd_def
  obtain res1 s1 where A: "reconcilePlaceholderServices c ctx r s = (res1, s1)" "wf s1" "svc_cache s1 = svc_cache s"
      "gw_cache s1 = gw_cache s" "gw_server s1 = gw_server s" "hr_cache s1 = hr_cache s" "hr_server s1 = hr_server s"
    and A': "case res1 of Inl _ \<Rightarrow> svc_server s1 = svc_server s
           \<and> \<not> (routable ctx (od_Hostnames od) r \<and> (\<forall>k. ok_ns (fst k) \<longrightarrow> svc.in_step k s))
       | Inr _ \<Rightarrow> services_synced ctx r (svc_cache s) (svc_server s) (svc_server s1)"
    using reconcilePlaceholderServices_spec [OF wf ns, of ctx "od_Hostnames od"] by blast
  show ?thesis
  proof (cases res1)
    case (Inl f)
    moreover have "\<not> (routable ctx (od_Hostnames od) r \<and> stepped s)"
      using A' Inl unfolding stepped_def by auto
    ultimately show ?thesis using A by (simp add: start)
  next
    case 1: (Inr u)
    have step1: "gw.in_step k s1 = gw.in_step k s" "hr.in_step k s1 = hr.in_step k s" for k
      using A by (simp_all add: gw.in_step_def hr.in_step_def)
    obtain res2 s2 where B: "reconcileGateway c ctx (od_Visibility od) r s1 = (res2, s2)" "wf s2"
        "gw_cache s2 = gw_cache s" "svc_cache s2 = svc_cache s" "svc_server s2 = svc_server s1"
        "hr_cache s2 = hr_cache s" "hr_server s2 = hr_server s"
      and B': "case res2 of Inl _ \<Rightarrow> \<not> (routable ctx (od_Hostnames od) r \<and> (\<forall>k. ok_ns (fst k) \<longrightarrow> gw.in_step k s))
         | Inr gws \<Rightarrow> gateways_synced ctx (cfg_Gateway cfg) r (gw_cache s) (gw_server s) (gw_server s2) gws
             \<and> (gateways_current ctx (cfg_Gateway cfg) r (gw_cache s) \<longrightarrow> gws = [] \<and> s2 = s1)"
      using reconcileGateway_spec [OF A(2) sv ord cfg, of "od_Hostnames od"] unfolding A(3-7) step1 by blast
    show ?thesis
    proof (cases res2)
      case (Inl f)
      moreover have "\<not> (routable ctx (od_Hostnames od) r \<and> stepped s)"
        using B' Inl unfolding stepped_def by auto
      ultimately show ?thesis using A B A' 1 by (simp add: start)
    next
      case 2: (Inr gws)
      have step2: "hr.in_step k s2 = hr.in_step k s" for k using B by (simp add: hr.in_step_def)
      obtain res3 s3 where C: "reconcileHTTPRoute c ctx (od_Hostnames od) r gws s2 = (res3, s3)" "wf s3"
          "hr_cache s3 = hr_cache s" "\<forall>k. k \<noteq> obj_key r \<longrightarrow> hr_server s3 k = hr_server s k"
        and C': "case res3 of
            Inl f \<Rightarrow> hr_server s3 = hr_server s \<and> (isl (MakeHTTPRoute ctx (od_Hostnames od) r gws) \<or> \<not> hr.in_step (obj_key r) s)
          | Inr y \<Rightarrow> (\<exists>d. MakeHTTPRoute ctx (od_Hostnames od) r gws = Inr d \<and> up_to_date DeepEqual_httproute_spec y d
              \<and> (\<forall>x. hr_cache s (obj_key r) = Some x \<longrightarrow> up_to_date DeepEqual_httproute_spec x d
                   \<longrightarrow> hr_server s3 = hr_server s))
              \<and> (hr_server s3 (obj_key r) = Some y \<or> hr_cache s (obj_key r) = Some y \<and> hr_server s3 = hr_server s)"
        using reconcileHTTPRoute_spec [OF B(2) ns len, of ctx "od_Hostnames od" gws]
        unfolding step2 B(6,7) obj_key_def by blast
      have fr: "svc_cache s3 = svc_cache s2" "svc_server s3 = svc_server s2" "gw_cache s3 = gw_cache s2"
          "gw_server s3 = gw_server s2"
        using keeps_httproute [THEN keepsD, OF C(1)] by blast+
      show ?thesis
      proof (cases res3)
        case (Inl f)
        moreover have "\<not> (routable ctx (od_Hostnames od) r \<and> stepped s)"
          using C' Inl ns unfolding stepped_def routable_def by (auto simp: obj_key_def)
        ultimately show ?thesis using A B C C' fr A' 1 2 by (simp add: start)
      next
        case 3: (Inr hr)
        obtain b where b: "IsHTTPRouteReady hr = Inr b" using IsHTTPRouteReady_total by blast
        define st' where "st' = fst (if b
          then MarkTLSNotEnabled clk AutoTLSNotEnabledMessage
                 (PropagateIngressStatus clk sprintf0 [ready_condition] (obj_status r, 0))
          else MarkIngressNotConfigured clk (obj_status r, 0))"
        have run: "ReconcileKind c ctx clk sprintf0 od r s = (Inr (r\<lparr>obj_status := st'\<rparr>), s3)"
          using A(1) B(1) C(1) 1 2 3 b by (simp add: start Let_def st'_def)
        have "status_synced (IsHTTPRouteReady hr = Inr True) (obj_status r) st'"
          using mark_synced [OF st, of b clk sprintf0] b by (simp add: st'_def)
        moreover have "httproute_synced ctx (od_Hostnames od) r gws (hr_cache s) (hr_server s) (hr_server s3) hr"
          using C' C(4) 3 unfolding httproute_synced_def by auto
        moreover have "gateways_current ctx (cfg_Gateway cfg) r (gw_cache s) \<longrightarrow> gws = [] \<and> gw_server s3 = gw_server s"
          using B' 2 fr A(5) by auto
        moreover have "gateways_synced ctx (cfg_Gateway cfg) r (gw_cache s) (gw_server s) (gw_server s3) gws"
          using B' 2 fr by simp
        moreover have "services_synced ctx r (svc_cache s) (svc_server s) (svc_server s3)"
          using A' 1 fr B(5) by simp
        ultimately show ?thesis using run C(2,3) fr B(3,4) by (simp add: exI) blast
      qed
    qed
  qed
qed

lemma ReconcileKind_disabled:
  "\<not> gateway_api_enabled r \<Longrightarrow> ReconcileKind c ctx clk sprintf0 od r s = (Inr r, s)"
  by (simp add: ReconcileKind_def gateway_api_enabled_def)

end

end
