(* ===== verification/Passes.thy ===== *)
theory Passes
  imports RouteSync
begin

text \<open>
  Repeated passes of the reconciler over a cluster whose informers bring the caches up to date between
  the passes. A pass changes only the status conditions of the route, so every pass wants the same
  objects; each brings one placeholder service up to date, the first all gateways, and from the second
  on the HTTPRoute is the one without gateway references. Every pass visits the maps in an order of its own.
\<close>

subsection \<open>What a route asks for\<close>

text \<open>Two versions of a route that ask for the same objects.\<close>

definition same_route :: "route \<Rightarrow> route \<Rightarrow> bool" where
  "same_route r r' \<longleftrightarrow> obj_meta r' = obj_meta r
     \<and> rst_Traffic (obj_status r') = rst_Traffic (obj_status r)"

lemma same_route_refl [simp]: "same_route r r"
  by (simp add: same_route_def)

lemma same_route_trans: "same_route a b \<Longrightarrow> same_route b c \<Longrightarrow> same_route a c"
  by (simp add: same_route_def)

lemma same_routeD:
  assumes "same_route r r'"
  shows "obj_meta r' = obj_meta r" "rst_Traffic (obj_status r') = rst_Traffic (obj_status r)"
    "obj_key r' = obj_key r"
  using assms by (simp_all add: same_route_def obj_key_def)

lemma same_VisibilityToDomain: "same_route r r' \<Longrightarrow> VisibilityToDomain ctx t r' = VisibilityToDomain ctx t r"
  by (simp add: VisibilityToDomain_def same_routeD)

lemma same_collect_visibilities:
  "same_route r r' \<Longrightarrow> collect_visibilities ctx r' ts m = collect_visibilities ctx r ts m"
  by (induction ts arbitrary: m) (simp_all add: same_VisibilityToDomain)

lemma same_service: "same_route r r' \<Longrightarrow> MakePlaceholderService ctx r' t = MakePlaceholderService ctx r t"
  by (simp add: MakePlaceholderService_def route_controller_ref_def same_routeD)

lemma same_gateway: "same_route r r' \<Longrightarrow> MakeGateway ctx r' hs v = MakeGateway ctx r hs v"
  unfolding MakeGateway_def makeGatewaySpec_def make_listener_def child_labels_def child_annotations_def
    route_labels_def same_route_def by (simp cong: if_cong)

lemma same_collect_domains:
  "same_route r r' \<Longrightarrow> collect_domains ctx ords r' ts i ds = collect_domains ctx ords r ts i ds"
  by (induction ts arbitrary: i ds) (simp_all add: hostnames_def same_VisibilityToDomain)

lemma same_httproute: "same_route r r' \<Longrightarrow> MakeHTTPRoute ctx ords r' gws = MakeHTTPRoute ctx ords r gws"
  using same_collect_domains [of r r'] same_routeD [of r r']
  unfolding MakeHTTPRoute_def makeHTTPRouteSpec_def child_labels_def child_annotations_def
    route_labels_def route_controller_ref_def by simp

lemma same_gateway_key: "same_route r r' \<Longrightarrow> gateway_key tbl r' v = gateway_key tbl r v"
  unfolding gateway_key_def same_route_def by (simp cong: if_cong)

lemma same_targets:
  "same_route r r' \<Longrightarrow> placeholder_targets ctx (om_Name (obj_meta r')) (rst_Traffic (obj_status r')) []
     = placeholder_targets ctx (om_Name (obj_meta r)) (rst_Traffic (obj_status r)) []"
  by (simp add: same_routeD)

lemmas same_builders = same_routeD same_service same_gateway same_httproute same_gateway_key
  same_collect_visibilities same_targets

lemma same_service_current: "same_route r r' \<Longrightarrow> service_current cache ctx r' t = service_current cache ctx r t"
  by (simp add: service_current_def same_builders)

lemma same_gateways_current:
  "same_route r r' \<Longrightarrow> gateways_current ctx tbl r' cache = gateways_current ctx tbl r cache"
  by (simp add: gateways_current_def gateway_current_def same_builders)

lemma same_routable: "same_route r r' \<Longrightarrow> routable ctx ords r' = routable ctx ords r"
  by (simp add: routable_def same_builders)

lemma same_enabled: "same_route r r' \<Longrightarrow> gateway_api_enabled r' = gateway_api_enabled r"
  by (simp add: gateway_api_enabled_def same_builders)

lemma same_served: "same_route r r' \<Longrightarrow> route_conds_wf (obj_status r') \<Longrightarrow> served ctx r \<Longrightarrow> served ctx r'"
  by (simp add: served_def same_builders route_visibility_def)

text \<open>A served route can be built when its hosts have names and its targets percentages.\<close>

definition named_targets :: "go_context \<Rightarrow> route \<Rightarrow> bool" where
  "named_targets ctx r \<longleftrightarrow> (\<forall>t \<in> set (rst_Traffic (obj_status r)).
     percent_set t \<and> \<not> isl (VisibilityToDomain ctx (tt_Tag t) r))"

lemma routableI:
  assumes sv: "served ctx r" and nt: "named_targets ctx r"
  shows "routable ctx ords r"
proof -
  let ?ts = "rst_Traffic (obj_status r)"
  obtain cfg where cfg: "ctx_config ctx = Inr cfg" "table_serves (cfg_Gateway cfg)"
    using sv by (auto simp: served_def)
  have vis: "\<exists>m. VisibilityToDomain ctx (tt_Tag t) r = Inr m" if "t \<in> set ?ts" for t
    using nt that by (cases "VisibilityToDomain ctx (tt_Tag t) r") (auto simp: named_targets_def)
  have "\<not> isl (placeholder_targets ctx (om_Name (obj_meta r)) ts acc)" if "set ts \<subseteq> set ?ts" for ts acc
    using that
  proof (induction ts arbitrary: acc)
    case (Cons t ts)
    obtain m where "VisibilityToDomain ctx (tt_Tag t) r = Inr m" using vis [of t] Cons.prems by auto
    then obtain h where "HostnameFromTemplate ctx (om_Name (obj_meta r)) (tt_Tag t) = Inr h"
      by (elim VisibilityToDomain_okE)
    with Cons show ?case by simp
  qed simp
  moreover have "\<not> isl (collect_visibilities ctx r ts acc)" if "set ts \<subseteq> set ?ts" for ts acc
    using that
  proof (induction ts arbitrary: acc)
    case (Cons t ts)
    obtain m where "VisibilityToDomain ctx (tt_Tag t) r = Inr m" using vis [of t] Cons.prems by auto
    with Cons show ?case by simp
  qed simp
  moreover have "\<exists>ds'. collect_domains ctx ords r ts i ds = Inr ds'" if "set ts \<subseteq> set ?ts" for ts i ds
    using that
  proof (induction ts arbitrary: i ds)
    case (Cons t ts)
    obtain m where "VisibilityToDomain ctx (tt_Tag t) r = Inr m" using vis [of t] Cons.prems by auto
    with Cons show ?case by (simp add: hostnames_def)
  qed simp
  from this [of ?ts] obtain ds where "collect_domains ctx ords r ?ts 0 [] = Inr ds" by blast
  moreover have "list_all percent_set ?ts" using nt by (simp add: named_targets_def list_all_iff)
  then obtain rule where "makeHTTPRouteRule (om_Namespace (obj_meta r)) ?ts = Inr rule"
    by (simp add: makeHTTPRouteRule_ok)
  moreover have "\<not> isl (MakePlaceholderService ctx r t)" for t
    using cfg MakePlaceholderService_ok [OF cfg(1), of _ r t] by (fastforce simp: table_serves_def)
  moreover have "\<not> isl (MakeGateway ctx r hs v)" if v: "v \<in> {DefaultVisibilityName, VisibilityClusterLocal}" for hs v
  proof -
    obtain gc where "gateway_at (cfg_Gateway cfg) v = Inr gc" using cfg(2) v unfolding table_serves_def by blast
    moreover obtain name where "GatewayName (obj_meta r) v = Inr name"
      using GatewayName_default_local [of "obj_meta r"] v by auto
    ultimately show ?thesis using MakeGateway_ok [OF cfg(1)] by simp
  qed
  ultimately show ?thesis
    by (simp add: routable_def MakeHTTPRoute_def makeHTTPRouteSpec_def)
qed

text \<open>The targets of a route, and how many of them do not have their service yet.\<close>

definition targets :: "go_context \<Rightarrow> route \<Rightarrow> string list" where
  "targets ctx r =
     (case placeholder_targets ctx (om_Name (obj_meta r)) (rst_Traffic (obj_status r)) [] of
        Inl _ \<Rightarrow> [] | Inr ts \<Rightarrow> ts)"

definition stale :: "go_context \<Rightarrow> route \<Rightarrow> service_view \<Rightarrow> nat" where
  "stale ctx r services = length (filter (\<lambda>t. \<not> service_current services ctx r t) (targets ctx r))"

lemma stale_le: "stale ctx r services \<le> length (targets ctx r)"
  by (simp add: stale_def)

lemma stale_0: "stale ctx r services = 0 \<longleftrightarrow> list_all (service_current services ctx r) (targets ctx r)"
  by (simp add: stale_def list_all_iff filter_empty_conv)

lemma same_stale: "same_route r r' \<Longrightarrow> stale ctx r' services = stale ctx r services"
  by (simp add: stale_def targets_def same_service_current same_targets)

text \<open>A cache that agrees with its server on the keys of namespaced objects.\<close>

definition agree :: "(object_key \<Rightarrow> 'o option) \<Rightarrow> (object_key \<Rightarrow> 'o option) \<Rightarrow> bool" where
  "agree cache server \<longleftrightarrow> (\<forall>k. ok_ns (fst k) \<longrightarrow> cache k = server k)"

lemma agree_service_current:
  "agree cache server \<Longrightarrow> ok_ns (om_Namespace (obj_meta r))
     \<Longrightarrow> service_current cache ctx r = service_current server ctx r"
  by (simp add: service_current_def agree_def fun_eq_iff)

lemma wrote_first_stale:
  assumes "wrote_first cache ctx r (targets ctx r) server server'" and "agree cache server"
    and "ok_ns (om_Namespace (obj_meta r))"
  shows "stale ctx r server' < stale ctx r server"
proof -
  obtain us t vs y d where ts: "targets ctx r = us @ t # vs" and t: "\<not> service_current server ctx r t"
    and d: "MakePlaceholderService ctx r t = Inr d" "up_to_date DeepEqual_service_spec y d"
    and s': "server' = server((om_Namespace (obj_meta r), t) \<mapsto> y)"
    using assms(1) unfolding wrote_first_def agree_service_current [OF assms(2,3)] by blast
  have mono: "service_current server' ctx r t'" if "service_current server ctx r t'" for t'
    using that d by (cases "t' = t") (auto simp: s' service_current_def)
  have "service_current server' ctx r t" using d by (simp add: s' service_current_def)
  moreover have "length (filter (\<lambda>t. \<not> service_current server' ctx r t) xs)
      \<le> length (filter (\<lambda>t. \<not> service_current server ctx r t) xs)" for xs
    by (induction xs) (auto dest: mono)
  from this [of us] this [of vs] show ?thesis
    using t calculation by (simp add: stale_def ts)
qed

lemma services_synced_stale:
  assumes "services_synced ctx r cache server server'" and ag: "agree cache server"
    and ns: "ok_ns (om_Namespace (obj_meta r))"
  shows "stale ctx r server' < stale ctx r server \<or> stale ctx r server = 0 \<and> server' = server"
  using assms(1) wrote_first_stale [OF _ ag ns, of ctx server'] agree_service_current [OF ag ns, of ctx]
  unfolding services_synced_def by (auto simp: stale_0 targets_def)

lemma served_gateway_key:
  assumes "served ctx r" and "ctx_config ctx = Inr cfg"
    and "collect_visibilities ctx r (rst_Traffic (obj_status r)) [] = Inr m" and "map_of m v = Some hs"
  shows "\<exists>k. gateway_key (cfg_Gateway cfg) r v = Inr k \<and> ok_ns (fst k)"
proof -
  have "v \<in> {route_visibility r, VisibilityClusterLocal}"
    using collect_visibilities_dom [OF assms(3)] assms(4) by auto
  with assms(1,2) table_serves_key [of "cfg_Gateway cfg" r v] show ?thesis by (auto simp: served_def)
qed

lemma agree_gateways_current:
  assumes "served ctx r" and "ctx_config ctx = Inr cfg" and "agree cache server"
  shows "gateways_current ctx (cfg_Gateway cfg) r cache = gateways_current ctx (cfg_Gateway cfg) r server"
  using served_gateway_key [OF assms(1,2)] assms(3)
  unfolding gateways_current_def gateway_current_def agree_def fst_conv snd_conv by (metis sum.inject(2))

lemma gateways_synced_current:
  assumes sv: "served ctx r" and cfg: "ctx_config ctx = Inr cfg" and ag: "agree cache server"
    and syn: "gateways_synced ctx (cfg_Gateway cfg) r cache server server' gws"
  shows "gateways_current ctx (cfg_Gateway cfg) r server'"
proof -
  obtain m where m: "collect_visibilities ctx r (rst_Traffic (obj_status r)) [] = Inr m"
    and e: "\<And>v hs. map_of m v = Some hs \<Longrightarrow> gateway_ensured ctx (cfg_Gateway cfg) r cache server server' (v, hs)"
    using syn unfolding gateways_synced_def by blast
  have "gateway_current ctx (cfg_Gateway cfg) r server' (v, hs)" if v: "map_of m v = Some hs" for v hs
  proof -
    obtain k d y where k: "gateway_key (cfg_Gateway cfg) r v = Inr k" "MakeGateway ctx r hs v = Inr d"
        "up_to_date DeepEqual_gateway_spec y d" and y: "cache k = Some y \<and> server' k = server k \<or> server' k = Some y"
      using e [OF v] unfolding gateway_ensured_def fst_conv snd_conv by blast
    have "ok_ns (fst k)" using served_gateway_key [OF sv cfg m v] k(1) by auto
    then have "cache k = server k" using ag unfolding agree_def by blast
    then have "server' k = Some y" using y by auto
    with k show ?thesis unfolding gateway_current_def fst_conv snd_conv by blast
  qed
  with m show ?thesis unfolding gateways_current_def by blast
qed

text \<open>Orders of the map loops of a pass that visit every key once.\<close>

definition orders_ok :: "orders \<Rightarrow> bool" where
  "orders_ok od \<longleftrightarrow> order_ok (od_Visibility od) \<and> (\<forall>i. order_ok (od_Hostnames od i))"

lemma orders_okD:
  "orders_ok od \<Longrightarrow> order_ok (od_Visibility od)" "orders_ok od \<Longrightarrow> order_ok (od_Hostnames od i)"
  by (simp_all add: orders_ok_def)

text \<open>The second HTTPRoute has the host names of the first, possibly in another order; in the same order it
  is the first.\<close>

definition reordered :: "httproute \<Rightarrow> httproute \<Rightarrow> bool" where
  "reordered hr hr' \<longleftrightarrow> mset (hs_Hostnames (obj_spec hr')) = mset (hs_Hostnames (obj_spec hr))
     \<and> hs_Gateways (obj_spec hr') = hs_Gateways (obj_spec hr)
     \<and> (hs_Hostnames (obj_spec hr') = hs_Hostnames (obj_spec hr) \<longrightarrow> hr' = hr)"

subsection \<open>A cluster with informers\<close>

locale informed_cluster = cluster c svc_cache svc_server gw_cache gw_server hr_cache hr_server wf
  for c :: "'s reconciler"
    and svc_cache svc_server :: "'s \<Rightarrow> object_key \<Rightarrow> service option"
    and gw_cache gw_server :: "'s \<Rightarrow> object_key \<Rightarrow> gateway option"
    and hr_cache hr_server :: "'s \<Rightarrow> object_key \<Rightarrow> httproute option"
    and wf :: "'s \<Rightarrow> bool" +
  fixes sync :: "'s \<Rightarrow> 's"
  assumes sync_wf: "wf s \<Longrightarrow> wf (sync s)"
    and sync_server: "wf s \<Longrightarrow> svc_server (sync s) = svc_server s \<and> gw_server (sync s) = gw_server s
      \<and> hr_server (sync s) = hr_server s"
    and sync_cache: "wf s \<Longrightarrow> agree (svc_cache (sync s)) (svc_server s) \<and> agree (gw_cache (sync s)) (gw_server s)
      \<and> agree (hr_cache (sync s)) (hr_server s)"
begin

definition synced :: "'s \<Rightarrow> bool" where
  "synced s \<longleftrightarrow> wf s \<and> agree (svc_cache s) (svc_server s) \<and> agree (gw_cache s) (gw_server s)
     \<and> agree (hr_cache s) (hr_server s)"

lemma synced_sync: "wf s \<Longrightarrow> synced (sync s)"
  using sync_wf sync_server sync_cache by (simp add: synced_def)

lemma synced_stepped: "synced s \<Longrightarrow> stepped s"
  by (simp add: synced_def stepped_def agree_def svc.in_step_def gw.in_step_def hr.in_step_def)

text \<open>One pass over the route as it now is, after which the informers catch up.\<close>

definition pass :: "go_context \<Rightarrow> clock \<Rightarrow> (string \<Rightarrow> string) \<Rightarrow> orders \<Rightarrow> route \<times> 's \<Rightarrow> route \<times> 's" where
  "pass ctx clk sprintf0 od rs =
     (case ReconcileKind c ctx clk sprintf0 od (fst rs) (snd rs) of
        (Inl _, s') \<Rightarrow> (fst rs, sync s')
      | (Inr r', s') \<Rightarrow> (r', sync s'))"

text \<open>The HTTPRoute the server holds is the one wanted for no gateways.\<close>

definition detached :: "go_context \<Rightarrow> (nat \<Rightarrow> key_order) \<Rightarrow> route \<Rightarrow> 's \<Rightarrow> bool" where
  "detached ctx ords r s \<longleftrightarrow> (\<exists>hr d. hr_server s (obj_key r) = Some hr \<and> MakeHTTPRoute ctx ords r [] = Inr d
     \<and> up_to_date DeepEqual_httproute_spec hr d)"

lemma ready_status_wf: "status_synced ready st st' \<Longrightarrow> route_conds_wf st' \<and> rst_Traffic st' = rst_Traffic st"
  by (simp add: status_synced_def)

lemma pass_step:
  assumes sy: "synced s" and sv: "served ctx r" and ord: "order_ok (od_Visibility od)"
    and cfg: "ctx_config ctx = Inr cfg" and en: "gateway_api_enabled r"
    and ok: "routable ctx (od_Hostnames od) r"
  shows "\<exists>r' s'. pass ctx clk sprintf0 od (r, s) = (r', s') \<and> synced s' \<and> same_route r r' \<and> served ctx r'
    \<and> (stale ctx r (svc_server s') < stale ctx r (svc_server s)
       \<or> stale ctx r (svc_server s) = 0 \<and> svc_server s' = svc_server s)
    \<and> gateways_current ctx (cfg_Gateway cfg) r (gw_server s')
    \<and> (gateways_current ctx (cfg_Gateway cfg) r (gw_server s) \<longrightarrow>
         gw_server s' = gw_server s \<and> detached ctx (od_Hostnames od) r s'
         \<and> (\<forall>k. k \<noteq> obj_key r \<longrightarrow> hr_server s' k = hr_server s k)
         \<and> (detached ctx (od_Hostnames od) r s \<longrightarrow> hr_server s' = hr_server s))"
proof -
  have wf: "wf s" and ag: "agree (svc_cache s) (svc_server s)" "agree (gw_cache s) (gw_server s)"
      "agree (hr_cache s) (hr_server s)" and ns: "ok_ns (om_Namespace (obj_meta r))"
    using sy sv by (simp_all add: synced_def served_def)
  obtain res s' where R: "ReconcileKind c ctx clk sprintf0 od r s = (res, s')" "wf s'"
    and post: "case res of
         Inl _ \<Rightarrow> \<not> (routable ctx (od_Hostnames od) r \<and> stepped s)
       | Inr r' \<Rightarrow> services_synced ctx r (svc_cache s) (svc_server s) (svc_server s')
           \<and> (\<exists>gws hr st'. gateways_synced ctx (cfg_Gateway cfg) r (gw_cache s) (gw_server s) (gw_server s') gws
                \<and> (gateways_current ctx (cfg_Gateway cfg) r (gw_cache s)
                  \<longrightarrow> gws = [] \<and> gw_server s' = gw_server s)
                \<and> httproute_synced ctx (od_Hostnames od) r gws (hr_cache s) (hr_server s) (hr_server s') hr
                \<and> r' = r\<lparr>obj_status := st'\<rparr>
                \<and> status_synced (IsHTTPRouteReady hr = Inr True) (obj_status r) st')"
    using ReconcileKind_spec [OF wf sv ord cfg en, of clk sprintf0] by (fastforce split: sum.splits)
  obtain r' where r': "res = Inr r'" using post ok synced_stepped [OF sy] by (cases res) auto
  obtain gws hr st' where svcs: "services_synced ctx r (svc_cache s) (svc_server s) (svc_server s')"
    and gwss: "gateways_synced ctx (cfg_Gateway cfg) r (gw_cache s) (gw_server s) (gw_server s') gws"
    and g: "gateways_current ctx (cfg_Gateway cfg) r (gw_cache s) \<longrightarrow> gws = [] \<and> gw_server s' = gw_server s"
    and h: "httproute_synced ctx (od_Hostnames od) r gws (hr_cache s) (hr_server s) (hr_server s') hr"
    and st: "r' = r\<lparr>obj_status := st'\<rparr>" "status_synced (IsHTTPRouteReady hr = Inr True) (obj_status r) st'"
    using post r' by auto
  have same: "same_route r r'" "route_conds_wf (obj_status r')"
    using st ready_status_wf by (simp_all add: same_route_def)
  have run: "pass ctx clk sprintf0 od (r, s) = (r', sync s')" using R(1) r' by (simp add: pass_def)
  have hk: "hr_cache s (obj_key r) = hr_server s (obj_key r)" using ag(3) ns by (simp add: agree_def obj_key_def)
  have "detached ctx (od_Hostnames od) r (sync s') \<and> (\<forall>k. k \<noteq> obj_key r \<longrightarrow> hr_server s' k = hr_server s k)
      \<and> (detached ctx (od_Hostnames od) r s \<longrightarrow> hr_server s' = hr_server s)"
    if "gws = []"
    using h hk sync_server [OF R(2)] unfolding that httproute_synced_def detached_def by auto
  moreover note agree_gateways_current [OF sv cfg ag(2)]
  moreover note services_synced_stale [OF svcs ag(1) ns] gateways_synced_current [OF sv cfg ag(2) gwss]
  ultimately show ?thesis
    using run synced_sync [OF R(2)] same same_served [OF same sv] sync_server [OF R(2)] g by auto
qed

lemma same_detached: "same_route r r' \<Longrightarrow> detached ctx ords r' s = detached ctx ords r s"
  by (simp add: detached_def same_builders)

text \<open>Passes one after the other, the \<open>i\<close>-th with its own clock and its own orders of the map loops.\<close>

primrec passes ::
  "go_context \<Rightarrow> (nat \<Rightarrow> clock) \<Rightarrow> (string \<Rightarrow> string) \<Rightarrow> (nat \<Rightarrow> orders) \<Rightarrow> nat \<Rightarrow> route \<times> 's \<Rightarrow> route \<times> 's" where
  "passes ctx clks sprintf0 ods 0 rs = rs"
| "passes ctx clks sprintf0 ods (Suc n) rs = pass ctx (clks n) sprintf0 (ods n) (passes ctx clks sprintf0 ods n rs)"

definition settling :: "nat \<Rightarrow> go_context \<Rightarrow> (nat \<Rightarrow> orders) \<Rightarrow> config \<Rightarrow> route \<Rightarrow> 's \<Rightarrow> route \<times> 's \<Rightarrow> bool" where
  "settling n ctx ods cfg r s rs \<longleftrightarrow> synced (snd rs) \<and> same_route r (fst rs) \<and> served ctx (fst rs)
     \<and> stale ctx r (svc_server (snd rs)) \<le> stale ctx r (svc_server s) - n
     \<and> (1 \<le> n \<longrightarrow> gateways_current ctx (cfg_Gateway cfg) r (gw_server (snd rs)))
     \<and> (2 \<le> n \<longrightarrow> detached ctx (od_Hostnames (ods (n - 1))) r (snd rs))"

lemma passes_settling:
  assumes sy: "synced s" and sv: "served ctx r" and ord: "\<forall>i. orders_ok (ods i)"
    and cfg: "ctx_config ctx = Inr cfg" and en: "gateway_api_enabled r"
    and ok: "\<And>ords. routable ctx ords r"
  shows "settling n ctx ods cfg r s (passes ctx clks sprintf0 ods n (r, s))"
proof (induction n)
  case 0
  with sy sv show ?case by (simp add: settling_def)
next
  case (Suc n)
  obtain r1 s1 where rs: "passes ctx clks sprintf0 ods n (r, s) = (r1, s1)" by force
  have 1: "synced s1" "same_route r r1" "served ctx r1"
      "stale ctx r (svc_server s1) \<le> stale ctx r (svc_server s) - n"
      "1 \<le> n \<Longrightarrow> gateways_current ctx (cfg_Gateway cfg) r (gw_server s1)"
    using Suc by (simp_all add: settling_def rs)
  obtain r2 s2 where step: "pass ctx (clks n) sprintf0 (ods n) (r1, s1) = (r2, s2)" "synced s2" "same_route r1 r2" "served ctx r2"
    and st: "stale ctx r (svc_server s2) < stale ctx r (svc_server s1)
       \<or> stale ctx r (svc_server s1) = 0 \<and> svc_server s2 = svc_server s1"
    and g: "gateways_current ctx (cfg_Gateway cfg) r (gw_server s2)"
    and d: "gateways_current ctx (cfg_Gateway cfg) r (gw_server s1) \<Longrightarrow> detached ctx (od_Hostnames (ods n)) r s2"
    using pass_step [OF 1(1,3) orders_okD(1) [OF spec [OF ord, of n]] cfg, of "clks n" sprintf0] en ok
    unfolding same_enabled [OF 1(2)] same_routable [OF 1(2)] same_stale [OF 1(2)]
      same_gateways_current [OF 1(2)] same_detached [OF 1(2)]
    by blast
  have "stale ctx r (svc_server s2) \<le> stale ctx r (svc_server s) - Suc n" using st 1(4) by auto
  then show ?case
    using step same_route_trans [OF 1(2) step(3)] g d 1(5) by (simp add: settling_def rs)
qed

text \<open>After as many passes as there are targets, and two at least, the passes have settled: every object
  is as wanted, except that the HTTPRoute names no gateway. Whatever its orders, a further pass writes no
  service and no gateway, and of the HTTPRoutes the route's own at most, to reorder its host names.\<close>

lemma detached_reordered:
  assumes "detached ctx o1 r s1" and "detached ctx o2 r s2" and "\<And>i. order_ok (o1 i)" and "\<And>i. order_ok (o2 i)"
    and same: "detached ctx o2 r s1 \<Longrightarrow> hr_server s2 = hr_server s1"
    and frame: "\<And>k. k \<noteq> obj_key r \<Longrightarrow> hr_server s2 k = hr_server s1 k"
    and hr: "hr_server s1 (obj_key r) = Some hr"
  shows "\<exists>hr'. hr_server s2 = (hr_server s1)(obj_key r \<mapsto> hr') \<and> reordered hr hr'"
proof -
  obtain d1 where d1: "MakeHTTPRoute ctx o1 r [] = Inr d1" "up_to_date DeepEqual_httproute_spec hr d1"
    using assms(1) hr by (auto simp: detached_def)
  obtain hr' d2 where d2: "MakeHTTPRoute ctx o2 r [] = Inr d2" "up_to_date DeepEqual_httproute_spec hr' d2"
    and hr': "hr_server s2 (obj_key r) = Some hr'"
    using assms(2) by (auto simp: detached_def)
  note orders = MakeHTTPRoute_orders [OF d1(1) d2(1) assms(3,4)]
  have names: "hs_Hostnames (obj_spec hr) = hs_Hostnames (obj_spec d1)" "hs_Hostnames (obj_spec hr') = hs_Hostnames (obj_spec d2)"
    and gws: "hs_Gateways (obj_spec hr) = hs_Gateways (obj_spec d1)" "hs_Gateways (obj_spec hr') = hs_Gateways (obj_spec d2)"
    using d1(2) d2(2) by (simp_all add: up_to_date_def DeepEqual_httproute_spec_def)
  have "hs_Gateways (obj_spec d1) = hs_Gateways (obj_spec d2)"
    using makeHTTPRouteSpec_ok(1) MakeHTTPRoute_meta(6) d1(1) d2(1) by metis
  moreover have "hr' = hr" if "hs_Hostnames (obj_spec hr') = hs_Hostnames (obj_spec hr)"
  proof -
    have "d1 = d2" using orders(2) that names by simp
    then have "detached ctx o2 r s1" using d1 d2 hr unfolding detached_def by blast
    from same [OF this] show ?thesis using hr hr' by simp
  qed
  ultimately have "reordered hr hr'" using orders(1) names gws by (simp add: reordered_def)
  moreover have "hr_server s2 = (hr_server s1)(obj_key r \<mapsto> hr')" using hr' frame by (auto simp: fun_eq_iff)
  ultimately show ?thesis by blast
qed

lemma passes_settle:
  assumes sy: "synced s" and sv: "served ctx r" and ord: "\<forall>i. orders_ok (ods i)"
    and cfg: "ctx_config ctx = Inr cfg" and en: "gateway_api_enabled r"
    and ok: "\<And>ords. routable ctx ords r"
    and n: "length (targets ctx r) \<le> n" "2 \<le> n" and rs: "passes ctx clks sprintf0 ods n (r, s) = (r1, s1)"
  shows "list_all (service_current (svc_server s1) ctx r) (targets ctx r)
    \<and> gateways_current ctx (cfg_Gateway cfg) r (gw_server s1) \<and> detached ctx (od_Hostnames (ods (n - 1))) r s1"
    and "orders_ok od \<Longrightarrow> hr_server s1 (obj_key r) = Some hr \<Longrightarrow>
      \<exists>r2 s2 hr2. pass ctx clk sprintf0 od (r1, s1) = (r2, s2) \<and> svc_server s2 = svc_server s1
         \<and> gw_server s2 = gw_server s1 \<and> hr_server s2 = (hr_server s1)(obj_key r \<mapsto> hr2) \<and> reordered hr hr2
         \<and> detached ctx (od_Hostnames od) r s2"
proof -
  have S: "synced s1" "same_route r r1" "served ctx r1" "stale ctx r (svc_server s1) = 0"
      "gateways_current ctx (cfg_Gateway cfg) r (gw_server s1)" "detached ctx (od_Hostnames (ods (n - 1))) r s1"
    using passes_settling [OF sy sv ord cfg en ok, of n clks sprintf0] n stale_le [of ctx r "svc_server s"]
    by (simp_all add: settling_def rs)
  then show "list_all (service_current (svc_server s1) ctx r) (targets ctx r)
    \<and> gateways_current ctx (cfg_Gateway cfg) r (gw_server s1) \<and> detached ctx (od_Hostnames (ods (n - 1))) r s1"
    by (simp add: stale_0)
  assume od: "orders_ok od" and hr: "hr_server s1 (obj_key r) = Some hr"
  obtain r2 s2 where p: "pass ctx clk sprintf0 od (r1, s1) = (r2, s2)" "svc_server s2 = svc_server s1"
      "gw_server s2 = gw_server s1" and d: "detached ctx (od_Hostnames od) r s2"
    and f: "\<And>k. k \<noteq> obj_key r \<Longrightarrow> hr_server s2 k = hr_server s1 k"
    and e: "detached ctx (od_Hostnames od) r s1 \<Longrightarrow> hr_server s2 = hr_server s1"
    using pass_step [OF S(1,3) orders_okD(1) [OF od] cfg, of clk sprintf0] en ok S(4,5)
    unfolding same_enabled [OF S(2)] same_routable [OF S(2)] same_stale [OF S(2)]
      same_gateways_current [OF S(2)] same_detached [OF S(2)] same_routeD(3) [OF S(2)]
    by auto
  from detached_reordered [OF S(6) d orders_okD(2) [OF spec [OF ord]] orders_okD(2) [OF od] e f hr] p d
  show "\<exists>r2 s2 hr2. pass ctx clk sprintf0 od (r1, s1) = (r2, s2) \<and> svc_server s2 = svc_server s1
         \<and> gw_server s2 = gw_server s1 \<and> hr_server s2 = (hr_server s1)(obj_key r \<mapsto> hr2) \<and> reordered hr hr2
         \<and> detached ctx (od_Hostnames od) r s2"
    by blast
qed

end

end
