(* ===== verification/Registry.thy ===== *)
theory Registry
  imports Prelude
begin

text \<open>
  The registration of the Gateway API types with a scheme (\<open>clientset/versioned/scheme/register.go\<close> and its twin
  under \<open>fake\<close>), and of \<open>runtime.Scheme\<close> what it uses: the maps between kinds and Go types. Conversion and
  defaulting functions, which are registered too, are left out. What any sequence of registrations leaves,
  and what those of this repository leave, is in \<open>Scheme\<close>.
\<close>

subsection \<open>Types and kinds\<close>

record gvr =
  gvr_Group :: string
  gvr_Version :: string
  gvr_Resource :: string

record gvk =
  gvk_Group :: string
  gvk_Version :: string
  gvk_Kind :: string

record go_type =
  gt_PkgPath :: string
  gt_Name :: string

record group_version =
  gv_Group :: string
  gv_Version :: string

definition WithKind :: "group_version \<Rightarrow> string \<Rightarrow> gvk" where
  "WithKind gv kind = \<lparr>gvk_Group = gv_Group gv, gvk_Version = gv_Version gv, gvk_Kind = kind\<rparr>"

definition gvk_GroupVersion :: "gvk \<Rightarrow> group_version" where
  "gvk_GroupVersion k = \<lparr>gv_Group = gvk_Group k, gv_Version = gvk_Version k\<rparr>"

definition APIVersionInternal :: string where
  "APIVersionInternal = ''__internal''"

subsection \<open>The scheme\<close>

record scheme =
  sch_gvkToType :: "(gvk, go_type) gomap"
  sch_typeToGVK :: "(go_type, gvk list) gomap"
  sch_unversionedTypes :: "(go_type, gvk) gomap"
  sch_unversionedKinds :: "(string, go_type) gomap"
  sch_observedVersions :: "group_version list"

definition NewScheme :: scheme where
  "NewScheme = \<lparr>sch_gvkToType = [], sch_typeToGVK = [], sch_unversionedTypes = [], sch_unversionedKinds = [],
     sch_observedVersions = []\<rparr>"

type_synonym registration = "(scheme, unit) action"

definition addObservedVersion :: "group_version \<Rightarrow> scheme \<Rightarrow> scheme" where
  "addObservedVersion version s =
     (if gv_Version version = '''' \<or> gv_Version version = APIVersionInternal \<or> version \<in> set (sch_observedVersions s) then s
      else s\<lparr>sch_observedVersions := sch_observedVersions s @ [version]\<rparr>)"

text \<open>The objects handed in are pointers to structs, so only their type matters.\<close>

definition AddKnownTypeWithName :: "gvk \<Rightarrow> go_type \<Rightarrow> registration" where
  "AddKnownTypeWithName k t s0 =
     (let s = addObservedVersion (gvk_GroupVersion k) s0;
          known = (case map_of (sch_typeToGVK s) t of None \<Rightarrow> [] | Some ks \<Rightarrow> ks)
      in if gvk_Version k = '''' then (Inl (Panic ExplicitPanic), s)
         else if \<exists>old \<in> set_option (map_of (sch_gvkToType s) k). old \<noteq> t then (Inl (Panic ExplicitPanic), s)
         else
           let s = s\<lparr>sch_gvkToType := AList.update k t (sch_gvkToType s)\<rparr>
           in (Inr (), if k \<in> set known then s
                       else s\<lparr>sch_typeToGVK := AList.update t (known @ [k]) (sch_typeToGVK s)\<rparr>))"

fun AddKnownTypes_loop :: "group_version \<Rightarrow> go_type list \<Rightarrow> registration" where
  "AddKnownTypes_loop gv [] = ret ()"
| "AddKnownTypes_loop gv (t # ts) = bnd (AddKnownTypeWithName (WithKind gv (gt_Name t)) t) (\<lambda>_. AddKnownTypes_loop gv ts)"

definition AddKnownTypes :: "group_version \<Rightarrow> go_type list \<Rightarrow> registration" where
  "AddKnownTypes gv types s = AddKnownTypes_loop gv types (addObservedVersion gv s)"

fun unversioned_loop :: "group_version \<Rightarrow> go_type list \<Rightarrow> registration" where
  "unversioned_loop gv [] s = (Inr (), s)"
| "unversioned_loop gv (t # ts) s =
     (let k = WithKind gv (gt_Name t);
          s1 = s\<lparr>sch_unversionedTypes := AList.update t k (sch_unversionedTypes s)\<rparr>
      in if \<exists>old \<in> set_option (map_of (sch_unversionedKinds s1) (gvk_Kind k)). t \<noteq> old
         then (Inl (Panic ExplicitPanic), s1)
         else unversioned_loop gv ts (s1\<lparr>sch_unversionedKinds := AList.update (gvk_Kind k) t (sch_unversionedKinds s1)\<rparr>))"

definition AddUnversionedTypes :: "group_version \<Rightarrow> go_type list \<Rightarrow> registration" where
  "AddUnversionedTypes version types s =
     bnd (AddKnownTypes version types) (\<lambda>_. unversioned_loop version types) (addObservedVersion version s)"

text \<open>\<open>ObjectKinds\<close> of a typed object.\<close>

definition ObjectKinds :: "scheme \<Rightarrow> go_type \<Rightarrow> (gvk list \<times> bool) result" where
  "ObjectKinds s t =
     (case map_of (sch_typeToGVK s) t of
        None \<Rightarrow> Inl (Fail (ErrorString (''no kind is registered for the type '' @ gt_PkgPath t @ ''.'' @ gt_Name t)))
      | Some ks \<Rightarrow> Inr (ks, map_of (sch_unversionedTypes s) t \<noteq> None))"

definition Recognizes :: "scheme \<Rightarrow> gvk \<Rightarrow> bool" where
  "Recognizes s k \<longleftrightarrow> map_of (sch_gvkToType s) k \<noteq> None"

text \<open>The type of the object \<open>New\<close> returns.\<close>

definition scheme_New :: "scheme \<Rightarrow> gvk \<Rightarrow> go_type result" where
  "scheme_New s k =
     (case map_of (sch_gvkToType s) k of
        Some t \<Rightarrow> Inr t
      | None \<Rightarrow> (case map_of (sch_unversionedKinds s) (gvk_Kind k) of
                  Some t \<Rightarrow> Inr t
                | None \<Rightarrow> Inl (Fail (ErrorString (''no kind is registered for '' @ gvk_Kind k)))))"

subsection \<open>Registration\<close>

fun AddToScheme :: "registration list \<Rightarrow> registration" where
  "AddToScheme [] = ret ()"
| "AddToScheme (f # sb) = bnd f (\<lambda>_. AddToScheme sb)"

definition Must :: "registration \<Rightarrow> registration" where
  "Must m = bnd (attempt m) (\<lambda>e. case e of Inl _ \<Rightarrow> lift (Inl (Panic ExplicitPanic)) | Inr _ \<Rightarrow> ret ())"

definition metav1 :: "string \<Rightarrow> go_type" where
  "metav1 nm = \<lparr>gt_PkgPath = ''k8s.io/apimachinery/pkg/apis/meta/v1'', gt_Name = nm\<rparr>"

definition optionsTypes :: "go_type list" where
  "optionsTypes = map metav1 [''ListOptions'', ''ExportOptions'', ''GetOptions'', ''DeleteOptions'', ''CreateOptions'',
     ''UpdateOptions'', ''PatchOptions'']"

definition AddToGroupVersion :: "group_version \<Rightarrow> registration" where
  "AddToGroupVersion gv =
     bnd (AddKnownTypeWithName (WithKind gv ''WatchEvent'') (metav1 ''WatchEvent'')) (\<lambda>_.
     bnd (AddKnownTypeWithName (WithKind \<lparr>gv_Group = gv_Group gv, gv_Version = APIVersionInternal\<rparr> ''WatchEvent'')
            (metav1 ''InternalEvent'')) (\<lambda>_.
     bnd (AddKnownTypes gv optionsTypes) (\<lambda>_.
     AddUnversionedTypes \<lparr>gv_Group = '''', gv_Version = ''v1''\<rparr>
       (map metav1 [''Status'', ''APIVersions'', ''APIGroupList'', ''APIGroup'', ''APIResourceList'']))))"

definition v1alpha1 :: "string \<Rightarrow> go_type" where
  "v1alpha1 nm = \<lparr>gt_PkgPath = ''sigs.k8s.io/gateway-api/apis/v1alpha1'', gt_Name = nm\<rparr>"

definition SchemeGroupVersion :: group_version where
  "SchemeGroupVersion = \<lparr>gv_Group = ''networking.x-k8s.io'', gv_Version = ''v1alpha1''\<rparr>"

definition addKnownTypes :: registration where
  "addKnownTypes =
     bnd (AddKnownTypes SchemeGroupVersion (map v1alpha1
            [''BackendPolicy'', ''BackendPolicyList'', ''Gateway'', ''GatewayClass'', ''GatewayClassList'', ''GatewayList'',
             ''HTTPRoute'', ''HTTPRouteList'', ''TCPRoute'', ''TCPRouteList'', ''TLSRoute'', ''TLSRouteList'', ''UDPRoute'', ''UDPRouteList'']))
       (\<lambda>_. AddToGroupVersion SchemeGroupVersion)"

text \<open>\<open>init\<close> of the clientset's scheme, and of the fake clientset's own.\<close>

definition scheme_localSchemeBuilder :: "registration list" where
  "scheme_localSchemeBuilder = [AddToScheme [addKnownTypes]]"

definition scheme_init :: registration where
  "scheme_init =
     bnd (AddToGroupVersion \<lparr>gv_Group = '''', gv_Version = ''v1''\<rparr>) (\<lambda>_. Must (AddToScheme scheme_localSchemeBuilder))"

definition fake_localSchemeBuilder :: "registration list" where
  "fake_localSchemeBuilder = [AddToScheme [addKnownTypes]]"

definition fake_scheme_init :: registration where
  "fake_scheme_init =
     bnd (AddToGroupVersion \<lparr>gv_Group = '''', gv_Version = ''v1''\<rparr>) (\<lambda>_. Must (AddToScheme fake_localSchemeBuilder))"

end
