(* ===== verification/Tracker.thy ===== *)
theory Tracker
  imports GatewayApi Registry
begin

text \<open>
  The object tracker of client-go's fake clients (\<open>testing/fixture.go\<close>, \<open>testing/fake.go\<close>):
  typed objects by resource and namespaced name, the watchers a change is broadcast to, and the
  reaction that turns a recorded action into a call of the tracker. Stored objects are values, so
  the deep copies the code makes are implicit. Applying a patch is a parameter.
\<close>

subsection \<open>Objects of any kind\<close>

datatype runtime_object =
    RGateway gateway
  | RGatewayClass gatewayclass
  | RHTTPRoute httproute
  | RBackendPolicy backendpolicy
  | RL4Route l4_kind l4_route
  | RService service

fun robj_meta :: "runtime_object \<Rightarrow> object_meta" where
  "robj_meta (RGateway x) = obj_meta x"
| "robj_meta (RGatewayClass x) = obj_meta x"
| "robj_meta (RHTTPRoute x) = obj_meta x"
| "robj_meta (RBackendPolicy x) = obj_meta x"
| "robj_meta (RL4Route k x) = obj_meta x"
| "robj_meta (RService x) = obj_meta x"

fun robj_with_meta :: "object_meta \<Rightarrow> runtime_object \<Rightarrow> runtime_object" where
  "robj_with_meta m (RGateway x) = RGateway (x\<lparr>obj_meta := m\<rparr>)"
| "robj_with_meta m (RGatewayClass x) = RGatewayClass (x\<lparr>obj_meta := m\<rparr>)"
| "robj_with_meta m (RHTTPRoute x) = RHTTPRoute (x\<lparr>obj_meta := m\<rparr>)"
| "robj_with_meta m (RBackendPolicy x) = RBackendPolicy (x\<lparr>obj_meta := m\<rparr>)"
| "robj_with_meta m (RL4Route k x) = RL4Route k (x\<lparr>obj_meta := m\<rparr>)"
| "robj_with_meta m (RService x) = RService (x\<lparr>obj_meta := m\<rparr>)"

fun robj_kind :: "runtime_object \<Rightarrow> string" where
  "robj_kind (RGateway x) = ''Gateway''"
| "robj_kind (RGatewayClass x) = ''GatewayClass''"
| "robj_kind (RHTTPRoute x) = ''HTTPRoute''"
| "robj_kind (RBackendPolicy x) = ''BackendPolicy''"
| "robj_kind (RL4Route k x) =
     (case k of TCPKind \<Rightarrow> ''TCPRoute'' | TLSKind \<Rightarrow> ''TLSRoute'' | UDPKind \<Rightarrow> ''UDPRoute'')"
| "robj_kind (RService x) = ''Service''"

text \<open>The Go type of an object, by which a scheme knows it.\<close>

definition robj_type :: "runtime_object \<Rightarrow> go_type" where
  "robj_type x = (case x of
      RService _ \<Rightarrow> \<lparr>gt_PkgPath = ''k8s.io/api/core/v1'', gt_Name = ''Service''\<rparr>
    | _ \<Rightarrow> v1alpha1 (robj_kind x))"

definition robj_key :: "runtime_object \<Rightarrow> object_key" where
  "robj_key x = (om_Namespace (robj_meta x), om_Name (robj_meta x))"

subsection \<open>The tracker\<close>

datatype watch_event = WAdded runtime_object | WModified runtime_object | WDeleted runtime_object

record watcher =
  wa_Resource :: gvr
  wa_Namespace :: string
  wa_Events :: "watch_event list"

record tracker =
  tr_Objects :: "(gvr, (object_key, runtime_object) gomap) gomap"
  tr_Watchers :: "watcher list"

definition empty_tracker :: tracker where
  "empty_tracker = \<lparr>tr_Objects = [], tr_Watchers = []\<rparr>"

text \<open>\<open>getWatches\<close> picks the watchers of the namespace and, for a namespaced request, of all
  namespaces; each receives the event.\<close>

definition broadcast :: "gvr \<Rightarrow> string \<Rightarrow> watch_event \<Rightarrow> watcher list \<Rightarrow> watcher list" where
  "broadcast g ns e ws =
     map (\<lambda>w. if wa_Resource w = g \<and> (wa_Namespace w = ns \<or> ns \<noteq> '''' \<and> wa_Namespace w = '''')
              then w\<lparr>wa_Events := wa_Events w @ [e]\<rparr> else w) ws"

definition tracker_objs :: "tracker \<Rightarrow> gvr \<Rightarrow> (object_key, runtime_object) gomap" where
  "tracker_objs t g = (case map_of (tr_Objects t) g of None \<Rightarrow> [] | Some os \<Rightarrow> os)"

definition tracker_add :: "gvr \<Rightarrow> runtime_object \<Rightarrow> string \<Rightarrow> bool \<Rightarrow> (tracker, unit) action" where
  "tracker_add g obj0 ns replaceExisting t =
     (let m = robj_meta obj0;
          obj = (if om_Namespace m = '''' then robj_with_meta (m\<lparr>om_Namespace := ns\<rparr>) obj0 else obj0);
          newMeta = robj_meta obj
      in if ns \<noteq> om_Namespace newMeta
         then (Inl (Fail (StatusError ReasonBadRequest (gvr_Resource g) (om_Name newMeta))), t)
         else
           let t = (case map_of (tr_Objects t) g of
                      None \<Rightarrow> t\<lparr>tr_Objects := AList.update g [] (tr_Objects t)\<rparr> | Some _ \<Rightarrow> t);
               objs = tracker_objs t g;
               key = (om_Namespace newMeta, om_Name newMeta)
           in case map_of objs key of
                Some _ \<Rightarrow>
                  if replaceExisting
                  then (Inr (), t\<lparr>tr_Objects := AList.update g (AList.update key obj objs) (tr_Objects t),
                                  tr_Watchers := broadcast g ns (WModified obj) (tr_Watchers t)\<rparr>)
                  else (Inl (Fail (NewAlreadyExists (gvr_Resource g) (om_Name newMeta))), t)
              | None \<Rightarrow>
                  if replaceExisting
                  then (Inl (Fail (NewNotFound (gvr_Resource g) (om_Name newMeta))), t)
                  else (Inr (), t\<lparr>tr_Objects := AList.update g (AList.update key obj objs) (tr_Objects t),
                                  tr_Watchers := broadcast g ns (WAdded obj) (tr_Watchers t)\<rparr>))"

definition tracker_Create :: "gvr \<Rightarrow> runtime_object \<Rightarrow> string \<Rightarrow> (tracker, unit) action" where
  "tracker_Create g obj ns = tracker_add g obj ns False"

definition tracker_Update :: "gvr \<Rightarrow> runtime_object \<Rightarrow> string \<Rightarrow> (tracker, unit) action" where
  "tracker_Update g obj ns = tracker_add g obj ns True"

definition tracker_Get :: "gvr \<Rightarrow> string \<Rightarrow> string \<Rightarrow> (tracker, runtime_object) action" where
  "tracker_Get g ns name t =
     (case map_of (tr_Objects t) g of
        None \<Rightarrow> (Inl (Fail (NewNotFound (gvr_Resource g) name)), t)
      | Some objs \<Rightarrow>
          (case map_of objs (ns, name) of
             None \<Rightarrow> (Inl (Fail (NewNotFound (gvr_Resource g) name)), t)
           | Some obj \<Rightarrow> (Inr obj, t)))"

definition tracker_Delete :: "gvr \<Rightarrow> string \<Rightarrow> string \<Rightarrow> (tracker, unit) action" where
  "tracker_Delete g ns name t =
     (case map_of (tr_Objects t) g of
        None \<Rightarrow> (Inl (Fail (NewNotFound (gvr_Resource g) name)), t)
      | Some objs \<Rightarrow>
          (case map_of objs (ns, name) of
             None \<Rightarrow> (Inl (Fail (NewNotFound (gvr_Resource g) name)), t)
           | Some obj \<Rightarrow>
               (Inr (), t\<lparr>tr_Objects := AList.update g (AList.delete (ns, name) objs) (tr_Objects t),
                          tr_Watchers := broadcast g ns (WDeleted obj) (tr_Watchers t)\<rparr>)))"

text \<open>\<open>filterByNamespace\<close> sorts by namespace, then name, so the order of the map does not matter.\<close>

definition filterByNamespace :: "(object_key, runtime_object) gomap \<Rightarrow> string \<Rightarrow> runtime_object list" where
  "filterByNamespace objs ns =
     (let res = filter (\<lambda>obj. \<not> (ns \<noteq> '''' \<and> om_Namespace (robj_meta obj) \<noteq> ns))
                  (map (\<lambda>k. the (map_of objs k)) (go_keys objs))
      in sort_key (\<lambda>obj. om_Namespace (robj_meta obj))
           (sort_key (\<lambda>obj. om_Name (robj_meta obj)) res))"

definition tracker_List :: "gvr \<Rightarrow> gvk \<Rightarrow> string \<Rightarrow> (tracker, runtime_object list) action" where
  "tracker_List g kind ns t =
     (case map_of (tr_Objects t) g of
        None \<Rightarrow> (Inr [], t)
      | Some objs \<Rightarrow>
          (let matching = filterByNamespace objs ns in
           if list_all (\<lambda>obj. robj_kind obj = gvk_Kind kind) matching then (Inr matching, t)
           else (Inl (Fail (ErrorString ''item: can't assign or convert'')), t)))"

definition tracker_Watch :: "gvr \<Rightarrow> string \<Rightarrow> (tracker, nat) action" where
  "tracker_Watch g ns t =
     (Inr (length (tr_Watchers t)),
      t\<lparr>tr_Watchers := tr_Watchers t @ [\<lparr>wa_Resource = g, wa_Namespace = ns, wa_Events = []\<rparr>]\<rparr>)"

subsection \<open>Guessing a resource from a kind\<close>

definition lower_char :: "char \<Rightarrow> char" where
  "lower_char c = (let n = of_char c :: nat in if 65 \<le> n \<and> n \<le> 90 then char_of (n + 32) else c)"

definition UnsafeGuessKindToResource :: "gvk \<Rightarrow> gvr" where
  "UnsafeGuessKindToResource kind =
     (let with_resource = (\<lambda>res. \<lparr>gvr_Group = gvk_Group kind, gvr_Version = gvk_Version kind, gvr_Resource = res\<rparr>);
          singularName = map lower_char (gvk_Kind kind)
      in if gvk_Kind kind = '''' then \<lparr>gvr_Group = '''', gvr_Version = '''', gvr_Resource = ''''\<rparr>
         else if has_suffix singularName ''endpoints'' then with_resource singularName
         else if last singularName = CHR ''s'' then with_resource (singularName @ ''es'')
         else if last singularName = CHR ''y'' then with_resource (trim_suffix singularName ''y'' @ ''ies'')
         else with_resource (singularName @ ''s''))"

text \<open>
  \<open>Add\<close> stores an object under the resource guessed from every kind the scheme has for its type, and fails
  when it has none. The scheme is the one the tracker was made with; only \<open>Add\<close> looks at it. The objects
  here are single typed ones, neither lists nor partial metadata.
\<close>

fun tracker_Add_loop :: "runtime_object \<Rightarrow> gvk list \<Rightarrow> (tracker, unit) action" where
  "tracker_Add_loop obj [] = ret ()"
| "tracker_Add_loop obj (kind # gvks) =
     (let g0 = UnsafeGuessKindToResource kind;
          g = (if gvr_Version g0 = APIVersionInternal then g0\<lparr>gvr_Version := ''''\<rparr> else g0)
      in bnd (tracker_add g obj (om_Namespace (robj_meta obj)) False) (\<lambda>_. tracker_Add_loop obj gvks))"

definition tracker_Add :: "scheme \<Rightarrow> runtime_object \<Rightarrow> (tracker, unit) action" where
  "tracker_Add scheme obj =
     bnd (lift (ObjectKinds scheme (robj_type obj))) (\<lambda>(gvks, _).
       if gvks = [] then lift (Inl (Fail (ErrorString ''no registered kinds for %v'')))
       else tracker_Add_loop obj gvks)"

subsection \<open>Actions and reactions\<close>

datatype fake_action =
    GetAction gvr string string
  | ListAction gvr gvk string
  | CreateAction gvr string string runtime_object
  | UpdateAction gvr string string runtime_object
  | DeleteAction gvr string string
  | DeleteCollectionAction gvr string
  | PatchAction gvr string string string string string
  | WatchAction gvr string

datatype reply = ReplyNil | ReplyObject runtime_object | ReplyList "runtime_object list"

type_synonym patch_fun = "string \<Rightarrow> string \<Rightarrow> runtime_object \<Rightarrow> goerr + runtime_object"

text \<open>The outcome of a reaction: not handled, or handled with a reply or an error.\<close>

type_synonym reaction = "(tracker, reply option) action"

fun ObjectReaction :: "patch_fun \<Rightarrow> fake_action \<Rightarrow> reaction" where
  "ObjectReaction patch (ListAction g kind ns) =
     bnd (tracker_List g kind ns) (\<lambda>xs. ret (Some (ReplyList xs)))"
| "ObjectReaction patch (GetAction g ns name) =
     bnd (tracker_Get g ns name) (\<lambda>x. ret (Some (ReplyObject x)))"
| "ObjectReaction patch (CreateAction g sub ns obj) =
     bnd (if sub = '''' then tracker_Create g obj ns else tracker_Update g obj ns) (\<lambda>_.
     bnd (tracker_Get g ns (om_Name (robj_meta obj))) (\<lambda>x. ret (Some (ReplyObject x))))"
| "ObjectReaction patch (UpdateAction g sub ns obj) =
     bnd (tracker_Update g obj ns) (\<lambda>_.
     bnd (tracker_Get g ns (om_Name (robj_meta obj))) (\<lambda>x. ret (Some (ReplyObject x))))"
| "ObjectReaction patch (DeleteAction g ns name) =
     bnd (tracker_Delete g ns name) (\<lambda>_. ret (Some ReplyNil))"
| "ObjectReaction patch (PatchAction g ns name pt payload sub) =
     bnd (tracker_Get g ns name) (\<lambda>obj.
     case patch pt payload obj of
       Inl err \<Rightarrow> lift (Inl (Fail err))
     | Inr obj' \<Rightarrow> bnd (tracker_Update g obj' ns) (\<lambda>_. ret (Some (ReplyObject obj'))))"
| "ObjectReaction patch (DeleteCollectionAction g ns) = ret None"
| "ObjectReaction patch (WatchAction g ns) = ret None"

record fake =
  fk_Tracker :: tracker
  fk_Actions :: "fake_action list"

text \<open>
  \<open>Invokes\<close> with the one reactor \<open>NewSimpleClientset\<close> registers: an action it does not
  handle yields the default object.
\<close>

definition Invokes :: "patch_fun \<Rightarrow> fake_action \<Rightarrow> reply \<Rightarrow> (fake, reply) action" where
  "Invokes patch a dflt f =
     (let f = f\<lparr>fk_Actions := fk_Actions f @ [a]\<rparr>;
          (res, t) = ObjectReaction patch a (fk_Tracker f)
      in (case res of
            Inl e \<Rightarrow> Inl e
          | Inr None \<Rightarrow> Inr dflt
          | Inr (Some rep) \<Rightarrow> Inr rep,
          f\<lparr>fk_Tracker := t\<rparr>))"

definition InvokesWatch :: "gvr \<Rightarrow> string \<Rightarrow> (fake, nat) action" where
  "InvokesWatch g ns f =
     (let f = f\<lparr>fk_Actions := fk_Actions f @ [WatchAction g ns]\<rparr>;
          (res, t) = tracker_Watch g ns (fk_Tracker f)
      in (res, f\<lparr>fk_Tracker := t\<rparr>))"

fun add_objects :: "scheme \<Rightarrow> runtime_object list \<Rightarrow> (tracker, unit) action" where
  "add_objects scheme [] = ret ()"
| "add_objects scheme (x # xs) =
     bnd (attempt (tracker_Add scheme x)) (\<lambda>res.
       case res of Inl _ \<Rightarrow> lift (Inl (Panic ExplicitPanic)) | Inr _ \<Rightarrow> add_objects scheme xs)"

text \<open>The scheme is the variable of the fake package that its \<open>init\<close> fills.\<close>

definition NewSimpleClientset :: "scheme \<Rightarrow> runtime_object list \<Rightarrow> fake result" where
  "NewSimpleClientset scheme objects =
     (case add_objects scheme objects empty_tracker of
        (Inl e, _) \<Rightarrow> Inl e
      | (Inr _, t) \<Rightarrow> Inr \<lparr>fk_Tracker = t, fk_Actions = []\<rparr>)"

subsection \<open>Lemmas\<close>

text \<open>The objects of a resource as a map.\<close>

definition tview :: "tracker \<Rightarrow> gvr \<Rightarrow> object_key \<Rightarrow> runtime_object option" where
  "tview t g k = map_of (tracker_objs t g) k"

definition fill_ns :: "string \<Rightarrow> runtime_object \<Rightarrow> runtime_object" where
  "fill_ns ns obj = (if om_Namespace (robj_meta obj) = ''''
     then robj_with_meta ((robj_meta obj)\<lparr>om_Namespace := ns\<rparr>) obj else obj)"

lemma robj_meta_with [simp]: "robj_meta (robj_with_meta m x) = m"
  by (cases x) simp_all

lemma robj_meta_fill [simp]:
  "om_Name (robj_meta (fill_ns ns obj)) = om_Name (robj_meta obj)"
  "om_Namespace (robj_meta (fill_ns ns obj)) =
     (if om_Namespace (robj_meta obj) = '''' then ns else om_Namespace (robj_meta obj))"
  by (simp_all add: fill_ns_def)

lemma fill_ns_same [simp]: "om_Namespace (robj_meta obj) = ns \<Longrightarrow> fill_ns ns obj = obj"
  by (cases obj) (auto simp: fill_ns_def)

lemma tview_set:
  "tview (t\<lparr>tr_Objects := AList.update g m os, tr_Watchers := ws\<rparr>) g' k =
     (if g' = g then map_of m k else map_of (case map_of os g' of None \<Rightarrow> [] | Some es \<Rightarrow> es) k)"
  "tview (t\<lparr>tr_Objects := AList.update g m os\<rparr>) g' k =
     (if g' = g then map_of m k else map_of (case map_of os g' of None \<Rightarrow> [] | Some es \<Rightarrow> es) k)"
  by (simp_all add: tview_def tracker_objs_def update_conv')

lemma tview_unfold: "tview t g k = map_of (case map_of (tr_Objects t) g of None \<Rightarrow> [] | Some es \<Rightarrow> es) k"
  by (simp add: tview_def tracker_objs_def)

lemma tview_empty [simp]: "tview empty_tracker g k = None"
  by (simp add: tview_unfold empty_tracker_def)

lemma tracker_add_mismatch:
  "om_Namespace (robj_meta (fill_ns ns obj)) \<noteq> ns \<Longrightarrow> tracker_add g obj ns rep t =
     (Inl (Fail (StatusError ReasonBadRequest (gvr_Resource g) (om_Name (robj_meta obj)))), t)"
  by (auto simp: tracker_add_def Let_def fill_ns_def split: if_splits)

lemma tracker_add_match:
  assumes ns: "om_Namespace (robj_meta (fill_ns ns obj)) = ns"
  defines "k \<equiv> (ns, om_Name (robj_meta obj))"
  shows "\<exists>t'. tracker_add g obj ns rep t =
      ((case tview t g k of
          Some _ \<Rightarrow> if rep then Inr () else Inl (Fail (NewAlreadyExists (gvr_Resource g) (snd k)))
        | None \<Rightarrow> if rep then Inl (Fail (NewNotFound (gvr_Resource g) (snd k))) else Inr ()), t')
    \<and> (\<forall>g' k'. tview t' g' k' =
         (if (tview t g k \<noteq> None) = rep \<and> g' = g \<and> k' = k then Some (fill_ns ns obj) else tview t g' k'))"
proof -
  let ?t = "case map_of (tr_Objects t) g of
      None \<Rightarrow> t\<lparr>tr_Objects := AList.update g [] (tr_Objects t)\<rparr> | Some _ \<Rightarrow> t"
  let ?obj = "fill_ns ns obj"
  have view: "tview ?t g' k' = tview t g' k'" for g' k'
    by (auto simp: tview_unfold update_conv' split: option.splits)
  have objs: "map_of (tracker_objs ?t g) = tview t g"
    using view [of g] by (auto simp: tview_def fun_eq_iff)
  have run: "tracker_add g obj ns rep t =
     (case tview t g k of
        Some _ \<Rightarrow> if rep then (Inr (), ?t\<lparr>tr_Objects := AList.update g (AList.update k ?obj (tracker_objs ?t g)) (tr_Objects ?t),
                                  tr_Watchers := broadcast g ns (WModified ?obj) (tr_Watchers ?t)\<rparr>)
                  else (Inl (Fail (NewAlreadyExists (gvr_Resource g) (snd k))), ?t)
      | None \<Rightarrow> if rep then (Inl (Fail (NewNotFound (gvr_Resource g) (snd k))), ?t)
                  else (Inr (), ?t\<lparr>tr_Objects := AList.update g (AList.update k ?obj (tracker_objs ?t g)) (tr_Objects ?t),
                                  tr_Watchers := broadcast g ns (WAdded ?obj) (tr_Watchers ?t)\<rparr>))"
    unfolding tracker_add_def Let_def k_def fill_ns_def [symmetric] ns robj_meta_fill(1) snd_conv
      objs [symmetric] by simp
  show ?thesis
    using view objs unfolding run tview_unfold [of ?t]
    by (cases "tview t g k"; cases rep)
      (auto simp: tview_set tview_unfold [of ?t, symmetric] update_conv')
qed

lemma tracker_Get_view:
  "tracker_Get g ns name t =
     (case tview t g (ns, name) of
        None \<Rightarrow> Inl (Fail (NewNotFound (gvr_Resource g) name)) | Some x \<Rightarrow> Inr x, t)"
  by (auto simp: tracker_Get_def tview_unfold split: option.splits)

lemma tracker_Delete_view:
  "\<exists>t'. tracker_Delete g ns name t =
      ((case tview t g (ns, name) of
          None \<Rightarrow> Inl (Fail (NewNotFound (gvr_Resource g) name)) | Some x \<Rightarrow> Inr ()), t')
    \<and> (\<forall>g' k'. tview t' g' k' = (if g' = g \<and> k' = (ns, name) then None else tview t g' k'))"
  by (auto simp: tracker_Delete_def tview_unfold update_conv' delete_conv' split: option.splits)

text \<open>A request that names the object's namespace, or an object that leaves it open.\<close>

definition ns_matches :: "string \<Rightarrow> object_meta \<Rightarrow> bool" where
  "ns_matches ns m \<longleftrightarrow> om_Namespace m = ns \<or> om_Namespace m = ''''"

lemma ns_matches_fill: "ns_matches ns (robj_meta obj) \<longleftrightarrow> om_Namespace (robj_meta (fill_ns ns obj)) = ns"
  by (auto simp: ns_matches_def)

text \<open>Writes through the reaction chain: the reply is what the tracker then holds.\<close>

lemma Invokes_create:
  assumes "ns_matches ns (robj_meta obj)"
  shows "\<exists>f'. Invokes patch (CreateAction g '''' ns obj) d f =
      ((case tview (fk_Tracker f) g (ns, om_Name (robj_meta obj)) of
          Some _ \<Rightarrow> Inl (Fail (NewAlreadyExists (gvr_Resource g) (om_Name (robj_meta obj))))
        | None \<Rightarrow> Inr (ReplyObject (fill_ns ns obj))), f')
    \<and> fk_Actions f' = fk_Actions f @ [CreateAction g '''' ns obj]
    \<and> (\<forall>g' k'. tview (fk_Tracker f') g' k' =
         (if tview (fk_Tracker f) g (ns, om_Name (robj_meta obj)) = None \<and> g' = g
             \<and> k' = (ns, om_Name (robj_meta obj))
          then Some (fill_ns ns obj) else tview (fk_Tracker f) g' k'))"
proof -
  let ?k = "(ns, om_Name (robj_meta obj))"
  obtain t' where t': "tracker_add g obj ns False (fk_Tracker f) =
      ((case tview (fk_Tracker f) g ?k of
          Some _ \<Rightarrow> Inl (Fail (NewAlreadyExists (gvr_Resource g) (snd ?k))) | None \<Rightarrow> Inr ()), t')"
    and v: "\<forall>g' k'. tview t' g' k' =
         (if tview (fk_Tracker f) g ?k = None \<and> g' = g \<and> k' = ?k then Some (fill_ns ns obj)
          else tview (fk_Tracker f) g' k')"
    using tracker_add_match [OF iffD1 [OF ns_matches_fill assms], of g False "fk_Tracker f"] by auto
  show ?thesis
    using v by (cases "tview (fk_Tracker f) g ?k")
      (simp_all add: Invokes_def Let_def tracker_Create_def t' bnd_def tracker_Get_view)
qed

lemma Invokes_update:
  assumes "ns_matches ns (robj_meta obj)"
  shows "\<exists>f'. Invokes patch (UpdateAction g sub ns obj) d f =
      ((case tview (fk_Tracker f) g (ns, om_Name (robj_meta obj)) of
          None \<Rightarrow> Inl (Fail (NewNotFound (gvr_Resource g) (om_Name (robj_meta obj))))
        | Some _ \<Rightarrow> Inr (ReplyObject (fill_ns ns obj))), f')
    \<and> fk_Actions f' = fk_Actions f @ [UpdateAction g sub ns obj]
    \<and> (\<forall>g' k'. tview (fk_Tracker f') g' k' =
         (if tview (fk_Tracker f) g (ns, om_Name (robj_meta obj)) \<noteq> None \<and> g' = g
             \<and> k' = (ns, om_Name (robj_meta obj))
          then Some (fill_ns ns obj) else tview (fk_Tracker f) g' k'))"
proof -
  let ?k = "(ns, om_Name (robj_meta obj))"
  obtain t' where t': "tracker_add g obj ns True (fk_Tracker f) =
      ((case tview (fk_Tracker f) g ?k of
          Some _ \<Rightarrow> Inr () | None \<Rightarrow> Inl (Fail (NewNotFound (gvr_Resource g) (snd ?k)))), t')"
    and v: "\<forall>g' k'. tview t' g' k' =
         (if tview (fk_Tracker f) g ?k \<noteq> None \<and> g' = g \<and> k' = ?k then Some (fill_ns ns obj)
          else tview (fk_Tracker f) g' k')"
    using tracker_add_match [OF iffD1 [OF ns_matches_fill assms], of g True "fk_Tracker f"] by auto
  show ?thesis
    using v by (cases "tview (fk_Tracker f) g ?k")
      (simp_all add: Invokes_def Let_def tracker_Update_def t' bnd_def tracker_Get_view)
qed

lemma Invokes_get:
  "Invokes patch (GetAction g ns name) d f =
     (case tview (fk_Tracker f) g (ns, name) of
        None \<Rightarrow> Inl (Fail (NewNotFound (gvr_Resource g) name)) | Some x \<Rightarrow> Inr (ReplyObject x),
      f\<lparr>fk_Actions := fk_Actions f @ [GetAction g ns name]\<rparr>)"
  by (simp add: Invokes_def Let_def bnd_def tracker_Get_view split: option.splits)

lemma Invokes_delete:
  "\<exists>f'. Invokes patch (DeleteAction g ns name) d f =
      ((case tview (fk_Tracker f) g (ns, name) of
          None \<Rightarrow> Inl (Fail (NewNotFound (gvr_Resource g) name)) | Some x \<Rightarrow> Inr ReplyNil), f')
    \<and> fk_Actions f' = fk_Actions f @ [DeleteAction g ns name]
    \<and> (\<forall>g' k'. tview (fk_Tracker f') g' k' =
         (if g' = g \<and> k' = (ns, name) then None else tview (fk_Tracker f) g' k'))"
proof -
  obtain t' where "tracker_Delete g ns name (fk_Tracker f) =
      ((case tview (fk_Tracker f) g (ns, name) of
          None \<Rightarrow> Inl (Fail (NewNotFound (gvr_Resource g) name)) | Some x \<Rightarrow> Inr ()), t')"
    and "\<forall>g' k'. tview t' g' k' = (if g' = g \<and> k' = (ns, name) then None else tview (fk_Tracker f) g' k')"
    using tracker_Delete_view by blast
  then show ?thesis
    by (cases "tview (fk_Tracker f) g (ns, name)") (simp_all add: Invokes_def Let_def bnd_def)
qed

lemma set_filterByNamespace:
  "set (filterByNamespace objs ns) =
     {x. \<exists>k. map_of objs k = Some x \<and> (ns = '''' \<or> om_Namespace (robj_meta x) = ns)}"
  by (force simp: filterByNamespace_def Let_def set_go_keys)

lemma Invokes_list:
  assumes "\<And>k x. tview (fk_Tracker f) g k = Some x \<Longrightarrow> robj_kind x = gvk_Kind kind"
  shows "\<exists>xs. Invokes patch (ListAction g kind ns) d f =
      (Inr (ReplyList xs), f\<lparr>fk_Actions := fk_Actions f @ [ListAction g kind ns]\<rparr>)
    \<and> set xs = {x. \<exists>k. tview (fk_Tracker f) g k = Some x \<and> (ns = '''' \<or> om_Namespace (robj_meta x) = ns)}"
proof (cases "map_of (tr_Objects (fk_Tracker f)) g")
  case None
  then show ?thesis by (simp add: Invokes_def Let_def bnd_def tracker_List_def tview_unfold)
next
  case (Some objs)
  then have view: "tview (fk_Tracker f) g = map_of objs" by (simp add: tview_unfold fun_eq_iff)
  have "list_all (\<lambda>obj. robj_kind obj = gvk_Kind kind) (filterByNamespace objs ns)"
    using assms unfolding list_all_iff set_filterByNamespace view by auto
  then show ?thesis
    using Some by (simp add: Invokes_def Let_def bnd_def tracker_List_def view set_filterByNamespace)
qed

text \<open>The fake ignores a deletion of a collection.\<close>

lemma Invokes_deleteCollection:
  "Invokes patch (DeleteCollectionAction g ns) d f =
     (Inr d, f\<lparr>fk_Actions := fk_Actions f @ [DeleteCollectionAction g ns]\<rparr>)"
  by (simp add: Invokes_def Let_def)

end
