(* ===== verification/FakeClients.thy ===== *)
theory FakeClients
  imports Tracker
begin

text \<open>
  The generated fake clients of the Gateway API group (\<open>typed/apis/v1alpha1/fake\<close>). Every file is
  one instance of the same operations: an action on the resource, passed to \<open>Invokes\<close>, and a type
  assertion on what comes back. A kind is described by its resource, its kind and its embedding into
  the runtime objects; the interface record of a kind is what \<open>FakeNetworkingV1alpha1\<close> hands out.
  The label selector of list options is taken parsed; field selectors are ignored, as in the fakes.
\<close>

subsection \<open>One fake client\<close>

record 'o kind_info =
  ki_Resource :: gvr
  ki_Kind :: gvk
  ki_Inj :: "'o \<Rightarrow> runtime_object"
  ki_Prj :: "runtime_object \<Rightarrow> 'o option"
  ki_Zero :: 'o

text \<open>A nil reply is returned as a nil pointer; any other reply must have the asserted type.\<close>

definition assert_type :: "'o kind_info \<Rightarrow> reply \<Rightarrow> 'o option result" where
  "assert_type ki rep =
     (case rep of
        ReplyNil \<Rightarrow> Inr None
      | ReplyList _ \<Rightarrow> Inl (Panic TypeAssertion)
      | ReplyObject x \<Rightarrow> (case ki_Prj ki x of None \<Rightarrow> Inl (Panic TypeAssertion) | Some o' \<Rightarrow> Inr (Some o')))"

definition fake_Get :: "patch_fun \<Rightarrow> 'o kind_info \<Rightarrow> string \<Rightarrow> string \<Rightarrow> (fake, 'o option) action" where
  "fake_Get patch ki ns name =
     bnd (Invokes patch (GetAction (ki_Resource ki) ns name) (ReplyObject (ki_Inj ki (ki_Zero ki))))
       (\<lambda>rep. lift (assert_type ki rep))"

definition fake_List ::
  "patch_fun \<Rightarrow> 'o kind_info \<Rightarrow> string \<Rightarrow> selector \<Rightarrow> (fake, 'o list option) action" where
  "fake_List patch ki ns label =
     bnd (Invokes patch (ListAction (ki_Resource ki) (ki_Kind ki) ns) (ReplyList [])) (\<lambda>rep.
       case rep of
         ReplyNil \<Rightarrow> ret None
       | ReplyObject _ \<Rightarrow> lift (Inl (Panic TypeAssertion))
       | ReplyList items \<Rightarrow>
           bnd (lift (rmapM (\<lambda>x. case ki_Prj ki x of None \<Rightarrow> Inl (Panic TypeAssertion) | Some o' \<Rightarrow> Inr (x, o'))
                        items)) (\<lambda>typed.
           ret (Some (map snd (filter (\<lambda>(x, o'). selector_matches label (om_Labels (robj_meta x))) typed)))))"

definition fake_Watch :: "'o kind_info \<Rightarrow> string \<Rightarrow> (fake, nat) action" where
  "fake_Watch ki ns = InvokesWatch (ki_Resource ki) ns"

definition fake_Create :: "patch_fun \<Rightarrow> 'o kind_info \<Rightarrow> string \<Rightarrow> 'o \<Rightarrow> (fake, 'o option) action" where
  "fake_Create patch ki ns obj =
     bnd (Invokes patch (CreateAction (ki_Resource ki) '''' ns (ki_Inj ki obj))
            (ReplyObject (ki_Inj ki (ki_Zero ki))))
       (\<lambda>rep. lift (assert_type ki rep))"

definition fake_Update :: "patch_fun \<Rightarrow> 'o kind_info \<Rightarrow> string \<Rightarrow> 'o \<Rightarrow> (fake, 'o option) action" where
  "fake_Update patch ki ns obj =
     bnd (Invokes patch (UpdateAction (ki_Resource ki) '''' ns (ki_Inj ki obj))
            (ReplyObject (ki_Inj ki (ki_Zero ki))))
       (\<lambda>rep. lift (assert_type ki rep))"

definition fake_UpdateStatus :: "patch_fun \<Rightarrow> 'o kind_info \<Rightarrow> string \<Rightarrow> 'o \<Rightarrow> (fake, 'o option) action" where
  "fake_UpdateStatus patch ki ns obj =
     bnd (Invokes patch (UpdateAction (ki_Resource ki) ''status'' ns (ki_Inj ki obj))
            (ReplyObject (ki_Inj ki (ki_Zero ki))))
       (\<lambda>rep. lift (assert_type ki rep))"

definition fake_Delete :: "patch_fun \<Rightarrow> 'o kind_info \<Rightarrow> string \<Rightarrow> string \<Rightarrow> (fake, unit) action" where
  "fake_Delete patch ki ns name =
     bnd (Invokes patch (DeleteAction (ki_Resource ki) ns name) (ReplyObject (ki_Inj ki (ki_Zero ki))))
       (\<lambda>_. ret ())"

definition fake_DeleteCollection :: "patch_fun \<Rightarrow> 'o kind_info \<Rightarrow> string \<Rightarrow> (fake, unit) action" where
  "fake_DeleteCollection patch ki ns =
     bnd (Invokes patch (DeleteCollectionAction (ki_Resource ki) ns) (ReplyList [])) (\<lambda>_. ret ())"

definition fake_Patch ::
  "patch_fun \<Rightarrow> 'o kind_info \<Rightarrow> string \<Rightarrow> string \<Rightarrow> string \<Rightarrow> string \<Rightarrow> string list
     \<Rightarrow> (fake, 'o option) action" where
  "fake_Patch patch ki ns name pt payload subresources =
     bnd (Invokes patch (PatchAction (ki_Resource ki) ns name pt payload (join_with ''/'' subresources))
            (ReplyObject (ki_Inj ki (ki_Zero ki))))
       (\<lambda>rep. lift (assert_type ki rep))"

subsection \<open>The interface of a kind\<close>

record 'o fake_iface =
  fi_Get :: "string \<Rightarrow> (fake, 'o option) action"
  fi_List :: "selector \<Rightarrow> (fake, 'o list option) action"
  fi_Watch :: "(fake, nat) action"
  fi_Create :: "'o \<Rightarrow> (fake, 'o option) action"
  fi_Update :: "'o \<Rightarrow> (fake, 'o option) action"
  fi_UpdateStatus :: "'o \<Rightarrow> (fake, 'o option) action"
  fi_Delete :: "string \<Rightarrow> (fake, unit) action"
  fi_DeleteCollection :: "(fake, unit) action"
  fi_Patch :: "string \<Rightarrow> string \<Rightarrow> string \<Rightarrow> string list \<Rightarrow> (fake, 'o option) action"

definition fake_client :: "patch_fun \<Rightarrow> 'o kind_info \<Rightarrow> string \<Rightarrow> 'o fake_iface" where
  "fake_client patch ki ns =
     \<lparr>fi_Get = fake_Get patch ki ns, fi_List = fake_List patch ki ns, fi_Watch = fake_Watch ki ns,
      fi_Create = fake_Create patch ki ns, fi_Update = fake_Update patch ki ns,
      fi_UpdateStatus = fake_UpdateStatus patch ki ns, fi_Delete = fake_Delete patch ki ns,
      fi_DeleteCollection = fake_DeleteCollection patch ki ns, fi_Patch = fake_Patch patch ki ns\<rparr>"

subsection \<open>The kinds\<close>

definition apis_gvr :: "string \<Rightarrow> gvr" where
  "apis_gvr res = \<lparr>gvr_Group = ''networking.x-k8s.io'', gvr_Version = ''v1alpha1'', gvr_Resource = res\<rparr>"

definition apis_gvk :: "string \<Rightarrow> gvk" where
  "apis_gvk kind = \<lparr>gvk_Group = ''networking.x-k8s.io'', gvk_Version = ''v1alpha1'', gvk_Kind = kind\<rparr>"

definition zero_obj :: "'a \<Rightarrow> 'b \<Rightarrow> ('a, 'b) kobject" where
  "zero_obj sp st = \<lparr>obj_meta = zero_meta, obj_spec = sp, obj_status = st\<rparr>"

definition gateways_info :: "gateway kind_info" where
  "gateways_info =
     \<lparr>ki_Resource = apis_gvr ''gateways'', ki_Kind = apis_gvk ''Gateway'', ki_Inj = RGateway,
      ki_Prj = (\<lambda>x. case x of RGateway g \<Rightarrow> Some g | _ \<Rightarrow> None),
      ki_Zero = zero_obj \<lparr>gs_GatewayClassName = '''', gs_Listeners = [], gs_Addresses = []\<rparr>
                         \<lparr>gst_Addresses = [], gst_Conditions = [], gst_Listeners = []\<rparr>\<rparr>"

definition gatewayclasses_info :: "gatewayclass kind_info" where
  "gatewayclasses_info =
     \<lparr>ki_Resource = apis_gvr ''gatewayclasses'', ki_Kind = apis_gvk ''GatewayClass'', ki_Inj = RGatewayClass,
      ki_Prj = (\<lambda>x. case x of RGatewayClass g \<Rightarrow> Some g | _ \<Rightarrow> None),
      ki_Zero = zero_obj \<lparr>gcs_Controller = '''', gcs_ParametersRef = None\<rparr> \<lparr>gcst_Conditions = []\<rparr>\<rparr>"

definition httproutes_info :: "httproute kind_info" where
  "httproutes_info =
     \<lparr>ki_Resource = apis_gvr ''httproutes'', ki_Kind = apis_gvk ''HTTPRoute'', ki_Inj = RHTTPRoute,
      ki_Prj = (\<lambda>x. case x of RHTTPRoute g \<Rightarrow> Some g | _ \<Rightarrow> None),
      ki_Zero = zero_obj \<lparr>hs_Gateways = \<lparr>rg_Allow = '''', rg_GatewayRefs = []\<rparr>, hs_Hostnames = [],
                          hs_TLS = None, hs_Rules = []\<rparr> \<lparr>hst_Gateways = None\<rparr>\<rparr>"

definition backendpolicies_info :: "backendpolicy kind_info" where
  "backendpolicies_info =
     \<lparr>ki_Resource = apis_gvr ''backendpolicies'', ki_Kind = apis_gvk ''BackendPolicy'', ki_Inj = RBackendPolicy,
      ki_Prj = (\<lambda>x. case x of RBackendPolicy g \<Rightarrow> Some g | _ \<Rightarrow> None),
      ki_Zero = zero_obj \<lparr>bp_BackendRefs = [], bp_TLS = None\<rparr> \<lparr>bpst_Conditions = []\<rparr>\<rparr>"

definition l4_info :: "l4_kind \<Rightarrow> string \<Rightarrow> string \<Rightarrow> l4_route kind_info" where
  "l4_info k res kind =
     \<lparr>ki_Resource = apis_gvr res, ki_Kind = apis_gvk kind, ki_Inj = RL4Route k,
      ki_Prj = (\<lambda>x. case x of RL4Route k' g \<Rightarrow> if k' = k then Some g else None | _ \<Rightarrow> None),
      ki_Zero = zero_obj \<lparr>l4s_Rules = [], l4s_Gateways = \<lparr>rg_Allow = '''', rg_GatewayRefs = []\<rparr>\<rparr>
                         \<lparr>l4st_Gateways = None\<rparr>\<rparr>"

definition tcproutes_info :: "l4_route kind_info" where
  "tcproutes_info = l4_info TCPKind ''tcproutes'' ''TCPRoute''"

definition tlsroutes_info :: "l4_route kind_info" where
  "tlsroutes_info = l4_info TLSKind ''tlsroutes'' ''TLSRoute''"

definition udproutes_info :: "l4_route kind_info" where
  "udproutes_info = l4_info UDPKind ''udproutes'' ''UDPRoute''"

definition FakeGateways :: "patch_fun \<Rightarrow> string \<Rightarrow> gateway fake_iface" where
  "FakeGateways patch ns = fake_client patch gateways_info ns"

definition FakeGatewayClasses :: "patch_fun \<Rightarrow> gatewayclass fake_iface" where
  "FakeGatewayClasses patch = fake_client patch gatewayclasses_info ''''"

definition FakeHTTPRoutes :: "patch_fun \<Rightarrow> string \<Rightarrow> httproute fake_iface" where
  "FakeHTTPRoutes patch ns = fake_client patch httproutes_info ns"

definition FakeBackendPolicies :: "patch_fun \<Rightarrow> string \<Rightarrow> backendpolicy fake_iface" where
  "FakeBackendPolicies patch ns = fake_client patch backendpolicies_info ns"

definition FakeTCPRoutes :: "patch_fun \<Rightarrow> string \<Rightarrow> l4_route fake_iface" where
  "FakeTCPRoutes patch ns = fake_client patch tcproutes_info ns"

definition FakeTLSRoutes :: "patch_fun \<Rightarrow> string \<Rightarrow> l4_route fake_iface" where
  "FakeTLSRoutes patch ns = fake_client patch tlsroutes_info ns"

definition FakeUDPRoutes :: "patch_fun \<Rightarrow> string \<Rightarrow> l4_route fake_iface" where
  "FakeUDPRoutes patch ns = fake_client patch udproutes_info ns"

record fake_group =
  fg_BackendPolicies :: "string \<Rightarrow> backendpolicy fake_iface"
  fg_Gateways :: "string \<Rightarrow> gateway fake_iface"
  fg_GatewayClasses :: "gatewayclass fake_iface"
  fg_HTTPRoutes :: "string \<Rightarrow> httproute fake_iface"
  fg_TCPRoutes :: "string \<Rightarrow> l4_route fake_iface"
  fg_TLSRoutes :: "string \<Rightarrow> l4_route fake_iface"
  fg_UDPRoutes :: "string \<Rightarrow> l4_route fake_iface"

definition FakeNetworkingV1alpha1 :: "patch_fun \<Rightarrow> fake_group" where
  "FakeNetworkingV1alpha1 patch =
     \<lparr>fg_BackendPolicies = FakeBackendPolicies patch, fg_Gateways = FakeGateways patch,
      fg_GatewayClasses = FakeGatewayClasses patch, fg_HTTPRoutes = FakeHTTPRoutes patch,
      fg_TCPRoutes = FakeTCPRoutes patch, fg_TLSRoutes = FakeTLSRoutes patch,
      fg_UDPRoutes = FakeUDPRoutes patch\<rparr>"

text \<open>The kubernetes fake clientset serves services the same way.\<close>

definition services_info :: "service kind_info" where
  "services_info =
     \<lparr>ki_Resource = \<lparr>gvr_Group = '''', gvr_Version = ''v1'', gvr_Resource = ''services''\<rparr>,
      ki_Kind = \<lparr>gvk_Group = '''', gvk_Version = ''v1'', gvk_Kind = ''Service''\<rparr>, ki_Inj = RService,
      ki_Prj = (\<lambda>x. case x of RService g \<Rightarrow> Some g | _ \<Rightarrow> None),
      ki_Zero = zero_obj \<lparr>ss_Ports = [], ss_Selector = None, ss_ClusterIP = '''', ss_ClusterIPs = [],
        ss_Type = '''', ss_ExternalIPs = [], ss_SessionAffinity = '''', ss_LoadBalancerIP = '''',
        ss_LoadBalancerSourceRanges = [], ss_ExternalName = '''', ss_ExternalTrafficPolicy = '''',
        ss_HealthCheckNodePort = 0, ss_PublishNotReadyAddresses = False, ss_SessionAffinityTimeout = None,
        ss_TopologyKeys = [], ss_IPFamilies = [], ss_IPFamilyPolicy = None,
        ss_AllocateLoadBalancerNodePorts = None\<rparr> \<lparr>svs_Ingress = []\<rparr>\<rparr>"

subsection \<open>Laws of a kind\<close>

locale kind_laws =
  fixes ki :: "('a, 'b) kobject kind_info"
  assumes prj_inj: "ki_Prj ki (ki_Inj ki x) = Some x"
    and prj_only: "ki_Prj ki y = Some x \<Longrightarrow> y = ki_Inj ki x"
    and inj_meta: "robj_meta (ki_Inj ki x) = obj_meta x"
    and inj_with: "robj_with_meta m (ki_Inj ki x) = ki_Inj ki (x\<lparr>obj_meta := m\<rparr>)"
    and inj_kind: "robj_kind (ki_Inj ki x) = gvk_Kind (ki_Kind ki)"
begin

text \<open>The resource holds only objects of the kind, each under its own key.\<close>

definition typed :: "fake \<Rightarrow> bool" where
  "typed f \<longleftrightarrow> (\<forall>k y. tview (fk_Tracker f) (ki_Resource ki) k = Some y
     \<longrightarrow> (\<exists>x. y = ki_Inj ki x \<and> obj_key x = k))"

definition view :: "fake \<Rightarrow> object_key \<Rightarrow> ('a, 'b) kobject option" where
  "view f k = Option.bind (tview (fk_Tracker f) (ki_Resource ki) k) (ki_Prj ki)"

lemma typedD: "typed f \<Longrightarrow> tview (fk_Tracker f) (ki_Resource ki) k = Some y
    \<Longrightarrow> \<exists>x. y = ki_Inj ki x \<and> obj_key x = k"
  unfolding typed_def by blast

lemma typed_view: "typed f \<Longrightarrow> tview (fk_Tracker f) (ki_Resource ki) k = map_option (ki_Inj ki) (view f k)"
proof (cases "tview (fk_Tracker f) (ki_Resource ki) k")
  case (Some y)
  assume "typed f"
  then obtain x where "y = ki_Inj ki x" using typedD [OF _ Some] by blast
  with Some show ?thesis by (simp add: view_def prj_inj)
qed (simp add: view_def)

lemma view_key: "typed f \<Longrightarrow> view f k = Some x \<Longrightarrow> obj_key x = k"
proof -
  assume "typed f" and "view f k = Some x"
  then obtain y where y: "tview (fk_Tracker f) (ki_Resource ki) k = Some y" "ki_Prj ki y = Some x"
    by (auto simp: view_def bind_eq_Some_conv)
  obtain x' where "y = ki_Inj ki x'" "obj_key x' = k" using typedD [OF \<open>typed f\<close> y(1)] by blast
  with y(2) show ?thesis by (simp add: prj_inj)
qed

text \<open>A namespaced object as the tracker stores it.\<close>

definition stored :: "string \<Rightarrow> ('a, 'b) kobject \<Rightarrow> ('a, 'b) kobject" where
  "stored ns x = (if om_Namespace (obj_meta x) = '''' then x\<lparr>obj_meta := (obj_meta x)\<lparr>om_Namespace := ns\<rparr>\<rparr> else x)"

lemma fill_inj: "fill_ns ns (ki_Inj ki x) = ki_Inj ki (stored ns x)"
  by (simp add: fill_ns_def stored_def inj_meta inj_with)

lemma stored_key: "ns_matches ns (obj_meta x) \<Longrightarrow> obj_key (stored ns x) = (ns, om_Name (obj_meta x))"
  by (auto simp: stored_def obj_key_def ns_matches_def)

lemma create_spec:
  assumes wf: "typed f" and ns: "ns_matches ns (obj_meta x)"
  shows "\<exists>f'. fake_Create patch ki ns x f =
      ((case view f (ns, om_Name (obj_meta x)) of
          Some _ \<Rightarrow> Inl (Fail (NewAlreadyExists (gvr_Resource (ki_Resource ki)) (om_Name (obj_meta x))))
        | None \<Rightarrow> Inr (Some (stored ns x))), f')
    \<and> typed f'
    \<and> view f' = (if view f (ns, om_Name (obj_meta x)) = None
         then (view f)((ns, om_Name (obj_meta x)) \<mapsto> stored ns x) else view f)
    \<and> (\<forall>g k. g \<noteq> ki_Resource ki \<longrightarrow> tview (fk_Tracker f') g k = tview (fk_Tracker f) g k)"
proof -
  let ?k = "(ns, om_Name (obj_meta x))"
  have ns': "ns_matches ns (robj_meta (ki_Inj ki x))" using ns by (simp add: inj_meta)
  note I = Invokes_create [OF ns', of patch "ki_Resource ki" "ReplyObject (ki_Inj ki (ki_Zero ki))" f,
      unfolded inj_meta fill_inj typed_view [OF wf]]
  show ?thesis
  proof (cases "view f ?k")
    case None
    with I obtain f' where I': "Invokes patch (CreateAction (ki_Resource ki) '''' ns (ki_Inj ki x))
          (ReplyObject (ki_Inj ki (ki_Zero ki))) f = (Inr (ReplyObject (ki_Inj ki (stored ns x))), f')"
      and v: "\<And>g' k'. tview (fk_Tracker f') g' k' = (if g' = ki_Resource ki \<and> k' = ?k
         then Some (ki_Inj ki (stored ns x)) else tview (fk_Tracker f) g' k')"
      by auto
    have "typed f'" using wf stored_key [OF ns] by (auto simp: typed_def v)
    moreover have "view f' = (view f)(?k \<mapsto> stored ns x)"
      by (auto simp: view_def v prj_inj fun_eq_iff)
    ultimately show ?thesis
      using None v by (auto simp: fake_Create_def I' bnd_def assert_type_def prj_inj)
  next
    case (Some y)
    with I obtain f' where I': "Invokes patch (CreateAction (ki_Resource ki) '''' ns (ki_Inj ki x))
          (ReplyObject (ki_Inj ki (ki_Zero ki))) f
        = (Inl (Fail (NewAlreadyExists (gvr_Resource (ki_Resource ki)) (om_Name (obj_meta x)))), f')"
      and v: "\<And>g' k'. tview (fk_Tracker f') g' k' = tview (fk_Tracker f) g' k'"
      by auto
    have "typed f'" using wf by (simp add: typed_def v)
    moreover have "view f' = view f" by (simp add: view_def v fun_eq_iff)
    ultimately show ?thesis
      using Some v by (auto simp: fake_Create_def I' bnd_def)
  qed
qed

lemma update_spec:
  assumes wf: "typed f" and ns: "ns_matches ns (obj_meta x)"
  shows "\<exists>f'. fake_Update patch ki ns x f =
      ((case view f (ns, om_Name (obj_meta x)) of
          None \<Rightarrow> Inl (Fail (NewNotFound (gvr_Resource (ki_Resource ki)) (om_Name (obj_meta x))))
        | Some _ \<Rightarrow> Inr (Some (stored ns x))), f')
    \<and> typed f'
    \<and> view f' = (if view f (ns, om_Name (obj_meta x)) = None then view f
         else (view f)((ns, om_Name (obj_meta x)) \<mapsto> stored ns x))
    \<and> (\<forall>g k. g \<noteq> ki_Resource ki \<longrightarrow> tview (fk_Tracker f') g k = tview (fk_Tracker f) g k)"
proof -
  let ?k = "(ns, om_Name (obj_meta x))"
  have ns': "ns_matches ns (robj_meta (ki_Inj ki x))" using ns by (simp add: inj_meta)
  note I = Invokes_update [OF ns', of patch "ki_Resource ki" "''''" "ReplyObject (ki_Inj ki (ki_Zero ki))" f,
      unfolded inj_meta fill_inj typed_view [OF wf]]
  show ?thesis
  proof (cases "view f ?k")
    case (Some y)
    with I obtain f' where I': "Invokes patch (UpdateAction (ki_Resource ki) '''' ns (ki_Inj ki x))
          (ReplyObject (ki_Inj ki (ki_Zero ki))) f = (Inr (ReplyObject (ki_Inj ki (stored ns x))), f')"
      and v: "\<And>g' k'. tview (fk_Tracker f') g' k' = (if g' = ki_Resource ki \<and> k' = ?k
         then Some (ki_Inj ki (stored ns x)) else tview (fk_Tracker f) g' k')"
      by auto
    have "typed f'" using wf stored_key [OF ns] by (auto simp: typed_def v)
    moreover have "view f' = (view f)(?k \<mapsto> stored ns x)"
      by (auto simp: view_def v prj_inj fun_eq_iff)
    ultimately show ?thesis
      using Some v by (auto simp: fake_Update_def I' bnd_def assert_type_def prj_inj)
  next
    case None
    with I obtain f' where I': "Invokes patch (UpdateAction (ki_Resource ki) '''' ns (ki_Inj ki x))
          (ReplyObject (ki_Inj ki (ki_Zero ki))) f
        = (Inl (Fail (NewNotFound (gvr_Resource (ki_Resource ki)) (om_Name (obj_meta x)))), f')"
      and v: "\<And>g' k'. tview (fk_Tracker f') g' k' = tview (fk_Tracker f) g' k'"
      by auto
    have "typed f'" using wf by (simp add: typed_def v)
    moreover have "view f' = view f" by (simp add: view_def v fun_eq_iff)
    ultimately show ?thesis
      using None v by (auto simp: fake_Update_def I' bnd_def)
  qed
qed

lemma get_spec:
  assumes "typed f"
  shows "fake_Get patch ki ns name f =
     (case view f (ns, name) of
        None \<Rightarrow> Inl (Fail (NewNotFound (gvr_Resource (ki_Resource ki)) name)) | Some x \<Rightarrow> Inr (Some x),
      f\<lparr>fk_Actions := fk_Actions f @ [GetAction (ki_Resource ki) ns name]\<rparr>)"
  by (simp add: fake_Get_def bnd_def Invokes_get typed_view [OF assms] assert_type_def prj_inj
      split: option.splits)

lemma delete_spec:
  assumes wf: "typed f"
  shows "\<exists>f'. fake_Delete patch ki ns name f =
      ((case view f (ns, name) of
          None \<Rightarrow> Inl (Fail (NewNotFound (gvr_Resource (ki_Resource ki)) name)) | Some _ \<Rightarrow> Inr ()), f')
    \<and> typed f' \<and> view f' = (view f)((ns, name) := None)
    \<and> (\<forall>g k. g \<noteq> ki_Resource ki \<longrightarrow> tview (fk_Tracker f') g k = tview (fk_Tracker f) g k)"
proof -
  obtain f' where I: "Invokes patch (DeleteAction (ki_Resource ki) ns name) (ReplyObject (ki_Inj ki (ki_Zero ki))) f =
      ((case view f (ns, name) of
          None \<Rightarrow> Inl (Fail (NewNotFound (gvr_Resource (ki_Resource ki)) name)) | Some x \<Rightarrow> Inr ReplyNil), f')"
    and v: "\<And>g' k'. tview (fk_Tracker f') g' k' =
         (if g' = ki_Resource ki \<and> k' = (ns, name) then None else tview (fk_Tracker f) g' k')"
    using Invokes_delete [of patch "ki_Resource ki" ns name "ReplyObject (ki_Inj ki (ki_Zero ki))" f]
    by (auto simp: typed_view [OF wf] split: option.splits)
  have "typed f'" using wf by (simp add: typed_def v)
  moreover have "view f' = (view f)((ns, name) := None)" by (auto simp: view_def v fun_eq_iff)
  ultimately show ?thesis
    using v by (cases "view f (ns, name)") (auto simp: fake_Delete_def I bnd_def)
qed

lemma list_spec:
  assumes wf: "typed f"
  shows "\<exists>xs. fake_List patch ki ns sel f =
      (Inr (Some xs), f\<lparr>fk_Actions := fk_Actions f @ [ListAction (ki_Resource ki) (ki_Kind ki) ns]\<rparr>)
    \<and> set xs = {x. \<exists>k. view f k = Some x \<and> (ns = '''' \<or> fst k = ns)
         \<and> selector_matches sel (om_Labels (obj_meta x))}"
proof -
  have inj: "\<exists>x. y = ki_Inj ki x \<and> obj_key x = k" if "tview (fk_Tracker f) (ki_Resource ki) k = Some y" for k y
    by (rule typedD [OF wf that])
  obtain ys where I: "Invokes patch (ListAction (ki_Resource ki) (ki_Kind ki) ns) (ReplyList []) f =
      (Inr (ReplyList ys), f\<lparr>fk_Actions := fk_Actions f @ [ListAction (ki_Resource ki) (ki_Kind ki) ns]\<rparr>)"
    and ys: "set ys = {y. \<exists>k. tview (fk_Tracker f) (ki_Resource ki) k = Some y
        \<and> (ns = '''' \<or> om_Namespace (robj_meta y) = ns)}"
    using Invokes_list [of f "ki_Resource ki" "ki_Kind ki" patch ns "ReplyList []"] inj inj_kind by blast
  let ?g = "\<lambda>y. (y, the (ki_Prj ki y))"
  have "rmapM (\<lambda>x. case ki_Prj ki x of None \<Rightarrow> Inl (Panic TypeAssertion) | Some o' \<Rightarrow> Inr (x, o')) ys
      = Inr (map ?g ys)"
    using ys inj by (intro rmapM_Inr) (fastforce simp: prj_inj)
  then have run: "fake_List patch ki ns sel f =
      (Inr (Some (map snd (filter (\<lambda>(x, o'). selector_matches sel (om_Labels (robj_meta x))) (map ?g ys)))),
       f\<lparr>fk_Actions := fk_Actions f @ [ListAction (ki_Resource ki) (ki_Kind ki) ns]\<rparr>)"
    by (simp add: fake_List_def bnd_def I)
  have "set (map snd (filter (\<lambda>(x, o'). selector_matches sel (om_Labels (robj_meta x))) (map ?g ys)))
      = {x. \<exists>k. view f k = Some x \<and> (ns = '''' \<or> fst k = ns) \<and> selector_matches sel (om_Labels (obj_meta x))}"
    (is "?L = ?R")
  proof
    show "?L \<subseteq> ?R"
    proof
      fix x assume "x \<in> ?L"
      then obtain y k where y: "tview (fk_Tracker f) (ki_Resource ki) k = Some y"
        "ns = '''' \<or> om_Namespace (robj_meta y) = ns" "x = the (ki_Prj ki y)"
        "selector_matches sel (om_Labels (robj_meta y))"
        by (auto simp: ys)
      obtain x' where x': "y = ki_Inj ki x'" "obj_key x' = k" using inj [OF y(1)] by blast
      have "view f k = Some x" "fst k = om_Namespace (obj_meta x)"
        using y(1,3) x' by (auto simp: prj_inj view_def obj_key_def)
      then show "x \<in> ?R" using y(2-4) x' by (auto simp: prj_inj inj_meta simp del: split_paired_Ex)
    qed
    show "?R \<subseteq> ?L"
    proof
      fix x assume "x \<in> ?R"
      then obtain k where k: "view f k = Some x" "ns = '''' \<or> fst k = ns"
        "selector_matches sel (om_Labels (obj_meta x))" by auto
      have y: "tview (fk_Tracker f) (ki_Resource ki) k = Some (ki_Inj ki x)"
        using typed_view [OF wf, of k] k(1) by simp
      moreover have "om_Namespace (obj_meta x) = fst k" using view_key [OF wf k(1)] by (auto simp: obj_key_def)
      ultimately have "ki_Inj ki x \<in> set ys" using k(2) by (auto simp: ys inj_meta simp del: split_paired_Ex)
      then show "x \<in> ?L" using k(3) by (force simp: prj_inj inj_meta)
    qed
  qed
  with run show ?thesis by blast
qed

lemma deleteCollection_spec:
  "fake_DeleteCollection patch ki ns f =
     (Inr (), f\<lparr>fk_Actions := fk_Actions f @ [DeleteCollectionAction (ki_Resource ki) ns]\<rparr>)"
  by (simp add: fake_DeleteCollection_def bnd_def Invokes_deleteCollection)

end

interpretation gateways: kind_laws gateways_info
  by unfold_locales (auto simp: gateways_info_def apis_gvk_def split: runtime_object.splits)

interpretation gatewayclasses: kind_laws gatewayclasses_info
  by unfold_locales (auto simp: gatewayclasses_info_def apis_gvk_def split: runtime_object.splits)

interpretation httproutes: kind_laws httproutes_info
  by unfold_locales (auto simp: httproutes_info_def apis_gvk_def split: runtime_object.splits)

interpretation backendpolicies: kind_laws backendpolicies_info
  by unfold_locales (auto simp: backendpolicies_info_def apis_gvk_def split: runtime_object.splits)

interpretation tcproutes: kind_laws tcproutes_info
  by unfold_locales (auto simp: tcproutes_info_def l4_info_def apis_gvk_def split: runtime_object.splits if_splits)

interpretation tlsroutes: kind_laws tlsroutes_info
  by unfold_locales (auto simp: tlsroutes_info_def l4_info_def apis_gvk_def split: runtime_object.splits if_splits)

interpretation udproutes: kind_laws udproutes_info
  by unfold_locales (auto simp: udproutes_info_def l4_info_def apis_gvk_def split: runtime_object.splits if_splits)

interpretation services: kind_laws services_info
  by unfold_locales (auto simp: services_info_def split: runtime_object.splits)

end
