(* ===== verification/Rest.thy ===== *)
theory Rest
  imports FakeClients
begin

text \<open>
  The request builder the generated clients call (\<open>k8s.io/client-go/rest\<close>): paths, requests whose
  first error sticks, the loop that sends a request and retries it, and the result of a response.
  The transport, the rate limiter, and the codecs of the scheme are arguments.
\<close>

subsection \<open>Paths\<close>

text \<open>\<open>path.Clean\<close> and \<open>path.Join\<close>. A rooted path never climbs above its root.\<close>

fun clean_segs :: "bool \<Rightarrow> string list \<Rightarrow> string list \<Rightarrow> string list" where
  "clean_segs rooted out [] = rev out"
| "clean_segs rooted out (p # ps) =
     (if p = '''' \<or> p = ''.'' then clean_segs rooted out ps
      else if p = ''..'' then
        (case out of
           [] \<Rightarrow> clean_segs rooted (if rooted then [] else [p]) ps
         | q # qs \<Rightarrow> clean_segs rooted (if q = ''..'' then p # out else qs) ps)
      else clean_segs rooted (p # out) ps)"

definition path_Clean :: "string \<Rightarrow> string" where
  "path_Clean p =
     (case p of
        [] \<Rightarrow> ''.''
      | c # _ \<Rightarrow>
          if c = CHR ''/'' then ''/'' @ join_with ''/'' (clean_segs True [] (split_on CHR ''/'' p))
          else (case clean_segs False [] (split_on CHR ''/'' p) of
                  [] \<Rightarrow> ''.'' | segs \<Rightarrow> join_with ''/'' segs))"

definition path_Join :: "string list \<Rightarrow> string" where
  "path_Join elem =
     (case dropWhile (\<lambda>e. e = '''') elem of [] \<Rightarrow> '''' | es \<Rightarrow> path_Clean (join_with ''/'' es))"

text \<open>A plain segment is one name; the paths of requests are rooted lists of plain segments.\<close>

definition plain_seg :: "string \<Rightarrow> bool" where
  "plain_seg s \<longleftrightarrow> s \<noteq> '''' \<and> s \<noteq> ''.'' \<and> s \<noteq> ''..'' \<and> CHR ''/'' \<notin> set s"

definition rooted_path :: "string list \<Rightarrow> string" where
  "rooted_path segs = ''/'' @ join_with ''/'' segs"

lemma split_join:
  "ps \<noteq> [] \<Longrightarrow> \<forall>p \<in> set ps. c \<notin> set p \<Longrightarrow> split_on c (join_with [c] ps) = ps"
proof (induction ps rule: induct_list012)
  case (2 p)
  then show ?case by (simp add: split_on_no_sep)
next
  case (3 p q ps)
  then show ?case by (simp add: split_on_app)
qed simp

lemma rooted_path_inj:
  assumes "list_all plain_seg a" and "list_all plain_seg b" and "rooted_path a = rooted_path b"
  shows "a = b"
proof -
  have J: "join_with ''/'' a = join_with ''/'' b" using assms(3) by (simp add: rooted_path_def)
  have e: "xs = []" if "join_with ''/'' xs = ''''" "list_all plain_seg xs" for xs
    using that by (cases xs; cases "tl xs") (auto simp: plain_seg_def)
  show ?thesis
  proof (cases "a = [] \<or> b = []")
    case True
    with J e [of a] e [of b] assms(1,2) show ?thesis by auto
  next
    case False
    have "\<forall>p \<in> set a. CHR ''/'' \<notin> set p" "\<forall>p \<in> set b. CHR ''/'' \<notin> set p"
      using assms(1,2) by (auto simp: list_all_iff plain_seg_def)
    with False J split_join [of a "CHR ''/''"] split_join [of b "CHR ''/''"] show ?thesis by metis
  qed
qed

lemma clean_plain: "list_all plain_seg ps \<Longrightarrow> clean_segs r out ps = rev out @ ps"
  by (induction ps arbitrary: out) (simp_all add: plain_seg_def)

lemma clean_drop_empty: "clean_segs r out (filter (\<lambda>p. p \<noteq> '''') ps) = clean_segs r out ps"
proof (induction ps arbitrary: out)
  case (Cons p ps)
  then show ?case by (cases out; cases r) simp_all
qed simp

lemma clean_rooted_plain:
  "list_all plain_seg out \<Longrightarrow> \<forall>p \<in> set ps. CHR ''/'' \<notin> set p \<Longrightarrow> list_all plain_seg (clean_segs True out ps)"
proof (induction True out ps rule: clean_segs.induct)
  case (2 out p ps)
  then show ?case by (cases out) (auto simp: plain_seg_def)
qed (simp add: list_all_iff)

text \<open>Whatever is joined below the root is a rooted list of plain segments.\<close>

lemma path_Join_root: "\<exists>segs. list_all plain_seg segs \<and> path_Join (''/'' # es) = rooted_path segs"
proof -
  obtain rest where j: "join_with ''/'' (''/'' # es) = CHR ''/'' # rest" by (cases es) auto
  have "list_all plain_seg (clean_segs True [] (split_on CHR ''/'' (CHR ''/'' # rest)))"
    by (rule clean_rooted_plain) (simp_all add: split_on_parts)
  then show ?thesis
    unfolding path_Join_def rooted_path_def path_Clean_def using j
    by (intro exI [of _ "clean_segs True [] (split_on CHR ''/'' (CHR ''/'' # rest))"]) simp
qed

text \<open>Joining plain segments to a rooted path appends them; empty elements vanish.\<close>

lemma join_Cons: "xs \<noteq> [] \<Longrightarrow> join_with s (x # xs) = x @ s @ join_with s xs"
  by (cases xs) simp_all

lemma join_app: "join_with s (xs @ ys) = (if xs = [] then join_with s ys else if ys = [] then join_with s xs
    else join_with s xs @ s @ join_with s ys)"
proof (induction xs rule: induct_list012)
  case (2 p)
  then show ?case by (cases ys) simp_all
qed simp_all

lemma path_Clean_rooted:
  "path_Clean (CHR ''/'' # rest) = rooted_path (clean_segs True [] (split_on CHR ''/'' (CHR ''/'' # rest)))"
  by (simp add: path_Clean_def rooted_path_def)

lemma path_Join_rooted:
  assumes "list_all plain_seg segs" and es: "\<forall>e \<in> set es. e = '''' \<or> plain_seg e"
  shows "path_Join (rooted_path segs # es) = rooted_path (segs @ filter (\<lambda>e. e \<noteq> '''') es)"
proof -
  define all where "all = '''' # (if segs = [] then [''''] else segs) @ es"
  have J: "join_with ''/'' (rooted_path segs # es) = join_with ''/'' all"
  proof (cases "es = []")
    case True
    then show ?thesis by (cases "segs = []") (simp_all add: all_def rooted_path_def join_Cons)
  next
    case False
    then have "join_with ''/'' (rooted_path segs # es) = rooted_path segs @ ''/'' @ join_with ''/'' es" by (rule join_Cons)
    moreover have "join_with ''/'' all = ''/'' @ join_with ''/'' ((if segs = [] then [''''] else segs) @ es)"
      by (simp add: all_def join_Cons)
    ultimately show ?thesis
      using False join_app [of "''/''" segs es] by (cases "segs = []") (simp_all add: rooted_path_def join_Cons)
  qed
  have "CHR ''/'' \<notin> set p" if "p \<in> set all" for p
  proof -
    have "p = '''' \<or> p \<in> set segs \<or> p \<in> set es" using that unfolding all_def by (cases "segs = []") simp_all
    then have "p = '''' \<or> plain_seg p" using assms unfolding list_all_iff by blast
    then show ?thesis unfolding plain_seg_def by (elim disjE) simp_all
  qed
  moreover have "all \<noteq> []" by (simp add: all_def)
  ultimately have S: "split_on CHR ''/'' (join_with ''/'' all) = all" by (intro split_join) simp_all
  have "filter (\<lambda>p. p \<noteq> '''') segs = segs"
    using assms(1) by (simp add: list_all_iff plain_seg_def filter_id_conv)
  then have f: "filter (\<lambda>p. p \<noteq> '''') all = segs @ filter (\<lambda>e. e \<noteq> '''') es" by (simp add: all_def)
  have "list_all plain_seg (segs @ filter (\<lambda>e. e \<noteq> '''') es)"
    using assms by (simp add: Ball_def list_all_iff) blast
  then have C: "clean_segs True [] all = segs @ filter (\<lambda>e. e \<noteq> '''') es"
    unfolding clean_drop_empty [of True "[]" all, symmetric] f by (simp only: clean_plain rev.simps append_Nil)
  obtain rest where R: "join_with ''/'' all = CHR ''/'' # rest" by (simp add: all_def join_Cons)
  have "path_Join (rooted_path segs # es) = path_Clean (join_with ''/'' (rooted_path segs # es))"
    by (simp add: path_Join_def rooted_path_def)
  also have "\<dots> = rooted_path (clean_segs True [] (split_on CHR ''/'' (join_with ''/'' all)))"
    unfolding J R by (rule path_Clean_rooted)
  finally show ?thesis unfolding S C .
qed

text \<open>An element with slashes counts as its segments.\<close>

lemma join_split_concat: "join_with [c] (concat (map (split_on c) es)) = join_with [c] es"
proof (induction es)
  case (Cons e es)
  then show ?case by (cases "es = []") (simp_all add: join_app join_Cons)
qed simp

lemma path_Join_rooted_split:
  "path_Join (rooted_path segs # es) = path_Join (rooted_path segs # concat (map (split_on CHR ''/'') es))"
proof -
  have "join_with ''/'' (rooted_path segs # es) = join_with ''/'' (rooted_path segs # concat (map (split_on CHR ''/'') es))"
    using join_split_concat [of "CHR ''/''" es] by (cases "es = []") (simp_all add: join_Cons)
  then show ?thesis by (simp add: path_Join_def rooted_path_def)
qed

lemma path_Clean_relative:
  "c \<noteq> CHR ''/'' \<Longrightarrow> clean_segs False [] (split_on CHR ''/'' (c # rest)) \<noteq> []
     \<Longrightarrow> path_Clean (c # rest) = join_with ''/'' (clean_segs False [] (split_on CHR ''/'' (c # rest)))"
  unfolding path_Clean_def list.case if_not_P by (simp only: split: list.split) simp

text \<open>Joining plain or empty segments alone leaves out the empty ones.\<close>

lemma path_Join_plain:
  assumes es: "\<forall>e \<in> set es. e = '''' \<or> plain_seg e"
  shows "path_Join es = join_with ''/'' (filter (\<lambda>e. e \<noteq> '''') es)"
proof (cases "dropWhile (\<lambda>e. e = '''') es")
  case Nil
  then have "filter (\<lambda>e. e \<noteq> '''') es = []" by (simp add: filter_empty_conv)
  then show ?thesis unfolding path_Join_def Nil by simp
next
  case (Cons x xs)
  have x: "plain_seg x"
    using es Cons hd_dropWhile [of "\<lambda>e. e = ''''" es] set_dropWhileD [of x "\<lambda>e. e = ''''" es] by fastforce
  have all: "e = '''' \<or> plain_seg e" if "e \<in> set (x # xs)" for e
    using es set_dropWhileD [of e "\<lambda>e. e = ''''" es] that Cons by metis
  have f: "filter (\<lambda>e. e \<noteq> '''') es = filter (\<lambda>e. e \<noteq> '''') (x # xs)"
    unfolding Cons [symmetric] by (induction es) simp_all
  have ns: "\<forall>p \<in> set (x # xs). CHR ''/'' \<notin> set p" using all unfolding plain_seg_def by fastforce
  have S: "split_on CHR ''/'' (join_with ''/'' (x # xs)) = x # xs" by (rule split_join [OF _ ns]) simp
  have "list_all plain_seg (filter (\<lambda>e. e \<noteq> '''') (x # xs))" using all by (simp add: list_all_iff) blast
  then have C: "clean_segs False [] (x # xs) = filter (\<lambda>e. e \<noteq> '''') (x # xs)"
    unfolding clean_drop_empty [of False "[]" "x # xs", symmetric] by (simp only: clean_plain rev.simps append_Nil)
  obtain c cs where x': "x = c # cs" "c \<noteq> CHR ''/''" using x by (cases x) (auto simp: plain_seg_def)
  obtain rest where J: "join_with ''/'' (x # xs) = c # rest" using x'(1) by (cases xs) simp_all
  have ne: "filter (\<lambda>e. e \<noteq> '''') (x # xs) = x # filter (\<lambda>e. e \<noteq> '''') xs" using x' by simp
  have "path_Join es = path_Clean (join_with ''/'' (x # xs))" by (simp add: path_Join_def Cons)
  also have "\<dots> = join_with ''/'' (clean_segs False [] (split_on CHR ''/'' (join_with ''/'' (x # xs))))"
    unfolding J
  proof (rule path_Clean_relative [OF x'(2)])
    show "clean_segs False [] (split_on CHR ''/'' (c # rest)) \<noteq> []" unfolding J [symmetric] S C ne by (rule list.distinct)
  qed
  finally show ?thesis by (simp only: S C f)
qed

subsection \<open>Durations\<close>

text \<open>A \<open>time.Duration\<close> is a signed 64 bit number of nanoseconds; its product with \<open>time.Second\<close> wraps.\<close>

type_synonym duration = "64 word"

definition Second :: duration where
  "Second = 1000000000"

function dec_digits :: "nat \<Rightarrow> string" where
  "dec_digits n = (if n < 10 then [] else dec_digits (n div 10)) @ [char_of (48 + n mod 10)]"
  by pat_completeness auto
termination by (relation "measure id") auto

declare dec_digits.simps [simp del]

fun fmtFrac :: "nat \<Rightarrow> nat \<Rightarrow> bool \<Rightarrow> string \<Rightarrow> string \<times> nat" where
  "fmtFrac v 0 pr out = (if pr then ''.'' @ out else out, v)"
| "fmtFrac v (Suc prec) pr out =
     (let pr' = pr \<or> v mod 10 \<noteq> 0
      in fmtFrac (v div 10) prec pr' (if pr' then char_of (48 + v mod 10) # out else out))"

definition Duration_String :: "duration \<Rightarrow> string" where
  "Duration_String d =
     (let neg = sint d < 0;
          u = unat (if neg then - d else d);
          text =
            (if u = 0 then ''0s''
             else if u < 1000 then (let (f, v) = fmtFrac u 0 False '''' in dec_digits v @ f @ ''ns'')
             else if u < 1000000 then (let (f, v) = fmtFrac u 3 False '''' in dec_digits v @ f @ [CHR 0xC2, CHR 0xB5] @ ''s'')
             else if u < 1000000000 then (let (f, v) = fmtFrac u 6 False '''' in dec_digits v @ f @ ''ms'')
             else
               (let (f, secs) = fmtFrac u 9 False ''''; mins = secs div 60; hours = mins div 60;
                    s = dec_digits (secs mod 60) @ f @ ''s''
                in if mins = 0 then s
                   else if hours = 0 then dec_digits (mins mod 60) @ ''m'' @ s
                   else dec_digits hours @ ''h'' @ dec_digits (mins mod 60) @ ''m'' @ s))
      in if neg then ''-'' @ text else text)"

text \<open>\<open>strconv.Atoi\<close>: an optional sign, digits, in the range of 64 bits.\<close>

definition digit_value :: "char \<Rightarrow> nat option" where
  "digit_value c = (let n = of_char c :: nat in if 48 \<le> n \<and> n \<le> 57 then Some (n - 48) else None)"

fun digits_value :: "nat \<Rightarrow> string \<Rightarrow> nat option" where
  "digits_value acc [] = Some acc"
| "digits_value acc (c # cs) =
     (case digit_value c of None \<Rightarrow> None | Some d \<Rightarrow> digits_value (10 * acc + d) cs)"

definition Atoi :: "string \<Rightarrow> int option" where
  "Atoi s =
     (let (neg, ds) = (case s of
            [] \<Rightarrow> (False, [])
          | c # cs \<Rightarrow> if c = CHR ''-'' then (True, cs) else if c = CHR ''+'' then (False, cs) else (False, s))
      in if ds = [] then None
         else case digits_value 0 ds of
                None \<Rightarrow> None
              | Some n \<Rightarrow> (let v = (if neg then - int n else int n)
                         in if - (2 ^ 63) \<le> v \<and> v < 2 ^ 63 then Some v else None))"

subsection \<open>Options of the calls\<close>

record get_options =
  go_ResourceVersion :: string

record list_options =
  lo_LabelSelector :: string
  lo_FieldSelector :: string
  lo_Watch :: bool
  lo_AllowWatchBookmarks :: bool
  lo_ResourceVersion :: string
  lo_ResourceVersionMatch :: string
  lo_TimeoutSeconds :: "64 word option"
  lo_Limit :: "64 word"
  lo_Continue :: string

record create_options =
  cr_DryRun :: "string list"
  cr_FieldManager :: string

record update_options =
  up_DryRun :: "string list"
  up_FieldManager :: string

record patch_options =
  pa_DryRun :: "string list"
  pa_Force :: "bool option"
  pa_FieldManager :: string

record delete_options =
  de_GracePeriodSeconds :: "64 word option"
  de_PreconditionUID :: "string option"
  de_PreconditionResourceVersion :: "string option"
  de_OrphanDependents :: "bool option"
  de_PropagationPolicy :: "string option"
  de_DryRun :: "string list"

datatype api_options = GetOptions get_options | ListOptions list_options | CreateOptions create_options
  | UpdateOptions update_options | PatchOptions patch_options

definition no_list_options :: list_options where
  "no_list_options = \<lparr>lo_LabelSelector = '''', lo_FieldSelector = '''', lo_Watch = False, lo_AllowWatchBookmarks = False,
     lo_ResourceVersion = '''', lo_ResourceVersionMatch = '''', lo_TimeoutSeconds = None, lo_Limit = 0, lo_Continue = ''''\<rparr>"

subsection \<open>Errors and responses\<close>

text \<open>The errors of a request, by where they arise; \<open>Unexpected\<close> is a status made up from the response
  code because the server sent none.\<close>

datatype rest_err =
    InvalidSegment string string "string list"
  | AlreadySet string string string
  | EmptyResourceName
  | EmptyNamespaceForCreation
  | EmptyNamespaceWithName
  | RequestError goerr
  | Unexpected goerr
  | ServerStatus goerr
  | NoSerializer string
  | ZeroLength int string
  | NotStarted int

record http_request =
  hq_Method :: string
  hq_Path :: string
  hq_Query :: "(string, string list) gomap"
  hq_Headers :: "(string, string list) gomap"
  hq_Body :: "string option"
  hq_Deadline :: "duration option"

datatype response_body = BodyRead string | BodyBroken goerr

record http_response =
  hp_StatusCode :: int
  hp_RetryAfter :: string
  hp_ContentType :: string
  hp_Body :: response_body

text \<open>An error of the transport, with what \<open>net.IsConnectionReset\<close>, \<open>net.IsProbableEOF\<close> and \<open>net.IsTimeout\<close> say of it.\<close>

record transport_error =
  te_Err :: goerr
  te_Reset :: bool
  te_EOF :: bool
  te_Timeout :: bool

text \<open>What the content type of a response is negotiated to.\<close>

datatype negotiated = BadMediaType goerr | NoDecoder goerr | Decoder string

text \<open>
  A REST client: its paths and content types, the timeout of its HTTP client when it has one, the
  limiter and the transport, and the parts of the scheme's codecs that do not depend on a kind.
\<close>

record 's rest_client =
  cl_BasePath :: string
  cl_APIPath :: string
  cl_AcceptContentTypes :: string
  cl_ContentType :: string
  cl_Timeout :: "duration option"
  cl_Throttle :: "'s \<Rightarrow> goerr option \<times> 's"
  cl_NewRequest :: "http_request \<Rightarrow> goerr option"
  cl_Do :: "http_request \<Rightarrow> 's \<Rightarrow> (transport_error + http_response) \<times> 's"
  cl_EncodeParams :: "api_options \<Rightarrow> goerr + (string \<times> string list) list"
  cl_Encoder :: "goerr option"
  cl_EncodeDelete :: "delete_options \<Rightarrow> goerr + string"
  cl_Negotiate :: "string \<Rightarrow> negotiated"
  cl_StreamDecoder :: "string \<Rightarrow> goerr option"
  cl_DecodeStatus :: "string \<Rightarrow> string \<Rightarrow> (string \<times> goerr) option"

subsection \<open>Building a request\<close>

record request =
  rq_verb :: string
  rq_pathPrefix :: string
  rq_params :: "(string, string list) gomap"
  rq_headers :: "(string, string list) gomap"
  rq_timeout :: duration
  rq_maxRetries :: nat
  rq_namespace :: string
  rq_namespaceSet :: bool
  rq_resource :: string
  rq_resourceName :: string
  rq_subresource :: string
  rq_err :: "rest_err option"
  rq_body :: "string option"

definition contains_char :: "char \<Rightarrow> string \<Rightarrow> bool" where
  "contains_char c s \<longleftrightarrow> c \<in> set s"

definition IsValidPathSegmentName :: "string \<Rightarrow> string list" where
  "IsValidPathSegmentName name =
     (if name = ''.'' then [''may not be .''] else if name = ''..'' then [''may not be ..'']
      else (if contains_char CHR ''/'' name then [''may not contain /''] else [])
        @ (if contains_char CHR ''%'' name then [''may not contain %''] else []))"

definition SetHeader :: "string \<Rightarrow> string list \<Rightarrow> request \<Rightarrow> request" where
  "SetHeader key values r = r\<lparr>rq_headers := AList.update key values (AList.delete key (rq_headers r))\<rparr>"

definition NewRequest :: "'s rest_client \<Rightarrow> request" where
  "NewRequest c =
     (let r = \<lparr>rq_verb = '''', rq_pathPrefix = path_Join [''/'', cl_BasePath c, cl_APIPath c],
           rq_params = [], rq_headers = [],
           rq_timeout = (case cl_Timeout c of None \<Rightarrow> 0 | Some t \<Rightarrow> t), rq_maxRetries = 10,
           rq_namespace = '''', rq_namespaceSet = False, rq_resource = '''', rq_resourceName = '''', rq_subresource = '''',
           rq_err = None, rq_body = None\<rparr>
      in if cl_AcceptContentTypes c \<noteq> '''' then SetHeader ''Accept'' [cl_AcceptContentTypes c] r
         else if cl_ContentType c \<noteq> '''' then SetHeader ''Accept'' [cl_ContentType c @ '', */*''] r
         else r)"

definition Verb :: "'s rest_client \<Rightarrow> string \<Rightarrow> request" where
  "Verb c verb = (NewRequest c)\<lparr>rq_verb := verb\<rparr>"

definition Patch_verb :: "'s rest_client \<Rightarrow> string \<Rightarrow> request" where
  "Patch_verb c pt = SetHeader ''Content-Type'' [pt] (Verb c ''PATCH'')"

text \<open>The builder's steps leave a request alone once it has an error.\<close>

definition unless_err :: "(request \<Rightarrow> request) \<Rightarrow> request \<Rightarrow> request" where
  "unless_err f r = (if rq_err r \<noteq> None then r else f r)"

definition fail_with :: "rest_err \<Rightarrow> request \<Rightarrow> request" where
  "fail_with e r = r\<lparr>rq_err := Some e\<rparr>"

definition Namespace :: "string \<Rightarrow> request \<Rightarrow> request" where
  "Namespace ns = unless_err (\<lambda>r.
     if rq_namespaceSet r then fail_with (AlreadySet ''namespace'' (rq_namespace r) ns) r
     else if IsValidPathSegmentName ns \<noteq> [] then fail_with (InvalidSegment ''namespace'' ns (IsValidPathSegmentName ns)) r
     else r\<lparr>rq_namespaceSet := True, rq_namespace := ns\<rparr>)"

definition Resource :: "string \<Rightarrow> request \<Rightarrow> request" where
  "Resource res = unless_err (\<lambda>r.
     if rq_resource r \<noteq> '''' then fail_with (AlreadySet ''resource'' (rq_resource r) res) r
     else if IsValidPathSegmentName res \<noteq> [] then fail_with (InvalidSegment ''resource'' res (IsValidPathSegmentName res)) r
     else r\<lparr>rq_resource := res\<rparr>)"

definition Name :: "string \<Rightarrow> request \<Rightarrow> request" where
  "Name n = unless_err (\<lambda>r.
     if n = '''' then fail_with EmptyResourceName r
     else if rq_resourceName r \<noteq> '''' then fail_with (AlreadySet ''resource name'' (rq_resourceName r) n) r
     else if IsValidPathSegmentName n \<noteq> [] then fail_with (InvalidSegment ''resource name'' n (IsValidPathSegmentName n)) r
     else r\<lparr>rq_resourceName := n\<rparr>)"

definition SubResource :: "string list \<Rightarrow> request \<Rightarrow> request" where
  "SubResource subs = unless_err (\<lambda>r.
     if rq_subresource r \<noteq> '''' then fail_with (AlreadySet ''subresource'' (rq_resource r) (path_Join subs)) r
     else case List.find (\<lambda>s. IsValidPathSegmentName s \<noteq> []) subs of
            Some s \<Rightarrow> fail_with (InvalidSegment ''subresource'' s (IsValidPathSegmentName s)) r
          | None \<Rightarrow> r\<lparr>rq_subresource := path_Join subs\<rparr>)"

definition add_params :: "(string \<times> string list) list \<Rightarrow> (string, string list) gomap \<Rightarrow> (string, string list) gomap" where
  "add_params ps m = fold (\<lambda>(k, v) m. AList.update k ((case map_of m k of None \<Rightarrow> [] | Some old \<Rightarrow> old) @ v) m) ps m"

definition VersionedParams :: "'s rest_client \<Rightarrow> api_options \<Rightarrow> request \<Rightarrow> request" where
  "VersionedParams c opts = unless_err (\<lambda>r.
     case cl_EncodeParams c opts of
       Inl e \<Rightarrow> fail_with (RequestError e) r
     | Inr params \<Rightarrow> r\<lparr>rq_params := add_params params (rq_params r)\<rparr>)"

definition Timeout :: "duration \<Rightarrow> request \<Rightarrow> request" where
  "Timeout d = unless_err (\<lambda>r. r\<lparr>rq_timeout := d\<rparr>)"

text \<open>Two of the bodies the clients pass: bytes, sent as they are, and objects, which \<open>encode\<close> writes.\<close>

definition Body_bytes :: "string \<Rightarrow> request \<Rightarrow> request" where
  "Body_bytes data = unless_err (\<lambda>r. r\<lparr>rq_body := Some data\<rparr>)"

definition Body_object :: "'s rest_client \<Rightarrow> (goerr + string) \<Rightarrow> request \<Rightarrow> request" where
  "Body_object c encoded = unless_err (\<lambda>r.
     case cl_Encoder c of
       Some e \<Rightarrow> fail_with (RequestError e) r
     | None \<Rightarrow>
         (case encoded of
            Inl e \<Rightarrow> fail_with (RequestError e) r
          | Inr data \<Rightarrow> SetHeader ''Content-Type'' [cl_ContentType c] (r\<lparr>rq_body := Some data\<rparr>)))"

definition url_path :: "request \<Rightarrow> string" where
  "url_path r =
     (let p = rq_pathPrefix r;
          p = (if rq_namespaceSet r \<and> rq_namespace r \<noteq> '''' then path_Join [p, ''namespaces'', rq_namespace r] else p);
          p = (if rq_resource r \<noteq> '''' then path_Join [p, map lower_char (rq_resource r)] else p)
      in if rq_resourceName r \<noteq> '''' \<or> rq_subresource r \<noteq> ''''
         then path_Join [p, rq_resourceName r, rq_subresource r, ''''] else p)"

definition url_query :: "request \<Rightarrow> (string, string list) gomap" where
  "url_query r =
     (if rq_timeout r \<noteq> 0 then AList.update ''timeout'' [Duration_String (rq_timeout r)] (rq_params r) else rq_params r)"

definition http_request :: "duration option \<Rightarrow> request \<Rightarrow> http_request" where
  "http_request deadline r = \<lparr>hq_Method = rq_verb r, hq_Path = url_path r, hq_Query = url_query r,
     hq_Headers = rq_headers r, hq_Body = rq_body r, hq_Deadline = deadline\<rparr>"

subsection \<open>Sending a request\<close>

definition requestPreflightCheck :: "request \<Rightarrow> rest_err option" where
  "requestPreflightCheck r =
     (if \<not> rq_namespaceSet r then None
      else if rq_namespace r \<noteq> '''' then None
      else if rq_verb r = ''POST'' then Some EmptyNamespaceForCreation
      else if rq_verb r \<in> {''GET'', ''PUT'', ''DELETE''} \<and> rq_resourceName r \<noteq> '''' then Some EmptyNamespaceWithName
      else None)"

definition checkWait :: "http_response \<Rightarrow> bool" where
  "checkWait resp \<longleftrightarrow> (hp_StatusCode resp = 429 \<or> 500 \<le> hp_StatusCode resp) \<and> Atoi (hp_RetryAfter resp) \<noteq> None"

text \<open>A reset connection is taken for a server that asks a \<open>GET\<close> to be sent again.\<close>

definition received :: "string \<Rightarrow> transport_error + http_response \<Rightarrow> rest_err + http_response" where
  "received verb out =
     (case out of
        Inr resp \<Rightarrow> Inr resp
      | Inl te \<Rightarrow>
          if verb \<noteq> ''GET'' then Inl (RequestError (te_Err te))
          else if te_Reset te \<or> te_EOF te
          then Inr \<lparr>hp_StatusCode = 500, hp_RetryAfter = ''1'', hp_ContentType = '''', hp_Body = BodyRead ''''\<rparr>
          else Inl (RequestError (te_Err te)))"

function request_loop ::
  "'s rest_client \<Rightarrow> http_request \<Rightarrow> nat \<Rightarrow> nat \<Rightarrow> 's \<Rightarrow> (rest_err + http_response) \<times> 's" where
  "request_loop c q maxRetries retries s =
     (case cl_NewRequest c q of
        Some e \<Rightarrow> (Inl (RequestError e), s)
      | None \<Rightarrow>
          (case if 0 < retries then cl_Throttle c s else (None, s) of
             (Some e, s) \<Rightarrow> (Inl (RequestError e), s)
           | (None, s) \<Rightarrow>
               (case cl_Do c q s of
                  (out, s) \<Rightarrow>
                    (case received (hq_Method q) out of
                       Inl e \<Rightarrow> (Inl e, s)
                     | Inr resp \<Rightarrow>
                         if checkWait resp \<and> retries + 1 \<le> maxRetries
                         then request_loop c q maxRetries (retries + 1) s
                         else (Inr resp, s)))))"
  by pat_completeness auto
termination by (relation "measure (\<lambda>(c, q, m, n, s). m - n)") auto

declare request_loop.simps [simp del]

definition request_send :: "'s rest_client \<Rightarrow> request \<Rightarrow> 's \<Rightarrow> (rest_err + http_response) \<times> 's" where
  "request_send c r s =
     (case rq_err r of
        Some e \<Rightarrow> (Inl e, s)
      | None \<Rightarrow>
          (case requestPreflightCheck r of
             Some e \<Rightarrow> (Inl e, s)
           | None \<Rightarrow>
               (case cl_Throttle c s of
                  (Some e, s) \<Rightarrow> (Inl (RequestError e), s)
                | (None, s) \<Rightarrow>
                    request_loop c (http_request (if 0 < sint (rq_timeout r) then Some (rq_timeout r) else None) r)
                      (rq_maxRetries r) 0 s)))"

subsection \<open>Results\<close>

record rest_result =
  rs_body :: string
  rs_contentType :: string
  rs_statusCode :: int
  rs_decoder :: "string option"
  rs_err :: "rest_err option"

definition failed_result :: "rest_err \<Rightarrow> rest_result" where
  "failed_result e = \<lparr>rs_body = '''', rs_contentType = '''', rs_statusCode = 0, rs_decoder = None, rs_err = Some e\<rparr>"

definition response_reason :: "int \<Rightarrow> string \<Rightarrow> status_reason" where
  "response_reason code verb =
     (if code = 409 then (if verb = ''POST'' then ReasonAlreadyExists else ReasonConflict)
      else if code = 404 then ReasonNotFound
      else if code = 400 then ReasonBadRequest
      else if code = 401 then ReasonUnauthorized
      else if code = 403 then ReasonForbidden
      else if code = 406 then ReasonNotAcceptable
      else if code = 415 then ReasonUnsupportedMediaType
      else if code = 405 then ReasonMethodNotAllowed
      else if code = 422 then ReasonInvalid
      else if code = 503 then ReasonServiceUnavailable
      else if code = 504 then ReasonTimeout
      else if code = 429 then ReasonTooManyRequests
      else if 500 \<le> code then ReasonInternalError
      else ReasonUnknown)"

definition newUnstructuredResponseError :: "request \<Rightarrow> int \<Rightarrow> rest_err" where
  "newUnstructuredResponseError r code =
     Unexpected (StatusError (response_reason code (rq_verb r)) (rq_resource r) (rq_resourceName r))"

definition transformResponse :: "'s rest_client \<Rightarrow> request \<Rightarrow> http_response \<Rightarrow> rest_result" where
  "transformResponse c r resp =
     (case hp_Body resp of
        BodyBroken e \<Rightarrow> failed_result (RequestError (WrapError ''Please retry.'' e))
      | BodyRead body \<Rightarrow>
          (let contentType = (if hp_ContentType resp = '''' then cl_ContentType c else hp_ContentType resp);
               code = hp_StatusCode resp;
               refused = code \<noteq> 101 \<and> (code < 200 \<or> 206 < code);
               res = (\<lambda>decoder err. \<lparr>rs_body = body, rs_contentType = contentType, rs_statusCode = code,
                        rs_decoder = decoder, rs_err = err\<rparr>);
               finish = (\<lambda>decoder. res decoder (if refused then Some (newUnstructuredResponseError r code) else None))
           in if contentType = '''' then finish None
              else case cl_Negotiate c contentType of
                     BadMediaType e \<Rightarrow> failed_result (RequestError (StatusError ReasonInternalError '''' ''''))
                   | NoDecoder e \<Rightarrow>
                       if refused then failed_result (newUnstructuredResponseError r code) else res None None
                   | Decoder d \<Rightarrow> finish (Some d)))"

definition request_Do :: "'s rest_client \<Rightarrow> request \<Rightarrow> 's \<Rightarrow> rest_result \<times> 's" where
  "request_Do c r s =
     (case request_send c r s of
        (Inl e, s') \<Rightarrow> (failed_result e, s')
      | (Inr resp, s') \<Rightarrow> (transformResponse c r resp, s'))"

text \<open>An unexpected error gives way to the failure the body describes, when it describes one.\<close>

definition result_Error :: "'s rest_client \<Rightarrow> rest_result \<Rightarrow> rest_err option" where
  "result_Error c res =
     (case rs_err res of
        Some (Unexpected e) \<Rightarrow>
          (case rs_decoder res of
             None \<Rightarrow> Some (Unexpected e)
           | Some d \<Rightarrow>
               if rs_body res = '''' then Some (Unexpected e)
               else case cl_DecodeStatus c d (rs_body res) of
                      None \<Rightarrow> Some (Unexpected e)
                    | Some (status, e') \<Rightarrow> if status = ''Failure'' then Some (ServerStatus e') else Some (Unexpected e))
      | other \<Rightarrow> other)"

text \<open>What decoding a body into an object of a kind gives: the object filled, or another object that may
  be a status.\<close>

datatype 'o decoded = DecodeFailed 'o goerr | DecodedInto 'o | DecodedStatus string goerr | DecodedOther

record 'o codec =
  co_Encode :: "'o \<Rightarrow> goerr + string"
  co_Decode :: "string \<Rightarrow> string \<Rightarrow> 'o decoded"
  co_Zero :: 'o

definition Into :: "'s rest_client \<Rightarrow> 'o codec \<Rightarrow> rest_result \<Rightarrow> 'o \<times> rest_err option" where
  "Into c codec res =
     (if rs_err res \<noteq> None then (co_Zero codec, result_Error c res)
      else case rs_decoder res of
             None \<Rightarrow> (co_Zero codec, Some (NoSerializer (rs_contentType res)))
           | Some d \<Rightarrow>
               if rs_body res = '''' then (co_Zero codec, Some (ZeroLength (rs_statusCode res) (rs_contentType res)))
               else case co_Decode codec d (rs_body res) of
                      DecodeFailed x e \<Rightarrow> (x, Some (RequestError e))
                    | DecodedInto x \<Rightarrow> (x, None)
                    | DecodedStatus status e \<Rightarrow>
                        (co_Zero codec, if status = ''Success'' then None else Some (ServerStatus e))
                    | DecodedOther \<Rightarrow> (co_Zero codec, None))"

text \<open>A watch is started once, without the checks and retries of other requests.\<close>

datatype watch_stream = EmptyWatch | StreamWatch http_response

definition request_Watch :: "'s rest_client \<Rightarrow> request \<Rightarrow> 's \<Rightarrow> (rest_err + watch_stream) \<times> 's" where
  "request_Watch c r s =
     (case rq_err r of
        Some e \<Rightarrow> (Inl e, s)
      | None \<Rightarrow>
          (case cl_NewRequest c (http_request None r) of
             Some e \<Rightarrow> (Inl (RequestError e), s)
           | None \<Rightarrow>
               (case cl_Do c (http_request None r) s of
                  (Inl te, s) \<Rightarrow> (if te_EOF te \<or> te_Timeout te then Inr EmptyWatch else Inl (RequestError (te_Err te)), s)
                | (Inr resp, s) \<Rightarrow>
                    if hp_StatusCode resp \<noteq> 200
                    then (case rs_err (transformResponse c r resp) of
                            Some e \<Rightarrow> (Inl e, s)
                          | None \<Rightarrow> (Inl (NotStarted (hp_StatusCode resp)), s))
                    else (case cl_StreamDecoder c (hp_ContentType resp) of
                            Some e \<Rightarrow> (Inl (RequestError e), s)
                          | None \<Rightarrow> (Inr (StreamWatch resp), s)))))"

subsection \<open>What is sent\<close>

text \<open>A client that keeps a log of the requests its transport is given.\<close>

definition logged :: "'s rest_client \<Rightarrow> ('s \<times> http_request list) rest_client" where
  "logged c =
     \<lparr>cl_BasePath = cl_BasePath c, cl_APIPath = cl_APIPath c, cl_AcceptContentTypes = cl_AcceptContentTypes c,
      cl_ContentType = cl_ContentType c, cl_Timeout = cl_Timeout c,
      cl_Throttle = (\<lambda>(s, l). case cl_Throttle c s of (e, s') \<Rightarrow> (e, (s', l))),
      cl_NewRequest = cl_NewRequest c,
      cl_Do = (\<lambda>q (s, l). case cl_Do c q s of (out, s') \<Rightarrow> (out, (s', l @ [q]))),
      cl_EncodeParams = cl_EncodeParams c, cl_Encoder = cl_Encoder c, cl_EncodeDelete = cl_EncodeDelete c,
      cl_Negotiate = cl_Negotiate c, cl_StreamDecoder = cl_StreamDecoder c, cl_DecodeStatus = cl_DecodeStatus c\<rparr>"

lemma logged_simps [simp]:
  "cl_BasePath (logged c) = cl_BasePath c" "cl_APIPath (logged c) = cl_APIPath c"
  "cl_AcceptContentTypes (logged c) = cl_AcceptContentTypes c" "cl_ContentType (logged c) = cl_ContentType c"
  "cl_Timeout (logged c) = cl_Timeout c" "cl_NewRequest (logged c) = cl_NewRequest c"
  "cl_EncodeParams (logged c) = cl_EncodeParams c" "cl_Encoder (logged c) = cl_Encoder c"
  "cl_EncodeDelete (logged c) = cl_EncodeDelete c"
  "cl_Negotiate (logged c) = cl_Negotiate c" "cl_StreamDecoder (logged c) = cl_StreamDecoder c"
  "cl_DecodeStatus (logged c) = cl_DecodeStatus c"
  "cl_Throttle (logged c) (s, l) = (fst (cl_Throttle c s), (snd (cl_Throttle c s), l))"
  "cl_Do (logged c) q (s, l) = (fst (cl_Do c q s), (snd (cl_Do c q s), l @ [q]))"
  by (simp_all add: logged_def split_beta)

lemma request_loop_logged:
  "request_loop (logged c) q m n (s, l) =
     (let (e, s1) = (if 0 < n then cl_Throttle c s else (None, s)); (out, s2) = cl_Do c q s1 in
      case cl_NewRequest c q of
        Some e \<Rightarrow> (Inl (RequestError e), (s, l))
      | None \<Rightarrow>
          (case e of
             Some e \<Rightarrow> (Inl (RequestError e), (s1, l))
           | None \<Rightarrow>
               (case received (hq_Method q) out of
                  Inl e \<Rightarrow> (Inl e, (s2, l @ [q]))
                | Inr resp \<Rightarrow>
                    if checkWait resp \<and> n + 1 \<le> m then request_loop (logged c) q m (n + 1) (s2, l @ [q])
                    else (Inr resp, (s2, l @ [q])))))"
  by (subst request_loop.simps) (simp add: split_beta Let_def split: option.split sum.split)

text \<open>The loop sends one and the same request, at most once more than it may retry.\<close>

lemma request_loop_log:
  "\<exists>res s' j. request_loop (logged c) q m n (s, l) = (res, (s', l @ replicate j q)) \<and> j \<le> m - n + 1"
proof (induction "m - n" arbitrary: n s l rule: less_induct)
  case (less n s l)
  obtain e s1 where t: "(if 0 < n then cl_Throttle c s else (None, s)) = (e, s1)" by force
  obtain out s2 where d: "cl_Do c q s1 = (out, s2)" by force
  note run = request_loop_logged [of c q m n s l, unfolded t d Let_def prod.case]
  have none: ?case if "request_loop (logged c) q m n (s, l) = (res, (s', l))" for res s'
  proof -
    have "request_loop (logged c) q m n (s, l) = (res, (s', l @ replicate 0 q))" using that by (simp only: replicate.simps append_Nil2)
    then show ?case using le0 by blast
  qed
  have once: ?case if "request_loop (logged c) q m n (s, l) = (res, (s', l @ [q]))" for res s'
    using that by (intro exI [of _ res] exI [of _ s'] exI [of _ 1]) simp
  show ?case
  proof (cases "cl_NewRequest c q")
    case (Some e)
    with run show ?thesis by (intro none) simp
  next
    case new: None
    show ?thesis
    proof (cases e)
      case (Some e)
      with run new show ?thesis by (intro none) simp
    next
      case throttle: None
      show ?thesis
      proof (cases "received (hq_Method q) out")
        case (Inl e)
        with run new throttle show ?thesis by (intro once) simp
      next
        case (Inr resp)
        show ?thesis
        proof (cases "checkWait resp \<and> n + 1 \<le> m")
          case False
          with run new throttle Inr have "request_loop (logged c) q m n (s, l) = (Inr resp, (s2, l @ [q]))"
            by (simp only: option.case sum.case if_False)
          then show ?thesis by (rule once)
        next
          case True
          obtain res s' j where "request_loop (logged c) q m (n + 1) (s2, l @ [q]) = (res, (s', (l @ [q]) @ replicate j q))"
              "j \<le> m - (n + 1) + 1"
            using less [of "n + 1" s2 "l @ [q]"] True diff_less_mono2 [of n "n + 1" m] by fastforce
          moreover from this(2) True have "Suc j \<le> m - n + 1" by auto
          ultimately show ?thesis using run new throttle Inr True
            by (intro exI [of _ res] exI [of _ s'] exI [of _ "Suc j"]) simp
        qed
      qed
    qed
  qed
qed

lemma request_send_log:
  "\<exists>res s' j q. request_send (logged c) r (s, l) = (res, (s', l @ replicate j q)) \<and> j \<le> rq_maxRetries r + 1
     \<and> hq_Method q = rq_verb r \<and> hq_Path q = url_path r \<and> hq_Body q = rq_body r \<and> hq_Query q = url_query r
     \<and> hq_Deadline q = (if 0 < sint (rq_timeout r) then Some (rq_timeout r) else None)
     \<and> (rq_err r \<noteq> None \<or> requestPreflightCheck r \<noteq> None \<longrightarrow> j = 0 \<and> isl res)"
proof -
  define q where "q = http_request (if 0 < sint (rq_timeout r) then Some (rq_timeout r) else None) r"
  have q: "hq_Method q = rq_verb r" "hq_Path q = url_path r" "hq_Body q = rq_body r" "hq_Query q = url_query r"
      "hq_Deadline q = (if 0 < sint (rq_timeout r) then Some (rq_timeout r) else None)"
    by (simp_all add: q_def http_request_def)
  obtain e s1 where t: "cl_Throttle c s = (e, s1)" by force
  obtain res s' j where L: "request_loop (logged c) q (rq_maxRetries r) 0 (s1, l) = (res, (s', l @ replicate j q))"
      "j \<le> rq_maxRetries r + 1"
    using request_loop_log [of c q "rq_maxRetries r" 0 s1 l] by auto
  have stop: ?thesis if "request_send (logged c) r (s, l) = (Inl err, (s', l))" for err s'
    using that q by (intro exI [of _ "Inl err"] exI [of _ s'] exI [of _ 0] exI [of _ q]) simp
  show ?thesis
  proof (cases "rq_err r \<noteq> None \<or> requestPreflightCheck r \<noteq> None")
    case True
    have "\<exists>err. request_send (logged c) r (s, l) = (Inl err, (s, l))"
      using True by (cases "rq_err r"; cases "requestPreflightCheck r") (simp_all add: request_send_def)
    then show ?thesis using stop by blast
  next
    case False
    show ?thesis
    proof (cases e)
      case (Some err)
      with False t show ?thesis by (intro stop [of "RequestError err" s1]) (simp add: request_send_def)
    next
      case None
      with False t L q show ?thesis
        by (intro exI [of _ res] exI [of _ s'] exI [of _ j] exI [of _ q]) (simp add: request_send_def q_def [symmetric])
    qed
  qed
qed

end
