(* ===== verification/Informers.thy ===== *)
theory Informers
  imports Listers Rest
begin

text \<open>
  The informers (\<open>informers/externalversions\<close>): list and watch functions of the seven kinds over a
  client, the shared informer factory, and what a relist of client-go's reflector does to the cache
  of an informer. An informer is a pointer into the factory's heap, so sharing can be stated. Parsing
  a label selector from its text is a parameter.
\<close>

subsection \<open>Relisting a cache\<close>

text \<open>
  \<open>DeltaFIFO.Replace\<close> queues the listed objects, then a deletion for every known object that is not
  listed; \<open>HandleDeltas\<close> applies them to the indexer.
\<close>

definition cache_key :: "('a, 'b) kobject \<Rightarrow> string" where
  "cache_key x = MetaNamespaceKeyFunc (obj_meta x)"

fun replaced_deltas :: "('a, 'b) cache \<Rightarrow> ('a, 'b) kobject list \<Rightarrow> ('a, 'b) cache_op list" where
  "replaced_deltas c [] = []"
| "replaced_deltas c (x # xs) =
     (if map_of (ix_Items c) (cache_key x) \<noteq> None then CacheUpdate x else CacheAdd x)
     # replaced_deltas (run_cache_op (CacheAdd x) c) xs"

definition deleted_deltas :: "key_order \<Rightarrow> ('a, 'b) kobject list \<Rightarrow> ('a, 'b) cache \<Rightarrow> ('a, 'b) cache_op list" where
  "deleted_deltas ord xs c =
     map (\<lambda>(k, x). CacheDelete x)
       (filter (\<lambda>(k, x). k \<notin> set (map cache_key xs)) (range_map ord (ix_Items c)))"

definition replace_cache :: "key_order \<Rightarrow> ('a, 'b) kobject list \<Rightarrow> ('a, 'b) cache \<Rightarrow> ('a, 'b) cache" where
  "replace_cache ord xs c = fold run_cache_op (replaced_deltas c xs @ deleted_deltas ord xs c) c"

definition relist ::
  "key_order \<Rightarrow> (fake, ('a, 'b) kobject list option) action \<Rightarrow> ('a, 'b) cache \<Rightarrow> (fake, ('a, 'b) cache) action" where
  "relist ord list_func c =
     bnd list_func (\<lambda>r. case r of
         None \<Rightarrow> lift (Inl (Fail (ErrorString ''unable to understand list result'')))
       | Some xs \<Rightarrow> ret (replace_cache ord xs c))"

lemma run_replaced_deltas:
  assumes "cache_ok c"
  shows "cache_ok (fold run_cache_op (replaced_deltas c xs) c)
    \<and> map_of (ix_Items (fold run_cache_op (replaced_deltas c xs) c))
        = map_of (ix_Items c) ++ map_of (rev (map (\<lambda>x. (cache_key x, x)) xs))"
  using assms
proof (induction xs arbitrary: c)
  case (Cons x xs)
  have same: "run_cache_op (CacheUpdate x) c = run_cache_op (CacheAdd x) c"
    by (simp add: store_Add_def store_Update_def)
  have ok: "cache_ok (run_cache_op (CacheAdd x) c)"
    "map_of (ix_Items (run_cache_op (CacheAdd x) c)) = (map_of (ix_Items c))(cache_key x \<mapsto> x)"
    using run_cache_op_ok [OF Cons.prems, of "CacheAdd x"] by (simp_all add: cache_key_def)
  have "fold run_cache_op (replaced_deltas c (x # xs)) c
      = fold run_cache_op (replaced_deltas (run_cache_op (CacheAdd x) c) xs) (run_cache_op (CacheAdd x) c)"
    by (simp add: same del: run_cache_op.simps)
  then show ?case
    using Cons.IH [OF ok(1)] by (simp add: ok(2) map_add_upd_left del: run_cache_op.simps)
      (auto simp: fun_eq_iff map_add_def split: option.split)
qed simp

lemma run_deletes:
  assumes "cache_ok c" and "\<And>k x. (k, x) \<in> set es \<Longrightarrow> k = cache_key x"
  shows "cache_ok (fold run_cache_op (map (\<lambda>(k, x). CacheDelete x) es) c)
    \<and> map_of (ix_Items (fold run_cache_op (map (\<lambda>(k, x). CacheDelete x) es) c))
        = map_of (ix_Items c) |` (- fst ` set es)"
  using assms
proof (induction es arbitrary: c)
  case (Cons e es)
  obtain k x where e: "e = (k, x)" by force
  have k: "k = cache_key x" using Cons.prems(2) [of k x] e by simp
  have ok: "cache_ok (run_cache_op (CacheDelete x) c)"
    "map_of (ix_Items (run_cache_op (CacheDelete x) c)) = (map_of (ix_Items c))(k := None)"
    using run_cache_op_ok [OF Cons.prems(1), of "CacheDelete x"] by (simp_all add: k cache_key_def)
  have r: "(map_of (ix_Items c))(k := None) |` (- fst ` set es) = map_of (ix_Items c) |` (- fst ` set (e # es))"
    by (auto simp: e restrict_map_def fun_eq_iff)
  have run: "fold run_cache_op (map (\<lambda>(k, x). CacheDelete x) (e # es)) c
      = fold run_cache_op (map (\<lambda>(k, x). CacheDelete x) es) (run_cache_op (CacheDelete x) c)"
    by (simp add: e)
  have "\<And>k x. (k, x) \<in> set es \<Longrightarrow> k = cache_key x" using Cons.prems(2) by simp
  from Cons.IH [OF ok(1) this] show ?case unfolding run ok(2) r .
qed (simp add: restrict_map_def)

text \<open>A relisted cache holds the listed objects and nothing else.\<close>

lemma replace_cache_ok:
  assumes ok: "cache_ok c" and ord: "order_ok ord"
  shows "cache_ok (replace_cache ord xs c)"
    and "map_of (ix_Items (replace_cache ord xs c)) = map_of (rev (map (\<lambda>x. (cache_key x, x)) xs))"
proof -
  let ?new = "map_of (rev (map (\<lambda>x. (cache_key x, x)) xs))"
  let ?es = "filter (\<lambda>(k, x). k \<notin> set (map cache_key xs)) (range_map ord (ix_Items c))"
  note r = run_replaced_deltas [OF ok, of xs]
  have keys: "k = cache_key x" if "(k, x) \<in> set ?es" for k x
    using that ok set_range_map [OF ord, of "ix_Items c"] by (auto simp: cache_ok_def keys_ok_def cache_key_def)
  have d: "cache_ok (replace_cache ord xs c) \<and> map_of (ix_Items (replace_cache ord xs c))
      = (map_of (ix_Items c) ++ ?new) |` (- fst ` set ?es)"
    using run_deletes [OF conjunct1 [OF r], of ?es, OF keys] unfolding conjunct2 [OF r]
    by (simp only: replace_cache_def deleted_deltas_def fold_append comp_def)
  have dom: "dom ?new = set (map cache_key xs)" by (force simp: dom_map_of_conv_image_fst)
  have "(map_of (ix_Items c) ++ ?new) |` (- fst ` set ?es) = ?new"
  proof
    fix k
    show "((map_of (ix_Items c) ++ ?new) |` (- fst ` set ?es)) k = ?new k"
    proof (cases "?new k")
      case None
      then have "k \<notin> set (map cache_key xs)" using dom by blast
      then have "k \<in> fst ` set ?es" if "map_of (ix_Items c) k = Some x" for x
        using that set_range_map [OF ord, of "ix_Items c"] by force
      then show ?thesis using None by (cases "map_of (ix_Items c) k") (auto simp: restrict_map_def map_add_def)
    next
      case (Some x)
      then have "k \<notin> fst ` set ?es" using dom by auto
      then show ?thesis using Some by (simp add: restrict_map_def map_add_def)
    qed
  qed
  with d show "cache_ok (replace_cache ord xs c)" "map_of (ix_Items (replace_cache ord xs c)) = ?new"
    by simp_all
qed

lemma map_of_rev_keys:
  assumes "inj_on key (set xs)"
  shows "map_of (rev (map (\<lambda>x. (key x, x)) xs)) k = Some x \<longleftrightarrow> x \<in> set xs \<and> k = key x"
  using assms
proof (induction xs arbitrary: x)
  case (Cons y ys)
  let ?m = "map_of (rev (map (\<lambda>x. (key x, x)) ys))"
  have IH: "?m k = Some z \<longleftrightarrow> z \<in> set ys \<and> k = key z" for z
    by (rule Cons.IH) (use Cons.prems in simp)
  show ?case
  proof (cases "?m k")
    case None
    then have "k \<notin> key ` set ys" using IH by (metis imageE option.distinct(1))
    then show ?thesis using None by (auto simp: map_add_def)
  next
    case (Some z)
    then have "z \<in> set ys" "k = key z" using IH by simp_all
    then show ?thesis using Some Cons.prems by (auto simp: map_add_def inj_on_def)
  qed
qed simp

lemma replace_cache_lookup:
  assumes "cache_ok c" and "order_ok ord" and "inj_on cache_key (set xs)"
  shows "map_of (ix_Items (replace_cache ord xs c)) k = Some x \<longleftrightarrow> x \<in> set xs \<and> k = cache_key x"
  unfolding replace_cache_ok(2) [OF assms(1,2)] by (rule map_of_rev_keys [OF assms(3)])

subsection \<open>Informers\<close>

type_synonym tweak_func = "list_options \<Rightarrow> list_options"

text \<open>What an informer is built of: its list and watch functions, its resync period and its indexer.\<close>

record ('a, 'b) informer =
  in_ListFunc :: "list_options \<Rightarrow> (fake, ('a, 'b) kobject list option) action"
  in_WatchFunc :: "list_options \<Rightarrow> (fake, nat) action"
  in_ResyncPeriod :: int
  in_Indexer :: "('a, 'b) cache"

definition tweaked :: "tweak_func option \<Rightarrow> list_options \<Rightarrow> list_options" where
  "tweaked tweak options = (case tweak of None \<Rightarrow> options | Some t \<Rightarrow> t options)"

definition NewFilteredInformer ::
  "(string \<Rightarrow> selector) \<Rightarrow> ('a, 'b) kobject fake_iface \<Rightarrow> int \<Rightarrow> bool \<Rightarrow> tweak_func option \<Rightarrow> ('a, 'b) informer" where
  "NewFilteredInformer parse iface resyncPeriod namespaceIndex tweak =
     \<lparr>in_ListFunc = (\<lambda>options. fi_List iface (parse (lo_LabelSelector (tweaked tweak options)))),
      in_WatchFunc = (\<lambda>options. fi_Watch iface),
      in_ResyncPeriod = resyncPeriod,
      in_Indexer = NewIndexer namespaceIndex\<rparr>"

datatype api_kind = KindBackendPolicy | KindGateway | KindGatewayClass | KindHTTPRoute
  | KindTCPRoute | KindTLSRoute | KindUDPRoute

text \<open>There are these seven kinds and no more, so quantifying over them computes.\<close>

instantiation api_kind :: enum
begin

definition enum_api_kind :: "api_kind list" where
  "enum_api_kind = [KindBackendPolicy, KindGateway, KindGatewayClass, KindHTTPRoute, KindTCPRoute, KindTLSRoute, KindUDPRoute]"

definition enum_all_api_kind :: "(api_kind \<Rightarrow> bool) \<Rightarrow> bool" where
  "enum_all_api_kind P = list_all P enum_class.enum"

definition enum_ex_api_kind :: "(api_kind \<Rightarrow> bool) \<Rightarrow> bool" where
  "enum_ex_api_kind P = list_ex P enum_class.enum"

instance
proof
  have U: "(UNIV :: api_kind set) = set enum_class.enum"
  proof (rule set_eqI)
    show "k \<in> UNIV \<longleftrightarrow> k \<in> set enum_class.enum" for k :: api_kind
      by (cases k) (simp_all add: enum_api_kind_def)
  qed
  show "(UNIV :: api_kind set) = set enum_class.enum" by (rule U)
  show "distinct (enum_class.enum :: api_kind list)" by (simp add: enum_api_kind_def)
  show "enum_class.enum_all P = Ball UNIV P" for P :: "api_kind \<Rightarrow> bool"
    by (simp only: enum_all_api_kind_def list_all_iff U)
  show "enum_class.enum_ex P = Bex UNIV P" for P :: "api_kind \<Rightarrow> bool"
    by (simp only: enum_ex_api_kind_def list_ex_iff U)
qed

end

text \<open>The shared informers of all kinds, as the factory keeps them.\<close>

datatype shared_informer =
    BackendPolicyInformer "(backendpolicy_spec, backendpolicy_status) informer"
  | GatewayInformer "(gateway_spec, gateway_status) informer"
  | GatewayClassInformer "(gatewayclass_spec, gatewayclass_status) informer"
  | HTTPRouteInformer "(httproute_spec, httproute_status) informer"
  | TCPRouteInformer "(l4_spec, l4_status) informer"
  | TLSRouteInformer "(l4_spec, l4_status) informer"
  | UDPRouteInformer "(l4_spec, l4_status) informer"

fun informer_kind :: "shared_informer \<Rightarrow> api_kind" where
  "informer_kind (BackendPolicyInformer _) = KindBackendPolicy"
| "informer_kind (GatewayInformer _) = KindGateway"
| "informer_kind (GatewayClassInformer _) = KindGatewayClass"
| "informer_kind (HTTPRouteInformer _) = KindHTTPRoute"
| "informer_kind (TCPRouteInformer _) = KindTCPRoute"
| "informer_kind (TLSRouteInformer _) = KindTLSRoute"
| "informer_kind (UDPRouteInformer _) = KindUDPRoute"

text \<open>\<open>client.NetworkingV1alpha1()\<close> is the group of clients; a gateway class has no namespace.\<close>

type_synonym informer_args = "fake_group \<Rightarrow> string \<Rightarrow> int \<Rightarrow> bool \<Rightarrow> tweak_func option \<Rightarrow> shared_informer"

definition NewFilteredBackendPolicyInformer :: "(string \<Rightarrow> selector) \<Rightarrow> informer_args" where
  "NewFilteredBackendPolicyInformer parse client ns resync idx tweak =
     BackendPolicyInformer (NewFilteredInformer parse (fg_BackendPolicies client ns) resync idx tweak)"

definition NewFilteredGatewayInformer :: "(string \<Rightarrow> selector) \<Rightarrow> informer_args" where
  "NewFilteredGatewayInformer parse client ns resync idx tweak =
     GatewayInformer (NewFilteredInformer parse (fg_Gateways client ns) resync idx tweak)"

definition NewFilteredGatewayClassInformer ::
  "(string \<Rightarrow> selector) \<Rightarrow> fake_group \<Rightarrow> int \<Rightarrow> bool \<Rightarrow> tweak_func option \<Rightarrow> shared_informer" where
  "NewFilteredGatewayClassInformer parse client resync idx tweak =
     GatewayClassInformer (NewFilteredInformer parse (fg_GatewayClasses client) resync idx tweak)"

definition NewFilteredHTTPRouteInformer :: "(string \<Rightarrow> selector) \<Rightarrow> informer_args" where
  "NewFilteredHTTPRouteInformer parse client ns resync idx tweak =
     HTTPRouteInformer (NewFilteredInformer parse (fg_HTTPRoutes client ns) resync idx tweak)"

definition NewFilteredTCPRouteInformer :: "(string \<Rightarrow> selector) \<Rightarrow> informer_args" where
  "NewFilteredTCPRouteInformer parse client ns resync idx tweak =
     TCPRouteInformer (NewFilteredInformer parse (fg_TCPRoutes client ns) resync idx tweak)"

definition NewFilteredTLSRouteInformer :: "(string \<Rightarrow> selector) \<Rightarrow> informer_args" where
  "NewFilteredTLSRouteInformer parse client ns resync idx tweak =
     TLSRouteInformer (NewFilteredInformer parse (fg_TLSRoutes client ns) resync idx tweak)"

definition NewFilteredUDPRouteInformer :: "(string \<Rightarrow> selector) \<Rightarrow> informer_args" where
  "NewFilteredUDPRouteInformer parse client ns resync idx tweak =
     UDPRouteInformer (NewFilteredInformer parse (fg_UDPRoutes client ns) resync idx tweak)"

definition NewGatewayInformer ::
  "(string \<Rightarrow> selector) \<Rightarrow> fake_group \<Rightarrow> string \<Rightarrow> int \<Rightarrow> bool \<Rightarrow> shared_informer" where
  "NewGatewayInformer parse client ns resync idx = NewFilteredGatewayInformer parse client ns resync idx None"

subsection \<open>The shared informer factory\<close>

text \<open>
  \<open>fa_heap\<close> holds the informers, \<open>fa_informers\<close> points to them; \<open>fa_runs\<close> lists the informers whose
  \<open>Run\<close> was started in a goroutine.
\<close>

type_synonym new_informer_func = "fake_group \<Rightarrow> int \<Rightarrow> shared_informer"

record informer_factory =
  fa_client :: fake_group
  fa_namespace :: string
  fa_tweakListOptions :: "tweak_func option"
  fa_defaultResync :: int
  fa_customResync :: "(api_kind, int) gomap"
  fa_informers :: "(api_kind, nat) gomap"
  fa_startedInformers :: "(api_kind, bool) gomap"
  fa_heap :: "shared_informer list"
  fa_runs :: "nat list"

type_synonym informer_option = "informer_factory \<Rightarrow> informer_factory"

fun set_resync :: "(api_kind \<times> int) list \<Rightarrow> (api_kind, int) gomap \<Rightarrow> (api_kind, int) gomap" where
  "set_resync [] m = m"
| "set_resync ((k, v) # es) m = set_resync es (AList.update k v m)"

definition WithCustomResyncConfig :: "(api_kind \<times> int) list \<Rightarrow> informer_option" where
  "WithCustomResyncConfig resyncConfig factory =
     factory\<lparr>fa_customResync := set_resync resyncConfig (fa_customResync factory)\<rparr>"

definition WithTweakListOptions :: "tweak_func \<Rightarrow> informer_option" where
  "WithTweakListOptions tweak factory = factory\<lparr>fa_tweakListOptions := Some tweak\<rparr>"

definition WithNamespace :: "string \<Rightarrow> informer_option" where
  "WithNamespace ns factory = factory\<lparr>fa_namespace := ns\<rparr>"

definition NewSharedInformerFactoryWithOptions ::
  "fake_group \<Rightarrow> int \<Rightarrow> informer_option list \<Rightarrow> informer_factory" where
  "NewSharedInformerFactoryWithOptions client defaultResync options =
     fold (\<lambda>opt factory. opt factory) options
       \<lparr>fa_client = client, fa_namespace = '''', fa_tweakListOptions = None, fa_defaultResync = defaultResync,
        fa_customResync = [], fa_informers = [], fa_startedInformers = [], fa_heap = [], fa_runs = []\<rparr>"

definition NewSharedInformerFactory :: "fake_group \<Rightarrow> int \<Rightarrow> informer_factory" where
  "NewSharedInformerFactory client defaultResync = NewSharedInformerFactoryWithOptions client defaultResync []"

definition NewFilteredSharedInformerFactory ::
  "fake_group \<Rightarrow> int \<Rightarrow> string \<Rightarrow> tweak_func \<Rightarrow> informer_factory" where
  "NewFilteredSharedInformerFactory client defaultResync ns tweak =
     NewSharedInformerFactoryWithOptions client defaultResync [WithNamespace ns, WithTweakListOptions tweak]"

definition InformerFor :: "api_kind \<Rightarrow> new_informer_func \<Rightarrow> informer_factory \<Rightarrow> nat \<times> informer_factory" where
  "InformerFor informerType newFunc f =
     (case map_of (fa_informers f) informerType of
        Some informer \<Rightarrow> (informer, f)
      | None \<Rightarrow>
          (let resyncPeriod = (case map_of (fa_customResync f) informerType of
                 None \<Rightarrow> fa_defaultResync f | Some r \<Rightarrow> r);
               informer = length (fa_heap f)
           in (informer, f\<lparr>fa_heap := fa_heap f @ [newFunc (fa_client f) resyncPeriod],
                           fa_informers := AList.update informerType informer (fa_informers f)\<rparr>)))"

fun start_loop :: "(api_kind \<times> nat) list \<Rightarrow> informer_factory \<Rightarrow> informer_factory" where
  "start_loop [] f = f"
| "start_loop ((informerType, informer) # es) f =
     start_loop es
       (if map_of (fa_startedInformers f) informerType = Some True then f
        else f\<lparr>fa_runs := fa_runs f @ [informer],
               fa_startedInformers := AList.update informerType True (fa_startedInformers f)\<rparr>)"

text \<open>The order of a range loop over the informers: any order of the keys.\<close>

type_synonym kind_order = "api_kind list \<Rightarrow> api_kind list"

definition range_informers :: "kind_order \<Rightarrow> (api_kind, nat) gomap \<Rightarrow> (api_kind \<times> nat) list" where
  "range_informers ord m = List.map_filter (\<lambda>k. map_option (Pair k) (map_of m k)) (ord (go_keys m))"

definition Start :: "kind_order \<Rightarrow> informer_factory \<Rightarrow> informer_factory" where
  "Start ord f = start_loop (range_informers ord (fa_informers f)) f"

text \<open>\<open>synced\<close> is the answer of \<open>cache.WaitForCacheSync\<close> for one informer.\<close>

definition WaitForCacheSync :: "kind_order \<Rightarrow> (nat \<Rightarrow> bool) \<Rightarrow> informer_factory \<Rightarrow> (api_kind, bool) gomap" where
  "WaitForCacheSync ord synced f =
     fold (\<lambda>(informType, informer) res. AList.update informType (synced informer) res)
       (filter (\<lambda>(informerType, informer). map_of (fa_startedInformers f) informerType = Some True)
          (range_informers ord (fa_informers f))) []"

subsection \<open>Access to the informers\<close>

text \<open>The default informer of a kind: the factory's namespace and filter, indexed by namespace.\<close>

fun defaultInformer :: "(string \<Rightarrow> selector) \<Rightarrow> string \<Rightarrow> tweak_func option \<Rightarrow> api_kind \<Rightarrow> new_informer_func" where
  "defaultInformer parse ns tweak KindBackendPolicy client resync =
     NewFilteredBackendPolicyInformer parse client ns resync True tweak"
| "defaultInformer parse ns tweak KindGateway client resync =
     NewFilteredGatewayInformer parse client ns resync True tweak"
| "defaultInformer parse ns tweak KindGatewayClass client resync =
     NewFilteredGatewayClassInformer parse client resync True tweak"
| "defaultInformer parse ns tweak KindHTTPRoute client resync =
     NewFilteredHTTPRouteInformer parse client ns resync True tweak"
| "defaultInformer parse ns tweak KindTCPRoute client resync =
     NewFilteredTCPRouteInformer parse client ns resync True tweak"
| "defaultInformer parse ns tweak KindTLSRoute client resync =
     NewFilteredTLSRouteInformer parse client ns resync True tweak"
| "defaultInformer parse ns tweak KindUDPRoute client resync =
     NewFilteredUDPRouteInformer parse client ns resync True tweak"

text \<open>\<open>f.Networking().V1alpha1().Gateways().Informer()\<close> and its like.\<close>

definition Informer :: "(string \<Rightarrow> selector) \<Rightarrow> api_kind \<Rightarrow> informer_factory \<Rightarrow> nat \<times> informer_factory" where
  "Informer parse kind f =
     InformerFor kind (defaultInformer parse (fa_namespace f) (fa_tweakListOptions f) kind) f"

definition informer_resources :: "(gvr \<times> api_kind) list" where
  "informer_resources =
     [(apis_gvr ''backendpolicies'', KindBackendPolicy), (apis_gvr ''gateways'', KindGateway),
      (apis_gvr ''gatewayclasses'', KindGatewayClass), (apis_gvr ''httproutes'', KindHTTPRoute),
      (apis_gvr ''tcproutes'', KindTCPRoute), (apis_gvr ''tlsroutes'', KindTLSRoute),
      (apis_gvr ''udproutes'', KindUDPRoute)]"

lemma informer_resources_kinds: "map snd informer_resources = enum_class.enum" "set (map snd informer_resources) = UNIV"
proof -
  show e: "map snd informer_resources = enum_class.enum" by (simp add: informer_resources_def enum_api_kind_def)
  show "set (map snd informer_resources) = UNIV" unfolding e by (rule enum_UNIV)
qed

text \<open>A generic informer carries its informer and its group resource.\<close>

record generic_informer =
  gi_informer :: nat
  gi_resource :: "string \<times> string"

definition generic_Informer :: "generic_informer \<Rightarrow> nat" where
  "generic_Informer f = gi_informer f"

definition ForResource ::
  "(string \<Rightarrow> selector) \<Rightarrow> gvr \<Rightarrow> informer_factory \<Rightarrow> generic_informer result \<times> informer_factory" where
  "ForResource parse resource f =
     (case map_of informer_resources resource of
        None \<Rightarrow> (Inl (Fail (ErrorString (''no informer found for '' @ gvr_Group resource @ ''/'' @ gvr_Version resource
                     @ '', Resource='' @ gvr_Resource resource))), f)
      | Some kind \<Rightarrow> (let (informer, f') = Informer parse kind f
                     in (Inr \<lparr>gi_informer = informer, gi_resource = (gvr_Group resource, gvr_Resource resource)\<rparr>, f')))"

subsection \<open>The factory's invariant\<close>

text \<open>Every informer is of the kind it is filed under, no two kinds share one, and the informers that run
  are those marked as started, each once.\<close>

definition factory_ok :: "informer_factory \<Rightarrow> bool" where
  "factory_ok f \<longleftrightarrow>
     (\<forall>k p. map_of (fa_informers f) k = Some p \<longrightarrow> p < length (fa_heap f) \<and> informer_kind (fa_heap f ! p) = k)
     \<and> distinct (fa_runs f)
     \<and> (\<forall>k. map_of (fa_startedInformers f) k = Some True \<longrightarrow> map_of (fa_informers f) k \<noteq> None)
     \<and> (\<forall>p \<in> set (fa_runs f). \<exists>k. map_of (fa_informers f) k = Some p)
     \<and> (\<forall>k p. map_of (fa_informers f) k = Some p \<longrightarrow>
          (p \<in> set (fa_runs f) \<longleftrightarrow> map_of (fa_startedInformers f) k = Some True))"

text \<open>What a later state keeps: every informer under its kind, unchanged, and every run.\<close>

definition factory_extends :: "informer_factory \<Rightarrow> informer_factory \<Rightarrow> bool" where
  "factory_extends f f' \<longleftrightarrow> map_of (fa_informers f) \<subseteq>\<^sub>m map_of (fa_informers f')
     \<and> (\<exists>h. fa_heap f' = fa_heap f @ h) \<and> set (fa_runs f) \<subseteq> set (fa_runs f')
     \<and> fa_namespace f' = fa_namespace f \<and> fa_tweakListOptions f' = fa_tweakListOptions f"

definition kind_order_ok :: "kind_order \<Rightarrow> bool" where
  "kind_order_ok ord \<longleftrightarrow> (\<forall>ks. distinct ks \<longrightarrow> distinct (ord ks) \<and> set (ord ks) = set ks)"

datatype factory_op = OpInformer api_kind | OpForResource gvr | OpStart kind_order

text \<open>What an operation gives back: an informer, an error, or nothing.\<close>

datatype factory_reply = Handed nat | Refused fault | Done

fun run_factory_op :: "(string \<Rightarrow> selector) \<Rightarrow> factory_op \<Rightarrow> informer_factory \<Rightarrow> factory_reply \<times> informer_factory" where
  "run_factory_op parse (OpInformer kind) f = (let (informer, f') = Informer parse kind f in (Handed informer, f'))"
| "run_factory_op parse (OpForResource resource) f =
     (case ForResource parse resource f of
        (Inl e, f') \<Rightarrow> (Refused e, f')
      | (Inr gi, f') \<Rightarrow> (Handed (generic_Informer gi), f'))"
| "run_factory_op parse (OpStart ord) f = (Done, Start ord f)"

fun run_factory_ops ::
  "(string \<Rightarrow> selector) \<Rightarrow> factory_op list \<Rightarrow> informer_factory \<Rightarrow> factory_reply list \<times> informer_factory" where
  "run_factory_ops parse [] f = ([], f)"
| "run_factory_ops parse (op # ops) f =
     (let (out, f1) = run_factory_op parse op f; (outs, f2) = run_factory_ops parse ops f1 in (out # outs, f2))"

fun factory_op_ok :: "factory_op \<Rightarrow> bool" where
  "factory_op_ok (OpStart ord) = kind_order_ok ord"
| "factory_op_ok _ = True"

text \<open>The kind an operation asks an informer of.\<close>

fun asked_kind :: "factory_op \<Rightarrow> api_kind option" where
  "asked_kind (OpInformer kind) = Some kind"
| "asked_kind (OpForResource resource) = map_of informer_resources resource"
| "asked_kind (OpStart ord) = None"

text \<open>Every informer is the default one of its kind: over the factory's client, with its namespace, filter
  and the resync period configured for the kind.\<close>

definition resync_period :: "informer_factory \<Rightarrow> api_kind \<Rightarrow> int" where
  "resync_period f k = (case map_of (fa_customResync f) k of None \<Rightarrow> fa_defaultResync f | Some r \<Rightarrow> r)"

definition default_informers :: "(string \<Rightarrow> selector) \<Rightarrow> informer_factory \<Rightarrow> bool" where
  "default_informers parse f \<longleftrightarrow> (\<forall>k p. map_of (fa_informers f) k = Some p \<longrightarrow>
     fa_heap f ! p = defaultInformer parse (fa_namespace f) (fa_tweakListOptions f) k (fa_client f) (resync_period f k))"

lemma factory_extends_refl [simp]: "factory_extends f f"
  by (simp add: factory_extends_def)

lemma factory_extends_trans: "factory_extends f g \<Longrightarrow> factory_extends g h \<Longrightarrow> factory_extends f h"
  unfolding factory_extends_def by (auto intro: map_le_trans)

lemma informer_kind_default [simp]: "informer_kind (defaultInformer parse ns tweak k client resync) = k"
  by (cases k) (simp_all add: NewFilteredBackendPolicyInformer_def NewFilteredGatewayInformer_def
      NewFilteredGatewayClassInformer_def NewFilteredHTTPRouteInformer_def NewFilteredTCPRouteInformer_def
      NewFilteredTLSRouteInformer_def NewFilteredUDPRouteInformer_def)

lemma Informer_ok:
  assumes ok: "factory_ok f"
  shows "factory_ok (snd (Informer parse k f)) \<and> factory_extends f (snd (Informer parse k f))
    \<and> map_of (fa_informers (snd (Informer parse k f))) k = Some (fst (Informer parse k f))"
proof (cases "map_of (fa_informers f) k")
  case (Some p)
  with ok show ?thesis by (simp add: Informer_def InformerFor_def)
next
  case None
  let ?n = "length (fa_heap f)"
  let ?g = "\<lambda>i. f\<lparr>fa_heap := fa_heap f @ [i], fa_informers := AList.update k ?n (fa_informers f)\<rparr>"
  have lt: "p < ?n" "informer_kind (fa_heap f ! p) = k'" if "map_of (fa_informers f) k' = Some p" for k' p
    using ok that unfolding factory_ok_def by blast+
  have fresh: "?n \<notin> set (fa_runs f)" using ok lt(1) unfolding factory_ok_def by blast
  have "map_of (fa_startedInformers f) k \<noteq> Some True" using ok None unfolding factory_ok_def by blast
  then have "factory_ok (?g i)" if "informer_kind i = k" for i
    using ok fresh that lt None unfolding factory_ok_def
    by (simp add: update_conv' nth_append) (metis less_SucI option.distinct(1))
  moreover have "factory_extends f (?g i)" for i
    using None by (auto simp: factory_extends_def update_conv' map_le_def)
  ultimately show ?thesis
    using None by (simp add: Informer_def InformerFor_def Let_def update_conv')
qed

lemma set_range_informers:
  "kind_order_ok ord \<Longrightarrow> set (range_informers ord m) = {(k, p). map_of m k = Some p}"
  "kind_order_ok ord \<Longrightarrow> distinct (map fst (range_informers ord m))"
proof -
  assume "kind_order_ok ord"
  then have ord: "distinct (ord (go_keys m))" "set (ord (go_keys m)) = dom (map_of m)"
    unfolding kind_order_ok_def using distinct_go_keys [of m] set_go_keys [of m] by auto
  then show "set (range_informers ord m) = {(k, p). map_of m k = Some p}"
    by (auto simp: range_informers_def set_map_filter_iff)
  have "map fst (range_informers ord m) = ord (go_keys m)"
    unfolding range_informers_def by (rule map_filter_fst) (use ord(2) in auto)
  with ord show "distinct (map fst (range_informers ord m))" by simp
qed

lemma start_loop_ok:
  assumes "factory_ok f" and "\<And>k p. (k, p) \<in> set es \<Longrightarrow> map_of (fa_informers f) k = Some p"
  shows "factory_ok (start_loop es f) \<and> factory_extends f (start_loop es f)
    \<and> fa_informers (start_loop es f) = fa_informers f
    \<and> (\<forall>k. map_of (fa_startedInformers (start_loop es f)) k = Some True
         \<longleftrightarrow> map_of (fa_startedInformers f) k = Some True \<or> k \<in> fst ` set es)"
  using assms
proof (induction es arbitrary: f)
  case (Cons e es)
  obtain k p where e: "e = (k, p)" by force
  have kp: "map_of (fa_informers f) k = Some p" using Cons.prems(2) e by simp
  define g where "g = (if map_of (fa_startedInformers f) k = Some True then f
        else f\<lparr>fa_runs := fa_runs f @ [p],
               fa_startedInformers := AList.update k True (fa_startedInformers f)\<rparr>)"
  have inj: "k' = k" if "map_of (fa_informers f) k' = Some p" for k'
    using Cons.prems(1) kp that unfolding factory_ok_def by metis
  have p: "p \<in> set (fa_runs f) \<longleftrightarrow> map_of (fa_startedInformers f) k = Some True"
    using Cons.prems(1) kp by (simp add: factory_ok_def)
  have same: "fa_informers g = fa_informers f" "fa_heap g = fa_heap f" by (simp_all add: g_def)
  have started: "map_of (fa_startedInformers g) k' = Some True
      \<longleftrightarrow> map_of (fa_startedInformers f) k' = Some True \<or> k' = k" for k'
    by (simp add: g_def update_conv')
  have runs: "q \<in> set (fa_runs g) \<longleftrightarrow> q \<in> set (fa_runs f) \<or> q = p" "distinct (fa_runs g)" for q
    using p Cons.prems(1) by (auto simp: g_def factory_ok_def)
  note ok = Cons.prems(1) [unfolded factory_ok_def]
  have 1: "\<forall>k p. map_of (fa_informers f) k = Some p \<longrightarrow> p < length (fa_heap f) \<and> informer_kind (fa_heap f ! p) = k"
    using ok by (rule conjunct1)
  have o2: "\<forall>k. map_of (fa_startedInformers f) k = Some True \<longrightarrow> map_of (fa_informers f) k \<noteq> None"
    and o3: "\<forall>q \<in> set (fa_runs f). \<exists>k. map_of (fa_informers f) k = Some q"
    and o4: "\<forall>k p. map_of (fa_informers f) k = Some p \<longrightarrow>
       (p \<in> set (fa_runs f) \<longleftrightarrow> map_of (fa_startedInformers f) k = Some True)"
    using ok by blast+
  have 2: "\<forall>k'. map_of (fa_startedInformers g) k' = Some True \<longrightarrow> map_of (fa_informers f) k' \<noteq> None"
    using o2 kp by (simp add: started)
  have 3: "\<forall>q \<in> set (fa_runs g). \<exists>k. map_of (fa_informers f) k = Some q"
    using o3 kp by (auto simp: runs(1))
  have 4: "\<forall>k' q. map_of (fa_informers f) k' = Some q \<longrightarrow>
      (q \<in> set (fa_runs g) \<longleftrightarrow> map_of (fa_startedInformers g) k' = Some True)"
  proof (intro allI impI)
    fix k' q assume q: "map_of (fa_informers f) k' = Some q"
    then have "q = p \<longleftrightarrow> k' = k" using kp inj [of k'] by auto
    with o4 q show "q \<in> set (fa_runs g) \<longleftrightarrow> map_of (fa_startedInformers g) k' = Some True"
      by (simp add: runs(1) started)
  qed
  have "factory_ok g" unfolding factory_ok_def same by (intro conjI 1 runs(2) 2 3 4)
  moreover have "factory_extends f g" by (auto simp: factory_extends_def g_def)
  moreover note Cons.IH [OF calculation(1)]
  moreover have "start_loop (e # es) f = start_loop es g" by (simp add: e g_def)
  ultimately show ?case
    using Cons.prems(2) started by (auto simp: same e intro: factory_extends_trans)
qed simp

lemma Start_ok:
  assumes "factory_ok f" and "kind_order_ok ord"
  shows "factory_ok (Start ord f) \<and> factory_extends f (Start ord f)
    \<and> (\<forall>k. map_of (fa_startedInformers (Start ord f)) k = Some True \<longleftrightarrow> map_of (fa_informers f) k \<noteq> None)"
  using start_loop_ok [OF assms(1), of "range_informers ord (fa_informers f)"] assms(1)
    set_range_informers(1) [OF assms(2), of "fa_informers f"]
  by (force simp: Start_def factory_ok_def image_iff)

lemma resync_period_same [simp]:
  "resync_period (f\<lparr>fa_heap := h, fa_informers := m\<rparr>) = resync_period f"
  "resync_period (f\<lparr>fa_runs := rs, fa_startedInformers := st\<rparr>) = resync_period f"
  by (simp_all add: resync_period_def fun_eq_iff split: option.split)

lemma Informer_default:
  assumes "factory_ok f" and "default_informers parse f"
  shows "default_informers parse (snd (Informer parse k f))"
proof (cases "map_of (fa_informers f) k")
  case (Some p)
  with assms(2) show ?thesis by (simp add: Informer_def InformerFor_def)
next
  case None
  have "p < length (fa_heap f)" if "map_of (fa_informers f) k' = Some p" for k' p
    using assms(1) that unfolding factory_ok_def by blast
  with assms(2) None show ?thesis
    by (simp add: default_informers_def Informer_def InformerFor_def Let_def update_conv' nth_append
        resync_period_def [symmetric])
qed

lemma Start_default:
  assumes "default_informers parse f"
  shows "default_informers parse (Start ord f)"
proof -
  have "default_informers parse (start_loop es f)" if "default_informers parse f" for es
    using that by (induction es f rule: start_loop.induct) (simp_all add: default_informers_def)
  with assms show ?thesis by (simp add: Start_def)
qed

text \<open>An operation that asks for a kind is handed the informer filed under it.\<close>

definition answered :: "informer_factory \<Rightarrow> factory_op \<Rightarrow> factory_reply \<Rightarrow> bool" where
  "answered f op out \<longleftrightarrow>
     (case asked_kind op of
        None \<Rightarrow> \<forall>p. out \<noteq> Handed p
      | Some k \<Rightarrow> \<exists>p. out = Handed p \<and> map_of (fa_informers f) k = Some p)"

lemma answered_extends: "answered f op out \<Longrightarrow> factory_extends f f' \<Longrightarrow> answered f' op out"
  unfolding answered_def factory_extends_def map_le_def by (force split: option.splits)

lemma run_factory_op_ok:
  assumes "factory_ok f" and "factory_op_ok op" and "run_factory_op parse op f = (out, f')"
  shows "factory_ok f' \<and> factory_extends f f' \<and> answered f' op out \<and> (default_informers parse f \<longrightarrow> default_informers parse f')"
proof (cases op)
  case (OpInformer k)
  then show ?thesis
    using assms Informer_ok [OF assms(1), of parse k] Informer_default [OF assms(1), of parse k]
    by (auto simp: answered_def split_beta Let_def)
next
  case (OpForResource g)
  then show ?thesis
    using assms Informer_ok [OF assms(1), of parse] Informer_default [OF assms(1), of parse]
    by (auto simp: answered_def ForResource_def generic_Informer_def split_beta Let_def split: option.splits)
next
  case (OpStart ord)
  then show ?thesis
    using assms Start_ok [OF assms(1)] Start_default [of parse f ord] by (auto simp: answered_def)
qed

lemma run_factory_ops_ok:
  assumes "factory_ok f" and "list_all factory_op_ok ops" and "run_factory_ops parse ops f = (outs, f')"
  shows "factory_ok f' \<and> factory_extends f f' \<and> list_all2 (answered f') ops outs
    \<and> (default_informers parse f \<longrightarrow> default_informers parse f')"
  using assms
proof (induction ops arbitrary: f outs)
  case Nil
  then show ?case by simp
next
  case (Cons op ops)
  obtain out f1 os where run: "run_factory_op parse op f = (out, f1)" "run_factory_ops parse ops f1 = (os, f')" "outs = out # os"
    using Cons.prems(3) by (auto simp: Let_def split: prod.splits)
  have ops: "factory_op_ok op" "list_all factory_op_ok ops" using Cons.prems(2) by simp_all
  note step = run_factory_op_ok [OF Cons.prems(1) ops(1) run(1)]
  then have 1: "factory_ok f1" by blast
  note IH = Cons.IH [OF 1 ops(2) run(2)]
  have "factory_extends f1 f'" using IH by blast
  with step have "factory_extends f f'" "answered f' op out" by (blast intro: factory_extends_trans answered_extends)+
  with step IH show ?case by (simp add: run(3))
qed

lemma run_factory_ops_append:
  "run_factory_ops parse (ops @ ops') f =
     (let (outs, f1) = run_factory_ops parse ops f; (outs', f2) = run_factory_ops parse ops' f1 in (outs @ outs', f2))"
  by (induction ops arbitrary: f) (simp_all add: Let_def split_beta)

subsection \<open>A relist follows the server\<close>

text \<open>The objects of a namespaced kind live in namespaces that can be written in a key.\<close>

definition spaced :: "(object_key \<Rightarrow> 'o option) \<Rightarrow> bool" where
  "spaced server \<longleftrightarrow> (\<forall>k. server k \<noteq> None \<longrightarrow> ok_ns (fst k))"

definition listed :: "string \<Rightarrow> selector \<Rightarrow> (object_key \<Rightarrow> ('a, 'b) kobject option) \<Rightarrow> object_key \<Rightarrow> ('a, 'b) kobject option" where
  "listed ns sel server k =
     (case server k of
        None \<Rightarrow> None
      | Some x \<Rightarrow> if (ns = '''' \<or> fst k = ns) \<and> selector_matches sel (om_Labels (obj_meta x)) then Some x else None)"

lemma listed_all [simp]: "listed '''' [] server = server"
  by (auto simp: listed_def selector_matches_def fun_eq_iff split: option.split)

lemma cache_key_eq: "ok_ns (om_Namespace (obj_meta x)) \<Longrightarrow> ok_ns (fst k)
    \<Longrightarrow> fst k @ ''/'' @ snd k = cache_key x \<longleftrightarrow> k = obj_key x"
  using key_split_unique [of "CHR ''/''" "fst k" "om_Namespace (obj_meta x)" "snd k" "om_Name (obj_meta x)"]
  by (auto simp: cache_key_def MetaNamespaceKeyFunc_def ok_ns_def obj_key_def prod_eq_iff)

context kind_laws begin

lemma relist_spec:
  assumes wf: "typed f" and sp: "spaced (view f)" and ok: "cache_ok c" and ord: "order_ok ord"
  shows "\<exists>c' f'. relist ord (fake_List patch ki ns sel) c f = (Inr c', f') \<and> fk_Tracker f' = fk_Tracker f
    \<and> cache_ok c' \<and> cache_ns_ok c' \<and> (\<forall>k. ok_ns (fst k) \<longrightarrow> cview c' k = listed ns sel (view f) k)"
proof -
  obtain xs f' where L: "fake_List patch ki ns sel f = (Inr (Some xs), f')" "fk_Tracker f' = fk_Tracker f"
    and xs: "set xs = {x. \<exists>k. view f k = Some x \<and> (ns = '''' \<or> fst k = ns)
         \<and> selector_matches sel (om_Labels (obj_meta x))}"
    using list_spec [OF wf, of patch ns sel] by auto
  have key: "obj_key x = k" "ok_ns (om_Namespace (obj_meta x))" if "view f k = Some x" for k x
  proof -
    show k: "obj_key x = k" by (rule view_key [OF wf that])
    have "ok_ns (fst k)" using sp that unfolding spaced_def by blast
    then show "ok_ns (om_Namespace (obj_meta x))" by (simp add: k [symmetric] obj_key_def)
  qed
  have mem: "x \<in> set xs \<longleftrightarrow> listed ns sel (view f) (obj_key x) = Some x" for x
  proof -
    have "x \<in> set xs \<longleftrightarrow> view f (obj_key x) = Some x \<and> (ns = '''' \<or> fst (obj_key x) = ns)
        \<and> selector_matches sel (om_Labels (obj_meta x))"
      unfolding xs mem_Collect_eq using key(1) [of _ x] by metis
    then show ?thesis by (cases "view f (obj_key x)") (auto simp: listed_def)
  qed
  have ns_ok: "ok_ns (om_Namespace (obj_meta x))" if "x \<in> set xs" for x using that key(2) xs by auto
  have "inj_on cache_key (set xs)"
  proof (rule inj_onI)
    fix x y assume x: "x \<in> set xs" and y: "y \<in> set xs" and e: "cache_key x = cache_key y"
    have "fst (obj_key y) @ ''/'' @ snd (obj_key y) = cache_key y"
      using cache_key_eq [OF ns_ok [OF y], of "obj_key y"] ns_ok [OF y] by (simp add: obj_key_def)
    then have "obj_key y = obj_key x"
      using cache_key_eq [OF ns_ok [OF x], of "obj_key y"] ns_ok [OF y] e by (simp add: obj_key_def)
    then show "x = y" using x y by (simp add: mem)
  qed
  note look = replace_cache_lookup [OF ok ord this]
  let ?c = "replace_cache ord xs c"
  have "cview ?c k = listed ns sel (view f) k" if "ok_ns (fst k)" for k
  proof (rule option_eq_by_Some)
    fix x
    have "k = obj_key x" if "listed ns sel (view f) k = Some x"
      using key(1) that by (auto simp: listed_def split: option.splits if_splits)
    then show "cview ?c k = Some x \<longleftrightarrow> listed ns sel (view f) k = Some x"
      unfolding cview_def look using cache_key_eq [OF ns_ok that] mem ns_ok by blast
  qed
  moreover have "cache_ns_ok ?c" using ns_ok unfolding cache_ns_ok_def look by blast
  moreover have "relist ord (fake_List patch ki ns sel) c f = (Inr ?c, f')"
    by (simp add: relist_def bnd_def L(1))
  ultimately show ?thesis using L(2) replace_cache_ok(1) [OF ok ord] by blast
qed

end

subsection \<open>Properties\<close>

definition is_informer_option :: "informer_option \<Rightarrow> bool" where
  "is_informer_option opt \<longleftrightarrow> (\<exists>c. opt = WithCustomResyncConfig c) \<or> (\<exists>t. opt = WithTweakListOptions t)
     \<or> (\<exists>ns. opt = WithNamespace ns)"

lemma new_factory_ok:
  assumes "\<forall>opt \<in> set opts. is_informer_option opt"
  shows "factory_ok (NewSharedInformerFactoryWithOptions client resync opts)"
    and "fa_informers (NewSharedInformerFactoryWithOptions client resync opts) = []"
proof -
  have "fa_informers (fold (\<lambda>opt factory. opt factory) opts f) = fa_informers f
      \<and> fa_startedInformers (fold (\<lambda>opt factory. opt factory) opts f) = fa_startedInformers f
      \<and> fa_runs (fold (\<lambda>opt factory. opt factory) opts f) = fa_runs f" for f
    using assms
  proof (induction opts arbitrary: f)
    case (Cons opt opts)
    have "is_informer_option opt" using Cons.prems by simp
    then show ?case using Cons
      by (auto simp: is_informer_option_def WithCustomResyncConfig_def WithTweakListOptions_def WithNamespace_def)
  qed simp
  then show "factory_ok (NewSharedInformerFactoryWithOptions client resync opts)"
    "fa_informers (NewSharedInformerFactoryWithOptions client resync opts) = []"
    by (simp_all add: NewSharedInformerFactoryWithOptions_def factory_ok_def)
qed

text \<open>C25: However a factory is used, two requests for informers, by kind or by resource, are handed the same
  informer exactly when they ask for the same kind: the default informer of that kind, over the factory's
  client with its namespace, filter and resync period, which stays filed under the kind and unchanged ever
  after. A resource of no kind is refused. Every informer is run at most once, however often the factory is
  started.\<close>

theorem factory_shares_informers:
  assumes "\<forall>opt \<in> set opts. is_informer_option opt" and "list_all factory_op_ok (ops @ ops')"
    and "run_factory_ops parse ops (NewSharedInformerFactoryWithOptions client resync opts) = (outs, f)"
    and "run_factory_ops parse ops' f = (outs', f')"
  shows "length (outs @ outs') = length (ops @ ops') \<and> factory_ok f' \<and> factory_extends f f'
    \<and> (\<forall>i < length (ops @ ops'). case asked_kind ((ops @ ops') ! i) of
          None \<Rightarrow> \<forall>p. (outs @ outs') ! i \<noteq> Handed p
        | Some k \<Rightarrow> \<exists>p. (outs @ outs') ! i = Handed p \<and> map_of (fa_informers f') k = Some p
            \<and> fa_heap f' ! p = defaultInformer parse (fa_namespace f') (fa_tweakListOptions f') k (fa_client f') (resync_period f' k))
    \<and> (\<forall>i < length (ops @ ops'). \<forall>j < length (ops @ ops'). \<forall>p q.
          (outs @ outs') ! i = Handed p \<longrightarrow> (outs @ outs') ! j = Handed q \<longrightarrow>
            (p = q \<longleftrightarrow> asked_kind ((ops @ ops') ! i) = asked_kind ((ops @ ops') ! j)))"
proof -
  let ?f0 = "NewSharedInformerFactoryWithOptions client resync opts" and ?ops = "ops @ ops'" and ?outs = "outs @ outs'"
  have run: "run_factory_ops parse ?ops ?f0 = (?outs, f')"
    using assms(3,4) by (simp add: run_factory_ops_append)
  have d0: "default_informers parse ?f0" using new_factory_ok(2) [OF assms(1)] by (simp add: default_informers_def)
  have all: "factory_ok f'" "list_all2 (answered f') ?ops ?outs" "default_informers parse f'"
    using run_factory_ops_ok [OF new_factory_ok(1) [OF assms(1)] assms(2) run] d0 by blast+
  have "list_all factory_op_ok ops" "list_all factory_op_ok ops'" using assms(2) by simp_all
  then have ext: "factory_extends f f'"
    using run_factory_ops_ok [OF new_factory_ok(1) [OF assms(1)] _ assms(3)] run_factory_ops_ok [OF _ _ assms(4)] by blast
  have len: "length ?outs = length ?ops" using list_all2_lengthD [OF all(2)] by simp
  have ans: "answered f' (?ops ! i) (?outs ! i)" if "i < length ?ops" for i using list_all2_nthD [OF all(2) that] .
  have default: "fa_heap f' ! p = defaultInformer parse (fa_namespace f') (fa_tweakListOptions f') k (fa_client f') (resync_period f' k)"
    if "map_of (fa_informers f') k = Some p" for k p using all(3) that unfolding default_informers_def by blast
  have asked: "\<exists>k. asked_kind (?ops ! i) = Some k \<and> map_of (fa_informers f') k = Some p"
    if "i < length ?ops" "?outs ! i = Handed p" for i p
    using ans [OF that(1)] that(2) by (auto simp: answered_def split: option.splits)
  have kind: "informer_kind (fa_heap f' ! p) = k" if "map_of (fa_informers f') k = Some p" for k p
    using all(1) that unfolding factory_ok_def by blast
  have "case asked_kind (?ops ! i) of
          None \<Rightarrow> \<forall>p. ?outs ! i \<noteq> Handed p
        | Some k \<Rightarrow> \<exists>p. ?outs ! i = Handed p \<and> map_of (fa_informers f') k = Some p
            \<and> fa_heap f' ! p = defaultInformer parse (fa_namespace f') (fa_tweakListOptions f') k (fa_client f') (resync_period f' k)"
    if "i < length ?ops" for i
    using ans [OF that] default by (cases "asked_kind (?ops ! i)") (auto simp: answered_def)
  moreover have "p = q \<longleftrightarrow> asked_kind (?ops ! i) = asked_kind (?ops ! j)"
    if "i < length ?ops" "j < length ?ops" "?outs ! i = Handed p" "?outs ! j = Handed q" for i j p q
    using asked [OF that(1,3)] asked [OF that(2,4)] kind by (metis option.inject)
  ultimately show ?thesis using all(1) ext len by blast
qed

definition demo_parse :: "string \<Rightarrow> selector" where
  "demo_parse s = []"

definition demo_factory :: informer_factory where
  "demo_factory = NewSharedInformerFactoryWithOptions
     (FakeNetworkingV1alpha1 (\<lambda>pt payload x. Inr x)) 0 [WithNamespace ''prod'']"

lemma demo_option: "\<forall>opt \<in> set [WithNamespace ''prod'']. is_informer_option opt"
  by (auto simp: is_informer_option_def)

lemma kind_order_id: "kind_order_ok (\<lambda>ks. ks)"
  by (simp add: kind_order_ok_def)

theorem factory_shares_informers_witness:
  "\<exists>outs f outs' f'. run_factory_ops demo_parse [OpInformer KindGateway, OpStart (\<lambda>ks. ks)] demo_factory = (outs, f)
     \<and> run_factory_ops demo_parse [OpForResource (apis_gvr ''httproutes''), OpStart (\<lambda>ks. ks),
          OpForResource (apis_gvr ''gateways''), OpForResource (apis_gvr ''ingresses'')] f = (outs', f')
     \<and> outs ! 0 = Handed 0 \<and> outs' ! 0 = Handed 1 \<and> outs' ! 2 = outs ! 0 \<and> (\<forall>p. outs' ! 3 \<noteq> Handed p)
     \<and> fa_runs f' = [0, 1] \<and> fa_heap f' ! 0 = NewFilteredGatewayInformer demo_parse (fa_client f') ''prod'' 0 True None"
proof -
  let ?ops = "[OpInformer KindGateway, OpStart (\<lambda>ks. ks)]" and ?ops' = "[OpForResource (apis_gvr ''httproutes''), OpStart (\<lambda>ks. ks),
          OpForResource (apis_gvr ''gateways''), OpForResource (apis_gvr ''ingresses'')]"
  obtain outs f where 1: "run_factory_ops demo_parse ?ops demo_factory = (outs, f)" by force
  obtain outs' f' where 2: "run_factory_ops demo_parse ?ops' f = (outs', f')" by force
  have ok: "list_all factory_op_ok (?ops @ ?ops')" by (simp add: kind_order_id)
  note P = factory_shares_informers [OF demo_option ok, of demo_parse "FakeNetworkingV1alpha1 (\<lambda>pt payload x. Inr x)" 0,
      folded demo_factory_def, OF 1 2]
  have kinds: "map_of informer_resources (apis_gvr ''httproutes'') = Some KindHTTPRoute"
    "map_of informer_resources (apis_gvr ''gateways'') = Some KindGateway" "map_of informer_resources (apis_gvr ''ingresses'') = None"
    by (simp_all add: informer_resources_def apis_gvr_def)
  note run = Informer_def InformerFor_def ForResource_def generic_Informer_def Start_def range_informers_def go_keys_def List.map_filter_def kinds
  have f: "outs = [Handed 0, Done]" "fa_informers f = [(KindGateway, 0)]" "fa_startedInformers f = [(KindGateway, True)]" "fa_runs f = [0]"
      "length (fa_heap f) = 1" "fa_customResync f = []" "fa_defaultResync f = 0" "fa_namespace f = ''prod''" "fa_tweakListOptions f = None"
    using 1 by (auto simp: demo_factory_def NewSharedInformerFactoryWithOptions_def WithNamespace_def run)
  have f': "fa_runs f' = [0, 1]" "outs' ! 0 = Handed 1" "fa_customResync f' = []" "fa_defaultResync f' = 0" "length outs' = 4"
    using 2 by (auto simp: f run)
  have e: "fa_namespace f' = ''prod''" "fa_tweakListOptions f' = None"
    using P unfolding factory_extends_def by (simp_all add: f)
  have i: "(outs @ outs') ! 0 = outs ! 0" "(outs @ outs') ! 4 = outs' ! 2" "(outs @ outs') ! 5 = outs' ! 3"
    by (simp_all add: f nth_Cons')
  have out: "case asked_kind ((?ops @ ?ops') ! i) of
          None \<Rightarrow> \<forall>p. (outs @ outs') ! i \<noteq> Handed p
        | Some k \<Rightarrow> \<exists>p. (outs @ outs') ! i = Handed p \<and> map_of (fa_informers f') k = Some p
            \<and> fa_heap f' ! p = defaultInformer demo_parse (fa_namespace f') (fa_tweakListOptions f') k (fa_client f') (resync_period f' k)"
    if "i < 6" for i using P that by simp
  have same: "p = q \<longleftrightarrow> asked_kind ((?ops @ ?ops') ! i) = asked_kind ((?ops @ ?ops') ! j)"
    if "i < 6" "j < 6" "(outs @ outs') ! i = Handed p" "(outs @ outs') ! j = Handed q" for i j p q using P that by simp
  have made: "fa_heap f' ! 0 = NewFilteredGatewayInformer demo_parse (fa_client f') ''prod'' 0 True None"
    using out [of 0] by (auto simp: i f e resync_period_def f')
  obtain q where "outs' ! 2 = Handed q" using out [of 4] by (auto simp: i kinds)
  moreover from this have "0 = q" using same [of 0 4 0 q] by (simp add: i f kinds)
  moreover have "\<forall>p. outs' ! 3 \<noteq> Handed p" using out [of 5] by (simp add: i kinds)
  ultimately show ?thesis using 1 2 f(1) f' made by auto
qed

text \<open>\<open>ForResource\<close> serves exactly the seven resources of the group and version: it returns the informer
  the kind's own accessor returns, and refuses any other resource without touching the factory. Every kind
  has a resource.\<close>

theorem ForResource_serves:
  assumes ok: "factory_ok f"
  shows "(case map_of informer_resources g of
      None \<Rightarrow> (\<exists>e. ForResource parse g f = (Inl (Fail e), f))
    | Some kind \<Rightarrow> \<exists>p f'. ForResource parse g f = (Inr \<lparr>gi_informer = p, gi_resource = (gvr_Group g, gvr_Resource g)\<rparr>, f')
        \<and> Informer parse kind f = (p, f') \<and> Informer parse kind f' = (p, f')
        \<and> informer_kind (fa_heap f' ! p) = kind)
    \<and> set (map snd informer_resources) = UNIV"
proof (cases "map_of informer_resources g")
  case None
  then show ?thesis using informer_resources_kinds(2) by (simp add: ForResource_def)
next
  case (Some kind)
  obtain p f' where i: "Informer parse kind f = (p, f')" by force
  have f': "factory_ok f'" "map_of (fa_informers f') kind = Some p"
    using Informer_ok [OF ok, of parse kind] by (simp_all add: i)
  then have "informer_kind (fa_heap f' ! p) = kind" by (simp add: factory_ok_def)
  moreover have "ForResource parse g f = (Inr \<lparr>gi_informer = p, gi_resource = (gvr_Group g, gvr_Resource g)\<rparr>, f')"
    using Some i by (simp add: ForResource_def)
  moreover have "Informer parse kind f' = (p, f')" using f'(2) by (simp add: Informer_def InformerFor_def)
  ultimately show ?thesis using Some i informer_resources_kinds(2) by auto
qed

theorem ForResource_serves_witness:
  "(\<exists>p f'. ForResource demo_parse (apis_gvr ''httproutes'') demo_factory
        = (Inr \<lparr>gi_informer = p, gi_resource = (''networking.x-k8s.io'', ''httproutes'')\<rparr>, f') \<and> informer_kind (fa_heap f' ! p) = KindHTTPRoute)
   \<and> (\<exists>e. ForResource demo_parse (apis_gvr ''ingresses'') demo_factory = (Inl (Fail e), demo_factory))"
proof -
  have f: "factory_ok demo_factory" unfolding demo_factory_def by (rule new_factory_ok(1) [OF demo_option])
  have "map_of informer_resources (apis_gvr ''httproutes'') = Some KindHTTPRoute"
    "map_of informer_resources (apis_gvr ''ingresses'') = None"
    by (simp_all add: informer_resources_def apis_gvr_def)
  with ForResource_serves [OF f, of demo_parse "apis_gvr ''httproutes''"]
    ForResource_serves [OF f, of demo_parse "apis_gvr ''ingresses''"] show ?thesis
    by (auto simp: apis_gvr_def)
qed

text \<open>A factory that has been started waits for every informer it holds: the answer has exactly their
  kinds, each with what waiting for that informer returned, whatever the order the maps are visited in.\<close>

theorem WaitForCacheSync_answers:
  assumes ok: "factory_ok f" and o1: "kind_order_ok o1" and o2: "kind_order_ok o2"
  shows "map_of (WaitForCacheSync o2 synced (Start o1 f)) k = map_option synced (map_of (fa_informers f) k)"
proof -
  let ?g = "Start o1 f"
  note s = Start_ok [OF ok o1]
  have inf: "fa_informers ?g = fa_informers f"
    using start_loop_ok [OF ok, of "range_informers o1 (fa_informers f)"] set_range_informers(1) [OF o1]
    by (simp add: Start_def)
  have fold_upd: "map_of (fold (\<lambda>(t, i) res. AList.update t (synced i) res) es m) k
      = (case map_of (rev es) k of None \<Rightarrow> map_of m k | Some i \<Rightarrow> Some (synced i))"
    for es :: "(api_kind \<times> nat) list" and m
    by (induction es arbitrary: m) (auto simp: update_conv' map_add_def split: option.splits)
  let ?es = "filter (\<lambda>(t, i). map_of (fa_startedInformers ?g) t = Some True) (range_informers o2 (fa_informers f))"
  have es: "set ?es = {(t, i). map_of (fa_informers f) t = Some i}"
    using s set_range_informers(1) [OF o2, of "fa_informers f"] by auto
  have "distinct (map fst ?es)"
    using set_range_informers(2) [OF o2, of "fa_informers f"] by (simp add: distinct_map_filter)
  then have "map_of (rev ?es) k = map_of (fa_informers f) k"
    using es by (intro option_eq_by_Some) (simp add: map_of_eq_Some_iff rev_map [symmetric])
  then show ?thesis by (simp add: WaitForCacheSync_def inf fold_upd split: option.split)
qed

theorem WaitForCacheSync_answers_witness:
  "map_of (WaitForCacheSync (\<lambda>ks. ks) (\<lambda>p. p = 0)
      (Start rev (snd (Informer demo_parse KindTCPRoute (snd (Informer demo_parse KindGateway demo_factory))))))
    = [KindGateway \<mapsto> True, KindTCPRoute \<mapsto> False]"
proof -
  have f: "factory_ok demo_factory" unfolding demo_factory_def by (rule new_factory_ok(1) [OF demo_option])
  let ?f = "snd (Informer demo_parse KindTCPRoute (snd (Informer demo_parse KindGateway demo_factory)))"
  have ok: "factory_ok ?f" using Informer_ok [OF conjunct1 [OF Informer_ok [OF f]]] by blast
  have r: "kind_order_ok rev" by (simp add: kind_order_ok_def)
  have "map_of (fa_informers ?f) = [KindGateway \<mapsto> 0, KindTCPRoute \<mapsto> 1]"
    by (simp add: demo_factory_def NewSharedInformerFactoryWithOptions_def WithNamespace_def Informer_def InformerFor_def
        fun_upd_twist)
  then show ?thesis
    by (intro ext) (simp add: WaitForCacheSync_answers [OF ok r kind_order_id])
qed

text \<open>C26: When an informer of gateways relists, its cache holds exactly the gateways the server has in its
  namespace that match its filter, whatever it held before; the server is only read.\<close>

theorem gateway_relist_follows_server:
  assumes "gateways.typed f" and "spaced (gateways.view f)" and "cache_ok c" and "order_ok ord"
    and "NewFilteredGatewayInformer parse (FakeNetworkingV1alpha1 patch) ns resync idx tweak = GatewayInformer gi"
  shows "\<exists>c' f'. relist ord (in_ListFunc gi opts) c f = (Inr c', f') \<and> fk_Tracker f' = fk_Tracker f \<and> cache_ok c'
    \<and> (\<forall>k. ok_ns (fst k) \<longrightarrow>
        cview c' k = listed ns (parse (lo_LabelSelector (tweaked tweak opts))) (gateways.view f) k)"
proof -
  have "in_ListFunc gi opts = fake_List patch gateways_info ns (parse (lo_LabelSelector (tweaked tweak opts)))"
    using assms(5) by (auto simp: NewFilteredGatewayInformer_def NewFilteredInformer_def FakeNetworkingV1alpha1_def
        FakeGateways_def fake_client_def)
  then show ?thesis using gateways.relist_spec [OF assms(1-4)] by fastforce
qed

text \<open>A server with gateways of two teams in two namespaces, and the cache of an informer of one team in one
  namespace, which still holds a gateway that has gone.\<close>

definition team_gateway :: "string \<Rightarrow> string \<Rightarrow> string \<Rightarrow> gateway" where
  "team_gateway ns nm team =
     \<lparr>obj_meta = zero_meta\<lparr>om_Name := nm, om_Namespace := ns, om_Labels := Some [(''team'', team)]\<rparr>,
      obj_spec = \<lparr>gs_GatewayClassName = ''istio'', gs_Listeners = [], gs_Addresses = []\<rparr>,
      obj_status = obj_status (ki_Zero gateways_info)\<rparr>"

definition teams_fake :: fake where
  "teams_fake = \<lparr>fk_Tracker = \<lparr>tr_Objects = [(apis_gvr ''gateways'',
       [((''prod'', ''app''), RGateway (team_gateway ''prod'' ''app'' ''web'')),
        ((''prod'', ''db''), RGateway (team_gateway ''prod'' ''db'' ''data'')),
        ((''test'', ''app''), RGateway (team_gateway ''test'' ''app'' ''web''))])], tr_Watchers = []\<rparr>, fk_Actions = []\<rparr>"

definition team_parse :: "string \<Rightarrow> selector" where
  "team_parse s = (if s = ''team=web'' then [(''team'', ''web'')] else [])"

definition stale_cache :: "(gateway_spec, gateway_status) cache" where
  "stale_cache = run_cache_op (CacheAdd (team_gateway ''prod'' ''old'' ''web'')) (NewIndexer True)"

theorem gateway_relist_follows_server_witness:
  "\<exists>gi c' f'. NewFilteredGatewayInformer team_parse (FakeNetworkingV1alpha1 (\<lambda>pt payload x. Inr x)) ''prod'' 0 True
         (Some (\<lambda>o'. o'\<lparr>lo_LabelSelector := ''team=web''\<rparr>)) = GatewayInformer gi
     \<and> cview stale_cache (''prod'', ''old'') \<noteq> None
     \<and> relist rev (in_ListFunc gi no_list_options) stale_cache teams_fake = (Inr c', f')
     \<and> cview c' (''prod'', ''app'') = Some (team_gateway ''prod'' ''app'' ''web'') \<and> cview c' (''prod'', ''db'') = None
     \<and> cview c' (''test'', ''app'') = None \<and> cview c' (''prod'', ''old'') = None"
proof -
  have res: "ki_Resource gateways_info = apis_gvr ''gateways''" "ki_Inj gateways_info = RGateway"
      "\<And>g. ki_Prj gateways_info (RGateway g) = Some g"
    by (simp_all add: gateways_info_def)
  have t: "tview (fk_Tracker teams_fake) (ki_Resource gateways_info) = [(''prod'', ''app'') \<mapsto> RGateway (team_gateway ''prod'' ''app'' ''web''),
      (''prod'', ''db'') \<mapsto> RGateway (team_gateway ''prod'' ''db'' ''data''), (''test'', ''app'') \<mapsto> RGateway (team_gateway ''test'' ''app'' ''web'')]"
    by (auto simp: tview_def tracker_objs_def teams_fake_def res fun_eq_iff)
  have k: "obj_key (team_gateway ns nm team) = (ns, nm)" "om_Labels (obj_meta (team_gateway ns nm team)) = Some [(''team'', team)]" for ns nm team
    by (simp_all add: team_gateway_def obj_key_def)
  have typed: "gateways.typed teams_fake"
    unfolding gateways.typed_def t by (auto simp: res k split: if_splits)
  have v: "gateways.view teams_fake = [(''prod'', ''app'') \<mapsto> team_gateway ''prod'' ''app'' ''web'',
      (''prod'', ''db'') \<mapsto> team_gateway ''prod'' ''db'' ''data'', (''test'', ''app'') \<mapsto> team_gateway ''test'' ''app'' ''web'']"
  proof -
    have upd: "(\<lambda>k. Option.bind ((m(a \<mapsto> x)) k) f) = (\<lambda>k. Option.bind (m k) f)(a := f x)"
      for m :: "object_key \<Rightarrow> runtime_object option" and a x and f :: "runtime_object \<Rightarrow> gateway option" by auto
    have "gateways.view teams_fake = (\<lambda>k. Option.bind (tview (fk_Tracker teams_fake) (ki_Resource gateways_info) k) (ki_Prj gateways_info))"
      by (simp only: gateways.view_def [abs_def])
    then show ?thesis unfolding t upd res(3) by simp
  qed
  have spaced: "spaced (gateways.view teams_fake)" by (auto simp: spaced_def v ok_ns_def split: if_splits)
  have cache: "cache_ok stale_cache" using run_cache_op_ok [of "NewIndexer True" "CacheAdd (team_gateway ''prod'' ''old'' ''web'')"] by (simp add: stale_cache_def)
  have old: "cview stale_cache (''prod'', ''old'') \<noteq> None"
    using run_cache_op_ok [of "NewIndexer True :: (gateway_spec, gateway_status) cache" "CacheAdd (team_gateway ''prod'' ''old'' ''web'')"]
    by (simp add: stale_cache_def cview_def MetaNamespaceKeyFunc_def team_gateway_def)
  let ?tweak = "Some (\<lambda>o'. o'\<lparr>lo_LabelSelector := ''team=web''\<rparr>) :: tweak_func option"
  obtain gi where gi: "NewFilteredGatewayInformer team_parse (FakeNetworkingV1alpha1 (\<lambda>pt payload x. Inr x)) ''prod'' 0 True ?tweak
       = GatewayInformer gi" by (simp add: NewFilteredGatewayInformer_def)
  obtain c' f' where run: "relist rev (in_ListFunc gi no_list_options) stale_cache teams_fake = (Inr c', f')"
    and c': "\<And>k. ok_ns (fst k) \<Longrightarrow> cview c' k = listed ''prod'' [(''team'', ''web'')] (gateways.view teams_fake) k"
    using gateway_relist_follows_server [OF typed spaced cache order_ok_rev gi, of "no_list_options"]
    by (auto simp: tweaked_def team_parse_def)
  have ns: "ok_ns ''prod''" "ok_ns ''test''" by (simp_all add: ok_ns_def)
  show ?thesis
    using gi old run ns by (simp add: c' listed_def v k selector_matches_def requirement_matches_def mget_def)
qed

end
