(* ===== verification/World.thy ===== *)
theory World
  imports Passes Informers
begin

text \<open>
  The world the controller runs in, put together from the models: the fake kubernetes and Gateway
  API clients over their trackers, the informer caches behind the generated listers, and the
  recorded events. The reconciler \<open>newController\<close> builds over this world interprets \<open>cluster\<close>, so
  every fact proved there holds of it.
\<close>

subsection \<open>State\<close>

text \<open>\<open>w_Order\<close> is the order in which the runtime visits the items of a cache.\<close>

record world =
  w_Kube :: fake
  w_Gwapi :: fake
  w_Services :: "(service_spec, service_status) cache"
  w_Gateways :: "(gateway_spec, gateway_status) cache"
  w_HTTPRoutes :: "(httproute_spec, httproute_status) cache"
  w_Order :: key_order
  w_Events :: "event list"

definition zoom :: "('w \<Rightarrow> 'f) \<Rightarrow> ('f \<Rightarrow> 'w \<Rightarrow> 'w) \<Rightarrow> ('f, 'a) action \<Rightarrow> ('w, 'a) action" where
  "zoom get put m w = (case m (get w) of (r, f) \<Rightarrow> (r, put f w))"

definition lister_of :: "('w \<Rightarrow> 'o generated_lister) \<Rightarrow> ('o, 'w) lister" where
  "lister_of gl =
     \<lparr>l_Get = (\<lambda>ns name w. (nl_Get (gl_Namespace (gl w) ns) name, w)),
      l_List = (\<lambda>sel w. (Inr (gl_List (gl w) sel), w))\<rparr>"

text \<open>The reconciler reads the object a call returns, so a nil reply would be dereferenced.\<close>

definition deref :: "'o option \<Rightarrow> 'o result" where
  "deref p = (case p of None \<Rightarrow> Inl (Panic NilDeref) | Some x \<Rightarrow> Inr x)"

definition client_of ::
  "('w \<Rightarrow> fake) \<Rightarrow> (fake \<Rightarrow> 'w \<Rightarrow> 'w) \<Rightarrow> (string \<Rightarrow> 'o fake_iface) \<Rightarrow> ('o, 'w) typed_client" where
  "client_of get put iface =
     \<lparr>tc_Create = (\<lambda>ns x. zoom get put (bnd (fi_Create (iface ns) x) (\<lambda>p. lift (deref p)))),
      tc_Update = (\<lambda>ns x. zoom get put (bnd (fi_Update (iface ns) x) (\<lambda>p. lift (deref p)))),
      tc_Delete = (\<lambda>ns name. zoom get put (fi_Delete (iface ns) name))\<rparr>"

definition put_kube :: "fake \<Rightarrow> world \<Rightarrow> world" where
  "put_kube f w = w\<lparr>w_Kube := f\<rparr>"

definition put_gwapi :: "fake \<Rightarrow> world \<Rightarrow> world" where
  "put_gwapi f w = w\<lparr>w_Gwapi := f\<rparr>"

definition newReconciler :: "patch_fun \<Rightarrow> world reconciler" where
  "newReconciler patch =
     \<lparr>rc_Services = client_of w_Kube put_kube (fake_client patch services_info),
      rc_Gateways = client_of w_Gwapi put_gwapi (fg_Gateways (FakeNetworkingV1alpha1 patch)),
      rc_HTTPRoutes = client_of w_Gwapi put_gwapi (fg_HTTPRoutes (FakeNetworkingV1alpha1 patch)),
      rc_serviceLister = lister_of (\<lambda>w. NewServiceLister (w_Order w) (w_Services w)),
      rc_gatewayLister = lister_of (\<lambda>w. NewGatewayLister (w_Order w) (w_Gateways w)),
      rc_httprouteLister = lister_of (\<lambda>w. NewHTTPRouteLister (w_Order w) (w_HTTPRoutes w)),
      rc_Eventf = (\<lambda>e w. w\<lparr>w_Events := w_Events w @ [e]\<rparr>)\<rparr>"

subsection \<open>Frames of the fake clients\<close>

text \<open>A call on one resource leaves the objects of every other resource alone, whatever it returns.\<close>

lemma keeps_zoom:
  assumes "keeps V m" and "\<And>f w. V' (put f w) = V f" and "\<And>w. V' w = V (get w)"
  shows "keeps V' (zoom get put m)"
  using assms by (simp add: keeps_def zoom_def split_beta)

lemma keeps_zoom_other: "(\<And>f w. V (put f w) = V w) \<Longrightarrow> keeps V (zoom get put m)"
  by (simp add: keeps_def zoom_def split_beta)

lemma tview_objects:
  "(\<And>os. map_of (tr_Objects t') g = Some os \<Longrightarrow> map_of (tr_Objects t) g = Some os)
     \<Longrightarrow> (map_of (tr_Objects t') g = None \<Longrightarrow> map_of (tr_Objects t) g = None) \<Longrightarrow> tview t' g k = tview t g k"
  by (cases "map_of (tr_Objects t') g") (simp_all add: tview_unfold)

lemma tracker_add_frame:
  assumes "g \<noteq> g'" shows "keeps (\<lambda>t. tview t g' k) (tracker_add g obj ns rep)"
proof -
  have "map_of (tr_Objects (snd (tracker_add g obj ns rep t))) g' = map_of (tr_Objects t) g'" for t
    unfolding tracker_add_def Let_def using assms
    by (simp add: update_conv' split: option.split if_split)
  then show ?thesis by (simp add: keeps_def tview_unfold)
qed

lemma tracker_Get_keeps: "keeps V (tracker_Get g ns name)"
  by (auto simp: keeps_def tracker_Get_def split: option.splits)

lemma tracker_Delete_frame: "g \<noteq> g' \<Longrightarrow> keeps (\<lambda>t. tview t g' k) (tracker_Delete g ns name)"
  by (auto simp: keeps_def tracker_Delete_def tview_set tview_unfold update_conv' split: option.splits)

lemma ObjectReaction_frame:
  assumes "g \<noteq> g'"
  shows "keeps (\<lambda>t. tview t g' k) (ObjectReaction patch (CreateAction g sub ns obj))"
    and "keeps (\<lambda>t. tview t g' k) (ObjectReaction patch (UpdateAction g sub ns obj))"
    and "keeps (\<lambda>t. tview t g' k) (ObjectReaction patch (DeleteAction g ns name))"
  unfolding ObjectReaction.simps tracker_Create_def tracker_Update_def
  by (intro keeps_intro tracker_add_frame tracker_Get_keeps tracker_Delete_frame assms)+

lemma Invokes_keeps:
  assumes "keeps (\<lambda>t. tview t g' k) (ObjectReaction patch a)"
  shows "keeps (\<lambda>f. tview (fk_Tracker f) g' k) (Invokes patch a dflt)"
  using assms by (simp add: keeps_def Invokes_def Let_def split_beta)

lemma fake_frame:
  assumes "ki_Resource ki \<noteq> g'"
  shows "keeps (\<lambda>f. tview (fk_Tracker f) g' k) (fake_Create patch ki ns x)"
    and "keeps (\<lambda>f. tview (fk_Tracker f) g' k) (fake_Update patch ki ns x)"
    and "keeps (\<lambda>f. tview (fk_Tracker f) g' k) (fake_Delete patch ki ns n)"
  unfolding fake_Create_def fake_Update_def fake_Delete_def
  by (intro keeps_intro Invokes_keeps ObjectReaction_frame assms)+


subsection \<open>A fake client and a lister as an object store\<close>

context kind_laws begin

text \<open>\<open>cache\<close> and \<open>get\<close> are the parts of the world the kind lives in; \<open>wf\<close> is its invariant.\<close>

lemma fake_store:
  fixes get :: "'w \<Rightarrow> fake" and cache :: "'w \<Rightarrow> ('a, 'b) cache" and wf :: "'w \<Rightarrow> bool"
  assumes put: "\<And>f w. get (put f w) = f" "\<And>f w. cache (put f w) = cache w"
    and wf_typed: "\<And>w. wf w \<Longrightarrow> typed (get w)"
    and wf_cache: "\<And>w. wf w \<Longrightarrow> keys_ok (cache w) \<and> cache_ns_ok (cache w) \<and> order_ok (ord w)"
    and wf_put: "\<And>f w. wf w \<Longrightarrow> typed f
        \<Longrightarrow> (\<And>g k. g \<noteq> ki_Resource ki \<Longrightarrow> tview (fk_Tracker f) g k = tview (fk_Tracker (get w)) g k)
        \<Longrightarrow> (\<And>k. view f k \<noteq> None \<Longrightarrow> view (get w) k \<noteq> None \<or> ok_ns (fst k))
        \<Longrightarrow> wf (put f w)"
  shows "object_store (lister_of (\<lambda>w. namespaced_lister nm (ord w) (cache w)))
     (client_of get put (fake_client patch ki)) (\<lambda>w. cview (cache w)) (\<lambda>w. view (get w)) wf nm"
proof
  fix s ns name
  show "l_Get (lister_of (\<lambda>w. namespaced_lister nm (ord w) (cache w))) ns name s =
      (case cview (cache s) (ns, name) of None \<Rightarrow> Inl (Fail (NewNotFound nm name)) | Some x \<Rightarrow> Inr x, s)"
    by (simp add: lister_of_def lister_get)
next
  fix s sel assume wf: "wf s"
  let ?xs = "ListAll (ord s) (cache s) sel"
  have ok: "keys_ok (cache s)" "cache_ns_ok (cache s)" "order_ok (ord s)" using wf_cache [OF wf] by auto
  have "x \<in> set ?xs \<longleftrightarrow> cview (cache s) (obj_key x) = Some x \<and> ok_ns (om_Namespace (obj_meta x))
      \<and> selector_matches sel (om_Labels (obj_meta x))" for x
    using set_ListAll [OF ok(3), of "cache s" sel] cview_self [OF ok(1,2)] ok(2)
    by (auto simp: cview_def cache_ns_ok_def)
  then show "\<exists>xs. l_List (lister_of (\<lambda>w. namespaced_lister nm (ord w) (cache w))) sel s = (Inr xs, s) \<and> distinct xs
      \<and> (\<forall>x. x \<in> set xs \<longleftrightarrow> cview (cache s) (obj_key x) = Some x \<and> ok_ns (om_Namespace (obj_meta x))
             \<and> selector_matches sel (om_Labels (obj_meta x)))"
    using ListAll_distinct [OF ok(3,1), of sel]
    by (intro exI [of _ ?xs]) (simp add: lister_of_def namespaced_lister_def)
next
  fix s k and x :: "('a, 'b) kobject" assume "wf s" "ok_ns (fst k)" "cview (cache s) k = Some x"
  then show "obj_key x = k" using wf_cache cview_key by blast
next
  fix s and x :: "('a, 'b) kobject" assume wf: "wf s" and ns: "ok_ns (om_Namespace (obj_meta x))"
  let ?ns = "om_Namespace (obj_meta x)"
  have m: "ns_matches ?ns (obj_meta x)" and st: "stored ?ns x = x"
    using ns by (simp_all add: ns_matches_def stored_def ok_ns_def)
  obtain f' where c: "fake_Create patch ki ?ns x (get s) =
      ((case view (get s) (obj_key x) of
          Some _ \<Rightarrow> Inl (Fail (NewAlreadyExists (gvr_Resource (ki_Resource ki)) (om_Name (obj_meta x))))
        | None \<Rightarrow> Inr (Some x)), f')" "typed f'"
    and v: "view f' = (if view (get s) (obj_key x) = None then (view (get s))(obj_key x \<mapsto> x) else view (get s))"
    and fr: "\<And>g k. g \<noteq> ki_Resource ki \<Longrightarrow> tview (fk_Tracker f') g k = tview (fk_Tracker (get s)) g k"
    using create_spec [OF wf_typed [OF wf] m, of patch, unfolded st obj_key_def [symmetric]] by blast
  have "wf (put f' s)" by (rule wf_put [OF wf c(2) fr]) (use ns in \<open>auto simp: v obj_key_def split: if_splits\<close>)
  then show "\<exists>r s'. tc_Create (client_of get put (fake_client patch ki)) ?ns x s = (r, s') \<and> wf s'
      \<and> cview (cache s') = cview (cache s)
      \<and> (case r of
           Inl f \<Rightarrow> (\<exists>e. f = Fail e) \<and> view (get s) (obj_key x) \<noteq> None \<and> view (get s') = view (get s)
         | Inr y \<Rightarrow> same_desired x y \<and> view (get s) (obj_key x) = None
             \<and> view (get s') = (view (get s))(obj_key x \<mapsto> y))"
    using v by (cases "view (get s) (obj_key x)")
      (auto simp: client_of_def fake_client_def zoom_def bnd_def c(1) deref_def put)
next
  fix s and x :: "('a, 'b) kobject" assume wf: "wf s" and ns: "ok_ns (om_Namespace (obj_meta x))"
  let ?ns = "om_Namespace (obj_meta x)"
  have m: "ns_matches ?ns (obj_meta x)" and st: "stored ?ns x = x"
    using ns by (simp_all add: ns_matches_def stored_def ok_ns_def)
  obtain f' where c: "fake_Update patch ki ?ns x (get s) =
      ((case view (get s) (obj_key x) of
          None \<Rightarrow> Inl (Fail (NewNotFound (gvr_Resource (ki_Resource ki)) (om_Name (obj_meta x))))
        | Some _ \<Rightarrow> Inr (Some x)), f')" "typed f'"
    and v: "view f' = (if view (get s) (obj_key x) = None then view (get s) else (view (get s))(obj_key x \<mapsto> x))"
    and fr: "\<And>g k. g \<noteq> ki_Resource ki \<Longrightarrow> tview (fk_Tracker f') g k = tview (fk_Tracker (get s)) g k"
    using update_spec [OF wf_typed [OF wf] m, of patch, unfolded st obj_key_def [symmetric]] by blast
  have "wf (put f' s)" by (rule wf_put [OF wf c(2) fr]) (use ns in \<open>auto simp: v obj_key_def split: if_splits\<close>)
  then show "\<exists>r s'. tc_Update (client_of get put (fake_client patch ki)) ?ns x s = (r, s') \<and> wf s'
      \<and> cview (cache s') = cview (cache s)
      \<and> (case r of
           Inl f \<Rightarrow> (\<exists>e. f = Fail e) \<and> view (get s) (obj_key x) = None \<and> view (get s') = view (get s)
         | Inr y \<Rightarrow> same_desired x y \<and> view (get s) (obj_key x) \<noteq> None
             \<and> view (get s') = (view (get s))(obj_key x \<mapsto> y))"
    using v by (cases "view (get s) (obj_key x)")
      (auto simp: client_of_def fake_client_def zoom_def bnd_def c(1) deref_def put)
next
  fix s ns name assume wf: "wf s"
  obtain f' where c: "fake_Delete patch ki ns name (get s) =
      ((case view (get s) (ns, name) of
          None \<Rightarrow> Inl (Fail (NewNotFound (gvr_Resource (ki_Resource ki)) name)) | Some _ \<Rightarrow> Inr ()), f')" "typed f'"
    and v: "view f' = (view (get s))((ns, name) := None)"
    and fr: "\<And>g k. g \<noteq> ki_Resource ki \<Longrightarrow> tview (fk_Tracker f') g k = tview (fk_Tracker (get s)) g k"
    using delete_spec [OF wf_typed [OF wf], of patch ns name] by blast
  have "wf (put f' s)" by (rule wf_put [OF wf c(2) fr]) (auto simp: v split: if_splits)
  then show "\<exists>r s'. tc_Delete (client_of get put (fake_client patch ki)) ns name s = (r, s') \<and> wf s'
      \<and> cview (cache s') = cview (cache s)
      \<and> (case r of
           Inl f \<Rightarrow> (\<exists>e. f = Fail e) \<and> view (get s) (ns, name) = None \<and> view (get s') = view (get s)
         | Inr _ \<Rightarrow> view (get s) (ns, name) \<noteq> None \<and> view (get s') = (view (get s))((ns, name) := None))"
    using v by (cases "view (get s) (ns, name)")
      (auto simp: client_of_def fake_client_def zoom_def c(1) put fun_upd_idem)
qed

end


subsection \<open>The reconciler over the world\<close>

text \<open>The invariant: every tracker holds objects of its kinds under their keys and in namespaces, every
  cache is consistent.\<close>

definition cache_wf :: "('a, 'b) cache \<Rightarrow> bool" where
  "cache_wf c \<longleftrightarrow> cache_ok c \<and> cache_ns_ok c"

definition world_ok :: "world \<Rightarrow> bool" where
  "world_ok w \<longleftrightarrow> services.typed (w_Kube w) \<and> gateways.typed (w_Gwapi w) \<and> httproutes.typed (w_Gwapi w)
     \<and> spaced (services.view (w_Kube w)) \<and> spaced (gateways.view (w_Gwapi w)) \<and> spaced (httproutes.view (w_Gwapi w))
     \<and> cache_wf (w_Services w) \<and> cache_wf (w_Gateways w) \<and> cache_wf (w_HTTPRoutes w) \<and> order_ok (w_Order w)"

lemma info_resources:
  "ki_Resource gateways_info \<noteq> ki_Resource httproutes_info" "ki_Resource httproutes_info \<noteq> ki_Resource gateways_info"
  by (simp_all add: gateways_info_def httproutes_info_def apis_gvr_def)

lemma world_okD:
  assumes "world_ok w"
  shows "services.typed (w_Kube w)" "gateways.typed (w_Gwapi w)" "httproutes.typed (w_Gwapi w)"
    "keys_ok (w_Services w) \<and> cache_ns_ok (w_Services w) \<and> order_ok (w_Order w)"
    "keys_ok (w_Gateways w) \<and> cache_ns_ok (w_Gateways w) \<and> order_ok (w_Order w)"
    "keys_ok (w_HTTPRoutes w) \<and> cache_ns_ok (w_HTTPRoutes w) \<and> order_ok (w_Order w)"
  using assms by (simp_all add: world_ok_def cache_wf_def cache_ok_def)

lemma spacedI: "spaced u \<Longrightarrow> (\<And>k. v k \<noteq> None \<Longrightarrow> u k \<noteq> None \<or> ok_ns (fst k)) \<Longrightarrow> spaced v"
  unfolding spaced_def by blast

lemma world_ok_put:
  "world_ok w \<Longrightarrow> services.typed f
     \<Longrightarrow> (\<And>k. services.view f k \<noteq> None \<Longrightarrow> services.view (w_Kube w) k \<noteq> None \<or> ok_ns (fst k))
     \<Longrightarrow> world_ok (put_kube f w)"
  "world_ok w \<Longrightarrow> gateways.typed f \<Longrightarrow> httproutes.typed f
     \<Longrightarrow> (\<And>k. gateways.view f k \<noteq> None \<Longrightarrow> gateways.view (w_Gwapi w) k \<noteq> None \<or> ok_ns (fst k))
     \<Longrightarrow> (\<And>k. httproutes.view f k \<noteq> None \<Longrightarrow> httproutes.view (w_Gwapi w) k \<noteq> None \<or> ok_ns (fst k))
     \<Longrightarrow> world_ok (put_gwapi f w)"
  unfolding world_ok_def put_kube_def put_gwapi_def
  subgoal using spacedI [of "services.view (w_Kube w)" "services.view f"] by simp
  subgoal using spacedI [of "gateways.view (w_Gwapi w)" "gateways.view f"]
      spacedI [of "httproutes.view (w_Gwapi w)" "httproutes.view f"] by simp
  done

lemma typed_frame:
  assumes "\<And>g k. g \<noteq> g0 \<Longrightarrow> tview (fk_Tracker f) g k = tview (fk_Tracker f0) g k"
  shows "g0 \<noteq> ki_Resource gateways_info \<Longrightarrow> gateways.typed f0 \<Longrightarrow> gateways.typed f"
    and "g0 \<noteq> ki_Resource httproutes_info \<Longrightarrow> httproutes.typed f0 \<Longrightarrow> httproutes.typed f"
  using assms by (simp_all add: gateways.typed_def httproutes.typed_def)

lemma view_frame:
  assumes "\<And>g k. g \<noteq> g0 \<Longrightarrow> tview (fk_Tracker f) g k = tview (fk_Tracker f0) g k"
  shows "g0 \<noteq> ki_Resource gateways_info \<Longrightarrow> gateways.view f = gateways.view f0"
    and "g0 \<noteq> ki_Resource httproutes_info \<Longrightarrow> httproutes.view f = httproutes.view f0"
  using assms by (simp_all add: gateways.view_def httproutes.view_def fun_eq_iff)

lemma world_ok_frame:
  assumes "world_ok w"
  shows "gateways.typed f \<Longrightarrow> (\<And>g k. g \<noteq> ki_Resource gateways_info
      \<Longrightarrow> tview (fk_Tracker f) g k = tview (fk_Tracker (w_Gwapi w)) g k)
      \<Longrightarrow> (\<And>k. gateways.view f k \<noteq> None \<Longrightarrow> gateways.view (w_Gwapi w) k \<noteq> None \<or> ok_ns (fst k))
      \<Longrightarrow> world_ok (put_gwapi f w)"
    and "httproutes.typed f \<Longrightarrow> (\<And>g k. g \<noteq> ki_Resource httproutes_info
      \<Longrightarrow> tview (fk_Tracker f) g k = tview (fk_Tracker (w_Gwapi w)) g k)
      \<Longrightarrow> (\<And>k. httproutes.view f k \<noteq> None \<Longrightarrow> httproutes.view (w_Gwapi w) k \<noteq> None \<or> ok_ns (fst k))
      \<Longrightarrow> world_ok (put_gwapi f w)"
  subgoal
    using typed_frame(2) [OF _ info_resources(1), of f "w_Gwapi w"] view_frame(2) [OF _ info_resources(1), of f "w_Gwapi w"]
    by (intro world_ok_put(2) assms) (simp_all add: world_okD [OF assms])
  subgoal
    using typed_frame(1) [OF _ info_resources(2), of f "w_Gwapi w"] view_frame(1) [OF _ info_resources(2), of f "w_Gwapi w"]
    by (intro world_ok_put(2) assms) (simp_all add: world_okD [OF assms])
  done

lemma fake_ifaces:
  "FakeGateways patch = fake_client patch gateways_info" "FakeHTTPRoutes patch = fake_client patch httproutes_info"
  by (simp_all add: FakeGateways_def FakeHTTPRoutes_def fun_eq_iff)

lemma service_store:
  "object_store (rc_serviceLister (newReconciler patch)) (rc_Services (newReconciler patch))
     (\<lambda>w. cview (w_Services w)) (\<lambda>w. services.view (w_Kube w)) world_ok ''service''"
proof -
  have "object_store (lister_of (\<lambda>w. namespaced_lister ''service'' (w_Order w) (w_Services w)))
     (client_of w_Kube put_kube (fake_client patch services_info))
     (\<lambda>w. cview (w_Services w)) (\<lambda>w. services.view (w_Kube w)) world_ok ''service''"
  proof (rule services.fake_store)
    show "world_ok (put_kube f w)" if "world_ok w" "services.typed f"
        "\<And>k. services.view f k \<noteq> None \<Longrightarrow> services.view (w_Kube w) k \<noteq> None \<or> ok_ns (fst k)" for f w
      using that by (rule world_ok_put(1))
  qed (simp_all add: put_kube_def world_okD)
  then show ?thesis by (simp add: newReconciler_def NewServiceLister_def)
qed

lemma gateway_store:
  "object_store (rc_gatewayLister (newReconciler patch)) (rc_Gateways (newReconciler patch))
     (\<lambda>w. cview (w_Gateways w)) (\<lambda>w. gateways.view (w_Gwapi w)) world_ok ''gateway''"
proof -
  have "object_store (lister_of (\<lambda>w. namespaced_lister ''gateway'' (w_Order w) (w_Gateways w)))
     (client_of w_Gwapi put_gwapi (fake_client patch gateways_info))
     (\<lambda>w. cview (w_Gateways w)) (\<lambda>w. gateways.view (w_Gwapi w)) world_ok ''gateway''"
  proof (rule gateways.fake_store)
    show "world_ok (put_gwapi f w)" if "world_ok w" "gateways.typed f" "\<And>g k. g \<noteq> ki_Resource gateways_info
        \<Longrightarrow> tview (fk_Tracker f) g k = tview (fk_Tracker (w_Gwapi w)) g k"
        "\<And>k. gateways.view f k \<noteq> None \<Longrightarrow> gateways.view (w_Gwapi w) k \<noteq> None \<or> ok_ns (fst k)" for f w
      using that by (rule world_ok_frame(1))
  qed (simp_all add: put_gwapi_def world_okD)
  then show ?thesis
    by (simp add: newReconciler_def NewGatewayLister_def FakeNetworkingV1alpha1_def fake_ifaces)
qed

lemma httproute_store:
  "object_store (rc_httprouteLister (newReconciler patch)) (rc_HTTPRoutes (newReconciler patch))
     (\<lambda>w. cview (w_HTTPRoutes w)) (\<lambda>w. httproutes.view (w_Gwapi w)) world_ok ''httproute''"
proof -
  have "object_store (lister_of (\<lambda>w. namespaced_lister ''httproute'' (w_Order w) (w_HTTPRoutes w)))
     (client_of w_Gwapi put_gwapi (fake_client patch httproutes_info))
     (\<lambda>w. cview (w_HTTPRoutes w)) (\<lambda>w. httproutes.view (w_Gwapi w)) world_ok ''httproute''"
  proof (rule httproutes.fake_store)
    show "world_ok (put_gwapi f w)" if "world_ok w" "httproutes.typed f" "\<And>g k. g \<noteq> ki_Resource httproutes_info
        \<Longrightarrow> tview (fk_Tracker f) g k = tview (fk_Tracker (w_Gwapi w)) g k"
        "\<And>k. httproutes.view f k \<noteq> None \<Longrightarrow> httproutes.view (w_Gwapi w) k \<noteq> None \<or> ok_ns (fst k)" for f w
      using that by (rule world_ok_frame(2))
  qed (simp_all add: put_gwapi_def world_okD)
  then show ?thesis
    by (simp add: newReconciler_def NewHTTPRouteLister_def FakeNetworkingV1alpha1_def fake_ifaces)
qed

lemma keeps_other_view:
  assumes "ki_Resource ki \<noteq> ki_Resource gateways_info"
  shows "keeps gateways.view (fake_Create patch ki ns x)" "keeps gateways.view (fake_Update patch ki ns x)"
    "keeps gateways.view (fake_Delete patch ki ns n)"
  using fake_frame [OF assms] by (simp_all add: keeps_def gateways.view_def fun_eq_iff)

lemma keeps_other_view':
  assumes "ki_Resource ki \<noteq> ki_Resource httproutes_info"
  shows "keeps httproutes.view (fake_Create patch ki ns x)" "keeps httproutes.view (fake_Update patch ki ns x)"
    "keeps httproutes.view (fake_Delete patch ki ns n)"
  using fake_frame [OF assms] by (simp_all add: keeps_def httproutes.view_def fun_eq_iff)

lemmas client_unfold = newReconciler_def client_of_def fake_client_def FakeNetworkingV1alpha1_def
  FakeGateways_def FakeHTTPRoutes_def

lemma kube_calls_keep:
  assumes "\<And>f w. V (put_kube f w) = V w"
  shows "keeps V (tc_Create (rc_Services (newReconciler patch)) ns x)"
    "keeps V (tc_Update (rc_Services (newReconciler patch)) ns x)"
  using assms by (simp_all add: client_unfold keeps_zoom_other)

lemma gwapi_calls_keep:
  assumes "\<And>f w. V (put_gwapi f w) = V w"
  shows "keeps V (tc_Create (rc_Gateways (newReconciler patch)) ns g)"
    "keeps V (tc_Update (rc_Gateways (newReconciler patch)) ns g)"
    "keeps V (tc_Delete (rc_Gateways (newReconciler patch)) ns n)"
    "keeps V (tc_Create (rc_HTTPRoutes (newReconciler patch)) ns h)"
    "keeps V (tc_Update (rc_HTTPRoutes (newReconciler patch)) ns h)"
  using assms by (simp_all add: client_unfold keeps_zoom_other)

lemma keeps_gwapi: "keeps V m \<Longrightarrow> keeps (\<lambda>w. V (w_Gwapi w)) (zoom w_Gwapi put_gwapi m)"
  by (rule keeps_zoom) (simp_all add: put_gwapi_def)

lemma gateway_calls_keep_httproutes:
  "keeps (\<lambda>w. httproutes.view (w_Gwapi w)) (tc_Create (rc_Gateways (newReconciler patch)) ns g)"
  "keeps (\<lambda>w. httproutes.view (w_Gwapi w)) (tc_Update (rc_Gateways (newReconciler patch)) ns g)"
  "keeps (\<lambda>w. httproutes.view (w_Gwapi w)) (tc_Delete (rc_Gateways (newReconciler patch)) ns n)"
  by (simp_all add: client_unfold) (intro keeps_gwapi keeps_intro keeps_other_view' info_resources)+

lemma httproute_calls_keep_gateways:
  "keeps (\<lambda>w. gateways.view (w_Gwapi w)) (tc_Create (rc_HTTPRoutes (newReconciler patch)) ns h)"
  "keeps (\<lambda>w. gateways.view (w_Gwapi w)) (tc_Update (rc_HTTPRoutes (newReconciler patch)) ns h)"
  by (simp_all add: client_unfold) (intro keeps_gwapi keeps_intro keeps_other_view info_resources)+

interpretation fakes: cluster "newReconciler patch"
    "\<lambda>w. cview (w_Services w)" "\<lambda>w. services.view (w_Kube w)"
    "\<lambda>w. cview (w_Gateways w)" "\<lambda>w. gateways.view (w_Gwapi w)"
    "\<lambda>w. cview (w_HTTPRoutes w)" "\<lambda>w. httproutes.view (w_Gwapi w)" world_ok
  for patch
  by (intro cluster.intro service_store gateway_store httproute_store cluster_axioms.intro
      kube_calls_keep gwapi_calls_keep gateway_calls_keep_httproutes httproute_calls_keep_gateways)
    (simp_all add: newReconciler_def world_ok_def put_kube_def put_gwapi_def)

subsection \<open>Informers over the world\<close>

text \<open>Every informer of the controller relists: of all namespaces, with no filter.\<close>

definition relist_part ::
  "('w \<Rightarrow> fake) \<Rightarrow> (fake \<Rightarrow> 'w \<Rightarrow> 'w) \<Rightarrow> ('w \<Rightarrow> ('a, 'b) cache) \<Rightarrow> (('a, 'b) cache \<Rightarrow> 'w \<Rightarrow> 'w)
     \<Rightarrow> ('w \<Rightarrow> key_order) \<Rightarrow> ('a, 'b) kobject fake_iface \<Rightarrow> 'w \<Rightarrow> 'w" where
  "relist_part get put cache put_cache ord iface w =
     (case zoom get put (relist (ord w) (fi_List iface []) (cache w)) w of
        (Inl _, w') \<Rightarrow> w'
      | (Inr c, w') \<Rightarrow> put_cache c w')"

definition sync_world :: "patch_fun \<Rightarrow> world \<Rightarrow> world" where
  "sync_world patch w =
     relist_part w_Kube put_kube w_Services (\<lambda>c w. w\<lparr>w_Services := c\<rparr>) w_Order (fake_client patch services_info '''')
     (relist_part w_Gwapi put_gwapi w_Gateways (\<lambda>c w. w\<lparr>w_Gateways := c\<rparr>) w_Order
        (fg_Gateways (FakeNetworkingV1alpha1 patch) '''')
     (relist_part w_Gwapi put_gwapi w_HTTPRoutes (\<lambda>c w. w\<lparr>w_HTTPRoutes := c\<rparr>) w_Order
        (fg_HTTPRoutes (FakeNetworkingV1alpha1 patch) '''') w))"

context kind_laws begin

lemma same_tracker:
  "fk_Tracker f' = fk_Tracker f \<Longrightarrow> typed f' \<longleftrightarrow> typed f" "fk_Tracker f' = fk_Tracker f \<Longrightarrow> view f' = view f"
  by (simp_all add: typed_def view_def fun_eq_iff)

lemma relist_part_spec:
  assumes "typed (get w)" and "spaced (view (get w))" and "cache_wf (cache w)" and "order_ok (ord w)"
  shows "\<exists>c' f'. relist_part get put cache put_cache ord (fake_client patch ki '''') w = put_cache c' (put f' w)
    \<and> fk_Tracker f' = fk_Tracker (get w) \<and> cache_wf c' \<and> agree (cview c') (view (get w))"
proof -
  have "cache_ok (cache w)" using assms(3) by (simp add: cache_wf_def)
  from relist_spec [OF assms(1,2) this assms(4), of patch "''''" "[]"]
  obtain c' f' where r: "relist (ord w) (fake_List patch ki '''' []) (cache w) (get w) = (Inr c', f')"
    and c: "fk_Tracker f' = fk_Tracker (get w)" "cache_ok c'" "cache_ns_ok c'"
      "\<And>k. ok_ns (fst k) \<Longrightarrow> cview c' k = view (get w) k" by auto
  have "relist_part get put cache put_cache ord (fake_client patch ki '''') w = put_cache c' (put f' w)"
    by (simp add: relist_part_def zoom_def fake_client_def r)
  moreover have "cache_wf c' \<and> agree (cview c') (view (get w))" using c(2-4) unfolding cache_wf_def agree_def by blast
  ultimately show ?thesis using c(1) by blast
qed

end

lemma sync_world_spec:
  assumes ok: "world_ok w"
  shows "world_ok (sync_world patch w)
    \<and> services.view (w_Kube (sync_world patch w)) = services.view (w_Kube w)
    \<and> gateways.view (w_Gwapi (sync_world patch w)) = gateways.view (w_Gwapi w)
    \<and> httproutes.view (w_Gwapi (sync_world patch w)) = httproutes.view (w_Gwapi w)
    \<and> agree (cview (w_Services (sync_world patch w))) (services.view (w_Kube w))
    \<and> agree (cview (w_Gateways (sync_world patch w))) (gateways.view (w_Gwapi w))
    \<and> agree (cview (w_HTTPRoutes (sync_world patch w))) (httproutes.view (w_Gwapi w))"
proof -
  note W = ok [unfolded world_ok_def]
  obtain c1 f1 where 1: "relist_part w_Gwapi put_gwapi w_HTTPRoutes (\<lambda>c w. w\<lparr>w_HTTPRoutes := c\<rparr>) w_Order
        (fake_client patch httproutes_info '''') w = (put_gwapi f1 w)\<lparr>w_HTTPRoutes := c1\<rparr>"
      "fk_Tracker f1 = fk_Tracker (w_Gwapi w)" "cache_wf c1" "agree (cview c1) (httproutes.view (w_Gwapi w))"
    using httproutes.relist_part_spec [of w_Gwapi w w_HTTPRoutes w_Order put_gwapi] W by blast
  let ?w1 = "(put_gwapi f1 w)\<lparr>w_HTTPRoutes := c1\<rparr>"
  note t1 = gateways.same_tracker [OF 1(2)] httproutes.same_tracker [OF 1(2)]
  have w1: "w_Gwapi ?w1 = f1" "w_Gateways ?w1 = w_Gateways w" "w_Order ?w1 = w_Order w" by (simp_all add: put_gwapi_def)
  have f1: "gateways.typed f1" "spaced (gateways.view f1)" using W t1 by simp_all
  obtain c2 f2 where 2: "relist_part w_Gwapi put_gwapi w_Gateways (\<lambda>c w. w\<lparr>w_Gateways := c\<rparr>) w_Order
        (fake_client patch gateways_info '''') ?w1 = (put_gwapi f2 ?w1)\<lparr>w_Gateways := c2\<rparr>"
      "fk_Tracker f2 = fk_Tracker f1" "cache_wf c2" "agree (cview c2) (gateways.view f1)"
    using gateways.relist_part_spec [of w_Gwapi ?w1 w_Gateways w_Order put_gwapi] W f1 unfolding w1 by blast
  let ?w2 = "(put_gwapi f2 ?w1)\<lparr>w_Gateways := c2\<rparr>"
  note t2 = gateways.same_tracker [OF 2(2)] httproutes.same_tracker [OF 2(2)]
  have w2: "w_Kube ?w2 = w_Kube w" "w_Services ?w2 = w_Services w" "w_Order ?w2 = w_Order w" by (simp_all add: put_gwapi_def)
  obtain c3 f3 where 3: "relist_part w_Kube put_kube w_Services (\<lambda>c w. w\<lparr>w_Services := c\<rparr>) w_Order
        (fake_client patch services_info '''') ?w2 = (put_kube f3 ?w2)\<lparr>w_Services := c3\<rparr>"
      "fk_Tracker f3 = fk_Tracker (w_Kube w)" "cache_wf c3" "agree (cview c3) (services.view (w_Kube w))"
    using services.relist_part_spec [of w_Kube ?w2 w_Services w_Order put_kube] W unfolding w2 by blast
  have run: "sync_world patch w = (put_kube f3 ?w2)\<lparr>w_Services := c3\<rparr>"
    by (simp add: sync_world_def FakeNetworkingV1alpha1_def fake_ifaces 1(1) 2(1) 3(1))
  show ?thesis
    using W 1(3,4) 2(3,4) 3(3,4) unfolding run
    by (simp add: world_ok_def put_kube_def put_gwapi_def t1 t2 services.same_tracker [OF 3(2)])
qed

interpretation informed: informed_cluster "newReconciler patch"
    "\<lambda>w. cview (w_Services w)" "\<lambda>w. services.view (w_Kube w)"
    "\<lambda>w. cview (w_Gateways w)" "\<lambda>w. gateways.view (w_Gwapi w)"
    "\<lambda>w. cview (w_HTTPRoutes w)" "\<lambda>w. httproutes.view (w_Gwapi w)" world_ok "sync_world patch"
  for patch
  by unfold_locales (simp_all add: sync_world_spec)

end
