(* ===== verification/Histories.thy ===== *)
theory Histories
  imports World
begin

text \<open>
  Whole histories of the controller: passes over routes and finalizers, each under the configuration of its
  time, single informers catching up, and what other clients of the servers do, in any order. Every gateway
  the servers then hold is of a route that was reconciled, and finalizing the routes leaves none.
\<close>

subsection \<open>Gateways of a route\<close>

definition of_route :: "route \<Rightarrow> gateway \<Rightarrow> bool" where
  "of_route r g \<longleftrightarrow> mget (om_Labels (obj_meta g)) RouteLabelKey = Some (om_Name (obj_meta r))
     \<and> mget (om_Labels (obj_meta g)) RouteNamespaceLabelKey = Some (om_Namespace (obj_meta r))"

text \<open>From one view to the other gateways have only gone, stayed, or been written for the route.\<close>

definition writes_own :: "route \<Rightarrow> gateway_view \<Rightarrow> gateway_view \<Rightarrow> bool" where
  "writes_own r server server' \<longleftrightarrow>
     (\<forall>k. server' k = server k \<or> server' k = None \<or> (\<exists>y. server' k = Some y \<and> of_route r y))"

lemma writes_own_refl [simp]: "writes_own r v v"
  by (simp add: writes_own_def)

lemma writes_own_trans: "writes_own r u v \<Longrightarrow> writes_own r v w \<Longrightarrow> writes_own r u w"
  unfolding writes_own_def by metis

lemma writes_own_upd: "of_route r y \<Longrightarrow> writes_own r v (v(k \<mapsto> y))"
  by (simp add: writes_own_def)

lemma writes_own_del: "writes_own r v (v(k := None))"
  by (simp add: writes_own_def)

lemma child_of_route: "om_Labels (obj_meta y) = child_labels r \<Longrightarrow> of_route r y"
  by (simp add: of_route_def child_labels_lookup)

context cluster begin

lemma ensure_gateway_own:
  assumes wf: "wf s" and ns: "ok_ns (fst k)" and cfg: "ctx_config ctx = Inr cfg"
    and k: "gateway_key (cfg_Gateway cfg) r v = Inr k"
    and run: "ensure_gateway c ctx r (fst k) (snd k) hs v s = (res, s')"
  shows "wf s' \<and> writes_own r (gw_server s) (gw_server s')"
proof -
  have post: "wf s'" "case res of Inl f \<Rightarrow> gw_server s' = gw_server s
       | Inr out \<Rightarrow> (\<exists>d. MakeGateway ctx r hs v = Inr d \<and> gw.ensured_as DeepEqual_gateway_spec (fst k, snd k) d s out s')"
    using ensure_gateway_spec [OF wf ns cfg k, of hs] run by (auto split: sum.splits)
  show ?thesis
  proof (cases res)
    case (Inl f)
    with post show ?thesis by simp
  next
    case (Inr out)
    obtain kind y where out: "out = (kind, y)" by force
    obtain d where d: "MakeGateway ctx r hs v = Inr d"
      and en: "gw.ensured_as DeepEqual_gateway_spec (fst k, snd k) d s (kind, y) s'"
      using post(2) Inr out by auto
    have l: "om_Labels (obj_meta d) = child_labels r" by (rule MakeGateway_labels(1) [OF d])
    have "gw_server s' = gw_server s \<or> (gw_server s' = (gw_server s)((fst k, snd k) \<mapsto> y) \<and> om_Labels (obj_meta y) = child_labels r)"
      using en l by (cases kind) (auto simp: gw.ensured_as_def same_desired_def overwrite_def)
    then show ?thesis using post(1) writes_own_upd [OF child_of_route, of y r "gw_server s" "(fst k, snd k)"] by auto
  qed
qed

lemma gateway_loop_own:
  assumes "wf s" and cfg: "ctx_config ctx = Inr cfg" and "gateway_ns_ok (cfg_Gateway cfg) r es"
    and "gateway_loop c ctx r (cfg_Gateway cfg) es gws s = (res, s')"
  shows "wf s' \<and> writes_own r (gw_server s) (gw_server s')"
  using assms(1,3,4)
proof (induction es arbitrary: gws s)
  case Nil
  then show ?case by simp
next
  case (Cons e es)
  obtain v hs where e: "e = (v, hs)" by force
  show ?case
  proof (cases "gateway_key (cfg_Gateway cfg) r v")
    case (Inl f)
    with Cons.prems show ?thesis by (simp add: e gateway_loop_key)
  next
    case (Inr k)
    have ns: "ok_ns (fst k)" "gateway_ns_ok (cfg_Gateway cfg) r es"
      using Cons.prems(2) Inr by (auto simp: gateway_ns_ok_def gateway_keys_def e simp del: split_paired_All split_paired_Ex)
    obtain res1 s1 where step: "ensure_gateway c ctx r (fst k) (snd k) hs v s = (res1, s1)" by force
    note own = ensure_gateway_own [OF Cons.prems(1) ns(1) cfg Inr step]
    show ?thesis
    proof (cases res1)
      case fail: (Inl f)
      with Cons.prems(3) Inr step have "s' = s1" by (simp add: e gateway_loop_key bnd_def)
      with own show ?thesis by simp
    next
      case ok: (Inr out)
      obtain kind y where out: "out = (kind, y)" by force
      have "gateway_loop c ctx r (cfg_Gateway cfg) es (if kind = Unchanged then gws else gws @ [y]) s1 = (res, s')"
        using Cons.prems(3) Inr step ok out by (simp add: e gateway_loop_key bnd_def)
      from Cons.IH [OF conjunct1 [OF own] ns(2) this] own show ?thesis by (blast intro: writes_own_trans)
    qed
  qed
qed

lemma reconcileGateway_own:
  assumes wf: "wf s" and sv: "served ctx r" and ord: "order_ok ord"
    and run: "reconcileGateway c ctx ord r s = (res, s')"
  shows "wf s' \<and> writes_own r (gw_server s) (gw_server s')"
proof -
  obtain cfg where cfg: "ctx_config ctx = Inr cfg" using sv by (auto simp: served_def)
  show ?thesis
  proof (cases "collect_visibilities ctx r (rst_Traffic (obj_status r)) []")
    case (Inl f)
    with run wf show ?thesis by (simp add: reconcileGateway_def)
  next
    case (Inr m)
    have "ok_ns (fst k)" if e: "e \<in> set (range_map ord m)" "gateway_key (cfg_Gateway cfg) r (fst e) = Inr k" for e k
    proof -
      have "map_of m (fst e) = Some (snd e)" using e(1) set_range_map [OF ord, of m] by auto
      from served_gateway_key [OF sv cfg Inr this] e(2) show ?thesis by auto
    qed
    then have "gateway_ns_ok (cfg_Gateway cfg) r (range_map ord m)" by (auto simp: gateway_ns_ok_def gateway_keys_def)
    moreover have "gateway_loop c ctx r (cfg_Gateway cfg) (range_map ord m) [] s = (res, s')"
      using run Inr cfg by (simp add: reconcileGateway_def)
    ultimately show ?thesis by (rule gateway_loop_own [OF wf cfg])
  qed
qed

lemma ReconcileKind_own:
  assumes wf: "wf s" and sv: "served ctx r" and ord: "order_ok (od_Visibility od)"
    and run: "ReconcileKind c ctx clk sprintf0 od r s = (res, s')"
  shows "wf s' \<and> writes_own r (gw_server s) (gw_server s')"
proof (cases "gateway_api_enabled r")
  case False
  with run wf show ?thesis by (simp add: ReconcileKind_disabled)
next
  case True
  obtain cfg where cfg: "ctx_config ctx = Inr cfg" using sv by (auto simp: served_def)
  have wf': "wf s'" using ReconcileKind_spec [OF wf sv ord cfg True, of clk sprintf0] run by auto
  have ns: "ok_ns (om_Namespace (obj_meta r))" using sv by (simp add: served_def)
  note start = ReconcileKind_def True [unfolded gateway_api_enabled_def] bnd_def
  obtain res1 s1 where A: "reconcilePlaceholderServices c ctx r s = (res1, s1)" "wf s1" "gw_server s1 = gw_server s"
    using reconcilePlaceholderServices_spec [OF wf ns, of ctx "od_Hostnames od"] by blast
  obtain res2 s2 where B: "reconcileGateway c ctx (od_Visibility od) r s1 = (res2, s2)" by force
  note own = reconcileGateway_own [OF A(2) sv ord B, unfolded A(3)]
  show ?thesis
  proof (cases "\<exists>u gws. res1 = Inr u \<and> res2 = Inr gws")
    case False
    then have "s' = s1 \<or> s' = s2" using run A(1) B by (cases res1; cases res2) (simp_all add: start)
    with own A(3) wf' show ?thesis by auto
  next
    case True
    then obtain gws where ok: "res1 = Inr ()" "res2 = Inr gws" by auto
    obtain res3 s3 where C: "reconcileHTTPRoute c ctx (od_Hostnames od) r gws s2 = (res3, s3)" by force
    have "s' = s3" using run A(1) B C ok by (cases res3) (auto simp: start Let_def IsHTTPRouteReady_def split: option.splits)
    with own wf' keeps_httproute(4) [THEN keepsD, OF C] show ?thesis by simp
  qed
qed

lemma finalize_loop_own:
  assumes "wf s" and "finalize_loop c gws s = (res, s')"
  shows "wf s' \<and> (\<forall>k. gw_server s' k = gw_server s k \<or> gw_server s' k = None)"
  using assms
proof (induction gws arbitrary: s)
  case Nil
  then show ?case by simp
next
  case (Cons g gws)
  obtain r s1 where del0: "tc_Delete (rc_Gateways c) (om_Namespace (obj_meta g)) (om_Name (obj_meta g)) s = (r, s1)" by force
  have del: "wf s1" "gw_server s1 = gw_server s \<or> gw_server s1 = (gw_server s)((om_Namespace (obj_meta g), om_Name (obj_meta g)) := None)"
    using gw.delete_law [OF Cons.prems(1), of "om_Namespace (obj_meta g)" "om_Name (obj_meta g)"] del0
    by (cases r; simp)+
  show ?case
  proof (cases r)
    case (Inl f)
    with Cons.prems(2) del0 have "s' = s1" by (simp add: bnd_def)
    with del show ?thesis by (auto split: if_splits)
  next
    case (Inr u)
    with Cons.prems(2) del0 have "finalize_loop c gws s1 = (res, s')" by (simp add: bnd_def)
    note IH = Cons.IH [OF del(1) this]
    have "gw_server s' k = gw_server s k \<or> gw_server s' k = None" for k
      using conjunct2 [OF IH, rule_format, of k] del(2) by (auto split: if_splits)
    with IH show ?thesis by blast
  qed
qed

lemma FinalizeKind_own:
  assumes "wf s" and "FinalizeKind c r s = (res, s')"
  shows "wf s' \<and> (\<forall>k. gw_server s' k = gw_server s k \<or> gw_server s' k = None)"
proof -
  obtain gws where "l_List (rc_gatewayLister c) (SelectorFromSet (Some [(RouteNamespaceLabelKey, om_Namespace (obj_meta r)),
      (RouteLabelKey, om_Name (obj_meta r))])) s = (Inr gws, s)"
    using gw.list_law [OF assms(1)] by blast
  with assms(2) have "finalize_loop c gws s = (res, s')" by (simp add: FinalizeKind_def bnd_def)
  then show ?thesis by (rule finalize_loop_own [OF assms(1)])
qed

end


subsection \<open>Histories\<close>

lemma relist_parts:
  fixes patch :: patch_fun
  assumes "world_ok w"
  defines "ws \<equiv> relist_part w_Kube put_kube w_Services (\<lambda>c w. w\<lparr>w_Services := c\<rparr>) w_Order (fake_client patch services_info '''') w"
    and "wg \<equiv> relist_part w_Gwapi put_gwapi w_Gateways (\<lambda>c w. w\<lparr>w_Gateways := c\<rparr>) w_Order (fake_client patch gateways_info '''') w"
    and "wh \<equiv> relist_part w_Gwapi put_gwapi w_HTTPRoutes (\<lambda>c w. w\<lparr>w_HTTPRoutes := c\<rparr>) w_Order (fake_client patch httproutes_info '''') w"
  shows "world_ok ws \<and> gateways.view (w_Gwapi ws) = gateways.view (w_Gwapi w)"
    and "world_ok wg \<and> gateways.view (w_Gwapi wg) = gateways.view (w_Gwapi w)"
    and "world_ok wh \<and> gateways.view (w_Gwapi wh) = gateways.view (w_Gwapi w)"
proof -
  note W = assms(1) [unfolded world_ok_def]
  obtain c f where "ws = (put_kube f w)\<lparr>w_Services := c\<rparr>" "fk_Tracker f = fk_Tracker (w_Kube w)" "cache_wf c"
    unfolding ws_def using services.relist_part_spec [of w_Kube w w_Services w_Order put_kube] W by blast
  then show "world_ok ws \<and> gateways.view (w_Gwapi ws) = gateways.view (w_Gwapi w)"
    using W services.same_tracker [of f "w_Kube w"] by (simp add: world_ok_def put_kube_def)
  obtain c f where "wg = (put_gwapi f w)\<lparr>w_Gateways := c\<rparr>" "fk_Tracker f = fk_Tracker (w_Gwapi w)" "cache_wf c"
    unfolding wg_def using gateways.relist_part_spec [of w_Gwapi w w_Gateways w_Order put_gwapi] W by blast
  then show "world_ok wg \<and> gateways.view (w_Gwapi wg) = gateways.view (w_Gwapi w)"
    using W gateways.same_tracker [of f "w_Gwapi w"] httproutes.same_tracker [of f "w_Gwapi w"]
    by (simp add: world_ok_def put_gwapi_def)
  obtain c f where "wh = (put_gwapi f w)\<lparr>w_HTTPRoutes := c\<rparr>" "fk_Tracker f = fk_Tracker (w_Gwapi w)" "cache_wf c"
    unfolding wh_def using httproutes.relist_part_spec [of w_Gwapi w w_HTTPRoutes w_Order put_gwapi] W by blast
  then show "world_ok wh \<and> gateways.view (w_Gwapi wh) = gateways.view (w_Gwapi w)"
    using W gateways.same_tracker [of f "w_Gwapi w"] httproutes.same_tracker [of f "w_Gwapi w"]
    by (simp add: world_ok_def put_gwapi_def)
qed

text \<open>
  One step of a history: a pass over one of the routes \<open>R\<close>, whatever it returns, a finalizer, an informer
  that relists, or other clients, who may do anything but create gateways or change their labels.
\<close>

inductive controller_step :: "patch_fun \<Rightarrow> route set \<Rightarrow> world \<Rightarrow> world \<Rightarrow> bool" for patch R where
  Reconciled: "r \<in> R \<Longrightarrow> served ctx r \<Longrightarrow> order_ok (od_Visibility od)
     \<Longrightarrow> ReconcileKind (newReconciler patch) ctx clk sprintf0 od r w = (res, w') \<Longrightarrow> controller_step patch R w w'"
| Finalized: "FinalizeKind (newReconciler patch) r w = (res, w') \<Longrightarrow> controller_step patch R w w'"
| RelistedServices: "controller_step patch R w
     (relist_part w_Kube put_kube w_Services (\<lambda>c w. w\<lparr>w_Services := c\<rparr>) w_Order (fake_client patch services_info '''') w)"
| RelistedGateways: "controller_step patch R w
     (relist_part w_Gwapi put_gwapi w_Gateways (\<lambda>c w. w\<lparr>w_Gateways := c\<rparr>) w_Order (fake_client patch gateways_info '''') w)"
| RelistedHTTPRoutes: "controller_step patch R w
     (relist_part w_Gwapi put_gwapi w_HTTPRoutes (\<lambda>c w. w\<lparr>w_HTTPRoutes := c\<rparr>) w_Order (fake_client patch httproutes_info '''') w)"
| Others: "world_ok w'
     \<Longrightarrow> (\<And>k g'. gateways.view (w_Gwapi w') k = Some g'
           \<Longrightarrow> \<exists>g. gateways.view (w_Gwapi w) k = Some g \<and> om_Labels (obj_meta g') = om_Labels (obj_meta g))
     \<Longrightarrow> controller_step patch R w w'"

definition owned_world :: "route set \<Rightarrow> world \<Rightarrow> bool" where
  "owned_world R w \<longleftrightarrow> world_ok w \<and> (\<forall>k g. gateways.view (w_Gwapi w) k = Some g \<longrightarrow> (\<exists>r \<in> R. of_route r g))"

lemma owned_worldI:
  assumes "owned_world R w" and "world_ok w'"
    and "\<And>k. gateways.view (w_Gwapi w') k = gateways.view (w_Gwapi w) k \<or> gateways.view (w_Gwapi w') k = None
        \<or> (\<exists>y. gateways.view (w_Gwapi w') k = Some y \<and> (\<exists>r \<in> R. of_route r y))"
  shows "owned_world R w'"
  unfolding owned_world_def
proof (intro conjI allI impI)
  fix k g assume "gateways.view (w_Gwapi w') k = Some g"
  then show "\<exists>r \<in> R. of_route r g"
    using assms(3) [of k] assms(1) unfolding owned_world_def by (auto simp del: split_paired_All)
qed (rule assms(2))

lemma controller_step_owned:
  assumes "controller_step patch R w w'" and own: "owned_world R w"
  shows "owned_world R w'"
  using assms(1)
proof cases
  case (Reconciled r ctx od clk sprintf0 res)
  have "world_ok w" using own by (simp add: owned_world_def)
  from fakes.ReconcileKind_own [OF this Reconciled(2,3,4)] Reconciled(1) show ?thesis
    unfolding writes_own_def by (intro owned_worldI [OF own]) blast+
next
  case (Finalized r res)
  have "world_ok w" using own by (simp add: owned_world_def)
  from fakes.FinalizeKind_own [OF this Finalized] show ?thesis by (intro owned_worldI [OF own]) blast+
next
  case RelistedServices
  then show ?thesis using own relist_parts(1) [of w patch] by (simp add: owned_world_def)
next
  case RelistedGateways
  then show ?thesis using own relist_parts(2) [of w patch] by (simp add: owned_world_def)
next
  case RelistedHTTPRoutes
  then show ?thesis using own relist_parts(3) [of w patch] by (simp add: owned_world_def)
next
  case Others
  show ?thesis
    unfolding owned_world_def
  proof (intro conjI allI impI)
    fix k g assume "gateways.view (w_Gwapi w') k = Some g"
    with Others(2) obtain g0 where "gateways.view (w_Gwapi w) k = Some g0" "om_Labels (obj_meta g) = om_Labels (obj_meta g0)"
      by blast
    with own show "\<exists>r \<in> R. of_route r g"
      unfolding owned_world_def of_route_def by (auto simp del: split_paired_All)
  qed (rule Others(1))
qed

lemma history_owned:
  assumes "(controller_step patch R)\<^sup>*\<^sup>* w0 w" and "world_ok w0" and "gateways.view (w_Gwapi w0) = Map.empty"
  shows "owned_world R w"
  using assms(1)
proof (induction rule: rtranclp_induct)
  case base
  then show ?case using assms(2,3) by (simp add: owned_world_def)
next
  case (step w w')
  then show ?case by (blast intro: controller_step_owned)
qed


subsection \<open>Finalizing\<close>

text \<open>Finalizers one after the other, each after the informers caught up.\<close>

definition finalize_all :: "patch_fun \<Rightarrow> route list \<Rightarrow> world \<Rightarrow> world" where
  "finalize_all patch rs w = fold (\<lambda>r w. snd (FinalizeKind (newReconciler patch) r (sync_world patch w))) rs w"

lemma finalize_synced:
  fixes patch :: patch_fun and r :: route
  assumes ok: "world_ok w"
  defines "w' \<equiv> snd (FinalizeKind (newReconciler patch) r (sync_world patch w))"
  shows "world_ok w' \<and> (\<forall>k g. gateways.view (w_Gwapi w') k = Some g \<longrightarrow>
           gateways.view (w_Gwapi w) k = Some g \<and> \<not> of_route r g)"
proof -
  let ?v = "gateways.view (w_Gwapi w)"
  note S = sync_world_spec [OF ok, of patch]
  have sp: "ok_ns (fst k)" if "?v k \<noteq> None" for k using ok that unfolding world_ok_def spaced_def by blast
  have fin: "finalized (cview (w_Gateways (sync_world patch w))) r = {k. \<exists>g. ?v k = Some g \<and> of_route r g}"
    using S sp unfolding finalized_def of_route_def agree_def by force
  obtain res where F: "FinalizeKind (newReconciler patch) r (sync_world patch w) = (res, w')" "world_ok w'"
      "\<forall>k. k \<notin> {k. \<exists>g. ?v k = Some g \<and> of_route r g} \<longrightarrow> gateways.view (w_Gwapi w') k = ?v k"
      "case res of Inl f \<Rightarrow> \<exists>e. f = Fail e
         | Inr _ \<Rightarrow> \<forall>k \<in> {k. \<exists>g. ?v k = Some g \<and> of_route r g}. gateways.view (w_Gwapi w') k = None"
      "res = Inr ()"
    using fakes.FinalizeKind_spec [OF conjunct1 [OF S], of patch r] S unfolding fin w'_def by auto
  have "?v k = Some g \<and> \<not> of_route r g" if g: "gateways.view (w_Gwapi w') k = Some g" for k g
  proof -
    have out: "k \<notin> {k. \<exists>g. ?v k = Some g \<and> of_route r g}"
    proof
      assume "k \<in> {k. \<exists>g. ?v k = Some g \<and> of_route r g}"
      from bspec [OF F(4) [unfolded F(5) sum.case] this] g show False by simp
    qed
    then have "?v k = Some g" using F(3) [rule_format, OF out] g by simp
    with out show ?thesis by blast
  qed
  with F(2) show ?thesis by blast
qed

lemma finalize_all_leaves:
  assumes "world_ok w"
  shows "world_ok (finalize_all patch rs w) \<and> (\<forall>k g. gateways.view (w_Gwapi (finalize_all patch rs w)) k = Some g \<longrightarrow>
           gateways.view (w_Gwapi w) k = Some g \<and> (\<forall>r \<in> set rs. \<not> of_route r g))"
  using assms
proof (induction rs arbitrary: w)
  case Nil
  then show ?case by (simp add: finalize_all_def)
next
  case (Cons r rs)
  let ?w' = "snd (FinalizeKind (newReconciler patch) r (sync_world patch w))"
  have run: "finalize_all patch (r # rs) w = finalize_all patch rs ?w'" by (simp add: finalize_all_def)
  note F = finalize_synced [OF Cons.prems, of patch r]
  note IH = Cons.IH [OF conjunct1 [OF F]]
  have "gateways.view (w_Gwapi w) k = Some g \<and> (\<forall>r \<in> set (r # rs). \<not> of_route r g)"
    if "gateways.view (w_Gwapi (finalize_all patch rs ?w')) k = Some g" for k g
    using conjunct2 [OF IH] conjunct2 [OF F] that unfolding set_simps by blast
  with conjunct1 [OF IH] show ?case unfolding run by blast
qed

end
