(* ===== verification/DemoWorld.thy ===== *)
theory DemoWorld
  imports Histories
begin

text \<open>
  The world of the examples: empty servers and caches, the route \<open>prod/app\<close> of \<open>Resources\<close> with one target, and
  the same world with a gateway of the route.
\<close>

subsection \<open>An example world\<close>

definition demo_patch :: patch_fun where
  "demo_patch pt payload x = Inr x"

definition empty_fake :: fake where
  "empty_fake = \<lparr>fk_Tracker = empty_tracker, fk_Actions = []\<rparr>"

definition demo_world :: world where
  "demo_world = \<lparr>w_Kube = empty_fake, w_Gwapi = empty_fake, w_Services = NewIndexer True,
     w_Gateways = NewIndexer True, w_HTTPRoutes = NewIndexer True, w_Order = (\<lambda>ks. ks), w_Events = []\<rparr>"

definition demo_orders :: orders where
  "demo_orders = \<lparr>od_Visibility = (\<lambda>ks. ks), od_Hostnames = (\<lambda>i ks. ks)\<rparr>"

lemma demo_views:
  "services.view (w_Kube demo_world) = Map.empty" "gateways.view (w_Gwapi demo_world) = Map.empty"
  "httproutes.view (w_Gwapi demo_world) = Map.empty" "cview (w_Services demo_world) = Map.empty"
  "cview (w_Gateways demo_world) = Map.empty" "cview (w_HTTPRoutes demo_world) = Map.empty"
  by (simp_all add: demo_world_def empty_fake_def services.view_def gateways.view_def httproutes.view_def cview_def fun_eq_iff)

lemma demo_world_ok: "world_ok demo_world"
  by (simp add: world_ok_def cache_wf_def cache_ns_ok_def demo_views spaced_def)
    (simp add: demo_world_def empty_fake_def services.typed_def gateways.typed_def httproutes.typed_def)

lemma demo_served: "served demo_ctx demo_route"
proof -
  have "table_serves (cfg_Gateway demo_config)"
    using demo_gateway_at
    by (auto simp: table_serves_def DefaultVisibilityName_def default_local_gateway_def DefaultIstioNamespace_def)
  moreover have "route_visibility demo_route = DefaultVisibilityName"
    by (simp add: route_visibility_def demo_route_def demo_meta_def sget_def mget_def)
  moreover have "route_conds_wf (obj_status demo_route)"
    by (simp add: route_conds_wf_def conds_wf_def status_acc_def demo_route_def demo_status_def)
  ultimately show ?thesis
    by (simp add: served_def ok_ns_def) (simp add: demo_route_def demo_meta_def)
qed

lemma demo_named: "named_targets demo_ctx demo_route"
  using demo_hosts by (simp add: named_targets_def demo_route_def demo_status_def demo_target_def percent_set_def)

lemma demo_enabled: "gateway_api_enabled demo_route"
  by (simp add: gateway_api_enabled_def demo_route_def sget_def mget_def)

definition demo_gateway :: gateway where
  "demo_gateway = \<lparr>obj_meta = zero_meta\<lparr>om_Name := ''gw'', om_Namespace := ''istio-system'',
       om_Labels := Some [(RouteLabelKey, ''app''), (RouteNamespaceLabelKey, ''prod'')]\<rparr>,
     obj_spec = \<lparr>gs_GatewayClassName = ''istio'', gs_Listeners = [], gs_Addresses = []\<rparr>,
     obj_status = \<lparr>gst_Addresses = [], gst_Conditions = [], gst_Listeners = []\<rparr>\<rparr>"

text \<open>The world after the gateway was created and the informers caught up.\<close>

definition demo_gateway_world :: world where
  "demo_gateway_world = sync_world demo_patch
     (snd (tc_Create (rc_Gateways (newReconciler demo_patch)) ''istio-system'' demo_gateway demo_world))"

lemma demo_gateway_world:
  "world_ok demo_gateway_world"
  "gateways.view (w_Gwapi demo_gateway_world) (''istio-system'', ''gw'') \<noteq> None"
  "finalized (cview (w_Gateways demo_gateway_world)) demo_route = {(''istio-system'', ''gw'')}"
proof -
  have g: "om_Namespace (obj_meta demo_gateway) = ''istio-system''" "obj_key demo_gateway = (''istio-system'', ''gw'')"
      "om_Labels (obj_meta demo_gateway) = Some [(RouteLabelKey, ''app''), (RouteNamespaceLabelKey, ''prod'')]"
    by (simp_all add: demo_gateway_def obj_key_def)
  obtain res w where w: "tc_Create (rc_Gateways (newReconciler demo_patch)) ''istio-system'' demo_gateway demo_world = (res, w)"
      "world_ok w"
    and res: "case res of
         Inl f \<Rightarrow> (\<exists>e. f = Fail e) \<and> gateways.view (w_Gwapi demo_world) (obj_key demo_gateway) \<noteq> None
           \<and> gateways.view (w_Gwapi w) = gateways.view (w_Gwapi demo_world)
       | Inr y \<Rightarrow> same_desired demo_gateway y \<and> gateways.view (w_Gwapi demo_world) (obj_key demo_gateway) = None
           \<and> gateways.view (w_Gwapi w) = (gateways.view (w_Gwapi demo_world))(obj_key demo_gateway \<mapsto> y)"
    using fakes.gw.create_law [OF demo_world_ok, of demo_gateway demo_patch] by (auto simp: g ok_ns_def)
  obtain y where y: "same_desired demo_gateway y" "gateways.view (w_Gwapi w) = [obj_key demo_gateway \<mapsto> y]"
    using res by (auto simp: demo_views split: sum.splits)
  have run: "demo_gateway_world = sync_world demo_patch w" by (simp add: demo_gateway_world_def w)
  note S = sync_world_spec [OF w(2), of demo_patch, folded run]
  show "world_ok demo_gateway_world" using S by blast
  show "gateways.view (w_Gwapi demo_gateway_world) (''istio-system'', ''gw'') \<noteq> None" using S by (simp add: y g)
  have labels: "om_Labels (obj_meta y) = Some [(RouteLabelKey, ''app''), (RouteNamespaceLabelKey, ''prod'')]"
    using y(1) g(3) by (simp add: same_desired_def)
  have "mget (om_Labels (obj_meta y)) RouteLabelKey = Some ''app''"
      "mget (om_Labels (obj_meta y)) RouteNamespaceLabelKey = Some ''prod''"
    using labels by (simp_all add: mget_def RouteLabelKey_def RouteNamespaceLabelKey_def)
  then have fin: "finalized (gateways.view (w_Gwapi w)) demo_route = {(''istio-system'', ''gw'')}"
    by (auto simp: finalized_def y(2) g ok_ns_def demo_route_def demo_meta_def)
  have "finalized (cview (w_Gateways demo_gateway_world)) demo_route = finalized (gateways.view (w_Gwapi w)) demo_route"
    using S unfolding finalized_def agree_def by auto
  with fin show "finalized (cview (w_Gateways demo_gateway_world)) demo_route = {(''istio-system'', ''gw'')}" by simp
qed

end
