(* ===== verification/Controller.thy ===== *)
theory Controller
  imports Reconcile ConfigStore Listers
begin

text \<open>
  What wakes the controller (\<open>controller.go\<close>): the event handlers \<open>newController\<close> puts on its informers
  and the resync after configuration changes, as the keys they add to the work queue. The handlers
  are those of \<open>knative.dev/pkg/controller\<close> and client-go. Nothing is ever tracked, so the tracker's
  handler adds nothing.
\<close>

subsection \<open>Events\<close>

text \<open>An informer hands over an object, or a tombstone when it learnt of a deletion by listing again.\<close>

datatype event_object = EvObject object_meta | EvTombstone "object_meta option"

datatype informer_event = OnAdd event_object | OnUpdate event_object event_object | OnDelete event_object

type_synonym enqueue = "event_object \<Rightarrow> object_key list"
type_synonym event_handler = "informer_event \<Rightarrow> object_key list"

fun DeletionHandlingAccessor :: "event_object \<Rightarrow> object_meta option" where
  "DeletionHandlingAccessor (EvObject m) = Some m"
| "DeletionHandlingAccessor (EvTombstone m) = m"

definition Enqueue :: enqueue where
  "Enqueue obj = (case DeletionHandlingAccessor obj of None \<Rightarrow> [] | Some m \<Rightarrow> [(om_Namespace m, om_Name m)])"

definition EnqueueControllerOf :: enqueue where
  "EnqueueControllerOf obj =
     (case DeletionHandlingAccessor obj of
        None \<Rightarrow> []
      | Some m \<Rightarrow> (case GetControllerOf (om_OwnerReferences m) of
                   None \<Rightarrow> [] | Some owner \<Rightarrow> [(om_Namespace m, or_Name owner)]))"

definition HandleAll :: "enqueue \<Rightarrow> event_handler" where
  "HandleAll h ev = (case ev of OnAdd obj \<Rightarrow> h obj | OnUpdate old new \<Rightarrow> h new | OnDelete obj \<Rightarrow> h obj)"

definition ParseGroupVersion :: "string \<Rightarrow> (string \<times> string) option" where
  "ParseGroupVersion gv =
     (if gv = '''' \<or> gv = ''/'' then Some ('''', '''')
      else case split_on CHR ''/'' gv of
             [v] \<Rightarrow> Some ('''', v)
           | [g, v] \<Rightarrow> Some (g, v)
           | _ \<Rightarrow> None)"

text \<open>A tombstone is no object, so the filter turns it away.\<close>

definition FilterControllerGK :: "string \<Rightarrow> string \<Rightarrow> event_object \<Rightarrow> bool" where
  "FilterControllerGK grp kind obj =
     (case obj of
        EvTombstone _ \<Rightarrow> False
      | EvObject m \<Rightarrow>
          (case GetControllerOf (om_OwnerReferences m) of
             None \<Rightarrow> False
           | Some owner \<Rightarrow>
               (case ParseGroupVersion (or_APIVersion owner) of
                  None \<Rightarrow> False | Some (g, _) \<Rightarrow> g = grp \<and> or_Kind owner = kind)))"

definition FilteringResourceEventHandler :: "(event_object \<Rightarrow> bool) \<Rightarrow> event_handler \<Rightarrow> event_handler" where
  "FilteringResourceEventHandler filt handler ev =
     (case ev of
        OnAdd obj \<Rightarrow> if filt obj then handler (OnAdd obj) else []
      | OnUpdate old new \<Rightarrow>
          if filt new \<and> filt old then handler (OnUpdate old new)
          else if filt new \<and> \<not> filt old then handler (OnAdd new)
          else if \<not> filt new \<and> filt old then handler (OnDelete old)
          else []
      | OnDelete obj \<Rightarrow> if filt obj then handler (OnDelete obj) else [])"

subsection \<open>The handlers of the controller\<close>

datatype watched = RouteEvents | ServiceEvents | HTTPRouteEvents | GatewayEvents

definition handleControllerOf :: event_handler where
  "handleControllerOf =
     FilteringResourceEventHandler (FilterControllerGK ''serving.knative.dev'' ''Route'') (HandleAll EnqueueControllerOf)"

fun controller_handlers :: "watched \<Rightarrow> event_handler" where
  "controller_handlers RouteEvents ev = HandleAll Enqueue ev"
| "controller_handlers ServiceEvents ev = handleControllerOf ev"
| "controller_handlers HTTPRouteEvents ev = handleControllerOf ev"
| "controller_handlers GatewayEvents ev = handleControllerOf ev"

text \<open>A changed configuration of a type in the filter enqueues every cached route.\<close>

definition GlobalResync :: "event_object list \<Rightarrow> object_key list" where
  "GlobalResync routes = concat (map Enqueue routes)"

definition config_resync :: "event_object list \<Rightarrow> config_value \<Rightarrow> object_key list" where
  "config_resync routes v = (if resync_filter v then GlobalResync routes else [])"

lemma filter_controlled:
  assumes "GetControllerOf (om_OwnerReferences m) = Some (route_controller_ref r)"
  shows "FilterControllerGK ''serving.knative.dev'' ''Route'' (EvObject m)"
    and "EnqueueControllerOf (EvObject m) = [(om_Namespace m, om_Name (obj_meta r))]"
proof -
  have "ParseGroupVersion ''serving.knative.dev/v1'' = Some (''serving.knative.dev'', ''v1'')" by code_simp
  then show "FilterControllerGK ''serving.knative.dev'' ''Route'' (EvObject m)"
    using assms by (simp add: FilterControllerGK_def route_controller_ref_def NewControllerRef_def)
  show "EnqueueControllerOf (EvObject m) = [(om_Namespace m, om_Name (obj_meta r))]"
    using assms by (simp add: EnqueueControllerOf_def route_controller_ref_def NewControllerRef_def)
qed

text \<open>The objects an event carries, former and present.\<close>

fun object_metas :: "event_object \<Rightarrow> object_meta set" where
  "object_metas (EvObject m) = {m}"
| "object_metas (EvTombstone _) = {}"

fun event_metas :: "informer_event \<Rightarrow> object_meta set" where
  "event_metas (OnAdd obj) = object_metas obj"
| "event_metas (OnUpdate old new) = object_metas old \<union> object_metas new"
| "event_metas (OnDelete obj) = object_metas obj"

lemma tombstone_filtered [simp]: "\<not> FilterControllerGK grp kind (EvTombstone m)"
  by (simp add: FilterControllerGK_def)

text \<open>When the filter turns away every object of an event, nothing is enqueued; when it lets through every
  object and there is one, the handler sees one of them.\<close>

lemma filter_rejects:
  assumes "\<And>m. m \<in> event_metas ev \<Longrightarrow> \<not> FilterControllerGK grp kind (EvObject m)"
  shows "FilteringResourceEventHandler (FilterControllerGK grp kind) h ev = []"
proof -
  have "\<not> FilterControllerGK grp kind obj" if "object_metas obj \<subseteq> event_metas ev" for obj
    using that assms by (cases obj) auto
  then show ?thesis by (cases ev) (auto simp: FilteringResourceEventHandler_def)
qed

lemma filter_accepts:
  assumes "\<And>m. m \<in> event_metas ev \<Longrightarrow> FilterControllerGK grp kind (EvObject m) \<and> h (EvObject m) = ks"
    and "event_metas ev \<noteq> {}"
  shows "FilteringResourceEventHandler (FilterControllerGK grp kind) (HandleAll h) ev = ks"
proof (cases ev)
  case (OnAdd obj)
  with assms show ?thesis by (cases obj) (auto simp: FilteringResourceEventHandler_def HandleAll_def)
next
  case (OnUpdate old new)
  with assms show ?thesis by (cases old; cases new) (auto simp: FilteringResourceEventHandler_def HandleAll_def)
next
  case (OnDelete obj)
  with assms show ?thesis by (cases obj) (auto simp: FilteringResourceEventHandler_def HandleAll_def)
qed

text \<open>An event of the placeholder service or the HTTPRoute made for a route wakes the reconciler for that
  route and no other, as long as the object keeps its owner and namespace. But a deletion learnt by
  listing again, which comes as a tombstone, wakes nobody.\<close>

lemma child_event_keys:
  assumes "MakePlaceholderService ctx r target = Inr svc \<and> m0 = obj_meta svc \<or> MakeHTTPRoute ctx ords r gws = Inr hr \<and> m0 = obj_meta hr"
    and "src = ServiceEvents \<or> src = HTTPRouteEvents" and "event_metas ev \<noteq> {}"
    and "\<And>m. m \<in> event_metas ev \<Longrightarrow> om_OwnerReferences m = om_OwnerReferences m0 \<and> om_Namespace m = om_Namespace m0"
  shows "controller_handlers src ev = [obj_key r]
    \<and> controller_handlers src (OnDelete (EvTombstone (Some m0))) = []"
proof -
  have own: "GetControllerOf (om_OwnerReferences m0) = Some (route_controller_ref r)" and ns: "om_Namespace m0 = om_Namespace (obj_meta r)"
    using assms(1) MakePlaceholderService_key [of ctx r target svc] MakeHTTPRoute_meta [of ctx ords r gws hr]
    by (auto simp: MakePlaceholderService_def route_controller_ref_def NewControllerRef_def obj_key_def)
  have f: "FilterControllerGK ''serving.knative.dev'' ''Route'' (EvObject m)"
      "EnqueueControllerOf (EvObject m) = [obj_key r]" if "m \<in> event_metas ev" for m
    using filter_controlled [of m r] assms(4) [OF that] own ns by (simp_all add: obj_key_def)
  have h: "controller_handlers src = handleControllerOf" using assms(2) by (auto simp: fun_eq_iff)
  have "handleControllerOf ev = [obj_key r]"
    unfolding handleControllerOf_def using f assms(3) by (intro filter_accepts) auto
  then show ?thesis unfolding h by (simp add: handleControllerOf_def FilteringResourceEventHandler_def FilterControllerGK_def)
qed

subsection \<open>Properties\<close>

text \<open>C35: No event of a gateway made for a route wakes the reconciler: the gateway has no owner, and the
  handler of gateway events lets through only objects a route owns.\<close>

theorem gateway_events_wake_nobody:
  assumes "MakeGateway ctx r hosts visibility = Inr gw"
    and "\<And>m. m \<in> event_metas ev \<Longrightarrow> om_OwnerReferences m = om_OwnerReferences (obj_meta gw)"
  shows "controller_handlers GatewayEvents ev = []"
proof -
  have "om_OwnerReferences (obj_meta gw) = []" using assms(1) by (auto simp: MakeGateway_def Let_def zero_meta_def)
  then have f: "\<not> FilterControllerGK grp kind (EvObject m)" if "m \<in> event_metas ev" for m grp kind
    using assms(2) [OF that] by (simp add: FilterControllerGK_def)
  show ?thesis using f by (auto simp: handleControllerOf_def intro!: filter_rejects)
qed

theorem gateway_events_wake_nobody_witness:
  "\<exists>gw. MakeGateway demo_ctx demo_route [''app.example.com''] ''default'' = Inr gw
    \<and> controller_handlers GatewayEvents (OnUpdate (EvObject (obj_meta gw)) (EvObject (obj_meta gw))) = []"
proof -
  obtain gw where gw: "MakeGateway demo_ctx demo_route [''app.example.com''] ''default'' = Inr gw"
    using demo_gateway_ok by blast
  have "controller_handlers GatewayEvents (OnUpdate (EvObject (obj_meta gw)) (EvObject (obj_meta gw))) = []"
    by (rule gateway_events_wake_nobody [OF gw]) auto
  with gw show ?thesis by blast
qed

end
