(* ===== verification/WorkQueue.thy ===== *)
theory WorkQueue
  imports Prelude
begin

text \<open>
  The queue of client-go the controller's work queue is made of: \<open>workqueue.Type\<close> (\<open>queue.go\<close>) and the delaying
  queue around it (\<open>delaying_queue.go\<close>). Each operation holds the queue's lock, so it is one step. Metrics are
  left out, and the buffered channel of the delaying queue is not bounded.
\<close>

subsection \<open>The queue\<close>

record 'k work_queue =
  wq_queue :: "'k list"
  wq_dirty :: "'k set"
  wq_processing :: "'k set"
  wq_shuttingDown :: bool

definition newQueue :: "'k work_queue" where
  "newQueue = \<lparr>wq_queue = [], wq_dirty = {}, wq_processing = {}, wq_shuttingDown = False\<rparr>"

definition wq_Add :: "'k \<Rightarrow> 'k work_queue \<Rightarrow> 'k work_queue" where
  "wq_Add k q =
     (if wq_shuttingDown q then q
      else if k \<in> wq_dirty q then q
      else let q = q\<lparr>wq_dirty := insert k (wq_dirty q)\<rparr> in
        if k \<in> wq_processing q then q else q\<lparr>wq_queue := wq_queue q @ [k]\<rparr>)"

definition wq_Len :: "'k work_queue \<Rightarrow> nat" where
  "wq_Len q = length (wq_queue q)"

text \<open>\<open>None\<close> when the caller waits, \<open>Some None\<close> when it is told that the queue has shut down.\<close>

definition wq_Get :: "'k work_queue \<Rightarrow> ('k option \<times> 'k work_queue) option" where
  "wq_Get q =
     (case wq_queue q of
        [] \<Rightarrow> if wq_shuttingDown q then Some (None, q) else None
      | k # ks \<Rightarrow> Some (Some k, q\<lparr>wq_queue := ks, wq_processing := insert k (wq_processing q),
                                  wq_dirty := wq_dirty q - {k}\<rparr>))"

definition wq_Done :: "'k \<Rightarrow> 'k work_queue \<Rightarrow> 'k work_queue" where
  "wq_Done k q =
     (let q = q\<lparr>wq_processing := wq_processing q - {k}\<rparr> in
      if k \<in> wq_dirty q then q\<lparr>wq_queue := wq_queue q @ [k]\<rparr> else q)"

definition wq_ShutDown :: "'k work_queue \<Rightarrow> 'k work_queue" where
  "wq_ShutDown q = q\<lparr>wq_shuttingDown := True\<rparr>"

definition wq_ShuttingDown :: "'k work_queue \<Rightarrow> bool" where
  "wq_ShuttingDown q \<longleftrightarrow> wq_shuttingDown q"

text \<open>What the comments on the fields promise: the queue holds, once each, the keys that need processing and
  are not being processed.\<close>

definition wq_ok :: "'k work_queue \<Rightarrow> bool" where
  "wq_ok q \<longleftrightarrow> distinct (wq_queue q) \<and> set (wq_queue q) = wq_dirty q - wq_processing q"

lemma newQueue_simps [simp]:
  "wq_ok newQueue" "wq_dirty newQueue = {}" "wq_processing newQueue = {}" "\<not> wq_shuttingDown newQueue"
  "wq_queue newQueue = []"
  by (simp_all add: newQueue_def wq_ok_def)

lemma wq_Add_simps [simp]:
  "wq_processing (wq_Add k q) = wq_processing q" "wq_shuttingDown (wq_Add k q) = wq_shuttingDown q"
  "wq_dirty (wq_Add k q) = (if wq_shuttingDown q then wq_dirty q else insert k (wq_dirty q))"
  by (auto simp: wq_Add_def Let_def)

lemma wq_Add_ok: "wq_ok q \<Longrightarrow> wq_ok (wq_Add k q)"
  by (auto simp: wq_ok_def wq_Add_def Let_def)

lemma wq_Get_None: "wq_Get q = None \<longleftrightarrow> wq_queue q = [] \<and> \<not> wq_shuttingDown q"
  by (auto simp: wq_Get_def split: list.split)

lemma wq_Get_shutdown: "wq_Get q = Some (None, q') \<longleftrightarrow> wq_queue q = [] \<and> wq_shuttingDown q \<and> q' = q"
  by (auto simp: wq_Get_def split: list.split)

lemma wq_Get_Some:
  assumes "wq_ok q" and "wq_Get q = Some (Some k, q')"
  shows "wq_ok q'" "k \<in> wq_dirty q" "k \<notin> wq_processing q" "wq_dirty q' = wq_dirty q - {k}"
    "wq_processing q' = insert k (wq_processing q)" "wq_shuttingDown q' = wq_shuttingDown q"
    "wq_queue q = k # wq_queue q'"
proof -
  obtain ks where "wq_queue q = k # ks" "q' = q\<lparr>wq_queue := ks, wq_processing := insert k (wq_processing q),
      wq_dirty := wq_dirty q - {k}\<rparr>"
    using assms(2) by (cases "wq_queue q") (simp_all add: wq_Get_def split: if_splits)
  with assms(1) show "wq_ok q'" "k \<in> wq_dirty q" "k \<notin> wq_processing q" "wq_dirty q' = wq_dirty q - {k}"
    "wq_processing q' = insert k (wq_processing q)" "wq_shuttingDown q' = wq_shuttingDown q"
    "wq_queue q = k # wq_queue q'"
    by (auto simp: wq_ok_def)
qed

lemma wq_Done_simps [simp]:
  "wq_dirty (wq_Done k q) = wq_dirty q" "wq_processing (wq_Done k q) = wq_processing q - {k}"
  "wq_shuttingDown (wq_Done k q) = wq_shuttingDown q"
  by (simp_all add: wq_Done_def Let_def)

lemma wq_Done_ok: "wq_ok q \<Longrightarrow> k \<in> wq_processing q \<Longrightarrow> wq_ok (wq_Done k q)"
  by (auto simp: wq_ok_def wq_Done_def Let_def)

lemma wq_ShutDown_simps [simp]:
  "wq_queue (wq_ShutDown q) = wq_queue q" "wq_dirty (wq_ShutDown q) = wq_dirty q"
  "wq_processing (wq_ShutDown q) = wq_processing q" "wq_shuttingDown (wq_ShutDown q)"
  "wq_ok (wq_ShutDown q) = wq_ok q"
  by (simp_all add: wq_ShutDown_def wq_ok_def)

lemma wq_idle_empty: "wq_ok q \<Longrightarrow> wq_queue q = [] \<Longrightarrow> wq_processing q = {} \<Longrightarrow> wq_dirty q = {}"
  by (auto simp: wq_ok_def)

subsection \<open>Delayed additions\<close>

text \<open>\<open>dq_incoming\<close> is the channel to the waiting loop, \<open>dq_waiting\<close> the time each waiting key is ready.\<close>

record 'k delaying_queue =
  dq_queue :: "'k work_queue"
  dq_incoming :: "('k \<times> int) list"
  dq_waiting :: "'k \<Rightarrow> int option"

definition newDelayingQueue :: "'k delaying_queue" where
  "newDelayingQueue = \<lparr>dq_queue = newQueue, dq_incoming = [], dq_waiting = Map.empty\<rparr>"

definition dq_Add :: "'k \<Rightarrow> 'k delaying_queue \<Rightarrow> 'k delaying_queue" where
  "dq_Add k d = d\<lparr>dq_queue := wq_Add k (dq_queue d)\<rparr>"

definition AddAfter :: "int \<Rightarrow> 'k \<Rightarrow> int \<Rightarrow> 'k delaying_queue \<Rightarrow> 'k delaying_queue" where
  "AddAfter now k duration d =
     (if wq_ShuttingDown (dq_queue d) then d
      else if duration \<le> 0 then dq_Add k d
      else d\<lparr>dq_incoming := dq_incoming d @ [(k, now + duration)]\<rparr>)"

text \<open>A key already waiting is moved only to an earlier time.\<close>

definition dq_insert :: "('k \<Rightarrow> int option) \<Rightarrow> 'k \<Rightarrow> int \<Rightarrow> 'k \<Rightarrow> int option" where
  "dq_insert knownEntries k readyAt =
     (case knownEntries k of
        Some t \<Rightarrow> if t > readyAt then knownEntries(k \<mapsto> readyAt) else knownEntries
      | None \<Rightarrow> knownEntries(k \<mapsto> readyAt))"

definition dq_receive :: "int \<Rightarrow> 'k delaying_queue \<Rightarrow> 'k delaying_queue option" where
  "dq_receive now d =
     (case dq_incoming d of
        [] \<Rightarrow> None
      | (k, readyAt) # es \<Rightarrow>
          let d = d\<lparr>dq_incoming := es\<rparr> in
          Some (if readyAt > now then d\<lparr>dq_waiting := dq_insert (dq_waiting d) k readyAt\<rparr> else dq_Add k d))"

text \<open>The waiting loop adds the key that is ready first.\<close>

definition dq_fire :: "int \<Rightarrow> 'k \<Rightarrow> 'k delaying_queue \<Rightarrow> 'k delaying_queue option" where
  "dq_fire now k d =
     (case dq_waiting d k of
        None \<Rightarrow> None
      | Some readyAt \<Rightarrow> if readyAt > now then None
          else Some (dq_Add k (d\<lparr>dq_waiting := (dq_waiting d)(k := None)\<rparr>)))"

text \<open>The keys a lane still has to hand on, at once or later.\<close>

definition dq_due :: "'k delaying_queue \<Rightarrow> 'k set" where
  "dq_due d = wq_dirty (dq_queue d) \<union> fst ` set (dq_incoming d) \<union> dom (dq_waiting d)"

lemma dq_Add_simps [simp]:
  "dq_queue (dq_Add k d) = wq_Add k (dq_queue d)" "dq_incoming (dq_Add k d) = dq_incoming d"
  "dq_waiting (dq_Add k d) = dq_waiting d"
  by (simp_all add: dq_Add_def)

lemma dom_dq_insert [simp]: "dom (dq_insert m k t) = insert k (dom m)"
  by (auto simp: dq_insert_def split: option.splits)

lemma AddAfter_queue: "dq_queue (AddAfter now k t d) = (if t \<le> 0 then wq_Add k (dq_queue d) else dq_queue d)"
  by (auto simp: AddAfter_def wq_ShuttingDown_def wq_Add_def)

lemma AddAfter_due:
  "dq_due (AddAfter now k t d) = (if wq_shuttingDown (dq_queue d) then dq_due d else insert k (dq_due d))"
  by (auto simp: AddAfter_def wq_ShuttingDown_def dq_due_def)

lemma dq_receive_queue:
  assumes "dq_receive now d = Some d'"
  shows "dq_queue d' = dq_queue d \<or> (\<exists>k. dq_queue d' = wq_Add k (dq_queue d))"
  using assms by (auto simp: dq_receive_def Let_def split: list.splits if_splits)

lemma dq_receive_due:
  assumes "dq_receive now d = Some d'" and "\<not> wq_shuttingDown (dq_queue d)"
  shows "dq_due d' = dq_due d"
proof (cases "dq_incoming d")
  case (Cons e es)
  obtain k t where e: "e = (k, t)" by force
  show ?thesis
  proof (cases "t > now")
    case True
    then have d': "d' = d\<lparr>dq_incoming := es, dq_waiting := dq_insert (dq_waiting d) k t\<rparr>"
      using assms(1) by (simp add: dq_receive_def Cons e)
    have "dom (dq_waiting d') = insert k (dom (dq_waiting d))" by (simp add: d')
    then show ?thesis by (simp add: dq_due_def Cons e) (simp add: d')
  next
    case False
    then have d': "d' = dq_Add k (d\<lparr>dq_incoming := es\<rparr>)" using assms(1) by (simp add: dq_receive_def Cons e)
    show ?thesis using assms(2) by (simp add: dq_due_def Cons e d')
  qed
qed (use assms(1) in \<open>simp add: dq_receive_def\<close>)

lemma dq_fire_queue: "dq_fire now k d = Some d' \<Longrightarrow> dq_queue d' = wq_Add k (dq_queue d)"
  by (auto simp: dq_fire_def split: option.splits if_splits)

lemma dq_fire_due:
  assumes "dq_fire now k d = Some d'" and "\<not> wq_shuttingDown (dq_queue d)"
  shows "dq_due d' = dq_due d"
  using assms by (auto simp: dq_fire_def dq_due_def split: option.splits if_splits)

end
