(* ===== verification/Workers.thy ===== *)
theory Workers
  imports WorkQueue
begin

text \<open>
  The two-lane work queue of \<open>knative.dev/pkg/controller\<close> (\<open>two_lane_queue.go\<close>) and the workers that empty it
  (\<open>processNextWorkItem\<close> and \<open>handleErr\<close> of \<open>controller.go\<close>) as one transition system: two delaying queues, a
  goroutine that moves the keys of each to a channel, a goroutine that moves them on to the consumer queue,
  and any number of workers.
\<close>

subsection \<open>Errors of a reconciliation\<close>

text \<open>An error of the API, a key left to another replica, an error not to be retried, an event (type, reason, text,
  and the error its format wraps, if any), and wrapping. An event matches what the error it wraps matches,
  but only the event itself is found as an event.\<close>

datatype go_error = ApiError goerr | SkipKey string | Permanent go_error
  | ReconcilerEvent string string string "go_error option" | Wrapped string go_error

fun IsSkipKey :: "go_error \<Rightarrow> bool" where
  "IsSkipKey (SkipKey key) = True"
| "IsSkipKey (Permanent e) = IsSkipKey e"
| "IsSkipKey (Wrapped msg e) = IsSkipKey e"
| "IsSkipKey (ReconcilerEvent ty reason text (Some e)) = IsSkipKey e"
| "IsSkipKey e = False"

fun IsPermanentError :: "go_error \<Rightarrow> bool" where
  "IsPermanentError (Permanent e) = True"
| "IsPermanentError (Wrapped msg e) = IsPermanentError e"
| "IsPermanentError (ReconcilerEvent ty reason text (Some e)) = IsPermanentError e"
| "IsPermanentError e = False"

subsection \<open>State\<close>

datatype lane = Fast | Slow

text \<open>Where the goroutine \<open>process\<close> of a lane is: at \<open>Get\<close>, between \<open>Get\<close> and \<open>Done\<close>, sending, or gone.\<close>

datatype 'k sender = Polling | Got 'k | Sending 'k | Closed

text \<open>Where \<open>runConsumer\<close> is: at the fast channel alone, at both channels, or gone.\<close>

datatype phase = Draining | Selecting | Stopped

datatype 'k worker = Idle | Running 'k | Finishing 'k | Exited

record 'k two_lane =
  tl_lane :: "lane \<Rightarrow> 'k delaying_queue"
  tl_sender :: "lane \<Rightarrow> 'k sender"
  tl_open :: "lane \<Rightarrow> bool"
  tl_phase :: phase
  tl_consumer :: "'k work_queue"
  tl_worker :: "nat \<Rightarrow> 'k worker"

definition newTwoLaneWorkQueue :: "'k two_lane" where
  "newTwoLaneWorkQueue = \<lparr>tl_lane = (\<lambda>_. newDelayingQueue), tl_sender = (\<lambda>_. Polling), tl_open = (\<lambda>_. True),
     tl_phase = Draining, tl_consumer = newQueue, tl_worker = (\<lambda>_. Idle)\<rparr>"

abbreviation lane_queue :: "'k two_lane \<Rightarrow> lane \<Rightarrow> 'k work_queue" where
  "lane_queue s l \<equiv> dq_queue (tl_lane s l)"

definition put_lane :: "lane \<Rightarrow> 'k delaying_queue \<Rightarrow> 'k two_lane \<Rightarrow> 'k two_lane" where
  "put_lane l d s = s\<lparr>tl_lane := (tl_lane s)(l := d)\<rparr>"

definition put_worker :: "nat \<Rightarrow> 'k worker \<Rightarrow> 'k two_lane \<Rightarrow> 'k two_lane" where
  "put_worker w p s = s\<lparr>tl_worker := (tl_worker s)(w := p)\<rparr>"

subsection \<open>The goroutines of the queue\<close>

text \<open>One step of \<open>process\<close>, when it is not waiting.\<close>

definition process_step :: "lane \<Rightarrow> 'k two_lane \<Rightarrow> 'k two_lane option" where
  "process_step l s =
     (case tl_sender s l of
        Polling \<Rightarrow>
          (case wq_Get (lane_queue s l) of
             None \<Rightarrow> None
           | Some (None, q) \<Rightarrow> Some (s\<lparr>tl_sender := (tl_sender s)(l := Closed)\<rparr>)
           | Some (Some i, q) \<Rightarrow>
               Some (put_lane l ((tl_lane s l)\<lparr>dq_queue := q\<rparr>) (s\<lparr>tl_sender := (tl_sender s)(l := Got i)\<rparr>)))
      | Got i \<Rightarrow>
          Some (put_lane l ((tl_lane s l)\<lparr>dq_queue := wq_Done i (lane_queue s l)\<rparr>)
                  (s\<lparr>tl_sender := (tl_sender s)(l := Sending i)\<rparr>))
      | Sending i \<Rightarrow> None
      | Closed \<Rightarrow> None)"

text \<open>Receiving from a channel, which is ready when an item is being sent or the channel is closed.\<close>

definition receive :: "lane \<Rightarrow> 'k two_lane \<Rightarrow> 'k two_lane option" where
  "receive l s =
     (case tl_sender s l of
        Sending item \<Rightarrow> Some (s\<lparr>tl_sender := (tl_sender s)(l := Polling),
                                tl_consumer := wq_Add item (tl_consumer s), tl_phase := Draining\<rparr>)
      | Closed \<Rightarrow> Some (s\<lparr>tl_open := (tl_open s)(l := False), tl_phase := Draining\<rparr>)
      | _ \<Rightarrow> None)"

text \<open>One step of \<open>runConsumer\<close>; \<open>l\<close> is the channel the second select picks.\<close>

definition runConsumer_step :: "lane \<Rightarrow> 'k two_lane \<Rightarrow> 'k two_lane option" where
  "runConsumer_step l s =
     (case tl_phase s of
        Stopped \<Rightarrow> None
      | Draining \<Rightarrow>
          if \<not> tl_open s Fast \<and> \<not> tl_open s Slow
          then Some (s\<lparr>tl_consumer := wq_ShutDown (tl_consumer s), tl_phase := Stopped\<rparr>)
          else if tl_open s Fast
          then (case receive Fast s of Some s' \<Rightarrow> Some s' | None \<Rightarrow> Some (s\<lparr>tl_phase := Selecting\<rparr>))
          else Some (s\<lparr>tl_phase := Selecting\<rparr>)
      | Selecting \<Rightarrow> receive l s)"

definition tl_Add :: "lane \<Rightarrow> 'k \<Rightarrow> 'k two_lane \<Rightarrow> 'k two_lane" where
  "tl_Add l k s = put_lane l (dq_Add k (tl_lane s l)) s"

definition tl_AddAfter :: "int \<Rightarrow> lane \<Rightarrow> 'k \<Rightarrow> int \<Rightarrow> 'k two_lane \<Rightarrow> 'k two_lane" where
  "tl_AddAfter now l k duration s = put_lane l (AddAfter now k duration (tl_lane s l)) s"

text \<open>Shutting down takes one step per lane.\<close>

definition lane_ShutDown :: "lane \<Rightarrow> 'k two_lane \<Rightarrow> 'k two_lane" where
  "lane_ShutDown l s = put_lane l ((tl_lane s l)\<lparr>dq_queue := wq_ShutDown (lane_queue s l)\<rparr>) s"

definition tl_ShutDown :: "'k two_lane \<Rightarrow> 'k two_lane" where
  "tl_ShutDown s = lane_ShutDown Slow (lane_ShutDown Fast s)"

definition tl_Len :: "'k two_lane \<Rightarrow> nat" where
  "tl_Len s = wq_Len (lane_queue s Fast) + wq_Len (lane_queue s Slow) + wq_Len (tl_consumer s)"

subsection \<open>The workers\<close>

text \<open>\<open>processNextWorkItem\<close> up to the call of the reconciler.\<close>

definition work_Get :: "nat \<Rightarrow> 'k two_lane \<Rightarrow> 'k two_lane option" where
  "work_Get w s =
     (case wq_Get (tl_consumer s) of
        None \<Rightarrow> None
      | Some (None, q) \<Rightarrow> Some (put_worker w Exited s)
      | Some (Some k, q) \<Rightarrow> Some (put_worker w (Running k) (s\<lparr>tl_consumer := q\<rparr>)))"

text \<open>The reconciler has returned: \<open>delay\<close> is what the rate limiter answers. Forgetting a key only resets the
  rate limiter.\<close>

definition handleErr :: "int \<Rightarrow> int \<Rightarrow> go_error \<Rightarrow> 'k \<Rightarrow> 'k two_lane \<Rightarrow> 'k two_lane" where
  "handleErr now delay err k s =
     (if IsSkipKey err then s
      else if \<not> IsPermanentError err \<and> \<not> wq_ShuttingDown (lane_queue s Fast)
      then tl_AddAfter now Fast k delay s
      else s)"

definition work_Handle :: "int \<Rightarrow> int \<Rightarrow> go_error option \<Rightarrow> 'k \<Rightarrow> 'k two_lane \<Rightarrow> 'k two_lane" where
  "work_Handle now delay err k s = (case err of None \<Rightarrow> s | Some e \<Rightarrow> handleErr now delay e k s)"

text \<open>The deferred \<open>Done\<close>.\<close>

definition work_Done :: "'k \<Rightarrow> 'k two_lane \<Rightarrow> 'k two_lane" where
  "work_Done k s = s\<lparr>tl_consumer := wq_Done k (tl_consumer s)\<rparr>"

subsection \<open>Runs\<close>

datatype 'k label = LAdd lane 'k | LAddAfter lane 'k | LShutDown lane | LInternal
  | LTake nat 'k | LHandled nat 'k "go_error option" | LFinished nat 'k | LExit nat

inductive tl_step :: "'k label \<Rightarrow> 'k two_lane \<Rightarrow> 'k two_lane \<Rightarrow> bool" where
  Add: "tl_step (LAdd l k) s (tl_Add l k s)"
| AddAfter: "tl_step (LAddAfter l k) s (tl_AddAfter now l k d s)"
| ShutDown: "tl_step (LShutDown l) s (lane_ShutDown l s)"
| Receive: "dq_receive now (tl_lane s l) = Some d \<Longrightarrow> tl_step LInternal s (put_lane l d s)"
| Fire: "dq_fire now k (tl_lane s l) = Some d
     \<Longrightarrow> (\<And>k' t t'. dq_waiting (tl_lane s l) k = Some t \<Longrightarrow> dq_waiting (tl_lane s l) k' = Some t' \<Longrightarrow> t \<le> t')
     \<Longrightarrow> tl_step LInternal s (put_lane l d s)"
| Process: "process_step l s = Some s' \<Longrightarrow> tl_step LInternal s s'"
| Consume: "runConsumer_step l s = Some s' \<Longrightarrow> tl_step LInternal s s'"
| Take: "tl_worker s w = Idle \<Longrightarrow> work_Get w s = Some s' \<Longrightarrow> tl_worker s' w = Running k
     \<Longrightarrow> tl_step (LTake w k) s s'"
| Exit: "tl_worker s w = Idle \<Longrightarrow> work_Get w s = Some s' \<Longrightarrow> tl_worker s' w = Exited \<Longrightarrow> tl_step (LExit w) s s'"
| Handle: "tl_worker s w = Running k
     \<Longrightarrow> tl_step (LHandled w k err) s (put_worker w (Finishing k) (work_Handle now delay err k s))"
| Finish: "tl_worker s w = Finishing k \<Longrightarrow> tl_step (LFinished w k) s (put_worker w Idle (work_Done k s))"

inductive tl_run :: "'k two_lane \<Rightarrow> 'k label list \<Rightarrow> 'k two_lane \<Rightarrow> bool" where
  Nil: "tl_run s [] s"
| Cons: "tl_step a s s' \<Longrightarrow> tl_run s' as s'' \<Longrightarrow> tl_run s (a # as) s''"

lemma tl_run_append: "tl_run s as s' \<Longrightarrow> tl_run s' bs s'' \<Longrightarrow> tl_run s (as @ bs) s''"
  by (induction rule: tl_run.induct) (auto intro: tl_run.intros)

subsection \<open>The invariant\<close>

fun holds :: "'k worker \<Rightarrow> 'k option" where
  "holds Idle = None"
| "holds (Running k) = Some k"
| "holds (Finishing k) = Some k"
| "holds Exited = None"

fun sender_got :: "'k sender \<Rightarrow> 'k set" where
  "sender_got (Got k) = {k}"
| "sender_got _ = {}"

fun sender_has :: "'k sender \<Rightarrow> 'k set" where
  "sender_has (Got k) = {k}"
| "sender_has (Sending k) = {k}"
| "sender_has _ = {}"

text \<open>A lane is consistent with its goroutine, which is gone only when the lane is shut down and empty.\<close>

definition lane_ok :: "'k work_queue \<Rightarrow> 'k sender \<Rightarrow> bool \<Rightarrow> bool" where
  "lane_ok q p opn \<longleftrightarrow> wq_ok q \<and> wq_processing q = sender_got p
     \<and> (p = Closed \<longrightarrow> wq_shuttingDown q \<and> wq_queue q = []) \<and> (\<not> opn \<longrightarrow> p = Closed)"

definition held :: "'k two_lane \<Rightarrow> nat \<Rightarrow> 'k option" where
  "held s w = holds (tl_worker s w)"

definition tl_ok :: "'k two_lane \<Rightarrow> bool" where
  "tl_ok s \<longleftrightarrow> (\<forall>l. lane_ok (lane_queue s l) (tl_sender s l) (tl_open s l))
     \<and> wq_ok (tl_consumer s)
     \<and> wq_processing (tl_consumer s) = ran (held s) \<and> inj_on (held s) (dom (held s))
     \<and> (wq_shuttingDown (tl_consumer s) \<longleftrightarrow> tl_phase s = Stopped)
     \<and> (tl_phase s = Stopped \<longrightarrow> (\<forall>l. \<not> tl_open s l))
     \<and> (\<forall>w. tl_worker s w = Exited \<longrightarrow> tl_phase s = Stopped)"

text \<open>The keys on their way to a worker, and those that will be after their delay.\<close>

definition pending :: "'k two_lane \<Rightarrow> 'k set" where
  "pending s = (\<Union>l. wq_dirty (lane_queue s l) \<union> sender_has (tl_sender s l)) \<union> wq_dirty (tl_consumer s)"

definition due :: "'k two_lane \<Rightarrow> 'k set" where
  "due s = pending s \<union> dq_due (tl_lane s Fast)"

lemma put_simps [simp]:
  "tl_lane (put_lane l d s) = (tl_lane s)(l := d)" "tl_sender (put_lane l d s) = tl_sender s"
  "tl_open (put_lane l d s) = tl_open s" "tl_phase (put_lane l d s) = tl_phase s"
  "tl_consumer (put_lane l d s) = tl_consumer s" "tl_worker (put_lane l d s) = tl_worker s"
  "tl_lane (put_worker w p s) = tl_lane s" "tl_sender (put_worker w p s) = tl_sender s"
  "tl_open (put_worker w p s) = tl_open s" "tl_phase (put_worker w p s) = tl_phase s"
  "tl_consumer (put_worker w p s) = tl_consumer s" "tl_worker (put_worker w p s) = (tl_worker s)(w := p)"
  by (simp_all add: put_lane_def put_worker_def)

lemma held_put [simp]:
  "held (put_worker w p s) = (held s)(w := holds p)" "held (put_lane l d s) = held s"
  "held (s\<lparr>tl_lane := ls\<rparr>) = held s" "held (s\<lparr>tl_sender := ss\<rparr>) = held s" "held (s\<lparr>tl_open := os\<rparr>) = held s"
  "held (s\<lparr>tl_phase := ph\<rparr>) = held s" "held (s\<lparr>tl_consumer := q\<rparr>) = held s"
  by (auto simp: held_def fun_eq_iff)

lemma inj_map_upd: "inj_on m (dom m) \<Longrightarrow> k \<notin> ran m \<Longrightarrow> inj_on (m(w \<mapsto> k)) (dom (m(w \<mapsto> k)))"
  by (auto simp: inj_on_def ran_def)

lemma inj_map_del:
  assumes "inj_on m (dom m)" and "m w = Some k"
  shows "inj_on (m(w := None)) (dom (m(w := None)))" "ran (m(w := None)) = ran m - {k}"
proof -
  show "inj_on (m(w := None)) (dom (m(w := None)))" using assms(1) by (auto simp: inj_on_def)
  have "w' = w" if "m w' = Some k" for w' using assms that by (metis domI inj_onD)
  note uniq = this
  show "ran (m(w := None)) = ran m - {k}"
  proof (intro set_eqI iffI)
    fix x assume "x \<in> ran (m(w := None))"
    then obtain w' where "w' \<noteq> w" "m w' = Some x" by (auto simp: ran_def split: if_splits)
    with uniq [of w'] show "x \<in> ran m - {k}" by (auto simp: ran_def)
  next
    fix x assume "x \<in> ran m - {k}"
    then obtain w' where "m w' = Some x" "x \<noteq> k" unfolding ran_def by blast
    moreover from this have "w' \<noteq> w" using assms(2) by auto
    ultimately have "(m(w := None)) w' = Some x" by simp
    then show "x \<in> ran (m(w := None))" by (rule ranI)
  qed
qed

lemma new_ok [simp]: "tl_ok newTwoLaneWorkQueue"
  by (simp add: tl_ok_def lane_ok_def newTwoLaneWorkQueue_def newDelayingQueue_def held_def ran_def dom_def)

lemma tl_okD:
  assumes "tl_ok s"
  shows "lane_ok (lane_queue s l) (tl_sender s l) (tl_open s l)" "wq_ok (lane_queue s l)" "wq_ok (tl_consumer s)"
    "wq_shuttingDown (tl_consumer s) \<longleftrightarrow> tl_phase s = Stopped"
  using assms by (auto simp: tl_ok_def lane_ok_def)

text \<open>Steps that change one lane, one goroutine, or one worker.\<close>

lemma tl_ok_lane:
  assumes "tl_ok s" and "lane_ok (dq_queue d) (tl_sender s l) (tl_open s l)"
  shows "tl_ok (put_lane l d s)"
  using assms by (simp add: tl_ok_def)

lemma lane_ok_Add: "lane_ok q p opn \<Longrightarrow> lane_ok (wq_Add k q) p opn"
  by (auto simp: lane_ok_def wq_Add_ok) (auto simp: wq_Add_def)

lemma lane_ok_ShutDown: "lane_ok q p opn \<Longrightarrow> lane_ok (wq_ShutDown q) p opn"
  by (auto simp: lane_ok_def)

lemma handle_ok: "tl_ok s \<Longrightarrow> tl_ok (work_Handle now delay err k s)"
  unfolding work_Handle_def handleErr_def tl_AddAfter_def
  by (auto split: option.split intro!: tl_ok_lane simp: AddAfter_queue lane_ok_Add tl_okD)

lemma handle_frame:
  "tl_worker (work_Handle now delay err k s) = tl_worker s" "tl_consumer (work_Handle now delay err k s) = tl_consumer s"
  "tl_phase (work_Handle now delay err k s) = tl_phase s"
  by (simp_all add: work_Handle_def handleErr_def tl_AddAfter_def split: option.split)

lemma process_ok:
  assumes ok: "tl_ok s" and "process_step l s = Some s'"
  shows "tl_ok s'"
proof (cases "tl_sender s l")
  case Polling
  note L = tl_okD(1) [OF ok, of l, unfolded Polling]
  show ?thesis
  proof (cases "wq_Get (lane_queue s l)")
    case (Some r)
    obtain i q where r: "r = (i, q)" by force
    show ?thesis
    proof (cases i)
      case None
      then have e: "wq_queue (lane_queue s l) = []" "wq_shuttingDown (lane_queue s l)"
        using wq_Get_shutdown [of "lane_queue s l" q] Some r by simp_all
      have "s' = s\<lparr>tl_sender := (tl_sender s)(l := Closed)\<rparr>"
        using assms(2) Polling Some r None by (simp add: process_step_def)
      then show ?thesis using ok L e by (auto simp: tl_ok_def lane_ok_def)
    next
      case (Some k)
      note G = wq_Get_Some [OF tl_okD(2) [OF ok, of l], of k q]
      have g: "wq_Get (lane_queue s l) = Some (Some k, q)" using \<open>wq_Get (lane_queue s l) = Some r\<close> r Some by simp
      have "s' = put_lane l ((tl_lane s l)\<lparr>dq_queue := q\<rparr>) (s\<lparr>tl_sender := (tl_sender s)(l := Got k)\<rparr>)"
        using assms(2) Polling g by (simp add: process_step_def)
      then show ?thesis using ok L G [OF g] by (auto simp: tl_ok_def lane_ok_def)
    qed
  qed (use assms(2) Polling in \<open>simp add: process_step_def\<close>)
next
  case (Got k)
  note L = tl_okD(1) [OF ok, of l, unfolded Got]
  have "s' = put_lane l ((tl_lane s l)\<lparr>dq_queue := wq_Done k (lane_queue s l)\<rparr>) (s\<lparr>tl_sender := (tl_sender s)(l := Sending k)\<rparr>)"
    using assms(2) Got by (simp add: process_step_def)
  then show ?thesis using ok L by (auto simp: tl_ok_def lane_ok_def wq_Done_ok)
qed (use assms(2) in \<open>simp_all add: process_step_def\<close>)

lemma receive_ok:
  assumes ok: "tl_ok s" and ph: "tl_phase s \<noteq> Stopped" and "receive l s = Some s'"
  shows "tl_ok s'"
proof (cases "tl_sender s l")
  case (Sending k)
  note L = tl_okD(1) [OF ok, of l, unfolded Sending]
  have "s' = s\<lparr>tl_sender := (tl_sender s)(l := Polling), tl_consumer := wq_Add k (tl_consumer s), tl_phase := Draining\<rparr>"
    using assms(3) Sending by (simp add: receive_def)
  then show ?thesis using ok ph L by (auto simp: tl_ok_def lane_ok_def wq_Add_ok)
next
  case Closed
  have "s' = s\<lparr>tl_open := (tl_open s)(l := False), tl_phase := Draining\<rparr>"
    using assms(3) Closed by (simp add: receive_def)
  then show ?thesis using ok ph Closed by (auto simp: tl_ok_def lane_ok_def)
qed (use assms(3) in \<open>simp_all add: receive_def\<close>)

lemma consumer_cases:
  assumes "runConsumer_step l s = Some s'"
  obtains (stop) "\<And>l. \<not> tl_open s l" "s' = s\<lparr>tl_consumer := wq_ShutDown (tl_consumer s), tl_phase := Stopped\<rparr>" "tl_phase s = Draining"
  | (select) "s' = s\<lparr>tl_phase := Selecting\<rparr>" "tl_phase s = Draining" "\<exists>l. tl_open s l"
  | (receive) l' where "receive l' s = Some s'" "tl_phase s \<noteq> Stopped"
proof (cases "tl_phase s")
  case Draining
  consider "\<not> tl_open s Fast" "\<not> tl_open s Slow" | "tl_open s Fast" | "\<not> tl_open s Fast" "tl_open s Slow" by blast
  then show ?thesis
  proof cases
    case 1
    then have "\<not> tl_open s l" for l by (cases l) simp_all
    then show ?thesis using stop assms Draining 1 by (simp add: runConsumer_step_def)
  next
    case 2
    then show ?thesis
      using select receive assms Draining by (cases "receive Fast s") (auto simp: runConsumer_step_def)
  next
    case 3
    then show ?thesis using select assms Draining by (auto simp: runConsumer_step_def)
  qed
next
  case Selecting
  then show ?thesis using receive assms by (simp add: runConsumer_step_def)
qed (use assms in \<open>simp add: runConsumer_step_def\<close>)

lemma consumer_ok:
  assumes ok: "tl_ok s" and "runConsumer_step l s = Some s'"
  shows "tl_ok s'"
  using assms(2)
proof (cases rule: consumer_cases)
  case stop
  then show ?thesis using ok by (auto simp: tl_ok_def)
next
  case select
  then show ?thesis using ok by (auto simp: tl_ok_def)
next
  case (receive l')
  then show ?thesis using receive_ok ok by blast
qed

lemma take_ok:
  assumes ok: "tl_ok s" and idle: "tl_worker s w = Idle" and g: "work_Get w s = Some s'" and r: "tl_worker s' w = Running k"
  shows "tl_ok s' \<and> tl_lane s' = tl_lane s \<and> tl_sender s' = tl_sender s
    \<and> k \<in> wq_dirty (tl_consumer s) \<and> wq_dirty (tl_consumer s') = wq_dirty (tl_consumer s) - {k}"
proof -
  obtain q where q: "wq_Get (tl_consumer s) = Some (Some k, q)" "s' = put_worker w (Running k) (s\<lparr>tl_consumer := q\<rparr>)"
    using g r by (auto simp: work_Get_def split: option.splits prod.splits)
  note G = wq_Get_Some [OF tl_okD(3) [OF ok] q(1)]
  have "k \<notin> ran (held s)" using G(3) ok by (simp add: tl_ok_def)
  moreover have "held s w = None" using idle by (simp add: held_def)
  ultimately show ?thesis
    using ok G inj_map_upd [of "held s" k w] unfolding q(2) by (auto simp: tl_ok_def ran_map_upd simp del: dom_fun_upd)
qed

lemma exit_ok:
  assumes ok: "tl_ok s" and idle: "tl_worker s w = Idle" and g: "work_Get w s = Some s'" and r: "tl_worker s' w = Exited"
  shows "tl_ok s' \<and> s' = put_worker w Exited s \<and> wq_queue (tl_consumer s) = [] \<and> wq_shuttingDown (tl_consumer s)"
proof -
  obtain q where "wq_Get (tl_consumer s) = Some (None, q)" and s': "s' = put_worker w Exited s"
    using g r by (auto simp: work_Get_def split: option.splits prod.splits)
  then have e: "wq_queue (tl_consumer s) = []" "wq_shuttingDown (tl_consumer s)" by (simp_all add: wq_Get_shutdown)
  have "held s w = None" using idle by (simp add: held_def)
  then have "(held s)(w := None) = held s" by (simp add: fun_upd_idem)
  then show ?thesis using ok e unfolding s' by (auto simp: tl_ok_def)
qed

lemma put_worker_ok:
  assumes "tl_ok s" and "holds (tl_worker s w) = holds p" and "p \<noteq> Exited"
  shows "tl_ok (put_worker w p s)"
proof -
  have "(held s)(w := holds p) = held s" using assms(2) by (simp add: held_def fun_upd_idem)
  then show ?thesis using assms(1,3) by (auto simp: tl_ok_def)
qed

lemma finish_ok:
  assumes ok: "tl_ok s" and f: "tl_worker s w = Finishing k"
  shows "tl_ok (put_worker w Idle (work_Done k s))"
proof -
  have h: "held s w = Some k" using f by (simp add: held_def)
  then have "k \<in> wq_processing (tl_consumer s)" using ok by (auto simp: tl_ok_def ran_def)
  moreover have "inj_on (held s) (dom (held s))" using ok by (simp add: tl_ok_def)
  note inj_map_del [OF this h]
  ultimately show ?thesis using ok by (auto simp: tl_ok_def work_Done_def wq_Done_ok simp del: dom_fun_upd)
qed

lemma tl_step_ok: "tl_step a s s' \<Longrightarrow> tl_ok s \<Longrightarrow> tl_ok s'"
proof (induction rule: tl_step.induct)
  case (Add l k s)
  then show ?case by (auto simp: tl_Add_def tl_okD lane_ok_Add intro!: tl_ok_lane)
next
  case (AddAfter l k s now d)
  then show ?case by (auto simp: tl_AddAfter_def AddAfter_queue tl_okD lane_ok_Add intro!: tl_ok_lane)
next
  case (ShutDown l s)
  then show ?case by (auto simp: lane_ShutDown_def tl_okD lane_ok_ShutDown intro!: tl_ok_lane)
next
  case (Receive now s l d)
  then show ?case using dq_receive_queue [OF Receive(1)] by (auto simp: tl_okD lane_ok_Add intro!: tl_ok_lane)
next
  case (Fire now k s l d)
  then show ?case using dq_fire_queue [OF Fire(1)] by (auto simp: tl_okD lane_ok_Add intro!: tl_ok_lane)
next
  case (Handle s w k err now delay)
  show ?case by (rule put_worker_ok) (use Handle in \<open>simp_all add: handle_ok handle_frame\<close>)
next
  case (Process l s s')
  then show ?case by (blast intro: process_ok)
next
  case (Consume l s s')
  then show ?case by (blast intro: consumer_ok)
next
  case (Take s w s' k)
  show ?case by (rule take_ok [OF Take(4,1,2,3), THEN conjunct1])
next
  case (Exit s w s')
  show ?case by (rule exit_ok [OF Exit(4,1,2,3), THEN conjunct1])
next
  case (Finish s w k)
  then show ?case by (blast intro: finish_ok)
qed

lemma tl_run_ok: "tl_run s as s' \<Longrightarrow> tl_ok s \<Longrightarrow> tl_ok s'"
  by (induction rule: tl_run.induct) (auto dest: tl_step_ok)

subsection \<open>Nothing pending is lost\<close>

lemma lane_pending: "k \<in> wq_dirty (lane_queue s l) \<Longrightarrow> k \<in> pending s"
  "k \<in> sender_has (tl_sender s l) \<Longrightarrow> k \<in> pending s" "k \<in> wq_dirty (tl_consumer s) \<Longrightarrow> k \<in> pending s"
  by (auto simp: pending_def)

lemma pendingE:
  assumes "k \<in> pending s"
  obtains (dirty) l where "k \<in> wq_dirty (lane_queue s l)" | (sent) l where "k \<in> sender_has (tl_sender s l)"
  | (consumer) "k \<in> wq_dirty (tl_consumer s)"
  using assms by (auto simp: pending_def)

text \<open>A change that keeps what each part still has to hand on.\<close>

lemma pending_mono:
  assumes "\<And>l. wq_dirty (lane_queue s l) \<subseteq> wq_dirty (lane_queue s' l)"
    and "\<And>l. sender_has (tl_sender s l) \<subseteq> sender_has (tl_sender s' l)"
    and "wq_dirty (tl_consumer s) \<subseteq> wq_dirty (tl_consumer s')"
  shows "pending s \<subseteq> pending s'"
  using assms unfolding pending_def by blast

lemma process_pending:
  assumes ok: "tl_ok s" and st: "process_step l s = Some s'"
  shows "pending s \<subseteq> pending s'"
proof (cases "tl_sender s l")
  case Polling
  show ?thesis
  proof (cases "\<exists>i q. wq_Get (lane_queue s l) = Some (Some i, q)")
    case True
    then obtain i q where g: "wq_Get (lane_queue s l) = Some (Some i, q)" by blast
    note G = wq_Get_Some [OF tl_okD(2) [OF ok, of l] g]
    have s': "s' = put_lane l ((tl_lane s l)\<lparr>dq_queue := q\<rparr>) (s\<lparr>tl_sender := (tl_sender s)(l := Got i)\<rparr>)"
      using st Polling g by (simp add: process_step_def)
    show ?thesis using G Polling by (auto simp: s' pending_def split: if_splits)
  next
    case False
    then have "s' = s\<lparr>tl_sender := (tl_sender s)(l := Closed)\<rparr>"
      using st Polling by (auto simp: process_step_def split: option.splits prod.splits)
    then show ?thesis using Polling by (intro pending_mono) auto
  qed
next
  case (Got i)
  have "s' = put_lane l ((tl_lane s l)\<lparr>dq_queue := wq_Done i (lane_queue s l)\<rparr>) (s\<lparr>tl_sender := (tl_sender s)(l := Sending i)\<rparr>)"
    using st Got by (simp add: process_step_def)
  then show ?thesis using Got by (intro pending_mono) auto
qed (use st in \<open>simp_all add: process_step_def\<close>)

lemma receive_pending:
  assumes ok: "tl_ok s" and ph: "tl_phase s \<noteq> Stopped" and st: "receive l s = Some s'"
  shows "pending s \<subseteq> pending s'"
proof (cases "tl_sender s l")
  case (Sending k)
  have s': "s' = s\<lparr>tl_sender := (tl_sender s)(l := Polling), tl_consumer := wq_Add k (tl_consumer s), tl_phase := Draining\<rparr>"
    using st Sending by (simp add: receive_def)
  have "\<not> wq_shuttingDown (tl_consumer s)" using ph tl_okD(4) [OF ok] by simp
  then show ?thesis using Sending by (auto simp: s' pending_def split: if_splits)
next
  case Closed
  have "s' = s\<lparr>tl_open := (tl_open s)(l := False), tl_phase := Draining\<rparr>"
    using st Closed by (simp add: receive_def)
  then show ?thesis by (intro pending_mono) auto
qed (use st in \<open>simp_all add: receive_def\<close>)

lemma consumer_pending:
  assumes ok: "tl_ok s" and "runConsumer_step l s = Some s'"
  shows "pending s \<subseteq> pending s'"
  using assms(2)
proof (cases rule: consumer_cases)
  case stop
  then show ?thesis by (intro pending_mono) auto
next
  case select
  then show ?thesis by (intro pending_mono) auto
next
  case (receive l')
  then show ?thesis using receive_pending ok by blast
qed

lemma put_lane_pending: "wq_dirty (lane_queue s l) \<subseteq> wq_dirty (dq_queue d) \<Longrightarrow> pending s \<subseteq> pending (put_lane l d s)"
  by (intro pending_mono) auto

lemma handle_pending: "pending s \<subseteq> pending (work_Handle now delay err k s)"
  unfolding work_Handle_def handleErr_def tl_AddAfter_def
  by (auto split: option.split intro!: put_lane_pending [THEN subsetD] simp: AddAfter_queue)

lemma tl_step_pending:
  "tl_step a s s' \<Longrightarrow> tl_ok s \<Longrightarrow> k \<in> pending s \<Longrightarrow> k \<in> pending s' \<or> (\<exists>w. a = LTake w k)"
proof (induction rule: tl_step.induct)
  case (Add l k s)
  then show ?case by (auto simp: tl_Add_def intro: put_lane_pending [THEN subsetD])
next
  case (AddAfter l k s now d)
  then show ?case by (auto simp: tl_AddAfter_def AddAfter_queue intro: put_lane_pending [THEN subsetD])
next
  case (ShutDown l s)
  then show ?case by (auto simp: lane_ShutDown_def intro: put_lane_pending [THEN subsetD])
next
  case (Receive now s l d)
  then show ?case using dq_receive_queue [OF Receive(1)] by (auto intro: put_lane_pending [THEN subsetD])
next
  case (Fire now k' s l d)
  then show ?case using dq_fire_queue [OF Fire(1)] by (auto intro: put_lane_pending [THEN subsetD])
next
  case (Process l s s')
  then show ?case by (blast dest: process_pending)
next
  case (Consume l s s')
  then show ?case by (blast dest: consumer_pending)
next
  case (Take s w s' k')
  note T = take_ok [OF Take(4,1,2,3)]
  have "pending s - {k'} \<subseteq> pending s'" using T by (auto simp: pending_def)
  with Take(5) show ?case by blast
next
  case (Exit s w s')
  have "pending s' = pending s" using exit_ok [OF Exit(4,1,2,3)] by (simp add: pending_def)
  with Exit(5) show ?case by blast
next
  case (Handle s w k' err now delay)
  have "pending (put_worker w (Finishing k') (work_Handle now delay err k' s)) = pending (work_Handle now delay err k' s)"
    by (simp add: pending_def)
  with Handle(3) show ?case using handle_pending [of s now delay err k'] by blast
next
  case (Finish s w k')
  have "pending (put_worker w Idle (work_Done k' s)) = pending s" by (simp add: pending_def work_Done_def)
  with Finish(3) show ?case by blast
qed

lemma tl_run_pending:
  "tl_run s as s' \<Longrightarrow> tl_ok s \<Longrightarrow> k \<in> pending s \<Longrightarrow> k \<in> pending s' \<or> (\<exists>w. LTake w k \<in> set as)"
proof (induction rule: tl_run.induct)
  case (Cons a s s' as s'')
  then show ?case using tl_step_pending [OF Cons(1)] tl_step_ok [OF Cons(1)] by auto
qed simp

text \<open>When the consumer queue is shut down and empty and nobody works, nothing is left anywhere.\<close>

definition drained :: "'k two_lane \<Rightarrow> bool" where
  "drained s \<longleftrightarrow> wq_Get (tl_consumer s) = Some (None, tl_consumer s) \<and> (\<forall>w. held s w = None)"

lemma drained_pending:
  assumes ok: "tl_ok s" and d: "drained s"
  shows "pending s = {}"
proof -
  have e: "wq_queue (tl_consumer s) = []" "wq_shuttingDown (tl_consumer s)" "ran (held s) = {}"
    using d by (simp_all add: drained_def wq_Get_shutdown ran_def)
  then have c: "wq_dirty (tl_consumer s) = {}" and op: "\<And>l. \<not> tl_open s l"
    using ok wq_idle_empty [of "tl_consumer s"] by (simp_all add: tl_ok_def)
  have "wq_dirty (lane_queue s l) = {} \<and> sender_has (tl_sender s l) = {}" for l
    using tl_okD(1) [OF ok, of l] op [of l] wq_idle_empty [of "lane_queue s l"] by (simp add: lane_ok_def)
  with c show ?thesis by (simp add: pending_def)
qed

text \<open>Keys waiting for their time in the fast lane stay until they are added, as long as it is not shut down.\<close>

definition delayed :: "'k two_lane \<Rightarrow> 'k set" where
  "delayed s = fst ` set (dq_incoming (tl_lane s Fast)) \<union> dom (dq_waiting (tl_lane s Fast))"

lemma due_eq: "due s = pending s \<union> delayed s"
  by (auto simp: due_def delayed_def dq_due_def pending_def)

lemma lane_due_delayed: "dq_due (tl_lane s Fast) = wq_dirty (lane_queue s Fast) \<union> delayed s"
  by (auto simp: dq_due_def delayed_def)

lemma delayed_put_lane:
  assumes "dq_incoming d = dq_incoming (tl_lane s l)" and "dq_waiting d = dq_waiting (tl_lane s l)"
  shows "delayed (put_lane l d s) = delayed s"
  using assms by (auto simp: delayed_def)

lemma delayed_lane_step:
  assumes "l = Fast \<Longrightarrow> dq_due (tl_lane s l) \<subseteq> dq_due d"
  shows "delayed s \<subseteq> due (put_lane l d s)"
proof (cases l)
  case Fast
  then have "delayed s \<subseteq> dq_due (tl_lane (put_lane l d s) Fast)" using assms lane_due_delayed [of s] by auto
  then show ?thesis by (auto simp: due_def)
next
  case Slow
  then show ?thesis by (simp add: due_eq) (auto simp: delayed_def)
qed

lemma tl_step_shutting: "tl_step a s s' \<Longrightarrow> wq_shuttingDown (lane_queue s l) \<Longrightarrow> wq_shuttingDown (lane_queue s' l)"
proof (induction rule: tl_step.induct)
  case (Receive now s l' d)
  then show ?case using dq_receive_queue [OF Receive(1)] by auto
next
  case (Fire now k s l' d)
  then show ?case using dq_fire_queue [OF Fire(1)] by auto
next
  case (Process l' s s')
  then show ?case by (auto simp: process_step_def wq_Get_def split: sender.splits list.splits option.splits if_splits prod.splits)
next
  case (Consume l' s s')
  from Consume(1) show ?case
    by (cases rule: consumer_cases) (use Consume(2) in \<open>auto simp: receive_def split: sender.splits\<close>)
next
  case (Take s w s' k)
  then show ?case by (auto simp: work_Get_def split: option.splits prod.splits)
next
  case (Exit s w s')
  then show ?case by (auto simp: work_Get_def split: option.splits prod.splits)
next
  case (Handle s w k err now delay)
  then show ?case
    by (auto simp: work_Handle_def handleErr_def tl_AddAfter_def AddAfter_queue split: option.split)
qed (auto simp: tl_Add_def tl_AddAfter_def AddAfter_queue lane_ShutDown_def work_Done_def)

lemma tl_run_shutting: "tl_run s as s' \<Longrightarrow> wq_shuttingDown (lane_queue s l) \<Longrightarrow> wq_shuttingDown (lane_queue s' l)"
  by (induction rule: tl_run.induct) (auto dest: tl_step_shutting)

lemma tl_step_delayed:
  "tl_step a s s' \<Longrightarrow> \<not> wq_shuttingDown (lane_queue s Fast) \<Longrightarrow> delayed s \<subseteq> due s'"
proof (induction rule: tl_step.induct)
  case (Add l k s)
  show ?case unfolding tl_Add_def by (rule delayed_lane_step) (auto simp: dq_due_def)
next
  case (AddAfter l k s now d)
  show ?case unfolding tl_AddAfter_def by (rule delayed_lane_step) (auto simp: AddAfter_due)
next
  case (ShutDown l s)
  have "delayed (lane_ShutDown l s) = delayed s" unfolding lane_ShutDown_def by (rule delayed_put_lane) simp_all
  then show ?case by (simp add: due_eq)
next
  case (Receive now s l d)
  show ?case by (rule delayed_lane_step) (use Receive dq_receive_due [OF Receive(1)] in auto)
next
  case (Fire now k s l d)
  show ?case by (rule delayed_lane_step) (use Fire(3) dq_fire_due [OF Fire(1)] in auto)
next
  case (Process l s s')
  have "delayed s' = delayed s"
    using Process(1)
    by (auto simp: process_step_def delayed_def split: sender.splits option.splits prod.splits if_splits)
  then show ?case by (simp add: due_eq)
next
  case (Consume l s s')
  have "delayed s' = delayed s"
    using Consume(1) by (cases rule: consumer_cases) (auto simp: receive_def delayed_def split: sender.splits)
  then show ?case by (simp add: due_eq)
next
  case (Take s w s' k)
  then have "delayed s' = delayed s" by (auto simp: work_Get_def delayed_def split: option.splits prod.splits)
  then show ?case by (simp add: due_eq)
next
  case (Exit s w s')
  then have "delayed s' = delayed s" by (auto simp: work_Get_def delayed_def split: option.splits prod.splits)
  then show ?case by (simp add: due_eq)
next
  case (Handle s w k err now delay)
  have p: "due (put_worker w (Finishing k) s') = due s'" for s' :: "'a two_lane" by (simp add: due_def pending_def)
  have "delayed s \<subseteq> due (tl_AddAfter now Fast k delay s)"
    unfolding tl_AddAfter_def by (rule delayed_lane_step) (auto simp: AddAfter_due)
  then show ?case unfolding p work_Handle_def handleErr_def by (auto simp: due_eq split: option.split)
next
  case (Finish s w k)
  have "delayed (put_worker w Idle (work_Done k s)) = delayed s" by (simp add: delayed_def work_Done_def)
  then show ?case by (simp add: due_eq)
qed

lemma tl_run_due:
  "tl_run s as s' \<Longrightarrow> tl_ok s \<Longrightarrow> \<not> wq_shuttingDown (lane_queue s' Fast) \<Longrightarrow> k \<in> due s
     \<Longrightarrow> k \<in> due s' \<or> (\<exists>w. LTake w k \<in> set as)"
proof (induction rule: tl_run.induct)
  case (Cons a s s' as s'')
  have "\<not> wq_shuttingDown (lane_queue s Fast)"
    using tl_step_shutting [OF Cons(1)] tl_run_shutting [OF Cons(2)] Cons.prems(2) by blast
  then have "k \<in> due s' \<or> (\<exists>w. a = LTake w k)"
    using Cons.prems(1,3) tl_step_pending [OF Cons(1)] tl_step_delayed [OF Cons(1)] by (auto simp: due_eq)
  then show ?case using Cons.IH Cons.prems tl_step_ok [OF Cons(1)] by auto
qed simp

subsection \<open>Putting keys into the queue\<close>

definition EnqueueKey :: "'k \<Rightarrow> 'k two_lane \<Rightarrow> 'k two_lane" where
  "EnqueueKey k s = tl_Add Fast k s"

definition EnqueueSlowKey :: "'k \<Rightarrow> 'k two_lane \<Rightarrow> 'k two_lane" where
  "EnqueueSlowKey k s = tl_Add Slow k s"

definition EnqueueKeyAfter :: "int \<Rightarrow> 'k \<Rightarrow> int \<Rightarrow> 'k two_lane \<Rightarrow> 'k two_lane" where
  "EnqueueKeyAfter now k delay s = tl_AddAfter now Fast k delay s"

definition MaybeEnqueueBucketKey :: "('k \<Rightarrow> bool) \<Rightarrow> 'k \<Rightarrow> 'k two_lane \<Rightarrow> 'k two_lane" where
  "MaybeEnqueueBucketKey bkt k s = (if bkt k then EnqueueSlowKey k s else s)"

lemma tl_Add_pending: "\<not> wq_shuttingDown (lane_queue s l) \<Longrightarrow> k \<in> pending (tl_Add l k s)"
  by (rule lane_pending(1) [of _ _ l]) (simp add: tl_Add_def)

lemma tl_Add_ok: "tl_ok s \<Longrightarrow> tl_ok (tl_Add l k s)"
  by (rule tl_step_ok [OF tl_step.Add])

subsection \<open>Properties\<close>

text \<open>A key put into the fast lane and handed to worker 0.\<close>

definition demo_queued :: "string two_lane" where
  "demo_queued = the (runConsumer_step Fast (the (process_step Fast (the (process_step Fast
     (tl_Add Fast ''prod/app'' newTwoLaneWorkQueue))))))"

definition demo_taken :: "string two_lane" where
  "demo_taken = the (work_Get 0 demo_queued)"

lemma demo_run:
  "tl_run newTwoLaneWorkQueue [LAdd Fast ''prod/app'', LInternal, LInternal, LInternal] demo_queued"
  "tl_run newTwoLaneWorkQueue [LAdd Fast ''prod/app'', LInternal, LInternal, LInternal, LTake 0 ''prod/app''] demo_taken"
  "tl_worker demo_taken 0 = Running ''prod/app''" "\<not> wq_shuttingDown (lane_queue demo_taken l)"
proof -
  let ?k = "''prod/app''"
  let ?s1 = "tl_Add Fast ?k newTwoLaneWorkQueue"
  note defs = tl_Add_def put_lane_def newTwoLaneWorkQueue_def newDelayingQueue_def newQueue_def wq_Add_def dq_Add_def
    process_step_def wq_Get_def wq_Done_def runConsumer_step_def receive_def work_Get_def put_worker_def
  obtain s2 where s2: "process_step Fast ?s1 = Some s2" by (simp add: defs)
  obtain s3 where s3: "process_step Fast s2 = Some s3" using s2 by (auto simp: defs)
  obtain s4 where s4: "runConsumer_step Fast s3 = Some s4" using s2 s3 by (auto simp: defs)
  obtain s5 where s5: "work_Get 0 s4 = Some s5" using s2 s3 s4 by (auto simp: defs)
  have q: "demo_queued = s4" "demo_taken = s5" by (simp_all add: demo_queued_def demo_taken_def s2 s3 s4 s5)
  have w: "tl_worker s4 0 = Idle" "tl_worker s5 0 = Running ?k" using s2 s3 s4 s5 by (auto simp: defs)
  have r4: "tl_run newTwoLaneWorkQueue [LAdd Fast ?k, LInternal, LInternal, LInternal] s4"
    by (rule tl_run.intros tl_step.Add tl_step.Process [OF s2] tl_step.Process [OF s3] tl_step.Consume [OF s4])+
  have "tl_run s4 [LTake 0 ?k] s5" by (rule tl_run.intros tl_step.Take [OF w(1) s5 w(2)])+
  with tl_run_append [OF r4] r4
  show "tl_run newTwoLaneWorkQueue [LAdd Fast ?k, LInternal, LInternal, LInternal] demo_queued"
    "tl_run newTwoLaneWorkQueue [LAdd Fast ?k, LInternal, LInternal, LInternal, LTake 0 ?k] demo_taken"
    by (simp_all add: q)
  show "tl_worker demo_taken 0 = Running ?k" using w by (simp add: q)
  show "\<not> wq_shuttingDown (lane_queue demo_taken l)" using s2 s3 s4 s5 by (auto simp: q defs)
qed

text \<open>C15: In any interleaving of producers, the goroutines of the queue and the workers, no two workers ever
  hold the same key; a key asked for again while a worker holds it is not given out until that worker is
  done.\<close>

theorem one_worker_per_key:
  assumes "tl_run newTwoLaneWorkQueue as s" and "held s w = Some k"
  shows "(held s w' = Some k \<longrightarrow> w' = w) \<and> k \<notin> set (wq_queue (tl_consumer s))"
proof -
  have ok: "tl_ok s" using tl_run_ok [OF assms(1)] by simp
  have "w' = w" if "held s w' = Some k"
    using ok assms(2) that by (auto simp: tl_ok_def dest!: inj_onD [of _ _ w' w])
  moreover have "k \<in> wq_processing (tl_consumer s)" using ok assms(2) by (auto simp: tl_ok_def ran_def)
  ultimately show ?thesis using tl_okD(3) [OF ok] by (auto simp: wq_ok_def)
qed

theorem one_worker_per_key_witness:
  "held demo_taken 0 = Some ''prod/app'' \<and> ''prod/app'' \<notin> set (wq_queue (tl_consumer (tl_Add Fast ''prod/app'' demo_taken)))"
proof -
  have "tl_run newTwoLaneWorkQueue
      ([LAdd Fast ''prod/app'', LInternal, LInternal, LInternal, LTake 0 ''prod/app''] @ [LAdd Fast ''prod/app''])
      (tl_Add Fast ''prod/app'' demo_taken)"
    by (rule tl_run_append [OF demo_run(2)]) (rule tl_run.intros tl_step.Add)+
  moreover have "held (tl_Add Fast ''prod/app'' demo_taken) 0 = Some ''prod/app''" "held demo_taken 0 = Some ''prod/app''"
    using demo_run(3) by (simp_all add: tl_Add_def held_def)
  ultimately show ?thesis using one_worker_per_key [of _ _ 0 "''prod/app''"] by blast
qed

text \<open>C12: No wake-up is lost: a key put into a lane that is not shut down is handed to a worker, or is still on
  its way; and while it is, the consumer queue cannot be shut down and drained.\<close>

theorem wakeups_reach_a_worker:
  assumes "tl_run newTwoLaneWorkQueue as0 s" and "\<not> wq_ShuttingDown (lane_queue s l)"
    and "tl_run (tl_Add l k s) as s'"
  shows "(\<exists>w. LTake w k \<in> set as) \<or> k \<in> pending s' \<and> \<not> drained s'"
proof -
  have ok: "tl_ok (tl_Add l k s)" using tl_run_ok [OF assms(1)] by (simp add: tl_Add_ok)
  have "k \<in> pending (tl_Add l k s)" using assms(2) by (simp add: tl_Add_pending wq_ShuttingDown_def)
  from tl_run_pending [OF assms(3) ok this] drained_pending [OF tl_run_ok [OF assms(3) ok]] show ?thesis by blast
qed

theorem wakeups_reach_a_worker_witness: "''prod/app'' \<in> pending demo_queued \<and> \<not> drained demo_queued"
proof -
  have "tl_run (tl_Add Fast ''prod/app'' newTwoLaneWorkQueue) [LInternal, LInternal, LInternal] demo_queued"
    using demo_run(1) by (auto elim: tl_run.cases tl_step.cases)
  from wakeups_reach_a_worker [OF tl_run.Nil _ this] show ?thesis
    by (simp add: wq_ShuttingDown_def newTwoLaneWorkQueue_def newDelayingQueue_def)
qed

text \<open>C14: When a reconciliation fails with an error that is neither a skip nor permanent, the key is tried
  again: while the queue is not shut down it is waiting for its delay or on its way to a worker until one
  takes it. A skip and a permanent error leave the queue alone.\<close>

theorem failed_keys_are_retried:
  assumes "tl_run newTwoLaneWorkQueue as0 s" and "tl_worker s w = Running k"
    and "s1 = work_Handle now delay (Some e) k s"
    and "tl_run (put_worker w (Finishing k) s1) as s'" and "\<not> wq_ShuttingDown (lane_queue s' Fast)"
  shows "if IsSkipKey e \<or> IsPermanentError e then s1 = s
    else k \<in> due s' \<or> (\<exists>w. LTake w k \<in> set as)"
proof (cases "IsSkipKey e \<or> IsPermanentError e")
  case True
  then show ?thesis by (auto simp: assms(3) work_Handle_def handleErr_def)
next
  case False
  let ?s2 = "put_worker w (Finishing k) s1"
  have ok: "tl_ok ?s2"
    using tl_step_ok [OF tl_step.Handle [OF assms(2), of "Some e" now delay]] tl_run_ok [OF assms(1)] by (simp add: assms(3))
  have open2: "\<not> wq_shuttingDown (lane_queue s1 Fast)"
    using tl_run_shutting [OF assms(4), of Fast] assms(5) by (auto simp: wq_ShuttingDown_def)
  then have "\<not> wq_shuttingDown (lane_queue s Fast)"
    by (auto simp: assms(3) work_Handle_def handleErr_def tl_AddAfter_def AddAfter_queue split: if_splits)
  then have "k \<in> dq_due (tl_lane s1 Fast)"
    using False by (simp add: assms(3) work_Handle_def handleErr_def tl_AddAfter_def wq_ShuttingDown_def AddAfter_due)
  then have "k \<in> due ?s2" by (simp add: due_def)
  with tl_run_due [OF assms(4) ok] assms(5) False show ?thesis by (auto simp: wq_ShuttingDown_def)
qed

theorem failed_keys_are_retried_witness:
  "''prod/app'' \<in> due (work_Handle 0 5 (Some (ApiError (ErrorString ''boom''))) ''prod/app'' demo_taken)"
proof -
  let ?s1 = "work_Handle 0 5 (Some (ApiError (ErrorString ''boom''))) ''prod/app'' demo_taken"
  have "\<not> wq_ShuttingDown (lane_queue (put_worker 0 (Finishing ''prod/app'') ?s1) Fast)"
    using demo_run(4) by (simp add: work_Handle_def handleErr_def tl_AddAfter_def AddAfter_queue wq_ShuttingDown_def)
  from failed_keys_are_retried [OF demo_run(2,3) refl tl_run.Nil this]
  show ?thesis by (simp add: due_def pending_def)
qed

end
