(* ===== verification/GenReconciler.thy ===== *)
theory GenReconciler
  imports Interfaces Workers
begin

text \<open>
  The generated reconciler of Knative routes (\<open>reconciler.go\<close> and \<open>state.go\<close> of serving's injection client) with
  what it takes from \<open>knative.dev/pkg/reconciler\<close>: leadership by buckets, the processing before and after a
  reconciliation, and retries on conflicts. It works over any state \<open>'s\<close> through a lister and a client of
  routes, and calls the methods the controller implements, of which all but \<open>ReconcileKind\<close> are optional.
\<close>

subsection \<open>Before and after a reconciliation\<close>

text \<open>\<open>SetDefaults\<close> under the controller's context, which holds no user and no default configuration name.\<close>

definition target_SetDefaults :: "traffic_target \<Rightarrow> traffic_target" where
  "target_SetDefaults tt =
     (let tt = (case tt_LatestRevision tt of
                  None \<Rightarrow> tt\<lparr>tt_LatestRevision := Some (tt_RevisionName tt = '''')\<rparr> | Some _ \<Rightarrow> tt)
      in case tt_Percent tt of None \<Rightarrow> tt\<lparr>tt_Percent := Some 0\<rparr> | Some _ \<Rightarrow> tt)"

definition route_SetDefaults :: "route \<Rightarrow> route" where
  "route_SetDefaults r = r\<lparr>obj_spec := \<lparr>rsp_Traffic = map target_SetDefaults (rsp_Traffic (obj_spec r))\<rparr>\<rparr>"

definition failedGenerationBump :: string where
  "failedGenerationBump = ''NewObservedGenFailure''"

definition PreProcessReconcile :: "clock \<Rightarrow> route \<Rightarrow> route" where
  "PreProcessReconcile clk resource =
     (let r = route_SetDefaults resource;
          st = route_InitializeConditions clk (obj_status r, 0);
          st' = (if rst_ObservedGeneration (fst st) \<noteq> om_Generation (obj_meta r)
                 then manage (MarkUnknown clk routeCondSet (happy routeCondSet) failedGenerationBump
                        ''unsuccessfully observed a new generation'') st
                 else st)
      in r\<lparr>obj_status := fst st'\<rparr>)"

text \<open>\<open>now\<close> is the time at which the loop starts.\<close>

definition groom_condition :: "nat \<Rightarrow> route_status \<Rightarrow> condition \<Rightarrow> condition" where
  "groom_condition now old c =
     (case route_GetCondition old (c_Type c) of
        None \<Rightarrow> c\<lparr>c_LastTransitionTime := now\<rparr>
      | Some oldCond \<Rightarrow>
          (let c' = c\<lparr>c_LastTransitionTime := c_LastTransitionTime oldCond\<rparr>
           in if c' = oldCond then c' else c'\<lparr>c_LastTransitionTime := now\<rparr>))"

definition groomConditionsTransitionTime :: "nat \<Rightarrow> route \<Rightarrow> route \<Rightarrow> route" where
  "groomConditionsTransitionTime now resource oldResource =
     resource\<lparr>obj_status := (obj_status resource)\<lparr>rst_Conditions :=
       map (groom_condition now (obj_status oldResource)) (rst_Conditions (obj_status resource))\<rparr>\<rparr>"

definition PostProcessReconcile :: "nat \<Rightarrow> route \<Rightarrow> route \<Rightarrow> route" where
  "PostProcessReconcile now resource oldResource =
     groomConditionsTransitionTime now
       (resource\<lparr>obj_status := (obj_status resource)\<lparr>rst_ObservedGeneration := om_Generation (obj_meta resource)\<rparr>\<rparr>)
       oldResource"

text \<open>\<open>equality.Semantic.DeepEqual\<close> on route statuses: two \<open>VolatileTime\<close>s always count as equal.\<close>

definition DeepEqual_condition :: "condition \<Rightarrow> condition \<Rightarrow> bool" where
  "DeepEqual_condition a b \<longleftrightarrow> c_Type a = c_Type b \<and> c_Status a = c_Status b \<and> c_Severity a = c_Severity b
     \<and> c_Reason a = c_Reason b \<and> c_Message a = c_Message b"

definition DeepEqual_route_status :: "route_status \<Rightarrow> route_status \<Rightarrow> bool" where
  "DeepEqual_route_status a b \<longleftrightarrow> rst_ObservedGeneration a = rst_ObservedGeneration b
     \<and> list_all2 DeepEqual_condition (rst_Conditions a) (rst_Conditions b)
     \<and> DeepEqual_map (rst_Annotations a) (rst_Annotations b)
     \<and> rst_URL a = rst_URL b \<and> rst_Address a = rst_Address b \<and> rst_Traffic a = rst_Traffic b"

lemma DeepEqual_route_status_refl [simp]: "DeepEqual_route_status st st"
  by (simp add: DeepEqual_route_status_def DeepEqual_condition_def DeepEqual_map_iff list_all2_refl)

subsection \<open>Leadership\<close>

type_synonym bucket = "object_key \<Rightarrow> bool"

definition UniversalBucket :: bucket where
  "UniversalBucket nn = True"

definition IsLeaderFor :: "(string, bucket) gomap \<Rightarrow> object_key \<Rightarrow> bool" where
  "IsLeaderFor buckets key = list_ex (\<lambda>(nm, bkt). bkt key) buckets"

definition laf_Promote :: "string \<Rightarrow> bucket \<Rightarrow> (string, bucket) gomap \<Rightarrow> (string, bucket) gomap" where
  "laf_Promote nm bkt buckets = AList.update nm bkt buckets"

definition laf_Demote :: "string \<Rightarrow> (string, bucket) gomap \<Rightarrow> (string, bucket) gomap" where
  "laf_Demote nm buckets = AList.delete nm buckets"

subsection \<open>The reconciler and its collaborators\<close>

type_synonym 's route_method = "go_context \<Rightarrow> route \<Rightarrow> ('s, route \<times> go_error option) action"

record 's route_methods =
  rm_ReconcileKind :: "'s route_method"
  rm_FinalizeKind :: "'s route_method option"
  rm_ObserveKind :: "'s route_method option"
  rm_ObserveFinalizeKind :: "'s route_method option"
  rm_ObserveDeletion :: "(go_context \<Rightarrow> object_key \<Rightarrow> ('s, go_error option) action) option"

text \<open>The calls of the typed client, by namespace; a patch takes the name, the kind of patch and the data.\<close>

record 's route_client =
  rcl_Get :: "string \<Rightarrow> string \<Rightarrow> ('s, route) action"
  rcl_UpdateStatus :: "string \<Rightarrow> route \<Rightarrow> ('s, route) action"
  rcl_Patch :: "string \<Rightarrow> string \<Rightarrow> string \<Rightarrow> string \<Rightarrow> ('s, route) action"

text \<open>The events it records, by their reason.\<close>

datatype route_event = EvFinalizerUpdateFailed string goerr | EvFinalizerUpdate string
  | EvUpdateFailed string goerr | EvInternalError go_error | EvReconciler string string string

record 's reconciler_impl =
  ri_buckets :: "(string, bucket) gomap"
  ri_Client :: "'s route_client"
  ri_Lister :: "(route, 's) lister"
  ri_Recorder :: "object_key \<Rightarrow> route_event \<Rightarrow> 's \<Rightarrow> 's"
  ri_configStore :: "(go_context \<Rightarrow> go_context result) option"
  ri_reconciler :: "'s route_methods"
  ri_finalizerName :: string
  ri_skipStatusUpdates :: bool

definition defaultFinalizerName :: string where
  "defaultFinalizerName = ''routes.serving.knative.dev''"

definition record_event :: "'s reconciler_impl \<Rightarrow> object_key \<Rightarrow> route_event \<Rightarrow> ('s, unit) action" where
  "record_event ri k ev s = (Inr (), ri_Recorder ri k ev s)"

text \<open>The keys of all cached routes, those of the bucket being enqueued by \<open>MaybeEnqueueBucketKey\<close>.\<close>

definition PromoteFunc :: "'s reconciler_impl \<Rightarrow> ('s, object_key list) action" where
  "PromoteFunc ri = bnd (l_List (ri_Lister ri) []) (\<lambda>all. ret (map obj_key all))"

subsection \<open>State of one run\<close>

record 's reconcile_state =
  rs_key :: string
  rs_namespace :: string
  rs_name :: string
  rs_roi :: "'s route_method option"
  rs_rof :: "'s route_method option"
  rs_isLeader :: bool

definition newState :: "string \<Rightarrow> 's reconciler_impl \<Rightarrow> 's reconcile_state result" where
  "newState key ri =
     (case SplitMetaNamespaceKey key of
        Inl _ \<Rightarrow> Inl (Fail (ErrorString (''invalid resource key: '' @ key)))
      | Inr (ns, name) \<Rightarrow>
          Inr \<lparr>rs_key = key, rs_namespace = ns, rs_name = name,
               rs_roi = rm_ObserveKind (ri_reconciler ri), rs_rof = rm_ObserveFinalizeKind (ri_reconciler ri),
               rs_isLeader = IsLeaderFor (ri_buckets ri) (ns, name)\<rparr>)"

definition isNotLeaderNorObserver :: "'s reconcile_state \<Rightarrow> bool" where
  "isNotLeaderNorObserver st \<longleftrightarrow> \<not> rs_isLeader st \<and> rs_roi st = None \<and> rs_rof st = None"

datatype method_name = DoReconcileKind | DoFinalizeKind | DoObserveKind | DoObserveFinalizeKind | UnknownMethod

definition reconcileMethodFor ::
  "'s reconciler_impl \<Rightarrow> 's reconcile_state \<Rightarrow> route \<Rightarrow> method_name \<times> 's route_method option" where
  "reconcileMethodFor ri st r =
     (if om_DeletionTimestamp (obj_meta r) = None then
        (if rs_isLeader st then (DoReconcileKind, Some (rm_ReconcileKind (ri_reconciler ri)))
         else case rs_roi st of Some f \<Rightarrow> (DoObserveKind, Some f) | None \<Rightarrow> (UnknownMethod, None))
      else if rs_isLeader st \<and> rm_FinalizeKind (ri_reconciler ri) \<noteq> None
      then (DoFinalizeKind, rm_FinalizeKind (ri_reconciler ri))
      else if \<not> rs_isLeader st \<and> rs_rof st \<noteq> None then (DoObserveFinalizeKind, rs_rof st)
      else (UnknownMethod, None))"

subsection \<open>Finalizers\<close>

text \<open>\<open>json.Marshal\<close> of a string: bytes above 127 stand for themselves, as in valid UTF-8 text without line
  separators.\<close>

definition json_char :: "char \<Rightarrow> string" where
  "json_char c =
     (let n = of_char c :: nat in
      if n = 0x22 \<or> n = 0x5C then [CHR 0x5C, c]
      else if n = 10 then [CHR 0x5C, CHR ''n'']
      else if n = 13 then [CHR 0x5C, CHR ''r'']
      else if n = 9 then [CHR 0x5C, CHR ''t'']
      else if n < 32 \<or> n = 0x3C \<or> n = 0x3E \<or> n = 0x26
      then CHR 0x5C # ''u00'' @ [''0123456789abcdef'' ! (n div 16), ''0123456789abcdef'' ! (n mod 16)]
      else [c])"

definition json_string :: "string \<Rightarrow> string" where
  "json_string s = CHR 0x22 # concat (map json_char s) @ [CHR 0x22]"

text \<open>The data of the patch: keys are written in order.\<close>

definition finalizers_patch :: "string list \<Rightarrow> string \<Rightarrow> string" where
  "finalizers_patch finalizers resourceVersion =
     ''{'' @ json_string ''metadata'' @ '':{'' @ json_string ''finalizers'' @ '':['' @ join_with '','' (map json_string finalizers)
       @ ''],'' @ json_string ''resourceVersion'' @ '':'' @ json_string resourceVersion @ ''}}''"

definition MergePatchType :: string where
  "MergePatchType = ''application/merge-patch+json''"

definition with_finalizers :: "string list \<Rightarrow> route \<Rightarrow> route" where
  "with_finalizers fs r = r\<lparr>obj_meta := (obj_meta r)\<lparr>om_Finalizers := fs\<rparr>\<rparr>"

definition patch_finalizers :: "'s reconciler_impl \<Rightarrow> route \<Rightarrow> route \<Rightarrow> string list \<Rightarrow> ('s, route) action" where
  "patch_finalizers ri resource existing finalizers =
     bnd (attempt (rcl_Patch (ri_Client ri) (om_Namespace (obj_meta resource)) (om_Name (obj_meta resource))
            MergePatchType (finalizers_patch finalizers (om_ResourceVersion (obj_meta existing))))) (\<lambda>u.
       case u of
         Inl err \<Rightarrow> bnd (record_event ri (obj_key existing) (EvFinalizerUpdateFailed (om_Name (obj_meta resource)) err))
                     (\<lambda>_. lift (Inl (Fail err)))
       | Inr updated \<Rightarrow> bnd (record_event ri (obj_key updated) (EvFinalizerUpdate (om_Name (obj_meta resource))))
                         (\<lambda>_. ret updated))"

definition updateFinalizersFiltered :: "'s reconciler_impl \<Rightarrow> route \<Rightarrow> ('s, route) action" where
  "updateFinalizersFiltered ri resource =
     bnd (l_Get (ri_Lister ri) (om_Namespace (obj_meta resource)) (om_Name (obj_meta resource))) (\<lambda>existing.
       let existingFinalizers = om_Finalizers (obj_meta existing);
           has = (\<lambda>fs. ri_finalizerName ri \<in> set fs)
       in if has (om_Finalizers (obj_meta resource))
          then (if has existingFinalizers then ret resource
                else patch_finalizers ri resource existing (existingFinalizers @ [ri_finalizerName ri]))
          else (if \<not> has existingFinalizers then ret resource
                else patch_finalizers ri resource existing
                       (sset_list (filter (\<lambda>f. f \<noteq> ri_finalizerName ri) existingFinalizers))))"

definition setFinalizerIfFinalizer :: "'s reconciler_impl \<Rightarrow> route \<Rightarrow> ('s, route) action" where
  "setFinalizerIfFinalizer ri resource =
     (if rm_FinalizeKind (ri_reconciler ri) = None then ret resource
      else
        let finalizers = om_Finalizers (obj_meta resource);
            finalizers' = (if om_DeletionTimestamp (obj_meta resource) = None
                           then ri_finalizerName ri # finalizers else finalizers)
        in updateFinalizersFiltered ri (with_finalizers (sset_list finalizers') resource))"

text \<open>\<open>reconciler.EventAs\<close>: the event in the chain of an error.\<close>

fun EventAs :: "go_error \<Rightarrow> (string \<times> string \<times> string) option" where
  "EventAs (ReconcilerEvent ty reason text w) = Some (ty, reason, text)"
| "EventAs (Wrapped msg e) = EventAs e"
| "EventAs (Permanent e) = EventAs e"
| "EventAs e = None"

definition cleanly :: "go_error option \<Rightarrow> bool" where
  "cleanly ev = (case ev of
      None \<Rightarrow> True
    | Some e \<Rightarrow> (case EventAs e of None \<Rightarrow> False | Some (ty, _) \<Rightarrow> ty = ''Normal''))"

definition clearFinalizer :: "'s reconciler_impl \<Rightarrow> route \<Rightarrow> go_error option \<Rightarrow> ('s, route) action" where
  "clearFinalizer ri resource reconcileEvent =
     (if rm_FinalizeKind (ri_reconciler ri) = None then ret resource
      else if om_DeletionTimestamp (obj_meta resource) = None then ret resource
      else
        let finalizers = om_Finalizers (obj_meta resource);
            finalizers' = (if cleanly reconcileEvent
                           then filter (\<lambda>f. f \<noteq> ri_finalizerName ri) finalizers else finalizers)
        in updateFinalizersFiltered ri (with_finalizers (sset_list finalizers') resource))"

subsection \<open>Status\<close>

definition IsConflict :: "goerr \<Rightarrow> bool" where
  "IsConflict e \<longleftrightarrow> ReasonForError e = Some ReasonConflict"

text \<open>\<open>RetryErrors\<close> over \<open>retry.OnError\<close>: the updater runs until it succeeds or fails with an error that is not
  to be retried, and at most \<open>steps\<close> times; it is told how often it ran before.\<close>

fun RetryErrors :: "(goerr \<Rightarrow> bool) \<Rightarrow> nat \<Rightarrow> (nat \<Rightarrow> ('s, goerr option) action) \<Rightarrow> nat \<Rightarrow> ('s, goerr option) action" where
  "RetryErrors retriable 0 updater attempts = ret None"
| "RetryErrors retriable (Suc steps) updater attempts =
     bnd (updater attempts) (\<lambda>e.
       case e of
         None \<Rightarrow> ret None
       | Some err \<Rightarrow>
           if retriable err
           then (if steps = 0 then ret (Some err) else RetryErrors retriable steps updater (Suc attempts))
           else ret (Some err))"

definition DefaultRetry_Steps :: nat where
  "DefaultRetry_Steps = 5"

definition RetryUpdateConflicts :: "(nat \<Rightarrow> ('s, goerr option) action) \<Rightarrow> ('s, goerr option) action" where
  "RetryUpdateConflicts updater = RetryErrors IsConflict DefaultRetry_Steps updater 0"

definition write_status :: "'s route_client \<Rightarrow> route \<Rightarrow> route \<Rightarrow> ('s, goerr option) action" where
  "write_status client desired existing =
     (if DeepEqual_route_status (obj_status existing) (obj_status desired) then ret None
      else bnd (attempt (rcl_UpdateStatus client (om_Namespace (obj_meta existing))
                           (existing\<lparr>obj_status := obj_status desired\<rparr>))) (\<lambda>u.
             case u of Inl err \<Rightarrow> ret (Some err) | Inr _ \<Rightarrow> ret None))"

definition update_attempt :: "'s route_client \<Rightarrow> route \<Rightarrow> route \<Rightarrow> nat \<Rightarrow> ('s, goerr option) action" where
  "update_attempt client cached desired attempts =
     bnd (if attempts > 0
          then attempt (rcl_Get client (om_Namespace (obj_meta desired)) (om_Name (obj_meta desired)))
          else ret (Inr cached)) (\<lambda>g.
       case g of Inl err \<Rightarrow> ret (Some err) | Inr existing \<Rightarrow> write_status client desired existing)"

definition updateStatus :: "'s reconciler_impl \<Rightarrow> route \<Rightarrow> route \<Rightarrow> ('s, goerr option) action" where
  "updateStatus ri existing desired = RetryUpdateConflicts (update_attempt (ri_Client ri) existing desired)"

subsection \<open>Reconcile\<close>

text \<open>The switch on the method: the resource as it now is and what the method returned, or the error that ends
  the run. \<open>clk\<close> is the clock of the conditions, \<open>now\<close> the time after the method.\<close>

definition run_method ::
  "'s reconciler_impl \<Rightarrow> clock \<Rightarrow> nat \<Rightarrow> go_context \<Rightarrow> method_name \<times> 's route_method option \<Rightarrow> route \<Rightarrow> route
     \<Rightarrow> ('s, go_error + route \<times> go_error option) action" where
  "run_method ri clk now ctx m original resource =
     (case m of
        (DoReconcileKind, Some call) \<Rightarrow>
          bnd (attempt (setFinalizerIfFinalizer ri resource)) (\<lambda>res.
            case res of
              Inl err \<Rightarrow> ret (Inl (Wrapped ''failed to set finalizers'' (ApiError err)))
            | Inr resource \<Rightarrow>
                bnd (call ctx (if ri_skipStatusUpdates ri then resource else PreProcessReconcile clk resource)) (\<lambda>(resource, ev).
                ret (Inr (if ri_skipStatusUpdates ri then resource
                          else PostProcessReconcile now resource original, ev))))
      | (DoFinalizeKind, Some call) \<Rightarrow>
          bnd (call ctx resource) (\<lambda>(resource, ev).
          bnd (attempt (clearFinalizer ri resource ev)) (\<lambda>res.
            case res of
              Inl err \<Rightarrow> ret (Inl (Wrapped ''failed to clear finalizers'' (ApiError err)))
            | Inr resource \<Rightarrow> ret (Inr (resource, ev))))
      | (DoObserveKind, Some call) \<Rightarrow> bnd (call ctx resource) (\<lambda>out. ret (Inr out))
      | (DoObserveFinalizeKind, Some call) \<Rightarrow> bnd (call ctx resource) (\<lambda>out. ret (Inr out))
      | _ \<Rightarrow> ret (Inr (resource, None)))"

definition sync_status :: "'s reconciler_impl \<Rightarrow> bool \<Rightarrow> route \<Rightarrow> route \<Rightarrow> ('s, go_error option) action" where
  "sync_status ri isLeader original resource =
     (if ri_skipStatusUpdates ri then ret None
      else if DeepEqual_route_status (obj_status original) (obj_status resource) then ret None
      else if \<not> isLeader then ret None
      else bnd (updateStatus ri original resource) (\<lambda>e.
        case e of
          None \<Rightarrow> ret None
        | Some err \<Rightarrow> bnd (record_event ri (obj_key resource) (EvUpdateFailed (om_Name (obj_meta resource)) err))
                       (\<lambda>_. ret (Some (ApiError err)))))"

fun is_event :: "go_error \<Rightarrow> bool" where
  "is_event (ReconcilerEvent ty reason text w) = True"
| "is_event e = False"

definition report_event :: "'s reconciler_impl \<Rightarrow> route \<Rightarrow> go_error option \<Rightarrow> ('s, go_error option) action" where
  "report_event ri resource reconcileEvent =
     (case reconcileEvent of
        None \<Rightarrow> ret None
      | Some e \<Rightarrow>
          (case EventAs e of
             Some (ty, reason, text) \<Rightarrow>
               bnd (record_event ri (obj_key resource) (EvReconciler ty reason text))
                 (\<lambda>_. ret (if is_event e then None else Some e))
           | None \<Rightarrow> bnd (record_event ri (obj_key resource) (EvInternalError e)) (\<lambda>_. ret (Some e))))"

definition reconcile_found ::
  "'s reconciler_impl \<Rightarrow> clock \<Rightarrow> nat \<Rightarrow> go_context \<Rightarrow> 's reconcile_state \<Rightarrow> route \<Rightarrow> ('s, go_error option) action" where
  "reconcile_found ri clk now ctx st original =
     bnd (run_method ri clk now ctx (reconcileMethodFor ri st original) original original) (\<lambda>out.
       case out of
         Inl err \<Rightarrow> ret (Some err)
       | Inr (resource, ev) \<Rightarrow>
           bnd (sync_status ri (rs_isLeader st) original resource) (\<lambda>e.
             case e of Some err \<Rightarrow> ret (Some err) | None \<Rightarrow> report_event ri resource ev))"

definition impl_Reconcile ::
  "'s reconciler_impl \<Rightarrow> clock \<Rightarrow> nat \<Rightarrow> go_context \<Rightarrow> string \<Rightarrow> ('s, go_error option) action" where
  "impl_Reconcile ri clk now ctx0 key =
     (case newState key ri of
        Inl _ \<Rightarrow> ret None
      | Inr st \<Rightarrow>
          if isNotLeaderNorObserver st then ret (Some (SkipKey key))
          else
            bnd (lift (case ri_configStore ri of None \<Rightarrow> Inr ctx0 | Some toContext \<Rightarrow> toContext ctx0)) (\<lambda>ctx.
            bnd (attempt (l_Get (ri_Lister ri) (rs_namespace st) (rs_name st))) (\<lambda>g.
              case g of
                Inl err \<Rightarrow>
                  if IsNotFound err
                  then (case rm_ObserveDeletion (ri_reconciler ri) of
                          None \<Rightarrow> ret None | Some observe \<Rightarrow> observe ctx (rs_namespace st, rs_name st))
                  else ret (Some (ApiError err))
              | Inr original \<Rightarrow> reconcile_found ri clk now ctx st original)))"

subsection \<open>What the reconciler itself leaves alone\<close>

text \<open>A view of the state that only the methods of the controller change.\<close>

locale impl_frame =
  fixes ri :: "'s reconciler_impl" and V :: "'s \<Rightarrow> 'v"
  assumes get_keeps: "keeps V (rcl_Get (ri_Client ri) ns name)"
    and update_keeps: "keeps V (rcl_UpdateStatus (ri_Client ri) ns r)"
    and patch_keeps: "keeps V (rcl_Patch (ri_Client ri) ns name pt data)"
    and lister_keeps: "keeps V (l_Get (ri_Lister ri) ns name)"
    and recorder_keeps: "V (ri_Recorder ri k ev s) = V s"
begin

lemma event_keeps: "keeps V (record_event ri k ev)"
  by (simp add: keeps_def record_event_def recorder_keeps)

lemmas frame_intro = keeps_intro get_keeps update_keeps patch_keeps lister_keeps event_keeps

lemma keeps_patch_finalizers: "keeps V (patch_finalizers ri resource existing fs)"
  unfolding patch_finalizers_def by (auto intro!: frame_intro split: sum.split)

lemma keeps_updateFinalizersFiltered: "keeps V (updateFinalizersFiltered ri resource)"
  unfolding updateFinalizersFiltered_def Let_def by (intro frame_intro keeps_patch_finalizers)

lemma keeps_finalizers: "keeps V (setFinalizerIfFinalizer ri resource)" "keeps V (clearFinalizer ri resource ev)"
  unfolding setFinalizerIfFinalizer_def clearFinalizer_def Let_def by (intro frame_intro keeps_updateFinalizersFiltered)+

lemma keeps_RetryErrors: "(\<And>n. keeps V (u n)) \<Longrightarrow> keeps V (RetryErrors p k u n)"
  by (induction p k u n rule: RetryErrors.induct) (auto intro!: keeps_intro split: option.split)

lemma keeps_updateStatus: "keeps V (updateStatus ri existing desired)"
  unfolding updateStatus_def RetryUpdateConflicts_def update_attempt_def write_status_def
  by (intro keeps_RetryErrors) (auto intro!: frame_intro split: sum.split)

lemma keeps_sync_status: "keeps V (sync_status ri l original resource)"
  unfolding sync_status_def by (auto intro!: frame_intro keeps_updateStatus split: option.split)

lemma keeps_report_event: "keeps V (report_event ri resource ev)"
  unfolding report_event_def by (auto intro!: frame_intro split: option.split)

end

subsection \<open>Updates of the status\<close>

text \<open>
  The optimistic concurrency of an API server, as \<open>routes\<close> shows its state: reading returns the stored
  object; a status is written when the resource version sent is the stored one, and then changes the status
  and the version only; otherwise the server answers with a conflict.
\<close>

definition optimistic :: "'s route_client \<Rightarrow> ('s \<Rightarrow> object_key \<Rightarrow> route option) \<Rightarrow> bool" where
  "optimistic client routes \<longleftrightarrow>
     (\<forall>s ns name. rcl_Get client ns name s =
        (case routes s (ns, name) of None \<Rightarrow> Inl (Fail (NewNotFound ''routes'' name)) | Some r \<Rightarrow> Inr r, s))
     \<and> (\<forall>s r cur. routes s (obj_key r) = Some cur \<longrightarrow>
          (if om_ResourceVersion (obj_meta r) = om_ResourceVersion (obj_meta cur)
           then \<exists>new s'. rcl_UpdateStatus client (om_Namespace (obj_meta r)) r s = (Inr new, s')
                  \<and> routes s' = (routes s)(obj_key r \<mapsto> new) \<and> obj_status new = obj_status r
                  \<and> obj_spec new = obj_spec cur \<and> (\<exists>rv. obj_meta new = (obj_meta cur)\<lparr>om_ResourceVersion := rv\<rparr>)
           else \<exists>e. rcl_UpdateStatus client (om_Namespace (obj_meta r)) r s = (Inl (Fail e), s) \<and> IsConflict e))"

lemma optimistic_Get:
  "optimistic client routes \<Longrightarrow> routes s k = Some cur \<Longrightarrow> rcl_Get client (fst k) (snd k) s = (Inr cur, s)"
  by (simp add: optimistic_def)

lemma optimistic_write:
  assumes "optimistic client routes" and "routes s (obj_key r) = Some cur"
    and "om_ResourceVersion (obj_meta r) = om_ResourceVersion (obj_meta cur)"
  obtains new s' where "rcl_UpdateStatus client (om_Namespace (obj_meta r)) r s = (Inr new, s')"
    "routes s' = (routes s)(obj_key r \<mapsto> new)" "obj_status new = obj_status r" "obj_spec new = obj_spec cur"
    "\<exists>rv. obj_meta new = (obj_meta cur)\<lparr>om_ResourceVersion := rv\<rparr>"
  using assms unfolding optimistic_def by meson

lemma optimistic_conflict:
  assumes "optimistic client routes" and "routes s (obj_key r) = Some cur"
    and "om_ResourceVersion (obj_meta r) \<noteq> om_ResourceVersion (obj_meta cur)"
  obtains e where "rcl_UpdateStatus client (om_Namespace (obj_meta r)) r s = (Inl (Fail e), s)" "IsConflict e"
  using assms unfolding optimistic_def by meson

lemma update_attempts:
  "update_attempt client cached desired 0 = write_status client desired cached"
  "rcl_Get client (om_Namespace (obj_meta desired)) (om_Name (obj_meta desired)) s = (Inr cur, s)
     \<Longrightarrow> update_attempt client cached desired (Suc n) s = write_status client desired cur s"
  by (simp_all add: update_attempt_def bnd_def attempt_def)

lemma RetryErrors_ok: "u n s = (Inr None, s') \<Longrightarrow> RetryErrors p (Suc k) u n s = (Inr None, s')"
  by (simp add: bnd_def)

lemma RetryErrors_again:
  "u n s = (Inr (Some e), s') \<Longrightarrow> p e \<Longrightarrow> RetryErrors p (Suc (Suc k)) u n s = RetryErrors p (Suc k) u (Suc n) s'"
  by (simp only: RetryErrors.simps(2) [of p "Suc k" u n] bnd_def) simp

lemma updateStatus_retries:
  "updateStatus ri existing desired = RetryErrors IsConflict (Suc (Suc (Suc (Suc (Suc 0)))))
     (update_attempt (ri_Client ri) existing desired) 0"
proof -
  have "DefaultRetry_Steps = Suc (Suc (Suc (Suc (Suc 0))))" by (simp add: DefaultRetry_Steps_def)
  then show ?thesis unfolding updateStatus_def RetryUpdateConflicts_def by (simp only:)
qed

text \<open>Writing with the version the server holds.\<close>

lemma fresh_write:
  assumes opt: "optimistic client routes" and cur: "routes s (obj_key desired) = Some cur"
    and k: "obj_key existing = obj_key desired" "om_ResourceVersion (obj_meta existing) = om_ResourceVersion (obj_meta cur)"
    and ne: "\<not> DeepEqual_route_status (obj_status existing) (obj_status desired)"
  shows "\<exists>s' new. write_status client desired existing s = (Inr None, s')
    \<and> routes s' = (routes s)(obj_key desired \<mapsto> new) \<and> obj_status new = obj_status desired
    \<and> obj_spec new = obj_spec cur \<and> (\<exists>rv. obj_meta new = (obj_meta cur)\<lparr>om_ResourceVersion := rv\<rparr>)"
proof -
  let ?r = "existing\<lparr>obj_status := obj_status desired\<rparr>"
  have "obj_key ?r = obj_key desired" using k(1) by (simp add: obj_key_def)
  with optimistic_write [OF opt, of s ?r cur] cur k(2)
  obtain new s' where "rcl_UpdateStatus client (om_Namespace (obj_meta ?r)) ?r s = (Inr new, s')"
    "routes s' = (routes s)(obj_key desired \<mapsto> new)" "obj_status new = obj_status desired" "obj_spec new = obj_spec cur"
    "\<exists>rv. obj_meta new = (obj_meta cur)\<lparr>om_ResourceVersion := rv\<rparr>" by auto
  moreover from this(1) ne have "write_status client desired existing s = (Inr None, s')"
    by (simp add: write_status_def bnd_def attempt_def)
  ultimately show ?thesis by blast
qed

text \<open>Writing a status the cache does not have yet succeeds against a server with optimistic concurrency, also
  when the cached route is stale: after a conflict the route is fetched and written once more.\<close>

lemma updateStatus_lands:
  assumes opt: "optimistic (ri_Client ri) routes" and cur: "routes s (obj_key desired) = Some cur"
    and kc: "obj_key cur = obj_key desired" and ke: "obj_key existing = obj_key desired"
    and ne: "\<not> DeepEqual_route_status (obj_status existing) (obj_status desired)"
  shows "\<exists>s' new. updateStatus ri existing desired s = (Inr None, s')
    \<and> routes s' = (routes s)(obj_key desired \<mapsto> new) \<and> DeepEqual_route_status (obj_status new) (obj_status desired)
    \<and> obj_spec new = obj_spec cur \<and> (\<exists>rv. obj_meta new = (obj_meta cur)\<lparr>om_ResourceVersion := rv\<rparr>)"
proof -
  let ?u = "update_attempt (ri_Client ri) existing desired"
  have first: "updateStatus ri existing desired s = (Inr None, s')"
    if "write_status (ri_Client ri) desired existing s = (Inr None, s')" for s'
    unfolding updateStatus_retries by (rule RetryErrors_ok) (use that in \<open>simp add: update_attempts\<close>)
  show ?thesis
  proof (cases "om_ResourceVersion (obj_meta existing) = om_ResourceVersion (obj_meta cur)")
    case True
    from fresh_write [OF opt cur ke True ne] first show ?thesis by fastforce
  next
    case False
    let ?r = "existing\<lparr>obj_status := obj_status desired\<rparr>"
    have "obj_key ?r = obj_key desired" using ke by (simp add: obj_key_def)
    with optimistic_conflict [OF opt, of s ?r cur] cur False
    obtain e where e: "rcl_UpdateStatus (ri_Client ri) (om_Namespace (obj_meta ?r)) ?r s = (Inl (Fail e), s)" "IsConflict e"
      by auto
    have u0: "?u 0 s = (Inr (Some e), s)" using ne e(1) by (simp add: update_attempts write_status_def bnd_def attempt_def)
    have get: "rcl_Get (ri_Client ri) (om_Namespace (obj_meta desired)) (om_Name (obj_meta desired)) s = (Inr cur, s)"
      using optimistic_Get [OF opt cur] by (simp add: obj_key_def)
    have second: "updateStatus ri existing desired s = (Inr None, s')"
      if "write_status (ri_Client ri) desired cur s = (Inr None, s')" for s'
      unfolding updateStatus_retries RetryErrors_again [where u = ?u and p = IsConflict and n = 0, OF u0 e(2)]
      by (rule RetryErrors_ok) (use that in \<open>simp add: update_attempts(2) [OF get]\<close>)
    show ?thesis
    proof (cases "DeepEqual_route_status (obj_status cur) (obj_status desired)")
      case True
      then have "write_status (ri_Client ri) desired cur s = (Inr None, s)" by (simp add: write_status_def)
      moreover have "obj_meta cur = (obj_meta cur)\<lparr>om_ResourceVersion := om_ResourceVersion (obj_meta cur)\<rparr>" by simp
      ultimately show ?thesis using True second cur by (metis fun_upd_idem)
    next
      case False
      from fresh_write [OF opt cur kc refl False] second show ?thesis by fastforce
    qed
  qed
qed

subsection \<open>An example\<close>

text \<open>A server of one route.\<close>

definition versioned :: "route \<Rightarrow> route" where
  "versioned r = r\<lparr>obj_meta := (obj_meta r)\<lparr>om_ResourceVersion := om_ResourceVersion (obj_meta r) @ ''x''\<rparr>\<rparr>"

definition demo_routes :: "route option \<Rightarrow> object_key \<Rightarrow> route option" where
  "demo_routes s k = (case s of None \<Rightarrow> None | Some r \<Rightarrow> if obj_key r = k then Some r else None)"

definition demo_route_client :: "route option route_client" where
  "demo_route_client =
     \<lparr>rcl_Get = (\<lambda>ns name s.
        (case demo_routes s (ns, name) of None \<Rightarrow> Inl (Fail (NewNotFound ''routes'' name)) | Some r \<Rightarrow> Inr r, s)),
      rcl_UpdateStatus = (\<lambda>ns r s.
        case demo_routes s (obj_key r) of
          None \<Rightarrow> (Inl (Fail (NewNotFound ''routes'' (om_Name (obj_meta r)))), s)
        | Some cur \<Rightarrow>
            if om_ResourceVersion (obj_meta r) = om_ResourceVersion (obj_meta cur)
            then let new = versioned (cur\<lparr>obj_status := obj_status r\<rparr>) in (Inr new, Some new)
            else (Inl (Fail (StatusError ReasonConflict ''routes'' (om_Name (obj_meta r)))), s)),
      rcl_Patch = (\<lambda>ns name pt payload s.
        case demo_routes s (ns, name) of
          None \<Rightarrow> (Inl (Fail (NewNotFound ''routes'' name)), s)
        | Some cur \<Rightarrow>
            let fs = (if payload = finalizers_patch [defaultFinalizerName] (om_ResourceVersion (obj_meta cur))
                      then [defaultFinalizerName] else []);
                new = versioned (with_finalizers fs cur)
            in (Inr new, Some new))\<rparr>"

lemma obj_key_versioned [simp]: "obj_key (versioned r) = obj_key r" "obj_status (versioned r) = obj_status r"
  by (simp_all add: versioned_def obj_key_def)

lemma demo_optimistic: "optimistic demo_route_client demo_routes"
proof -
  have w: "\<exists>new s'. rcl_UpdateStatus demo_route_client (om_Namespace (obj_meta r)) r s = (Inr new, s')
      \<and> demo_routes s' = (demo_routes s)(obj_key r \<mapsto> new) \<and> obj_status new = obj_status r
      \<and> obj_spec new = obj_spec cur \<and> (\<exists>rv. obj_meta new = (obj_meta cur)\<lparr>om_ResourceVersion := rv\<rparr>)"
    if c: "demo_routes s (obj_key r) = Some cur" "om_ResourceVersion (obj_meta r) = om_ResourceVersion (obj_meta cur)" for s r cur
  proof -
    have s: "s = Some cur" "obj_key cur = obj_key r" using c(1) by (auto simp: demo_routes_def split: option.splits if_splits)
    let ?new = "versioned (cur\<lparr>obj_status := obj_status r\<rparr>)"
    have "rcl_UpdateStatus demo_route_client (om_Namespace (obj_meta r)) r s = (Inr ?new, Some ?new)"
      using c by (simp add: demo_route_client_def Let_def)
    moreover have "demo_routes (Some ?new) = (demo_routes s)(obj_key r \<mapsto> ?new)"
    proof -
      have "obj_key ?new = obj_key r" using s(2) by (simp add: obj_key_def versioned_def)
      then show ?thesis using s by (auto simp: demo_routes_def fun_eq_iff)
    qed
    moreover have "\<exists>rv. obj_meta ?new = (obj_meta cur)\<lparr>om_ResourceVersion := rv\<rparr>" by (auto simp: versioned_def)
    moreover have "obj_spec ?new = obj_spec cur" by (simp add: versioned_def)
    ultimately show ?thesis by (intro exI [of _ ?new] exI [of _ "Some ?new"]) simp
  qed
  have c: "\<exists>e. rcl_UpdateStatus demo_route_client (om_Namespace (obj_meta r)) r s = (Inl (Fail e), s) \<and> IsConflict e"
    if "demo_routes s (obj_key r) = Some cur" "om_ResourceVersion (obj_meta r) \<noteq> om_ResourceVersion (obj_meta cur)" for s r cur
    using that by (simp add: demo_route_client_def IsConflict_def)
  show ?thesis unfolding optimistic_def using w c by (simp add: demo_route_client_def)
qed

end
