(* ===== verification/RouteController.thy ===== *)
theory RouteController
  imports DemoWorld Controller GenReconciler
begin

text \<open>
  The controller as \<open>newController\<close> puts it together: the reconciler of \<open>route.go\<close> over the world of fake clients
  and informer caches, inside the generated reconciler, with its work queue, event handlers and configuration
  store. The API server of the routes themselves is a parameter: a state \<open>'a\<close> and the client's calls on it.
\<close>

subsection \<open>State\<close>

text \<open>The children's world, the cache of routes, the routes' server and the events recorded.\<close>

record 'a host =
  h_World :: world
  h_Routes :: "(route_spec, route_status) cache"
  h_Api :: 'a
  h_Events :: "(object_key \<times> route_event) list"

definition put_world :: "world \<Rightarrow> 'a host \<Rightarrow> 'a host" where
  "put_world w h = h\<lparr>h_World := w\<rparr>"

definition put_api :: "'a \<Rightarrow> 'a host \<Rightarrow> 'a host" where
  "put_api a h = h\<lparr>h_Api := a\<rparr>"

definition host_client :: "'a route_client \<Rightarrow> 'a host route_client" where
  "host_client client =
     \<lparr>rcl_Get = (\<lambda>ns name. zoom h_Api put_api (rcl_Get client ns name)),
      rcl_UpdateStatus = (\<lambda>ns r. zoom h_Api put_api (rcl_UpdateStatus client ns r)),
      rcl_Patch = (\<lambda>ns name pt payload. zoom h_Api put_api (rcl_Patch client ns name pt payload))\<rparr>"

definition NewRouteLister :: "key_order \<Rightarrow> (route_spec, route_status) cache \<Rightarrow> route generated_lister" where
  "NewRouteLister = namespaced_lister ''route''"

subsection \<open>The methods of the reconciler\<close>

text \<open>A failing pass leaves the route as it was: its status is set last.\<close>

definition method_ReconcileKind ::
  "world reconciler \<Rightarrow> clock \<Rightarrow> (string \<Rightarrow> string) \<Rightarrow> orders \<Rightarrow> 'a host route_method" where
  "method_ReconcileKind c clk sprintf0 od ctx r =
     bnd (attempt (zoom h_World put_world (ReconcileKind c ctx clk sprintf0 od r))) (\<lambda>x.
       case x of Inl err \<Rightarrow> ret (r, Some (ApiError err)) | Inr r' \<Rightarrow> ret (r', None))"

definition method_FinalizeKind :: "world reconciler \<Rightarrow> 'a host route_method" where
  "method_FinalizeKind c ctx r =
     bnd (attempt (zoom h_World put_world (FinalizeKind c r))) (\<lambda>x.
       case x of Inl err \<Rightarrow> ret (r, Some (ApiError err)) | Inr _ \<Rightarrow> ret (r, None))"

text \<open>\<open>Reconciler\<close> implements \<open>ReconcileKind\<close> and \<open>FinalizeKind\<close> and observes nothing.\<close>

definition reconciler_methods ::
  "world reconciler \<Rightarrow> clock \<Rightarrow> (string \<Rightarrow> string) \<Rightarrow> orders \<Rightarrow> 'a host route_methods" where
  "reconciler_methods c clk sprintf0 od =
     \<lparr>rm_ReconcileKind = method_ReconcileKind c clk sprintf0 od, rm_FinalizeKind = Some (method_FinalizeKind c),
      rm_ObserveKind = None, rm_ObserveFinalizeKind = None, rm_ObserveDeletion = None\<rparr>"

subsection \<open>Construction\<close>

record controller_options =
  opt_ConfigStore :: "untyped_store option"
  opt_FinalizerName :: string
  opt_SkipStatusUpdates :: bool

text \<open>\<open>route.NewImpl\<close>; the leader election has yet to promote the reconciler for any bucket.\<close>

definition NewImpl ::
  "'a route_client \<Rightarrow> 'a host route_methods \<Rightarrow> controller_options list \<Rightarrow> 'a host reconciler_impl" where
  "NewImpl client methods options =
     fold (\<lambda>opts rec.
         let rec = (case opt_ConfigStore opts of
                      None \<Rightarrow> rec
                    | Some store \<Rightarrow> rec\<lparr>ri_configStore :=
                        Some (\<lambda>ctx. rbind (store_ToContext store) (\<lambda>v. Inr (ctx\<lparr>ctx_Config := v\<rparr>)))\<rparr>);
             rec = (if opt_FinalizerName opts \<noteq> '''' then rec\<lparr>ri_finalizerName := opt_FinalizerName opts\<rparr> else rec)
         in if opt_SkipStatusUpdates opts then rec\<lparr>ri_skipStatusUpdates := True\<rparr> else rec)
       options
       \<lparr>ri_buckets = [], ri_Client = host_client client,
        ri_Lister = lister_of (\<lambda>h. NewRouteLister (w_Order (h_World h)) (h_Routes h)),
        ri_Recorder = (\<lambda>k ev h. h\<lparr>h_Events := h_Events h @ [(k, ev)]\<rparr>),
        ri_configStore = None, ri_reconciler = methods, ri_finalizerName = defaultFinalizerName,
        ri_skipStatusUpdates = False\<rparr>"

definition GetTrackerLease :: "int \<Rightarrow> int" where
  "GetTrackerLease resyncPeriod = 3 * resyncPeriod"

record 'a route_controller =
  ct_Impl :: "'a host reconciler_impl"
  ct_WorkQueue :: "object_key two_lane"
  ct_Handlers :: "(watched \<times> event_handler) list"
  ct_TrackerLease :: int

text \<open>\<open>store\<close> is the configuration store at the time of a run; the options change the reconciler's fields. The
  last handler is the tracker's, which tracks nothing.\<close>

definition newController ::
  "patch_fun \<Rightarrow> 'a route_client \<Rightarrow> int \<Rightarrow> untyped_store \<Rightarrow> clock \<Rightarrow> (string \<Rightarrow> string) \<Rightarrow> orders
     \<Rightarrow> (world reconciler \<Rightarrow> world reconciler) list \<Rightarrow> 'a route_controller" where
  "newController patch client resyncPeriod store clk sprintf0 od opts =
     (let c = fold (\<lambda>opt c. opt c) opts (newReconciler patch)
      in \<lparr>ct_Impl = NewImpl client (reconciler_methods c clk sprintf0 od)
            [\<lparr>opt_ConfigStore = Some store, opt_FinalizerName = '''', opt_SkipStatusUpdates = False\<rparr>],
          ct_WorkQueue = newTwoLaneWorkQueue,
          ct_Handlers = [(RouteEvents, HandleAll Enqueue), (ServiceEvents, handleControllerOf),
            (HTTPRouteEvents, handleControllerOf), (GatewayEvents, handleControllerOf), (RouteEvents, \<lambda>_. [])],
          ct_TrackerLease = GetTrackerLease resyncPeriod\<rparr>)"

definition NewController ::
  "patch_fun \<Rightarrow> 'a route_client \<Rightarrow> int \<Rightarrow> untyped_store \<Rightarrow> clock \<Rightarrow> (string \<Rightarrow> string) \<Rightarrow> orders \<Rightarrow> 'a route_controller" where
  "NewController patch client resyncPeriod store clk sprintf0 od =
     newController patch client resyncPeriod store clk sprintf0 od []"



text \<open>The reconciler of the controller once promoted for some buckets.\<close>

definition controller_impl ::
  "patch_fun \<Rightarrow> 'a route_client \<Rightarrow> int \<Rightarrow> untyped_store \<Rightarrow> clock \<Rightarrow> (string \<Rightarrow> string) \<Rightarrow> orders
     \<Rightarrow> (string, bucket) gomap \<Rightarrow> 'a host reconciler_impl" where
  "controller_impl patch client p store clk sprintf0 od buckets =
     (ct_Impl (NewController patch client p store clk sprintf0 od))\<lparr>ri_buckets := buckets\<rparr>"

lemma controller_impl_simps [simp]:
  "ri_buckets (controller_impl patch client p store clk sprintf0 od buckets) = buckets"
  "ri_Client (controller_impl patch client p store clk sprintf0 od buckets) = host_client client"
  "ri_Lister (controller_impl patch client p store clk sprintf0 od buckets)
     = lister_of (\<lambda>h. NewRouteLister (w_Order (h_World h)) (h_Routes h))"
  "ri_Recorder (controller_impl patch client p store clk sprintf0 od buckets)
     = (\<lambda>k ev h. h\<lparr>h_Events := h_Events h @ [(k, ev)]\<rparr>)"
  "ri_configStore (controller_impl patch client p store clk sprintf0 od buckets)
     = Some (\<lambda>ctx. rbind (store_ToContext store) (\<lambda>v. Inr (ctx\<lparr>ctx_Config := v\<rparr>)))"
  "ri_reconciler (controller_impl patch client p store clk sprintf0 od buckets)
     = reconciler_methods (newReconciler patch) clk sprintf0 od"
  "ri_finalizerName (controller_impl patch client p store clk sprintf0 od buckets) = defaultFinalizerName"
  "ri_skipStatusUpdates (controller_impl patch client p store clk sprintf0 od buckets) = False"
  by (simp_all add: controller_impl_def NewController_def newController_def NewImpl_def Let_def)

subsection \<open>Frames\<close>

lemma put_host [simp]:
  "h_World (put_world w h) = w" "h_Routes (put_world w h) = h_Routes h" "h_Api (put_world w h) = h_Api h"
  "h_World (put_api a h) = h_World h" "h_Routes (put_api a h) = h_Routes h" "h_Api (put_api a h) = a"
  by (simp_all add: put_world_def put_api_def)

lemma host_client_keeps:
  "keeps h_World (rcl_Get (host_client client) ns name)" "keeps h_World (rcl_UpdateStatus (host_client client) ns r)"
  "keeps h_World (rcl_Patch (host_client client) ns name pt payload)"
  "keeps h_Routes (rcl_Get (host_client client) ns name)" "keeps h_Routes (rcl_UpdateStatus (host_client client) ns r)"
  "keeps h_Routes (rcl_Patch (host_client client) ns name pt payload)"
  by (simp_all add: host_client_def keeps_def zoom_def split_beta)

lemma lister_of_keeps: "keeps V (l_Get (lister_of gl) ns name)"
  by (simp add: keeps_def lister_of_def)

interpretation world_frame: impl_frame "controller_impl patch client p store clk sprintf0 od buckets" h_World
  for patch client p store clk sprintf0 od buckets
  by unfold_locales (simp_all add: host_client_keeps lister_of_keeps)

interpretation routes_frame: impl_frame "controller_impl patch client p store clk sprintf0 od buckets" h_Routes
  for patch client p store clk sprintf0 od buckets
  by unfold_locales (simp_all add: host_client_keeps lister_of_keeps)

lemma method_FinalizeKind_run:
  assumes "FinalizeKind c r (h_World h) = (res, w')"
  shows "method_FinalizeKind c ctx r h =
    (case res of Inl (Panic p) \<Rightarrow> Inl (Panic p) | Inl (Fail e) \<Rightarrow> Inr (r, Some (ApiError e)) | Inr _ \<Rightarrow> Inr (r, None), put_world w' h)"
  using assms by (simp add: method_FinalizeKind_def bnd_def attempt_def zoom_def split: sum.split fault.split)

lemma method_ReconcileKind_run:
  assumes "ReconcileKind c ctx clk sprintf0 od r (h_World h) = (res, w')"
  shows "method_ReconcileKind c clk sprintf0 od ctx r h =
    (case res of Inl (Panic p) \<Rightarrow> Inl (Panic p) | Inl (Fail e) \<Rightarrow> Inr (r, Some (ApiError e)) | Inr r' \<Rightarrow> Inr (r', None), put_world w' h)"
  using assms by (simp add: method_ReconcileKind_def bnd_def attempt_def zoom_def split: sum.split fault.split)

subsection \<open>A key and its route\<close>

text \<open>The string a worker hands to \<open>Reconcile\<close> for the key it took.\<close>

definition safeKey :: "object_key \<Rightarrow> string" where
  "safeKey key = (if fst key = '''' then snd key else fst key @ ''/'' @ snd key)"


lemma route_Get:
  "l_Get (lister_of (\<lambda>h. NewRouteLister (w_Order (h_World h)) (h_Routes h))) ns name h =
     (case cview (h_Routes h) (ns, name) of None \<Rightarrow> Inl (Fail (NewNotFound ''route'' name)) | Some r \<Rightarrow> Inr r, h)"
  by (simp add: lister_of_def NewRouteLister_def lister_get)

text \<open>A key splits into a namespace without separator, so the route found under it is the one it names.\<close>

lemma split_on_no_slash: "s \<in> set (split_on c xs) \<Longrightarrow> c \<notin> set s"
proof (induction xs arbitrary: s)
  case (Cons x xs)
  then show ?case by (auto split: if_splits list.splits)
qed simp

lemma Split_ns: "SplitMetaNamespaceKey key = Inr (ns, name) \<Longrightarrow> CHR ''/'' \<notin> set ns"
  using split_on_no_slash [of ns "CHR ''/''" key]
  by (auto simp: SplitMetaNamespaceKey_def split: list.splits)

lemma cached_route_key:
  assumes wf: "cache_wf c" and "SplitMetaNamespaceKey key = Inr k" and r: "cview c k = Some r"
  shows "obj_key r = k"
proof (cases "fst k = ''''")
  case True
  have "map_of (ix_Items c) (''/'' @ snd k) = Some r" using r True by (simp add: cview_def)
  then have "''/'' @ snd k = MetaNamespaceKeyFunc (obj_meta r)" "ok_ns (om_Namespace (obj_meta r))"
    using wf by (auto simp: cache_wf_def cache_ok_def keys_ok_def cache_ns_ok_def)
  then have "False" by (cases "om_Namespace (obj_meta r)") (auto simp: MetaNamespaceKeyFunc_def ok_ns_def)
  then show ?thesis ..
next
  case False
  then have "ok_ns (fst k)" using Split_ns [of key "fst k" "snd k"] assms(2) by (simp add: ok_ns_def)
  with wf r show ?thesis by (auto simp: cache_wf_def cache_ok_def intro: cview_key)
qed

text \<open>What a run does with a key, up to the switch on the method.\<close>

abbreviation run_state :: "string \<Rightarrow> object_key \<Rightarrow> bool \<Rightarrow> 's reconcile_state" where
  "run_state key k leader \<equiv> \<lparr>rs_key = key, rs_namespace = fst k, rs_name = snd k, rs_roi = None, rs_rof = None, rs_isLeader = leader\<rparr>"

lemma controller_Reconcile_run:
  "impl_Reconcile (controller_impl patch client p store clk sprintf0 od buckets) clk' now ctx0 key h =
    (case SplitMetaNamespaceKey key of
       Inl _ \<Rightarrow> (Inr None, h)
     | Inr k \<Rightarrow>
         if \<not> IsLeaderFor buckets k then (Inr (Some (SkipKey key)), h)
         else case store_ToContext store of
                Inl f \<Rightarrow> (Inl f, h)
              | Inr v \<Rightarrow>
                  (case cview (h_Routes h) k of
                     None \<Rightarrow> (Inr None, h)
                   | Some r \<Rightarrow> reconcile_found (controller_impl patch client p store clk sprintf0 od buckets) clk' now (ctx0\<lparr>ctx_Config := v\<rparr>) (run_state key k True) r h))"
  by (simp add: impl_Reconcile_def newState_def isNotLeaderNorObserver_def reconciler_methods_def
      bnd_def attempt_def route_Get split: sum.split option.split prod.split)

subsection \<open>Finalizers\<close>

lemma method_for:
  "reconcileMethodFor (controller_impl patch client p store clk sprintf0 od buckets) (run_state key k True) r =
     (if om_DeletionTimestamp (obj_meta r) = None
      then (DoReconcileKind, Some (method_ReconcileKind (newReconciler patch) clk sprintf0 od))
      else (DoFinalizeKind, Some (method_FinalizeKind (newReconciler patch))))"
  by (simp add: reconcileMethodFor_def reconciler_methods_def)

lemma set_finalizer_live:
  assumes "om_DeletionTimestamp (obj_meta r) = None" and "cview (h_Routes h) (obj_key r) = Some r"
  shows "setFinalizerIfFinalizer (controller_impl patch client p store clk sprintf0 od buckets) r h =
    (if defaultFinalizerName \<in> set (om_Finalizers (obj_meta r))
     then (Inr (with_finalizers (sset_list (defaultFinalizerName # om_Finalizers (obj_meta r))) r), h)
     else patch_finalizers (controller_impl patch client p store clk sprintf0 od buckets)
            (with_finalizers (sset_list (defaultFinalizerName # om_Finalizers (obj_meta r))) r) r
            (om_Finalizers (obj_meta r) @ [defaultFinalizerName]) h)"
  using assms
  by (simp add: setFinalizerIfFinalizer_def reconciler_methods_def updateFinalizersFiltered_def with_finalizers_def
      obj_key_def bnd_def route_Get Let_def)

lemma clear_finalizer_failed:
  assumes "om_DeletionTimestamp (obj_meta r) \<noteq> None" and "cview (h_Routes h) (obj_key r) = Some r" and "\<not> cleanly ev"
  shows "clearFinalizer (controller_impl patch client p store clk sprintf0 od buckets) r ev h =
    (Inr (with_finalizers (sset_list (om_Finalizers (obj_meta r))) r), h)"
  using assms
  by (auto simp: clearFinalizer_def reconciler_methods_def updateFinalizersFiltered_def with_finalizers_def
      obj_key_def bnd_def route_Get Let_def)

text \<open>A patch that fails, by error or panic, is the last thing a pass over a live route does.\<close>

lemma patch_finalizers_fails:
  assumes "rcl_Patch client (om_Namespace (obj_meta resource)) (om_Name (obj_meta resource)) MergePatchType
      (finalizers_patch fs (om_ResourceVersion (obj_meta existing))) (h_Api h) = (Inl f, a')"
  shows "\<exists>h'. patch_finalizers (controller_impl patch client p store clk sprintf0 od buckets) resource existing fs h = (Inl f, h')
    \<and> h_World h' = h_World h"
  using assms
  by (cases f) (simp_all add: patch_finalizers_def host_client_def zoom_def bnd_def attempt_def record_event_def)

lemma live_pass:
  fixes patch :: patch_fun
  assumes live: "om_DeletionTimestamp (obj_meta r) = None" and c: "cview (h_Routes h) (obj_key r) = Some r"
    and run: "reconcile_found (controller_impl patch client p store clk sprintf0 od buckets) clk' now ctx (run_state key k True) r h = (res, h')"
    and changed: "h_World h' \<noteq> h_World h"
  shows "defaultFinalizerName \<in> set (om_Finalizers (obj_meta r)) \<or>
    (\<exists>r' a'. rcl_Patch client (om_Namespace (obj_meta r)) (om_Name (obj_meta r)) MergePatchType
       (finalizers_patch (om_Finalizers (obj_meta r) @ [defaultFinalizerName]) (om_ResourceVersion (obj_meta r))) (h_Api h)
       = (Inr r', a'))"
proof (rule ccontr)
  assume no: "\<not> ?thesis"
  let ?ri = "controller_impl patch client p store clk sprintf0 od buckets"
  let ?r = "with_finalizers (sset_list (defaultFinalizerName # om_Finalizers (obj_meta r))) r"
  obtain f a' where P: "rcl_Patch client (om_Namespace (obj_meta r)) (om_Name (obj_meta r)) MergePatchType
       (finalizers_patch (om_Finalizers (obj_meta r) @ [defaultFinalizerName]) (om_ResourceVersion (obj_meta r))) (h_Api h)
       = (Inl f, a')"
    using no by (metis old.prod.exhaust sum.exhaust)
  have m: "om_Namespace (obj_meta ?r) = om_Namespace (obj_meta r)" "om_Name (obj_meta ?r) = om_Name (obj_meta r)"
    by (simp_all add: with_finalizers_def)
  obtain h1 where "setFinalizerIfFinalizer ?ri r h = (Inl f, h1)" "h_World h1 = h_World h"
    using patch_finalizers_fails [of client ?r "om_Finalizers (obj_meta r) @ [defaultFinalizerName]" r h f a'
        patch p store clk sprintf0 od buckets] P no
    unfolding set_finalizer_live [OF live c] m by (auto simp del: append_Cons)
  then have "h_World h' = h_World h"
    using run by (cases f) (simp_all add: reconcile_found_def method_for live run_method_def bnd_def attempt_def)
  with changed show False by simp
qed

lemma finalizing_pass:
  fixes patch :: patch_fun
  assumes del: "om_DeletionTimestamp (obj_meta r) \<noteq> None" and c: "cview (h_Routes h) (obj_key r) = Some r"
    and run: "reconcile_found (controller_impl patch client p store clk sprintf0 od buckets) clk' now ctx (run_state key k True) r h = (res, h')"
  shows "\<exists>fres w'. FinalizeKind (newReconciler patch) r (h_World h) = (fres, w') \<and> h_World h' = w'
    \<and> (\<forall>f. fres = Inl f \<longrightarrow> h_Api h' = h_Api h \<and> res \<noteq> Inr None)"
proof -
  let ?ri = "controller_impl patch client p store clk sprintf0 od buckets"
  obtain t where del': "om_DeletionTimestamp (obj_meta r) = Some t" using del by auto
  obtain fres w' where F: "FinalizeKind (newReconciler patch) r (h_World h) = (fres, w')" by force
  note call = method_FinalizeKind_run [OF F, of ctx]
  have rest: "keeps h_World (bnd (attempt (clearFinalizer ?ri r ev)) (\<lambda>res.
            case res of
              Inl err \<Rightarrow> ret (Inl (Wrapped ''failed to clear finalizers'' (ApiError err)))
            | Inr resource \<Rightarrow> ret (Inr (resource, ev))))" for ev
    by (auto intro!: keeps_intro world_frame.keeps_finalizers split: sum.split)
  have after: "keeps h_World (case out of Inl err \<Rightarrow> ret (Some err)
       | Inr (resource, ev) \<Rightarrow>
           bnd (sync_status ?ri True r resource) (\<lambda>e.
             case e of Some err \<Rightarrow> ret (Some err) | None \<Rightarrow> report_event ?ri resource ev))" for out
    by (auto intro!: keeps_intro world_frame.keeps_sync_status world_frame.keeps_report_event split: sum.split option.split)
  have ran: "bnd (\<lambda>h. run_method ?ri clk' now ctx (reconcileMethodFor ?ri (run_state key k True) r) r r h) (\<lambda>out.
       case out of Inl err \<Rightarrow> ret (Some err)
       | Inr (resource, ev) \<Rightarrow>
           bnd (sync_status ?ri True r resource) (\<lambda>e.
             case e of Some err \<Rightarrow> ret (Some err) | None \<Rightarrow> report_event ?ri resource ev)) h = (res, h')"
    using run unfolding reconcile_found_def reconcile_state.simps .
  show ?thesis
  proof (cases fres)
    case (Inr u)
    have "h_World h' = w'"
    proof -
      obtain out h1 where 1: "bnd (attempt (clearFinalizer ?ri r None)) (\<lambda>res.
            case res of
              Inl err \<Rightarrow> ret (Inl (Wrapped ''failed to clear finalizers'' (ApiError err)))
            | Inr resource \<Rightarrow> ret (Inr (resource, None :: go_error option))) (put_world w' h) = (out, h1)" by force
      have m: "run_method ?ri clk' now ctx (reconcileMethodFor ?ri (run_state key k True) r) r r h = (out, h1)"
        using 1 call del' by (simp add: method_for run_method_def bnd_def Inr)
      have h1: "h_World h1 = w'" using keepsD [OF rest 1] by simp
      show ?thesis
      proof (cases out)
        case (Inl f)
        with ran m h1 show ?thesis by (simp add: bnd_def)
      next
        case (Inr o')
        with ran m have "(case o' of Inl err \<Rightarrow> ret (Some err)
       | Inr (resource, ev) \<Rightarrow>
           bnd (sync_status ?ri True r resource) (\<lambda>e.
             case e of Some err \<Rightarrow> ret (Some err) | None \<Rightarrow> report_event ?ri resource ev)) h1 = (res, h')"
          by (simp add: bnd_def)
        from keepsD [OF after this] h1 show ?thesis by simp
      qed
    qed
    with F Inr show ?thesis by blast
  next
    case (Inl f)
    show ?thesis
    proof (cases f)
      case (Panic q)
      with ran call del' have "res = Inl (Panic q)" "h' = put_world w' h"
        by (simp_all add: method_for run_method_def bnd_def Inl)
      with F show ?thesis by simp
    next
      case (Fail e)
      let ?r = "with_finalizers (sset_list (om_Finalizers (obj_meta r))) r"
      have cl: "\<not> cleanly (Some (ApiError e))" by (simp add: cleanly_def)
      have c': "cview (h_Routes (put_world w' h)) (obj_key r) = Some r" using c by simp
      have st: "obj_status ?r = obj_status r" by (simp add: with_finalizers_def)
      have "res = Inr (Some (ApiError e)) \<and> h_World h' = w' \<and> h_Api h' = h_Api h"
        using ran call del' clear_finalizer_failed [OF del c' cl]
        by (simp add: method_for run_method_def bnd_def Inl Fail attempt_def sync_status_def st report_event_def
            record_event_def) (auto simp: put_world_def)
      with F show ?thesis by simp
    qed
  qed
qed

subsection \<open>A run over a live route\<close>

text \<open>The route as the pass gets it, and as the run wants it once the pass is over.\<close>

definition pass_route :: "clock \<Rightarrow> route \<Rightarrow> route" where
  "pass_route clk r = PreProcessReconcile clk (with_finalizers (sset_list (defaultFinalizerName # om_Finalizers (obj_meta r))) r)"

definition pass_outcome :: "nat \<Rightarrow> route \<Rightarrow> route \<Rightarrow> route result \<Rightarrow> route" where
  "pass_outcome now r q res = PostProcessReconcile now (case res of Inl _ \<Rightarrow> q | Inr q' \<Rightarrow> q') r"

text \<open>The server got the status of \<open>want\<close> if the cache did not have it, and nothing else of it.\<close>

definition published :: "('a \<Rightarrow> object_key \<Rightarrow> route option) \<Rightarrow> route \<Rightarrow> route \<Rightarrow> 'a \<Rightarrow> 'a \<Rightarrow> bool" where
  "published routes r want a a' \<longleftrightarrow>
     (if DeepEqual_route_status (obj_status r) (obj_status want) then a' = a
      else \<exists>cur new. routes a (obj_key r) = Some cur \<and> routes a' = (routes a)(obj_key r \<mapsto> new)
        \<and> DeepEqual_route_status (obj_status new) (obj_status want)
        \<and> obj_spec new = obj_spec cur \<and> (\<exists>rv. obj_meta new = (obj_meta cur)\<lparr>om_ResourceVersion := rv\<rparr>))"

lemma host_optimistic:
  assumes "optimistic client routes"
  shows "optimistic (host_client client) (\<lambda>h. routes (h_Api h))"
proof -
  have "rcl_Get (host_client client) ns name h =
      (case routes (h_Api h) (ns, name) of None \<Rightarrow> Inl (Fail (NewNotFound ''routes'' name)) | Some r \<Rightarrow> Inr r, h)" for ns name h
    using assms by (auto simp: optimistic_def host_client_def zoom_def put_api_def split: option.splits)
  moreover have "\<exists>new h'. rcl_UpdateStatus (host_client client) (om_Namespace (obj_meta r)) r h = (Inr new, h')
        \<and> routes (h_Api h') = (routes (h_Api h))(obj_key r \<mapsto> new) \<and> obj_status new = obj_status r
        \<and> obj_spec new = obj_spec cur \<and> (\<exists>rv. obj_meta new = (obj_meta cur)\<lparr>om_ResourceVersion := rv\<rparr>)"
    if cur: "routes (h_Api h) (obj_key r) = Some cur" "om_ResourceVersion (obj_meta r) = om_ResourceVersion (obj_meta cur)" for h r cur
    by (rule optimistic_write [OF assms cur]) (simp add: host_client_def zoom_def)
  moreover have "\<exists>e. rcl_UpdateStatus (host_client client) (om_Namespace (obj_meta r)) r h = (Inl (Fail e), h) \<and> IsConflict e"
    if cur: "routes (h_Api h) (obj_key r) = Some cur" "om_ResourceVersion (obj_meta r) \<noteq> om_ResourceVersion (obj_meta cur)" for h r cur
    by (rule optimistic_conflict [OF assms cur]) (simp add: host_client_def zoom_def put_api_def)
  ultimately show ?thesis unfolding optimistic_def by simp
qed

lemma sync_publishes:
  fixes patch :: patch_fun
  assumes opt: "optimistic client routes" and cur: "routes (h_Api h) (obj_key r) = Some cur" "obj_key cur = obj_key r"
    and want: "obj_key want = obj_key r"
  shows "\<exists>h'. sync_status (controller_impl patch client p store clk sprintf0 od buckets) True r want h = (Inr None, h')
    \<and> h_World h' = h_World h \<and> published routes r want (h_Api h) (h_Api h')"
proof (cases "DeepEqual_route_status (obj_status r) (obj_status want)")
  case True
  then show ?thesis by (simp add: sync_status_def published_def)
next
  case False
  let ?ri = "controller_impl patch client p store clk sprintf0 od buckets"
  have o: "optimistic (ri_Client ?ri) (\<lambda>h. routes (h_Api h))" using host_optimistic [OF opt] by simp
  have c: "routes (h_Api h) (obj_key want) = Some cur" "obj_key cur = obj_key want" using cur want by simp_all
  obtain h' new where U: "updateStatus ?ri r want h = (Inr None, h')" "routes (h_Api h') = (routes (h_Api h))(obj_key want \<mapsto> new)"
      "DeepEqual_route_status (obj_status new) (obj_status want)" "obj_spec new = obj_spec cur"
      "\<exists>rv. obj_meta new = (obj_meta cur)\<lparr>om_ResourceVersion := rv\<rparr>"
    using updateStatus_lands [OF o c want [symmetric] False] by blast
  have "sync_status ?ri True r want h = (Inr None, h')" using U(1) False by (simp add: sync_status_def bnd_def)
  moreover have "h_World h' = h_World h" using keepsD [OF world_frame.keeps_updateStatus U(1)] .
  ultimately show ?thesis using U cur want False unfolding published_def by auto
qed

lemma obj_key_pass [simp]:
  "obj_key (pass_route clk r) = obj_key r"
  "obj_key (PostProcessReconcile now q r) = obj_key q"
  by (simp_all add: pass_route_def PreProcessReconcile_def route_SetDefaults_def with_finalizers_def Let_def obj_key_def
      PostProcessReconcile_def groomConditionsTransitionTime_def)

lemma ReconcileKind_same:
  assumes "ReconcileKind c ctx clk sprintf0 od r s = (Inr r', s')"
  shows "\<exists>st. r' = r\<lparr>obj_status := st\<rparr>"
proof (cases "sget (om_Annotations (obj_meta r)) GatewayAPIAnnotation = ''enabled''")
  case True
  with assms show ?thesis
    by (auto simp: ReconcileKind_def Let_def ret_def elim!: bnd_okE split: sum.splits)
next
  case False
  with assms show ?thesis by (auto simp: ReconcileKind_def ret_def intro: exI [of _ "obj_status r"])
qed

lemma pass_outcome_key:
  assumes "ReconcileKind c ctx clk sprintf0 od q s = (res, s')"
  shows "obj_key (pass_outcome now r q res) = obj_key q"
proof (cases res)
  case (Inr q')
  obtain st where "q' = q\<lparr>obj_status := st\<rparr>" using ReconcileKind_same [OF assms [unfolded Inr]] by blast
  then show ?thesis by (simp add: pass_outcome_def Inr obj_key_def PostProcessReconcile_def groomConditionsTransitionTime_def)
qed (simp add: pass_outcome_def)

text \<open>What follows the pass: the update of the status, and the report of the error.\<close>

definition after_pass :: "'s reconciler_impl \<Rightarrow> nat \<Rightarrow> route \<Rightarrow> route \<Rightarrow> route result \<Rightarrow> ('s, go_error option) action" where
  "after_pass ri now r q res =
     (case res of
        Inl (Panic p) \<Rightarrow> lift (Inl (Panic p))
      | _ \<Rightarrow> bnd (sync_status ri True r (pass_outcome now r q res)) (\<lambda>x.
          case x of
            Some err \<Rightarrow> ret (Some err)
          | None \<Rightarrow> report_event ri (pass_outcome now r q res) (case res of Inl (Fail e) \<Rightarrow> Some (ApiError e) | _ \<Rightarrow> None)))"

lemma live_run:
  assumes live: "om_DeletionTimestamp (obj_meta r) = None"
    and fin: "setFinalizerIfFinalizer (controller_impl patch client p store clk sprintf0 od buckets) r h = (Inr r1, h1)"
    and R: "ReconcileKind (newReconciler patch) ctx clk sprintf0 od (PreProcessReconcile clk' r1) (h_World h1) = (res, w')"
  shows "reconcile_found (controller_impl patch client p store clk sprintf0 od buckets) clk' now ctx (run_state key k True) r h
    = after_pass (controller_impl patch client p store clk sprintf0 od buckets) now r (PreProcessReconcile clk' r1) res (put_world w' h1)"
  using method_ReconcileKind_run [OF R] fin
  by (cases res) (simp_all add: reconcile_found_def method_for live run_method_def bnd_def attempt_def after_pass_def
      pass_outcome_def lift_def split: fault.split)

lemma after_pass_world:
  "keeps h_World (after_pass (controller_impl patch client p store clk sprintf0 od buckets) now r q res)"
  unfolding after_pass_def
  by (auto intro!: keeps_intro world_frame.keeps_sync_status world_frame.keeps_report_event
      split: sum.split fault.split option.split)

subsection \<open>An example\<close>

text \<open>The controller with the configuration of \<open>Hosts\<close>, leading all routes, over a server of one route.\<close>

definition demo_store :: untyped_store where
  "demo_store = \<lparr>us_storages = [(DomainConfigName, Some (CV_Domain (cfg_Domain demo_config))),
       (GatewayConfigName, Some (CV_Gateway (cfg_Gateway demo_config))),
       (NetworkConfigName, Some (CV_Network (cfg_Network demo_config))), (FeaturesConfigName, None)],
     us_constructors = []\<rparr>"

lemma demo_store: "store_ToContext demo_store = Inr (ToContext demo_config)"
  by code_simp

definition demo_controller :: "route option host reconciler_impl" where
  "demo_controller = controller_impl demo_patch demo_route_client 0 demo_store (\<lambda>n. n) (\<lambda>s. s) demo_orders [('''', UniversalBucket)]"

lemma demo_leads [simp]: "IsLeaderFor [('''', UniversalBucket)] k"
  by (simp add: IsLeaderFor_def UniversalBucket_def)

lemma demo_split: "SplitMetaNamespaceKey ''prod/app'' = Inr (''prod'', ''app'')"
  by code_simp

lemma demo_context [simp]: "demo_ctx\<lparr>ctx_Config := ToContext demo_config\<rparr> = demo_ctx"
  by (simp add: demo_ctx_def)

text \<open>The example route with some finalizers, a resource version, and maybe on its way out.\<close>

definition stored_route :: "string list \<Rightarrow> string \<Rightarrow> nat option \<Rightarrow> route" where
  "stored_route fs v deleted = demo_route\<lparr>obj_meta := (obj_meta demo_route)\<lparr>om_Finalizers := fs,
     om_Generation := 3, om_ResourceVersion := v, om_DeletionTimestamp := deleted\<rparr>\<rparr>"

lemma stored_route [simp]:
  "obj_key (stored_route fs v d) = (''prod'', ''app'')" "om_Finalizers (obj_meta (stored_route fs v d)) = fs"
  "om_DeletionTimestamp (obj_meta (stored_route fs v d)) = d" "om_ResourceVersion (obj_meta (stored_route fs v d)) = v"
  "om_Namespace (obj_meta (stored_route fs v d)) = ''prod''" "om_Name (obj_meta (stored_route fs v d)) = ''app''"
  "om_Labels (obj_meta (stored_route fs v d)) = om_Labels (obj_meta demo_route)"
  "om_Annotations (obj_meta (stored_route fs v d)) = om_Annotations (obj_meta demo_route)"
  by (simp_all add: stored_route_def obj_key_def demo_route_def demo_meta_def)

definition demo_host :: "route \<Rightarrow> route \<Rightarrow> world \<Rightarrow> route option host" where
  "demo_host cached stored w =
     \<lparr>h_World = w, h_Routes = run_cache_op (CacheAdd cached) (NewIndexer True), h_Api = Some stored, h_Events = []\<rparr>"

lemma demo_host [simp]:
  "h_World (demo_host c s w) = w" "h_Api (demo_host c s w) = Some s"
  by (simp_all add: demo_host_def)

lemma demo_cache_of:
  assumes "obj_key c = (''prod'', ''app'')"
  shows "cache_wf (h_Routes (demo_host c s w))" "cview (h_Routes (demo_host c s w)) = [(''prod'', ''app'') \<mapsto> c]"
proof -
  let ?c = "run_cache_op (CacheAdd c) (NewIndexer True) :: (route_spec, route_status) cache"
  have m: "om_Namespace (obj_meta c) = ''prod''" "om_Name (obj_meta c) = ''app''" using assms by (simp_all add: obj_key_def)
  have "cache_ok ?c \<and> map_of (ix_Items ?c) = spec_cache_op (CacheAdd c) Map.empty"
    using run_cache_op_ok [of "NewIndexer True" "CacheAdd c"] by simp
  then have ok: "cache_ok ?c" and items: "map_of (ix_Items ?c) = [''prod/app'' \<mapsto> c]"
    by (simp_all add: MetaNamespaceKeyFunc_def m)
  then show "cache_wf (h_Routes (demo_host c s w))"
    by (simp add: demo_host_def cache_wf_def cache_ns_ok_def ok_ns_def m)
  have "a @ ''/'' @ b = ''prod/app'' \<longleftrightarrow> a = ''prod'' \<and> b = ''app''" for a b
    by (auto simp: append_eq_Cons_conv)
  then show "cview (h_Routes (demo_host c s w)) = [(''prod'', ''app'') \<mapsto> c]"
    using items by (auto simp: demo_host_def cview_def fun_eq_iff)
qed

lemmas demo_cache = demo_cache_of [OF stored_route(1)]

text \<open>A pass over the example route writes its HTTPRoute.\<close>

lemma demo_pass:
  "\<exists>q' w'. ReconcileKind (newReconciler demo_patch) demo_ctx (\<lambda>n. n) (\<lambda>s. s) demo_orders
     (PreProcessReconcile (\<lambda>n. n) (stored_route [defaultFinalizerName] ''1x'' None)) demo_world = (Inr q', w')
   \<and> httproutes.view (w_Gwapi w') (''prod'', ''app'') \<noteq> None"
proof -
  let ?q = "PreProcessReconcile (\<lambda>n. n) (stored_route [defaultFinalizerName] ''1x'' None)"
  have conds: "route_conds_wf (obj_status ?q)" by code_simp
  have traffic: "rst_Traffic (obj_status ?q) = [demo_target]" by code_simp
  have hosts: "\<not> isl (VisibilityToDomain demo_ctx (tt_Tag demo_target) ?q)" by code_simp
  have meta: "obj_meta ?q = obj_meta (stored_route [defaultFinalizerName] ''1x'' None)"
    by (simp add: PreProcessReconcile_def route_SetDefaults_def Let_def)
  have key: "obj_key ?q = (''prod'', ''app'')" by (simp add: meta obj_key_def)
  have "served demo_ctx ?q"
    using demo_served conds unfolding served_def route_visibility_def meta by (simp add: ok_ns_def)
  moreover have "named_targets demo_ctx ?q" by (simp add: named_targets_def traffic hosts) (simp add: demo_target_def percent_set_def)
  ultimately have "routable demo_ctx ords ?q" for ords by (rule routableI)
  moreover have "fakes.stepped demo_world"
    by (simp add: fakes.stepped_def fakes.svc.in_step_def fakes.gw.in_step_def fakes.hr.in_step_def demo_views)
  moreover have "gateway_api_enabled ?q"
    using demo_enabled unfolding gateway_api_enabled_def meta by simp
  moreover have "order_ok (od_Visibility demo_orders)" by (simp add: demo_orders_def)
  ultimately show ?thesis
    using fakes.ReconcileKind_spec [OF demo_world_ok \<open>served demo_ctx ?q\<close> _ demo_ctx_config, of demo_orders demo_patch "\<lambda>n. n" "\<lambda>s. s"]
    unfolding demo_views httproute_synced_def key by (fastforce split: sum.splits)
qed

subsection \<open>Properties\<close>

text \<open>C29: A key that is no key, or of a route another replica leads, or of a route that is gone, is passed over:
  nothing is read from or written to any server. A key of another replica's route is answered with a skip,
  which the work queue does not retry.\<close>

theorem skipped_keys_write_nothing:
  "(isl (SplitMetaNamespaceKey key) \<longrightarrow>
      impl_Reconcile (controller_impl patch client p store clk sprintf0 od buckets) clk' now ctx key h = (Inr None, h))
   \<and> (\<forall>k. SplitMetaNamespaceKey key = Inr k \<longrightarrow> \<not> IsLeaderFor buckets k \<longrightarrow>
      impl_Reconcile (controller_impl patch client p store clk sprintf0 od buckets) clk' now ctx key h
        = (Inr (Some (SkipKey key)), h)
      \<and> handleErr t delay (SkipKey key) k q = q)
   \<and> (\<forall>k v. SplitMetaNamespaceKey key = Inr k \<longrightarrow> IsLeaderFor buckets k \<longrightarrow> store_ToContext store = Inr v
      \<longrightarrow> cview (h_Routes h) k = None \<longrightarrow>
      impl_Reconcile (controller_impl patch client p store clk sprintf0 od buckets) clk' now ctx key h = (Inr None, h))"
  by (auto simp: controller_Reconcile_run handleErr_def isl_def)

theorem skipped_keys_write_nothing_witness:
  "impl_Reconcile demo_controller (\<lambda>n. n) 7 demo_ctx ''a/b/c'' (demo_host demo_route demo_route demo_world)
     = (Inr None, demo_host demo_route demo_route demo_world)
   \<and> impl_Reconcile (demo_controller\<lparr>ri_buckets := []\<rparr>) (\<lambda>n. n) 7 demo_ctx ''prod/app'' (demo_host demo_route demo_route demo_world)
       = (Inr (Some (SkipKey ''prod/app'')), demo_host demo_route demo_route demo_world)"
proof -
  have "isl (SplitMetaNamespaceKey ''a/b/c'')" by code_simp
  moreover have e: "demo_controller\<lparr>ri_buckets := []\<rparr>
      = controller_impl demo_patch demo_route_client 0 demo_store (\<lambda>n. n) (\<lambda>s. s) demo_orders []"
    by (simp add: demo_controller_def controller_impl_def)
  moreover have "\<not> IsLeaderFor [] k" for k by (simp add: IsLeaderFor_def)
  moreover note skipped_keys_write_nothing [of "''a/b/c''" demo_patch demo_route_client 0 demo_store "\<lambda>n. n" "\<lambda>s. s" demo_orders "[('''', UniversalBucket)]"]
    skipped_keys_write_nothing [of "''prod/app''" demo_patch demo_route_client 0 demo_store "\<lambda>n. n" "\<lambda>s. s" demo_orders "[]"]
  ultimately show ?thesis unfolding e demo_split by (simp add: demo_controller_def)
qed

text \<open>C6: A child is never created before the route carries the finalizer: if the run for a key changed anything
  in the children's world, the route was being deleted, or the cache had it with the finalizer, or the
  server accepted a patch that adds it.\<close>

theorem finalizer_before_children:
  assumes "impl_Reconcile (controller_impl patch client p store clk sprintf0 od buckets) clk' now ctx key h = (res, h')"
    and "h_World h' \<noteq> h_World h" and "cache_wf (h_Routes h)"
  shows "\<exists>k r. SplitMetaNamespaceKey key = Inr k \<and> IsLeaderFor buckets k \<and> cview (h_Routes h) k = Some r \<and> obj_key r = k
    \<and> (om_DeletionTimestamp (obj_meta r) \<noteq> None \<or> defaultFinalizerName \<in> set (om_Finalizers (obj_meta r))
       \<or> (\<exists>r' a'. rcl_Patch client (fst k) (snd k) MergePatchType
            (finalizers_patch (om_Finalizers (obj_meta r) @ [defaultFinalizerName]) (om_ResourceVersion (obj_meta r)))
            (h_Api h) = (Inr r', a')))"
proof -
  obtain k where k: "SplitMetaNamespaceKey key = Inr k" "IsLeaderFor buckets k"
    using assms(1,2) by (auto simp: controller_Reconcile_run split: sum.splits if_splits)
  obtain v where v: "store_ToContext store = Inr v"
    using assms(1,2) k by (auto simp: controller_Reconcile_run split: sum.splits)
  obtain r where r: "cview (h_Routes h) k = Some r"
    using assms(1,2) k v by (auto simp: controller_Reconcile_run split: option.splits)
  have key: "obj_key r = k" by (rule cached_route_key [OF assms(3) k(1) r])
  have run: "reconcile_found (controller_impl patch client p store clk sprintf0 od buckets) clk' now (ctx\<lparr>ctx_Config := v\<rparr>)
      (run_state key k True) r h = (res, h')"
    using assms(1) k v r by (simp add: controller_Reconcile_run)
  have names: "fst k = om_Namespace (obj_meta r)" "snd k = om_Name (obj_meta r)" using key by (auto simp: obj_key_def)
  have c: "cview (h_Routes h) (obj_key r) = Some r" using r key by simp
  show ?thesis
  proof (cases "om_DeletionTimestamp (obj_meta r) = None")
    case True
    from live_pass [OF True c run assms(2), folded names] k r key show ?thesis by blast
  next
    case False
    with k r key show ?thesis by blast
  qed
qed

theorem finalizer_before_children_witness:
  "\<exists>res h'. impl_Reconcile demo_controller (\<lambda>n. n) 7 demo_ctx ''prod/app''
      (demo_host (stored_route [] ''1'' None) (stored_route [] ''1'' None) demo_world) = (res, h')
    \<and> h_World h' \<noteq> demo_world
    \<and> (\<exists>r' a'. rcl_Patch demo_route_client ''prod'' ''app'' MergePatchType
        (finalizers_patch [defaultFinalizerName] ''1'') (Some (stored_route [] ''1'' None)) = (Inr r', a'))"
proof -
  let ?r = "stored_route [] ''1'' None" and ?r1 = "stored_route [defaultFinalizerName] ''1x'' None"
  let ?h = "demo_host ?r ?r demo_world"
  have "setFinalizerIfFinalizer demo_controller ?r ?h
      = patch_finalizers demo_controller (with_finalizers (sset_list [defaultFinalizerName]) ?r) ?r [defaultFinalizerName] ?h"
    unfolding demo_controller_def by (subst set_finalizer_live) (simp_all add: demo_cache)
  moreover have patched: "versioned (with_finalizers [defaultFinalizerName] ?r) = ?r1"
    by (simp add: versioned_def with_finalizers_def stored_route_def)
  have "demo_routes (Some ?r) (''prod'', ''app'') = Some ?r" by (simp add: demo_routes_def)
  then have P: "rcl_Patch demo_route_client ''prod'' ''app'' MergePatchType
      (finalizers_patch [defaultFinalizerName] ''1'') (Some ?r) = (Inr ?r1, Some ?r1)"
    by (simp add: demo_route_client_def patched Let_def)
  then obtain h1 where "patch_finalizers demo_controller (with_finalizers (sset_list [defaultFinalizerName]) ?r) ?r [defaultFinalizerName] ?h
      = (Inr ?r1, h1)" "h_World h1 = demo_world"
    by (simp add: patch_finalizers_def demo_controller_def host_client_def zoom_def bnd_def attempt_def record_event_def
        ret_def with_finalizers_def)
  ultimately have fin: "setFinalizerIfFinalizer demo_controller ?r ?h = (Inr ?r1, h1)" "h_World h1 = demo_world" by simp_all
  obtain q' w' where R: "ReconcileKind (newReconciler demo_patch) demo_ctx (\<lambda>n. n) (\<lambda>s. s) demo_orders
      (PreProcessReconcile (\<lambda>n. n) ?r1) (h_World h1) = (Inr q', w')" and new: "httproutes.view (w_Gwapi w') (''prod'', ''app'') \<noteq> None"
    using demo_pass fin(2) by auto
  have live: "om_DeletionTimestamp (obj_meta ?r) = None" by simp
  have "impl_Reconcile demo_controller (\<lambda>n. n) 7 demo_ctx ''prod/app'' ?h
      = after_pass demo_controller 7 ?r (PreProcessReconcile (\<lambda>n. n) ?r1) (Inr q') (put_world w' h1)"
    using live_run [OF live fin(1) [unfolded demo_controller_def] R, of 7 "''prod/app''" "(''prod'', ''app'')"]
    unfolding demo_controller_def controller_Reconcile_run by (simp add: demo_split demo_store demo_cache)
  moreover obtain res h' where A: "after_pass demo_controller 7 ?r (PreProcessReconcile (\<lambda>n. n) ?r1) (Inr q') (put_world w' h1) = (res, h')"
    by force
  ultimately have run: "impl_Reconcile demo_controller (\<lambda>n. n) 7 demo_ctx ''prod/app'' ?h = (res, h')" by simp
  have "h_World h' = w'" using keepsD [OF after_pass_world A [unfolded demo_controller_def]] by simp
  then have changed: "h_World h' \<noteq> h_World ?h" using new by (auto simp: demo_views)
  from finalizer_before_children [OF run [unfolded demo_controller_def] changed demo_cache(1)] changed run P
  show ?thesis by (auto simp: demo_split)
qed

text \<open>C5: The finalizer of a route being deleted is removed last: when the run for its key changes the route on
  the server, or succeeds, every gateway the cache knew of the route is gone from the server. A failing
  deletion leaves the route, with its finalizer, as it was.\<close>

theorem finalizer_removed_after_gateways:
  assumes "impl_Reconcile (controller_impl patch client p store clk sprintf0 od buckets) clk' now ctx key h = (res, h')"
    and "SplitMetaNamespaceKey key = Inr k" and "IsLeaderFor buckets k" and "cview (h_Routes h) k = Some r"
    and "om_DeletionTimestamp (obj_meta r) \<noteq> None" and "cache_wf (h_Routes h)" and "world_ok (h_World h)"
    and "h_Api h' \<noteq> h_Api h \<or> res = Inr None"
  shows "world_ok (h_World h')
    \<and> (\<forall>g \<in> finalized (cview (w_Gateways (h_World h))) r. gateways.view (w_Gwapi (h_World h')) g = None)
    \<and> (\<forall>g. g \<notin> finalized (cview (w_Gateways (h_World h))) r \<longrightarrow>
         gateways.view (w_Gwapi (h_World h')) g = gateways.view (w_Gwapi (h_World h)) g)"
proof -
  have key: "obj_key r = k" by (rule cached_route_key [OF assms(6,2,4)])
  have c: "cview (h_Routes h) (obj_key r) = Some r" using assms(4) key by simp
  obtain v where v: "store_ToContext store = Inr v"
    using assms(1-4,8) by (cases "store_ToContext store") (auto simp: controller_Reconcile_run)
  have run: "reconcile_found (controller_impl patch client p store clk sprintf0 od buckets) clk' now (ctx\<lparr>ctx_Config := v\<rparr>)
      (run_state key k True) r h = (res, h')"
    using assms(1-4) v by (simp add: controller_Reconcile_run)
  obtain fres where F: "FinalizeKind (newReconciler patch) r (h_World h) = (fres, h_World h')"
      "\<And>f. fres = Inl f \<Longrightarrow> h_Api h' = h_Api h \<and> res \<noteq> Inr None"
    using finalizing_pass [OF assms(5) c run] by blast
  have "\<exists>u. fres = Inr u" using F(2) assms(8) by (cases fres) auto
  with fakes.FinalizeKind_spec [OF assms(7), of patch r] F(1) show ?thesis by auto
qed


theorem finalizer_removed_after_gateways_witness:
  "\<exists>h'. impl_Reconcile demo_controller (\<lambda>n. n) 7 demo_ctx ''prod/app''
      (demo_host (stored_route [defaultFinalizerName] ''1'' (Some 5)) (stored_route [defaultFinalizerName] ''1'' (Some 5))
         demo_gateway_world) = (Inr None, h')
    \<and> gateways.view (w_Gwapi demo_gateway_world) (''istio-system'', ''gw'') \<noteq> None
    \<and> gateways.view (w_Gwapi (h_World h')) (''istio-system'', ''gw'') = None"
proof -
  let ?r = "stored_route [defaultFinalizerName] ''1'' (Some 5)"
  let ?h = "demo_host ?r ?r demo_gateway_world"
  have fin: "finalized (cview (w_Gateways demo_gateway_world)) ?r = {(''istio-system'', ''gw'')}"
    using demo_gateway_world(3) by (simp add: finalized_def demo_route_def demo_meta_def)
  obtain res h' where run: "impl_Reconcile demo_controller (\<lambda>n. n) 7 demo_ctx ''prod/app'' ?h = (res, h')" by force
  obtain fres w' where F: "FinalizeKind (newReconciler demo_patch) ?r demo_gateway_world = (fres, w')" by force
  have "\<exists>u. fres = Inr u"
    using fakes.FinalizeKind_spec [OF demo_gateway_world(1), of demo_patch ?r] F demo_gateway_world(2) fin by (cases fres) auto
  then have "fres = Inr ()" by simp
  with F have call: "method_FinalizeKind (newReconciler demo_patch) demo_ctx ?r ?h = (Inr (?r, None), put_world w' ?h)"
    using method_FinalizeKind_run [of "newReconciler demo_patch" ?r ?h fres w' demo_ctx] by simp
  have "demo_routes (Some ?r) (''prod'', ''app'') = Some ?r" by (simp add: demo_routes_def)
  then obtain r2 h2 where clear: "clearFinalizer demo_controller ?r None (put_world w' ?h) = (Inr r2, h2)" "obj_status r2 = obj_status ?r"
    by (simp add: clearFinalizer_def cleanly_def demo_controller_def reconciler_methods_def updateFinalizersFiltered_def route_Get
        demo_cache bnd_def with_finalizers_def patch_finalizers_def host_client_def zoom_def attempt_def record_event_def
        ret_def demo_route_client_def Let_def sset_list_def)
  note m = method_for [of demo_patch demo_route_client 0 demo_store "\<lambda>n. n" "\<lambda>s. s" demo_orders "[('''', UniversalBucket)]"
      "''prod/app''" "(''prod'', ''app'')" ?r, folded demo_controller_def, simplified]
  have "reconcile_found demo_controller (\<lambda>n. n) 7 demo_ctx (run_state ''prod/app'' (''prod'', ''app'') True) ?r ?h = (Inr None, h2)"
    using call clear by (simp add: reconcile_found_def m run_method_def bnd_def attempt_def sync_status_def report_event_def ret_def)
  then have "res = Inr None"
    using run unfolding demo_controller_def controller_Reconcile_run by (simp add: demo_split demo_store demo_cache)
  with finalizer_removed_after_gateways [OF run [unfolded demo_controller_def] demo_split _ _ _ demo_cache(1)]
    demo_gateway_world(1,2) fin run
  show ?thesis by (simp add: demo_cache)
qed

text \<open>C4: A run for a live route that carries the finalizer is one pass over its children, then one update of its
  status: against a server with optimistic concurrency the status reaches the server, also when the cache is
  behind, unless the cached one already says the same. An error of the pass is returned after the status is
  written, so that the queue tries the key again; a panic leaves the status alone.\<close>

theorem run_publishes_status:
  assumes key: "SplitMetaNamespaceKey key = Inr k" "IsLeaderFor buckets k" and v: "store_ToContext store = Inr v"
    and r: "cview (h_Routes h) k = Some r" and wf: "cache_wf (h_Routes h)"
    and live: "om_DeletionTimestamp (obj_meta r) = None" and fin: "defaultFinalizerName \<in> set (om_Finalizers (obj_meta r))"
    and R: "ReconcileKind (newReconciler patch) (ctx\<lparr>ctx_Config := v\<rparr>) clk sprintf0 od (pass_route clk' r) (h_World h) = (res, w')"
    and opt: "optimistic client routes" and cur: "routes (h_Api h) k = Some cur" "obj_key cur = k"
  shows "\<exists>h' out. impl_Reconcile (controller_impl patch client p store clk sprintf0 od buckets) clk' now ctx key h = (out, h')
    \<and> h_World h' = w'
    \<and> (case res of
         Inl (Panic q) \<Rightarrow> out = Inl (Panic q) \<and> h_Api h' = h_Api h
       | Inl (Fail e) \<Rightarrow> out = Inr (Some (ApiError e))
           \<and> published routes r (pass_outcome now r (pass_route clk' r) res) (h_Api h) (h_Api h')
       | Inr q' \<Rightarrow> out = Inr None
           \<and> published routes r (pass_outcome now r (pass_route clk' r) res) (h_Api h) (h_Api h'))"
proof -
  let ?ri = "controller_impl patch client p store clk sprintf0 od buckets"
  let ?want = "pass_outcome now r (pass_route clk' r) res"
  have kr: "obj_key r = k" by (rule cached_route_key [OF wf key(1) r])
  have c: "cview (h_Routes h) (obj_key r) = Some r" "routes (h_Api (put_world w' h)) (obj_key r) = Some cur" "obj_key cur = obj_key r"
    using r cur kr by simp_all
  have "obj_key ?want = obj_key r" using pass_outcome_key [OF R] by simp
  from sync_publishes [OF opt c(2,3) this, of patch p store clk sprintf0 od buckets]
  obtain h' where S: "sync_status ?ri True r ?want (put_world w' h) = (Inr None, h')" "h_World h' = w'"
      "published routes r ?want (h_Api h) (h_Api h')" by auto
  have "setFinalizerIfFinalizer ?ri r h
      = (Inr (with_finalizers (sset_list (defaultFinalizerName # om_Finalizers (obj_meta r))) r), h)"
    using set_finalizer_live [OF live c(1)] fin by simp
  from live_run [OF live this, folded pass_route_def, OF R, of now key k]
  have run: "impl_Reconcile ?ri clk' now ctx key h = after_pass ?ri now r (pass_route clk' r) res (put_world w' h)"
    using key v r by (simp add: controller_Reconcile_run)
  show ?thesis
    unfolding run after_pass_def
    using S by (auto simp: report_event_def record_event_def bnd_def lift_def split: sum.split fault.split)
qed
theorem run_publishes_status_witness:
  "\<exists>h'. impl_Reconcile demo_controller (\<lambda>n. n) 7 demo_ctx ''prod/app''
      (demo_host (stored_route [defaultFinalizerName] ''1x'' None) (stored_route [defaultFinalizerName, ''other''] ''2'' None)
         demo_world) = (Inr None, h')
    \<and> httproutes.view (w_Gwapi (h_World h')) (''prod'', ''app'') \<noteq> None
    \<and> (\<exists>new. demo_routes (h_Api h') (''prod'', ''app'') = Some new \<and> rst_ObservedGeneration (obj_status new) = 3
        \<and> om_Finalizers (obj_meta new) = [defaultFinalizerName, ''other''])"
proof -
  let ?r = "stored_route [defaultFinalizerName] ''1x'' None" and ?cur = "stored_route [defaultFinalizerName, ''other''] ''2'' None"
  let ?h = "demo_host ?r ?cur demo_world"
  have q: "pass_route (\<lambda>n. n) ?r = PreProcessReconcile (\<lambda>n. n) ?r"
  proof -
    have "with_finalizers [defaultFinalizerName] ?r = ?r"
      unfolding with_finalizers_def stored_route_def by (cases "obj_meta demo_route") simp
    then show ?thesis by (simp add: pass_route_def sset_list_def)
  qed
  obtain q' w' where R: "ReconcileKind (newReconciler demo_patch) (demo_ctx\<lparr>ctx_Config := ToContext demo_config\<rparr>) (\<lambda>n. n) (\<lambda>s. s) demo_orders
      (pass_route (\<lambda>n. n) ?r) (h_World ?h) = (Inr q', w')" and new: "httproutes.view (w_Gwapi w') (''prod'', ''app'') \<noteq> None"
    using demo_pass by (auto simp: q)
  let ?want = "pass_outcome 7 ?r (pass_route (\<lambda>n. n) ?r) (Inr q')"
  obtain h' where run: "impl_Reconcile demo_controller (\<lambda>n. n) 7 demo_ctx ''prod/app'' ?h = (Inr None, h')" "h_World h' = w'"
      and pub: "published demo_routes ?r ?want (Some ?cur) (h_Api h')"
    using run_publishes_status [OF demo_split demo_leads demo_store _ demo_cache(1) _ _ R demo_optimistic, where now = 7 and p = 0]
    by (auto simp: demo_cache demo_routes_def demo_controller_def)
  obtain st where st: "q' = (pass_route (\<lambda>n. n) ?r)\<lparr>obj_status := st\<rparr>" using ReconcileKind_same [OF R] by blast
  have gen: "rst_ObservedGeneration (obj_status ?want) = 3"
    by (simp add: pass_outcome_def PostProcessReconcile_def groomConditionsTransitionTime_def st pass_route_def
        PreProcessReconcile_def route_SetDefaults_def with_finalizers_def Let_def stored_route_def)
  have old: "rst_ObservedGeneration (obj_status ?r) = 0" by (simp add: stored_route_def demo_route_def demo_status_def)
  have ne: "\<not> DeepEqual_route_status (obj_status ?r) (obj_status ?want)" using gen old by (simp add: DeepEqual_route_status_def)
  have c: "demo_routes (Some ?cur) (obj_key ?r) = Some ?cur" by (simp add: demo_routes_def)
  obtain new rv where n: "demo_routes (h_Api h') = (demo_routes (Some ?cur))(obj_key ?r \<mapsto> new)"
      "DeepEqual_route_status (obj_status new) (obj_status ?want)" "obj_meta new = (obj_meta ?cur)\<lparr>om_ResourceVersion := rv\<rparr>"
    using pub ne c by (auto simp: published_def)
  have "rst_ObservedGeneration (obj_status new) = 3" using n(2) gen by (simp only: DeepEqual_route_status_def)
  with n(1,3) have "\<exists>new. demo_routes (h_Api h') (''prod'', ''app'') = Some new \<and> rst_ObservedGeneration (obj_status new) = 3
        \<and> om_Finalizers (obj_meta new) = [defaultFinalizerName, ''other'']"
    by simp
  with run new show ?thesis by auto
qed





text \<open>C30: The keys of the queue and the strings handed to the reconciler go there and back. A key of an object splits
  into its namespace and name. A string that splits into a key with a namespace is the string of that key;
  one that splits into a key without is the key's name, which is its string, or that name after a
  separator, which its string does not have. Neither part of a key holds a separator.\<close>

theorem keys_round_trip:
  assumes "CHR ''/'' \<notin> set (om_Namespace m)" and "CHR ''/'' \<notin> set (om_Name m)" and "SplitMetaNamespaceKey key = Inr k"
  shows "safeKey (om_Namespace m, om_Name m) = MetaNamespaceKeyFunc m
    \<and> SplitMetaNamespaceKey (MetaNamespaceKeyFunc m) = Inr (om_Namespace m, om_Name m)
    \<and> (key = safeKey k \<or> fst k = '''' \<and> key = ''/'' @ safeKey k)
    \<and> CHR ''/'' \<notin> set (fst k) \<and> CHR ''/'' \<notin> set (snd k)"
proof -
  have key: "split_on CHR ''/'' key = ps \<Longrightarrow> key = join_with ''/'' ps" for ps by auto
  have "split_on CHR ''/'' key = [snd k] \<and> fst k = '''' \<or> split_on CHR ''/'' key = [fst k, snd k]"
    using assms(3) by (auto simp: SplitMetaNamespaceKey_def split: list.splits)
  then have "(if fst k = '''' then key = snd k \<or> key = ''/'' @ snd k else key = safeKey k)
      \<and> fst k \<in> insert '''' (set (split_on CHR ''/'' key)) \<and> snd k \<in> set (split_on CHR ''/'' key)"
    using key by (elim disjE conjE) (fastforce simp: safeKey_def)+
  moreover from this have "key = safeKey k \<or> fst k = '''' \<and> key = ''/'' @ safeKey k"
    by (cases "fst k = ''''") (auto simp: safeKey_def)
  moreover from calculation have "CHR ''/'' \<notin> set (fst k)" "CHR ''/'' \<notin> set (snd k)" by (auto dest: split_on_parts)
  moreover have "safeKey (om_Namespace m, om_Name m) = MetaNamespaceKeyFunc m" by (simp add: safeKey_def MetaNamespaceKeyFunc_def)
  ultimately show ?thesis using MetaNamespaceKey_roundtrip [OF assms(1,2)] by blast
qed

theorem keys_round_trip_witness:
  "SplitMetaNamespaceKey (MetaNamespaceKeyFunc (obj_meta demo_route)) = Inr (''prod'', ''app'') \<and> safeKey (''prod'', ''app'') = ''prod/app''
   \<and> SplitMetaNamespaceKey ''/app'' = Inr ('''', ''app'') \<and> ''/app'' = ''/'' @ safeKey ('''', ''app'')"
proof -
  have s: "SplitMetaNamespaceKey ''/app'' = Inr ('''', ''app'')" by code_simp
  moreover have "''/app'' \<noteq> safeKey ('''', ''app'')" by (simp add: safeKey_def)
  ultimately show ?thesis
    using keys_round_trip [of "obj_meta demo_route", OF _ _ demo_split] keys_round_trip [of "obj_meta demo_route", OF _ _ s]
    by (simp add: demo_route_def demo_meta_def)
qed

end
