(* ===== verification/TypedClients.thy ===== *)
theory TypedClients
  imports Complex_Main Rest
begin

text \<open>
  The generated clients (\<open>clientset/versioned\<close>): the calls of a kind's client as requests of a REST
  client, the clients of the seven kinds, and the constructors of the group's client and the clientset.
\<close>

subsection \<open>Requests of the calls\<close>

text \<open>A client of a namespaced kind sets the namespace of every request, also an empty one.\<close>

definition scoped :: "string option \<Rightarrow> request \<Rightarrow> request" where
  "scoped ns r = (case ns of None \<Rightarrow> r | Some n \<Rightarrow> Namespace n r)"

definition list_timeout :: "list_options \<Rightarrow> duration" where
  "list_timeout opts = (case lo_TimeoutSeconds opts of None \<Rightarrow> 0 | Some t \<Rightarrow> t * Second)"

record 'o api_list =
  al_ResourceVersion :: string
  al_Continue :: string
  al_Items :: "'o list"

definition get_request :: "'s rest_client \<Rightarrow> string option \<Rightarrow> string \<Rightarrow> string \<Rightarrow> get_options \<Rightarrow> request" where
  "get_request c ns res name options =
     VersionedParams c (GetOptions options) (Name name (Resource res (scoped ns (Verb c ''GET''))))"

definition list_request :: "'s rest_client \<Rightarrow> string option \<Rightarrow> string \<Rightarrow> list_options \<Rightarrow> request" where
  "list_request c ns res opts =
     Timeout (list_timeout opts) (VersionedParams c (ListOptions opts) (Resource res (scoped ns (Verb c ''GET''))))"

definition create_request ::
  "'s rest_client \<Rightarrow> 'o codec \<Rightarrow> string option \<Rightarrow> string \<Rightarrow> 'o \<Rightarrow> create_options \<Rightarrow> request" where
  "create_request c codec ns res obj opts =
     Body_object c (co_Encode codec obj)
       (VersionedParams c (CreateOptions opts) (Resource res (scoped ns (Verb c ''POST''))))"

definition update_request ::
  "'s rest_client \<Rightarrow> ('a, 'b) kobject codec \<Rightarrow> string option \<Rightarrow> string \<Rightarrow> ('a, 'b) kobject \<Rightarrow> update_options \<Rightarrow> request" where
  "update_request c codec ns res obj opts =
     Body_object c (co_Encode codec obj)
       (VersionedParams c (UpdateOptions opts)
          (Name (om_Name (obj_meta obj)) (Resource res (scoped ns (Verb c ''PUT'')))))"

definition update_status_request ::
  "'s rest_client \<Rightarrow> ('a, 'b) kobject codec \<Rightarrow> string option \<Rightarrow> string \<Rightarrow> ('a, 'b) kobject \<Rightarrow> update_options \<Rightarrow> request" where
  "update_status_request c codec ns res obj opts =
     Body_object c (co_Encode codec obj)
       (VersionedParams c (UpdateOptions opts)
          (SubResource [''status''] (Name (om_Name (obj_meta obj)) (Resource res (scoped ns (Verb c ''PUT''))))))"

definition delete_request :: "'s rest_client \<Rightarrow> string option \<Rightarrow> string \<Rightarrow> string \<Rightarrow> delete_options \<Rightarrow> request" where
  "delete_request c ns res name opts =
     Body_object c (cl_EncodeDelete c opts) (Name name (Resource res (scoped ns (Verb c ''DELETE''))))"

definition delete_collection_request ::
  "'s rest_client \<Rightarrow> string option \<Rightarrow> string \<Rightarrow> delete_options \<Rightarrow> list_options \<Rightarrow> request" where
  "delete_collection_request c ns res opts listOpts =
     Body_object c (cl_EncodeDelete c opts)
       (Timeout (list_timeout listOpts)
          (VersionedParams c (ListOptions listOpts) (Resource res (scoped ns (Verb c ''DELETE'')))))"

definition patch_request ::
  "'s rest_client \<Rightarrow> string option \<Rightarrow> string \<Rightarrow> string \<Rightarrow> string \<Rightarrow> string \<Rightarrow> patch_options \<Rightarrow> string list \<Rightarrow> request" where
  "patch_request c ns res name pt data opts subresources =
     Body_bytes data
       (VersionedParams c (PatchOptions opts)
          (SubResource subresources (Name name (Resource res (scoped ns (Patch_verb c pt))))))"

subsection \<open>A kind's client\<close>

text \<open>A call returns the object it allocated, filled or not, and an error.\<close>

definition do_into :: "'s rest_client \<Rightarrow> 'o codec \<Rightarrow> request \<Rightarrow> 's \<Rightarrow> ('o \<times> rest_err option) \<times> 's" where
  "do_into c codec r s = (case request_Do c r s of (res, s') \<Rightarrow> (Into c codec res, s'))"

definition do_error :: "'s rest_client \<Rightarrow> request \<Rightarrow> 's \<Rightarrow> rest_err option \<times> 's" where
  "do_error c r s = (case request_Do c r s of (res, s') \<Rightarrow> (result_Error c res, s'))"

record ('o, 's) rest_iface =
  ri_Get :: "string \<Rightarrow> get_options \<Rightarrow> 's \<Rightarrow> ('o \<times> rest_err option) \<times> 's"
  ri_List :: "list_options \<Rightarrow> 's \<Rightarrow> ('o api_list \<times> rest_err option) \<times> 's"
  ri_Watch :: "list_options \<Rightarrow> 's \<Rightarrow> (rest_err + watch_stream) \<times> 's"
  ri_Create :: "'o \<Rightarrow> create_options \<Rightarrow> 's \<Rightarrow> ('o \<times> rest_err option) \<times> 's"
  ri_Update :: "'o \<Rightarrow> update_options \<Rightarrow> 's \<Rightarrow> ('o \<times> rest_err option) \<times> 's"
  ri_UpdateStatus :: "'o \<Rightarrow> update_options \<Rightarrow> 's \<Rightarrow> ('o \<times> rest_err option) \<times> 's"
  ri_Delete :: "string \<Rightarrow> delete_options \<Rightarrow> 's \<Rightarrow> rest_err option \<times> 's"
  ri_DeleteCollection :: "delete_options \<Rightarrow> list_options \<Rightarrow> 's \<Rightarrow> rest_err option \<times> 's"
  ri_Patch :: "string \<Rightarrow> string \<Rightarrow> string \<Rightarrow> patch_options \<Rightarrow> string list \<Rightarrow> 's \<Rightarrow> ('o \<times> rest_err option) \<times> 's"

text \<open>The codecs of a kind and of its lists.\<close>

record ('a, 'b) kind_codecs =
  kc_object :: "('a, 'b) kobject codec"
  kc_list :: "('a, 'b) kobject api_list codec"

definition rest_iface_of ::
  "('a, 'b) kind_codecs \<Rightarrow> 's rest_client \<Rightarrow> string option \<Rightarrow> string \<Rightarrow> (('a, 'b) kobject, 's) rest_iface" where
  "rest_iface_of kc c ns res =
     \<lparr>ri_Get = (\<lambda>name options. do_into c (kc_object kc) (get_request c ns res name options)),
      ri_List = (\<lambda>opts. do_into c (kc_list kc) (list_request c ns res opts)),
      ri_Watch = (\<lambda>opts. request_Watch c (list_request c ns res (opts\<lparr>lo_Watch := True\<rparr>))),
      ri_Create = (\<lambda>obj opts. do_into c (kc_object kc) (create_request c (kc_object kc) ns res obj opts)),
      ri_Update = (\<lambda>obj opts. do_into c (kc_object kc) (update_request c (kc_object kc) ns res obj opts)),
      ri_UpdateStatus = (\<lambda>obj opts. do_into c (kc_object kc) (update_status_request c (kc_object kc) ns res obj opts)),
      ri_Delete = (\<lambda>name opts. do_error c (delete_request c ns res name opts)),
      ri_DeleteCollection = (\<lambda>opts listOpts. do_error c (delete_collection_request c ns res opts listOpts)),
      ri_Patch = (\<lambda>name pt data opts subresources.
         do_into c (kc_object kc) (patch_request c ns res name pt data opts subresources))\<rparr>"

subsection \<open>The clients of the kinds\<close>

definition BackendPolicies_client ::
  "(backendpolicy_spec, backendpolicy_status) kind_codecs \<Rightarrow> 's rest_client \<Rightarrow> string \<Rightarrow> (backendpolicy, 's) rest_iface" where
  "BackendPolicies_client kc c ns = rest_iface_of kc c (Some ns) ''backendpolicies''"

definition Gateways_client ::
  "(gateway_spec, gateway_status) kind_codecs \<Rightarrow> 's rest_client \<Rightarrow> string \<Rightarrow> (gateway, 's) rest_iface" where
  "Gateways_client kc c ns = rest_iface_of kc c (Some ns) ''gateways''"

definition GatewayClasses_client ::
  "(gatewayclass_spec, gatewayclass_status) kind_codecs \<Rightarrow> 's rest_client \<Rightarrow> (gatewayclass, 's) rest_iface" where
  "GatewayClasses_client kc c = rest_iface_of kc c None ''gatewayclasses''"

definition HTTPRoutes_client ::
  "(httproute_spec, httproute_status) kind_codecs \<Rightarrow> 's rest_client \<Rightarrow> string \<Rightarrow> (httproute, 's) rest_iface" where
  "HTTPRoutes_client kc c ns = rest_iface_of kc c (Some ns) ''httproutes''"

definition TCPRoutes_client ::
  "(l4_spec, l4_status) kind_codecs \<Rightarrow> 's rest_client \<Rightarrow> string \<Rightarrow> (l4_route, 's) rest_iface" where
  "TCPRoutes_client kc c ns = rest_iface_of kc c (Some ns) ''tcproutes''"

definition TLSRoutes_client ::
  "(l4_spec, l4_status) kind_codecs \<Rightarrow> 's rest_client \<Rightarrow> string \<Rightarrow> (l4_route, 's) rest_iface" where
  "TLSRoutes_client kc c ns = rest_iface_of kc c (Some ns) ''tlsroutes''"

definition UDPRoutes_client ::
  "(l4_spec, l4_status) kind_codecs \<Rightarrow> 's rest_client \<Rightarrow> string \<Rightarrow> (l4_route, 's) rest_iface" where
  "UDPRoutes_client kc c ns = rest_iface_of kc c (Some ns) ''udproutes''"

definition api_resources :: "string list" where
  "api_resources = [''backendpolicies'', ''gateways'', ''gatewayclasses'', ''httproutes'', ''tcproutes'', ''tlsroutes'',
     ''udproutes'']"

subsection \<open>The group's client and the clientset\<close>

text \<open>
  Building a REST client from a configuration (TLS files, transport) is an argument, as is the
  discovery client's constructor. Rate limiters are pointers of a type \<open>'l\<close>.
\<close>

record 'l rest_config =
  cf_Host :: string
  cf_APIPath :: string
  cf_GroupVersion :: "(string \<times> string) option"
  cf_NegotiatedSerializer :: "string option"
  cf_UserAgent :: string
  cf_QPS :: rat
  cf_Burst :: int
  cf_RateLimiter :: "'l option"

record 's group_client =
  ng_restClient :: "'s rest_client"

record ('s, 'd) clientset =
  cs_DiscoveryClient :: 'd
  cs_networkingV1alpha1 :: "'s group_client"

definition setConfigDefaults :: "string \<Rightarrow> 'l rest_config \<Rightarrow> 'l rest_config" where
  "setConfigDefaults defaultUserAgent config =
     (let config = config\<lparr>cf_GroupVersion := Some (''networking.x-k8s.io'', ''v1alpha1''), cf_APIPath := ''/apis'',
                          cf_NegotiatedSerializer := Some ''scheme.Codecs''\<rparr>
      in if cf_UserAgent config = '''' then config\<lparr>cf_UserAgent := defaultUserAgent\<rparr> else config)"

type_synonym ('l, 'c) client_for = "'l rest_config \<Rightarrow> goerr + 'c"

definition group_NewForConfig ::
  "string \<Rightarrow> ('l, 's rest_client) client_for \<Rightarrow> 'l rest_config \<Rightarrow> 's group_client result" where
  "group_NewForConfig ua RESTClientFor c =
     (case RESTClientFor (setConfigDefaults ua c) of
        Inl e \<Rightarrow> Inl (Fail e) | Inr client \<Rightarrow> Inr \<lparr>ng_restClient = client\<rparr>)"

definition group_NewForConfigOrDie ::
  "string \<Rightarrow> ('l, 's rest_client) client_for \<Rightarrow> 'l rest_config \<Rightarrow> 's group_client result" where
  "group_NewForConfigOrDie ua RESTClientFor c =
     (case group_NewForConfig ua RESTClientFor c of Inl _ \<Rightarrow> Inl (Panic ExplicitPanic) | Inr client \<Rightarrow> Inr client)"

definition group_New :: "'s rest_client \<Rightarrow> 's group_client" where
  "group_New c = \<lparr>ng_restClient = c\<rparr>"

definition RESTClient :: "'s group_client option \<Rightarrow> 's rest_client option" where
  "RESTClient c = map_option ng_restClient c"

definition burst_error :: goerr where
  "burst_error = ErrorString
     ''burst is required to be greater than 0 when RateLimiter is not set and QPS is set to greater than 0''"

definition clientset_NewForConfig ::
  "string \<Rightarrow> (rat \<Rightarrow> int \<Rightarrow> 'l) \<Rightarrow> ('l, 's rest_client) client_for \<Rightarrow> ('l, 'd) client_for \<Rightarrow> 'l rest_config
     \<Rightarrow> ('s, 'd) clientset result" where
  "clientset_NewForConfig ua NewTokenBucketRateLimiter RESTClientFor NewDiscoveryClientForConfig c =
     rbind
       (if cf_RateLimiter c = None \<and> 0 < cf_QPS c
        then if cf_Burst c \<le> 0 then Inl (Fail burst_error)
             else Inr (c\<lparr>cf_RateLimiter := Some (NewTokenBucketRateLimiter (cf_QPS c) (cf_Burst c))\<rparr>)
        else Inr c)
       (\<lambda>configShallowCopy.
     rbind (group_NewForConfig ua RESTClientFor configShallowCopy) (\<lambda>networking.
     case NewDiscoveryClientForConfig configShallowCopy of
       Inl e \<Rightarrow> Inl (Fail e)
     | Inr disc \<Rightarrow> Inr \<lparr>cs_DiscoveryClient = disc, cs_networkingV1alpha1 = networking\<rparr>))"

definition clientset_NewForConfigOrDie ::
  "string \<Rightarrow> ('l, 's rest_client) client_for \<Rightarrow> ('l, 'd) client_for \<Rightarrow> 'l rest_config \<Rightarrow> ('s, 'd) clientset result" where
  "clientset_NewForConfigOrDie ua RESTClientFor NewDiscoveryClientForConfig c =
     rbind (group_NewForConfigOrDie ua RESTClientFor c) (\<lambda>networking.
     case NewDiscoveryClientForConfig c of
       Inl e \<Rightarrow> Inl (Panic ExplicitPanic)
     | Inr disc \<Rightarrow> Inr \<lparr>cs_DiscoveryClient = disc, cs_networkingV1alpha1 = networking\<rparr>)"

definition clientset_New :: "('s rest_client \<Rightarrow> 'd) \<Rightarrow> 's rest_client \<Rightarrow> ('s, 'd) clientset" where
  "clientset_New NewDiscoveryClient c =
     \<lparr>cs_DiscoveryClient = NewDiscoveryClient c, cs_networkingV1alpha1 = group_New c\<rparr>"

definition clientset_Discovery :: "('s, 'd) clientset option \<Rightarrow> 'd option" where
  "clientset_Discovery c = map_option cs_DiscoveryClient c"

definition NetworkingV1alpha1 :: "('s, 'd) clientset \<Rightarrow> 's group_client" where
  "NetworkingV1alpha1 c = cs_networkingV1alpha1 c"

text \<open>The clients of the kinds, as the group's client hands them out.\<close>

definition group_BackendPolicies ::
  "(backendpolicy_spec, backendpolicy_status) kind_codecs \<Rightarrow> 's group_client \<Rightarrow> string \<Rightarrow> (backendpolicy, 's) rest_iface" where
  "group_BackendPolicies kc c ns = BackendPolicies_client kc (ng_restClient c) ns"

definition group_Gateways ::
  "(gateway_spec, gateway_status) kind_codecs \<Rightarrow> 's group_client \<Rightarrow> string \<Rightarrow> (gateway, 's) rest_iface" where
  "group_Gateways kc c ns = Gateways_client kc (ng_restClient c) ns"

definition group_GatewayClasses ::
  "(gatewayclass_spec, gatewayclass_status) kind_codecs \<Rightarrow> 's group_client \<Rightarrow> (gatewayclass, 's) rest_iface" where
  "group_GatewayClasses kc c = GatewayClasses_client kc (ng_restClient c)"

definition group_HTTPRoutes ::
  "(httproute_spec, httproute_status) kind_codecs \<Rightarrow> 's group_client \<Rightarrow> string \<Rightarrow> (httproute, 's) rest_iface" where
  "group_HTTPRoutes kc c ns = HTTPRoutes_client kc (ng_restClient c) ns"

definition group_TCPRoutes :: "(l4_spec, l4_status) kind_codecs \<Rightarrow> 's group_client \<Rightarrow> string \<Rightarrow> (l4_route, 's) rest_iface" where
  "group_TCPRoutes kc c ns = TCPRoutes_client kc (ng_restClient c) ns"

definition group_TLSRoutes :: "(l4_spec, l4_status) kind_codecs \<Rightarrow> 's group_client \<Rightarrow> string \<Rightarrow> (l4_route, 's) rest_iface" where
  "group_TLSRoutes kc c ns = TLSRoutes_client kc (ng_restClient c) ns"

definition group_UDPRoutes :: "(l4_spec, l4_status) kind_codecs \<Rightarrow> 's group_client \<Rightarrow> string \<Rightarrow> (l4_route, 's) rest_iface" where
  "group_UDPRoutes kc c ns = UDPRoutes_client kc (ng_restClient c) ns"

subsection \<open>Calls\<close>

text \<open>The calls of a typed client that one response answers. A watch is answered by a stream:
  it is the operation \<^theory_text>\<open>ri_Watch\<close> of the interface and is not a call of this type.\<close>

datatype ('a, 'b) call =
    CallGet string get_options
  | CallList list_options
  | CallCreate "('a, 'b) kobject" create_options
  | CallUpdate "('a, 'b) kobject" update_options
  | CallUpdateStatus "('a, 'b) kobject" update_options
  | CallDelete string delete_options
  | CallDeleteCollection delete_options list_options
  | CallPatch string string string patch_options "string list"

fun call_request ::
  "'s rest_client \<Rightarrow> ('a, 'b) kobject codec \<Rightarrow> string option \<Rightarrow> string \<Rightarrow> ('a, 'b) call \<Rightarrow> request" where
  "call_request c codec ns res (CallGet name opts) = get_request c ns res name opts"
| "call_request c codec ns res (CallList opts) = list_request c ns res opts"
| "call_request c codec ns res (CallCreate obj opts) = create_request c codec ns res obj opts"
| "call_request c codec ns res (CallUpdate obj opts) = update_request c codec ns res obj opts"
| "call_request c codec ns res (CallUpdateStatus obj opts) = update_status_request c codec ns res obj opts"
| "call_request c codec ns res (CallDelete name opts) = delete_request c ns res name opts"
| "call_request c codec ns res (CallDeleteCollection opts lopts) = delete_collection_request c ns res opts lopts"
| "call_request c codec ns res (CallPatch name pt data opts subs) = patch_request c ns res name pt data opts subs"

fun call_verb :: "('a, 'b) call \<Rightarrow> string" where
  "call_verb (CallGet _ _) = ''GET''"
| "call_verb (CallList _) = ''GET''"
| "call_verb (CallCreate _ _) = ''POST''"
| "call_verb (CallUpdate _ _) = ''PUT''"
| "call_verb (CallUpdateStatus _ _) = ''PUT''"
| "call_verb (CallDelete _ _) = ''DELETE''"
| "call_verb (CallDeleteCollection _ _) = ''DELETE''"
| "call_verb (CallPatch _ _ _ _ _) = ''PATCH''"

text \<open>The object a call names, none when it is about the collection.\<close>

fun call_name :: "('a, 'b) call \<Rightarrow> string option" where
  "call_name (CallGet name _) = Some name"
| "call_name (CallUpdate obj _) = Some (om_Name (obj_meta obj))"
| "call_name (CallUpdateStatus obj _) = Some (om_Name (obj_meta obj))"
| "call_name (CallDelete name _) = Some name"
| "call_name (CallPatch name _ _ _ _) = Some name"
| "call_name _ = None"

fun call_subs :: "('a, 'b) call \<Rightarrow> string list" where
  "call_subs (CallUpdateStatus _ _) = [''status'']"
| "call_subs (CallPatch _ _ _ _ subs) = subs"
| "call_subs _ = []"

subsection \<open>Requests that reach the transport\<close>

lemma IsValidPathSegmentName_iff:
  "IsValidPathSegmentName n = [] \<longleftrightarrow> n \<noteq> ''.'' \<and> n \<noteq> ''..'' \<and> CHR ''/'' \<notin> set n \<and> CHR ''%'' \<notin> set n"
  by (simp add: IsValidPathSegmentName_def contains_char_def)

lemma valid_plain: "IsValidPathSegmentName n = [] \<Longrightarrow> n = '''' \<or> plain_seg n"
  by (auto simp: IsValidPathSegmentName_iff plain_seg_def)

text \<open>What of a request says which object it is for.\<close>

definition address :: "request \<Rightarrow> string \<times> string \<times> nat \<times> bool \<times> string \<times> string \<times> string \<times> string" where
  "address r = (rq_verb r, rq_pathPrefix r, rq_maxRetries r, rq_namespaceSet r, rq_namespace r, rq_resource r,
     rq_resourceName r, rq_subresource r)"

lemma address_simps [simp]:
  "address (SetHeader k v r) = address r" "rq_err (SetHeader k v r) = rq_err r"
  by (simp_all add: SetHeader_def address_def)

lemma VersionedParams_ok:
  "rq_err (VersionedParams c opts r) = None \<Longrightarrow> rq_err r = None \<and> address (VersionedParams c opts r) = address r"
  by (auto simp: VersionedParams_def unless_err_def fail_with_def address_def split: if_splits sum.splits)

lemma Timeout_ok: "rq_err (Timeout d r) = None \<Longrightarrow> rq_err r = None \<and> address (Timeout d r) = address r"
  by (auto simp: Timeout_def unless_err_def address_def split: if_splits)

lemma Body_ok:
  "rq_err (Body_object c enc r) = None \<Longrightarrow> rq_err r = None \<and> address (Body_object c enc r) = address r"
  "rq_err (Body_bytes data r) = None \<Longrightarrow> rq_err r = None \<and> address (Body_bytes data r) = address r"
  by (auto simp: Body_object_def Body_bytes_def SetHeader_def unless_err_def fail_with_def address_def
      split: if_splits sum.splits option.splits)

lemma Namespace_ok:
  "rq_err (Namespace ns r) = None \<Longrightarrow> rq_err r = None \<and> IsValidPathSegmentName ns = []
     \<and> Namespace ns r = r\<lparr>rq_namespaceSet := True, rq_namespace := ns\<rparr>"
  by (auto simp: Namespace_def unless_err_def fail_with_def split: if_splits)

lemma Resource_ok:
  "rq_err (Resource res r) = None \<Longrightarrow> rq_err r = None \<and> Resource res r = r\<lparr>rq_resource := res\<rparr>"
  by (auto simp: Resource_def unless_err_def fail_with_def split: if_splits)

lemma Name_ok:
  "rq_err (Name n r) = None \<Longrightarrow> rq_err r = None \<and> IsValidPathSegmentName n = [] \<and> n \<noteq> ''''
     \<and> Name n r = r\<lparr>rq_resourceName := n\<rparr>"
  by (auto simp: Name_def unless_err_def fail_with_def split: if_splits)

lemma SubResource_ok:
  "rq_err (SubResource subs r) = None \<Longrightarrow> rq_err r = None \<and> (\<forall>s \<in> set subs. IsValidPathSegmentName s = [])
     \<and> SubResource subs r = r\<lparr>rq_subresource := path_Join subs\<rparr>"
  (is "?e \<Longrightarrow> ?goal")
proof -
  assume e: ?e
  have r: "rq_err r = None" using e by (auto simp: SubResource_def unless_err_def split: if_splits)
  have f: "List.find (\<lambda>s. IsValidPathSegmentName s \<noteq> []) subs = None" "rq_subresource r = ''''"
    using e r by (simp_all add: SubResource_def unless_err_def fail_with_def split: if_splits option.splits)
  have "\<forall>s \<in> set subs. IsValidPathSegmentName s = []" using f(1) unfolding find_None_iff by blast
  with r f show ?goal by (simp add: SubResource_def unless_err_def)
qed

definition path_prefix :: "'s rest_client \<Rightarrow> string" where
  "path_prefix c = path_Join [''/'', cl_BasePath c, cl_APIPath c]"

lemma Verb_address:
  "address (Verb c verb) = (verb, path_prefix c, 10, False, '''', '''', '''', '''')" "rq_err (Verb c verb) = None"
  "address (Patch_verb c pt) = (''PATCH'', path_prefix c, 10, False, '''', '''', '''', '''')" "rq_err (Patch_verb c pt) = None"
  by (simp_all add: Verb_def Patch_verb_def NewRequest_def SetHeader_def Let_def address_def path_prefix_def)

text \<open>A collection of a resource, with its namespace.\<close>

lemma collection_address:
  assumes "rq_err (Resource res (scoped ns r)) = None" and "address r = (verb, p, m, False, '''', '''', '''', '''')"
  shows "address (Resource res (scoped ns r)) =
      (verb, p, m, ns \<noteq> None, (case ns of None \<Rightarrow> '''' | Some n \<Rightarrow> n), res, '''', '''')
    \<and> (\<forall>n. ns = Some n \<longrightarrow> IsValidPathSegmentName n = [])"
proof -
  have R: "rq_err (scoped ns r) = None" "Resource res (scoped ns r) = (scoped ns r)\<lparr>rq_resource := res\<rparr>"
    using Resource_ok [OF assms(1)] by simp_all
  show ?thesis
  proof (cases ns)
    case None
    with R assms(2) show ?thesis by (simp add: scoped_def address_def)
  next
    case (Some n)
    with R Namespace_ok [of n r] assms(2) show ?thesis by (simp add: scoped_def address_def)
  qed
qed

lemma named_address:
  assumes "rq_err (Name n (Resource res (scoped ns r))) = None" and "address r = (verb, p, m, False, '''', '''', '''', '''')"
  shows "address (Name n (Resource res (scoped ns r))) =
      (verb, p, m, ns \<noteq> None, (case ns of None \<Rightarrow> '''' | Some n \<Rightarrow> n), res, n, '''')
    \<and> (\<forall>n. ns = Some n \<longrightarrow> IsValidPathSegmentName n = []) \<and> IsValidPathSegmentName n = [] \<and> n \<noteq> ''''"
  using Name_ok [OF assms(1)] collection_address [OF _ assms(2), of res ns] by (auto simp: address_def)

lemma sub_address:
  assumes "rq_err (SubResource subs (Name n (Resource res (scoped ns r)))) = None"
    and "address r = (verb, p, m, False, '''', '''', '''', '''')"
  shows "address (SubResource subs (Name n (Resource res (scoped ns r)))) =
      (verb, p, m, ns \<noteq> None, (case ns of None \<Rightarrow> '''' | Some n \<Rightarrow> n), res, n, path_Join subs)
    \<and> (\<forall>n. ns = Some n \<longrightarrow> IsValidPathSegmentName n = []) \<and> IsValidPathSegmentName n = [] \<and> n \<noteq> ''''
    \<and> (\<forall>s \<in> set subs. IsValidPathSegmentName s = [])"
proof -
  note S = SubResource_ok [OF assms(1)]
  show ?thesis using conjunct1 [OF S] S named_address [OF _ assms(2), of n res ns] by (simp add: address_def)
qed

lemmas last_steps = VersionedParams_ok Timeout_ok Body_ok

definition call_address :: "'s rest_client \<Rightarrow> string option \<Rightarrow> string \<Rightarrow> ('a, 'b) call \<Rightarrow> request \<Rightarrow> bool" where
  "call_address c ns res call r \<longleftrightarrow>
     address r = (call_verb call, path_prefix c, 10, ns \<noteq> None, (case ns of None \<Rightarrow> '''' | Some n \<Rightarrow> n), res,
       (case call_name call of None \<Rightarrow> '''' | Some n \<Rightarrow> n), path_Join (call_subs call))
     \<and> (\<forall>n. ns = Some n \<longrightarrow> IsValidPathSegmentName n = [])
     \<and> (\<forall>n. call_name call = Some n \<longrightarrow> IsValidPathSegmentName n = [] \<and> n \<noteq> '''')
     \<and> (\<forall>s \<in> set (call_subs call). IsValidPathSegmentName s = [])"

lemma path_Join_Nil: "path_Join [] = ''''"
  by (simp add: path_Join_def)

lemma call_request_address:
  assumes "rq_err (call_request c codec ns res call) = None"
  shows "call_address c ns res call (call_request c codec ns res call)"
proof (cases call)
  case (CallGet name opts)
  have "rq_err (get_request c ns res name opts) = None" using assms CallGet by simp
  note 1 = VersionedParams_ok [OF this [unfolded get_request_def]]
  from named_address [OF conjunct1 [OF 1] Verb_address(1)] 1 show ?thesis
    by (simp add: CallGet call_address_def path_Join_Nil get_request_def)
next
  case (CallList opts)
  have "rq_err (list_request c ns res opts) = None" using assms CallList by simp
  note 2 = Timeout_ok [OF this [unfolded list_request_def]]
  note 1 = VersionedParams_ok [OF conjunct1 [OF 2]]
  from collection_address [OF conjunct1 [OF 1] Verb_address(1)] 1 2 show ?thesis
    by (simp add: CallList call_address_def path_Join_Nil list_request_def)
next
  case (CallCreate obj opts)
  have "rq_err (create_request c codec ns res obj opts) = None" using assms CallCreate by simp
  note 2 = Body_ok(1) [OF this [unfolded create_request_def]]
  note 1 = VersionedParams_ok [OF conjunct1 [OF 2]]
  from collection_address [OF conjunct1 [OF 1] Verb_address(1)] 1 2 show ?thesis
    by (simp add: CallCreate call_address_def path_Join_Nil create_request_def)
next
  case (CallUpdate obj opts)
  have "rq_err (update_request c codec ns res obj opts) = None" using assms CallUpdate by simp
  note 2 = Body_ok(1) [OF this [unfolded update_request_def]]
  note 1 = VersionedParams_ok [OF conjunct1 [OF 2]]
  from named_address [OF conjunct1 [OF 1] Verb_address(1)] 1 2 show ?thesis
    by (simp add: CallUpdate call_address_def path_Join_Nil update_request_def)
next
  case (CallUpdateStatus obj opts)
  have "rq_err (update_status_request c codec ns res obj opts) = None" using assms CallUpdateStatus by simp
  note 2 = Body_ok(1) [OF this [unfolded update_status_request_def]]
  note 1 = VersionedParams_ok [OF conjunct1 [OF 2]]
  from sub_address [OF conjunct1 [OF 1] Verb_address(1)] 1 2 show ?thesis
    by (simp add: CallUpdateStatus call_address_def update_status_request_def)
next
  case (CallDelete name opts)
  have "rq_err (delete_request c ns res name opts) = None" using assms CallDelete by simp
  note 1 = Body_ok(1) [OF this [unfolded delete_request_def]]
  from named_address [OF conjunct1 [OF 1] Verb_address(1)] 1 show ?thesis
    by (simp add: CallDelete call_address_def path_Join_Nil delete_request_def)
next
  case (CallDeleteCollection opts lopts)
  have "rq_err (delete_collection_request c ns res opts lopts) = None" using assms CallDeleteCollection by simp
  note 3 = Body_ok(1) [OF this [unfolded delete_collection_request_def]]
  note 2 = Timeout_ok [OF conjunct1 [OF 3]]
  note 1 = VersionedParams_ok [OF conjunct1 [OF 2]]
  from collection_address [OF conjunct1 [OF 1] Verb_address(1)] 1 2 3 show ?thesis
    by (simp add: CallDeleteCollection call_address_def path_Join_Nil delete_collection_request_def)
next
  case (CallPatch name pt data opts subs)
  have "rq_err (patch_request c ns res name pt data opts subs) = None" using assms CallPatch by simp
  note 2 = Body_ok(2) [OF this [unfolded patch_request_def]]
  note 1 = VersionedParams_ok [OF conjunct1 [OF 2]]
  from sub_address [OF conjunct1 [OF 1] Verb_address(3)] 1 2 show ?thesis
    by (simp add: CallPatch call_address_def patch_request_def)
qed

subsection \<open>Paths of the calls\<close>

text \<open>The segments of the prefix every path of a client starts with.\<close>

definition prefix_segs :: "'s rest_client \<Rightarrow> string list" where
  "prefix_segs c = clean_segs True [] (split_on CHR ''/'' (join_with ''/'' [''/'', cl_BasePath c, cl_APIPath c]))"

lemma path_prefix_segs: "path_prefix c = rooted_path (prefix_segs c)" "list_all plain_seg (prefix_segs c)"
proof -
  have "join_with ''/'' [''/'', cl_BasePath c, cl_APIPath c] = CHR ''/'' # (''/'' @ cl_BasePath c @ ''/'' @ cl_APIPath c)" by simp
  then show "path_prefix c = rooted_path (prefix_segs c)"
    unfolding path_prefix_def path_Join_def prefix_segs_def by (simp add: path_Clean_rooted)
  show "list_all plain_seg (prefix_segs c)"
    unfolding prefix_segs_def by (rule clean_rooted_plain) (simp_all add: split_on_parts)
qed

definition path_segs :: "string option \<Rightarrow> string \<Rightarrow> ('a, 'b) call \<Rightarrow> string list" where
  "path_segs ns res call =
     (case ns of None \<Rightarrow> [] | Some n \<Rightarrow> if n = '''' then [] else [''namespaces'', n]) @ [res]
     @ (case call_name call of None \<Rightarrow> [] | Some n \<Rightarrow> [n]) @ filter (\<lambda>s. s \<noteq> '''') (call_subs call)"

definition resource_ok :: "string \<Rightarrow> bool" where
  "resource_ok res \<longleftrightarrow> plain_seg res \<and> map lower_char res = res"

lemma api_resources_ok: "res \<in> set api_resources \<Longrightarrow> resource_ok res"
  by (auto simp: api_resources_def resource_ok_def plain_seg_def lower_char_def)

lemma path_segs_plain:
  assumes "call_address c ns res call r" and "resource_ok res"
  shows "list_all plain_seg (path_segs ns res call)"
proof -
  have A: "\<And>n. ns = Some n \<Longrightarrow> IsValidPathSegmentName n = []"
    "\<And>n. call_name call = Some n \<Longrightarrow> IsValidPathSegmentName n = [] \<and> n \<noteq> ''''"
    "\<And>s. s \<in> set (call_subs call) \<Longrightarrow> IsValidPathSegmentName s = []"
    using assms(1) unfolding call_address_def by blast+
  have "plain_seg ''namespaces''" by (simp add: plain_seg_def)
  then have "list_all plain_seg (case ns of None \<Rightarrow> [] | Some n \<Rightarrow> if n = '''' then [] else [''namespaces'', n])"
    using valid_plain [OF A(1)] by (cases ns) auto
  moreover have "list_all plain_seg (case call_name call of None \<Rightarrow> [] | Some n \<Rightarrow> [n])"
  proof (cases "call_name call")
    case (Some n)
    then have "plain_seg n" using A(2) [OF Some] valid_plain [of n] by blast
    with Some show ?thesis by simp
  qed simp
  moreover have "plain_seg s" if "s \<in> set (filter (\<lambda>s. s \<noteq> '''') (call_subs call))" for s
    using that A(3) [of s] valid_plain [of s] unfolding set_filter by blast
  then have "list_all plain_seg (filter (\<lambda>s. s \<noteq> '''') (call_subs call))" unfolding list_all_iff by blast
  moreover have "plain_seg res" using assms(2) by (simp add: resource_ok_def)
  ultimately show ?thesis by (simp only: path_segs_def list_all_append list.pred_inject)
qed

lemma call_named: "call_name call = None \<Longrightarrow> call_subs call = []"
  by (cases call) simp_all

text \<open>The path of a request is its client's prefix and the segments of its call.\<close>

lemma url_path_call:
  assumes a: "call_address c ns res call r" and res: "resource_ok res"
  shows "url_path r = rooted_path (prefix_segs c @ path_segs ns res call)"
proof -
  let ?nss = "case ns of None \<Rightarrow> [] | Some n \<Rightarrow> if n = '''' then [] else [''namespaces'', n]"
  let ?name = "case call_name call of None \<Rightarrow> '''' | Some n \<Rightarrow> n"
  let ?subs = "filter (\<lambda>s. s \<noteq> '''') (call_subs call)"
  have f: "rq_pathPrefix r = path_prefix c" "rq_namespaceSet r = (ns \<noteq> None)"
      "rq_namespace r = (case ns of None \<Rightarrow> '''' | Some n \<Rightarrow> n)" "rq_resource r = res" "rq_resourceName r = ?name"
      "rq_subresource r = path_Join (call_subs call)"
    using a by (simp_all add: call_address_def address_def)
  have P: "list_all plain_seg (path_segs ns res call)" by (rule path_segs_plain [OF assms])
  have p: "list_all plain_seg (prefix_segs c @ ?nss)" "plain_seg res" "list_all plain_seg ?subs"
    using P path_prefix_segs(2) unfolding path_segs_def list_all_append list.pred_inject by blast+
  have name: "?name = '''' \<or> plain_seg ?name"
    using P unfolding path_segs_def list_all_append by (cases "call_name call") simp_all
  have nss: "(if rq_namespaceSet r \<and> rq_namespace r \<noteq> '''' then path_Join [rq_pathPrefix r, ''namespaces'', rq_namespace r]
      else rq_pathPrefix r) = rooted_path (prefix_segs c @ ?nss)"
  proof (cases "?nss = []")
    case True
    then show ?thesis unfolding f path_prefix_segs(1) by (cases ns) (simp_all split: if_splits)
  next
    case False
    then obtain n where n: "ns = Some n" "n \<noteq> ''''" by (cases ns) (auto split: if_splits)
    then have "plain_seg n" "plain_seg ''namespaces''" using p(1) by simp_all
    then show ?thesis
      using n path_Join_rooted [OF path_prefix_segs(2) [of c], of "[''namespaces'', n]"]
      unfolding f path_prefix_segs(1) by simp
  qed
  have low: "map lower_char res = res" "res \<noteq> ''''" using res by (simp_all add: resource_ok_def plain_seg_def)
  have rs: "path_Join [rooted_path (prefix_segs c @ ?nss), res] = rooted_path (prefix_segs c @ ?nss @ [res])"
    using path_Join_rooted [OF p(1), of "[res]"] p(2) low(2) by simp
  have s: "path_Join (call_subs call) = join_with ''/'' ?subs"
    using a valid_plain by (intro path_Join_plain) (auto simp: call_address_def)
  show ?thesis
  proof (cases "call_name call")
    case None
    then have "call_subs call = []" by (rule call_named)
    then show ?thesis
      unfolding url_path_def Let_def nss unfolding f low(1)
      using None low(2) rs by (simp add: path_segs_def path_Join_Nil)
  next
    case (Some n)
    have n: "plain_seg n" "n \<noteq> ''''" using name Some a by (simp_all add: call_address_def)
    have pre: "list_all plain_seg (prefix_segs c @ ?nss @ [res])" using p(1,2) by simp
    have split: "concat (map (split_on CHR ''/'') [n, join_with ''/'' ?subs, '''']) =
        n # (if ?subs = [] then [''''] else ?subs) @ ['''']"
      using n p(3) split_join [of ?subs "CHR ''/''"] by (simp add: split_on_no_sep plain_seg_def list_all_iff)
    have "path_Join [rooted_path (prefix_segs c @ ?nss @ [res]), n, join_with ''/'' ?subs, ''''] =
        path_Join (rooted_path (prefix_segs c @ ?nss @ [res]) # n # (if ?subs = [] then [''''] else ?subs) @ [''''])"
      unfolding path_Join_rooted_split [of _ "[n, join_with ''/'' ?subs, '''']"] split ..
    also have "\<dots> = rooted_path ((prefix_segs c @ ?nss @ [res]) @ n # ?subs)"
    proof -
      have "\<forall>e \<in> set (n # (if ?subs = [] then [''''] else ?subs) @ ['''']). e = '''' \<or> plain_seg e"
        using n p(3) by (simp add: list_all_iff)
      from path_Join_rooted [OF pre this] show ?thesis using n(2) by (simp add: filter_empty_conv)
    qed
    finally show ?thesis
      unfolding url_path_def Let_def nss unfolding f low(1) s
      using Some n(2) low(2) rs by (simp add: path_segs_def)
  qed
qed

end
