(* ===== verification/RestCalls.thy ===== *)
theory RestCalls
  imports TypedClients
begin

text \<open>
  What the generated clients send: one request that names the object of the call, repeated within
  bounds, nothing when a name cannot be a path segment; timeouts; and what a refused response becomes.
\<close>

subsection \<open>The log does not show in a request\<close>

lemma logged_builders:
  "Verb (logged c) verb = Verb c verb" "Patch_verb (logged c) pt = Patch_verb c pt"
  "VersionedParams (logged c) opts = VersionedParams c opts" "Body_object (logged c) enc = Body_object c enc"
  by (simp_all add: Verb_def Patch_verb_def NewRequest_def VersionedParams_def Body_object_def cong: if_cong sum.case_cong option.case_cong)

lemma logged_call: "call_request (logged c) codec ns res call = call_request c codec ns res call"
  by (cases call) (simp_all add: get_request_def list_request_def create_request_def update_request_def
      update_status_request_def delete_request_def delete_collection_request_def patch_request_def logged_builders)

lemma call_preflight:
  assumes "call_address c (Some '''') res call r" and "call_verb call = ''POST'' \<or> call_name call \<noteq> None \<and> call_verb call \<noteq> ''PATCH''"
  shows "requestPreflightCheck r \<noteq> None"
proof -
  have "rq_verb r = call_verb call" "rq_namespaceSet r" "rq_namespace r = ''''"
      "rq_resourceName r = (case call_name call of None \<Rightarrow> '''' | Some n \<Rightarrow> n)"
      "\<forall>n. call_name call = Some n \<longrightarrow> n \<noteq> ''''"
    using assms(1) by (simp_all add: call_address_def address_def)
  moreover have "call_verb call \<in> {''GET'', ''PUT'', ''DELETE'', ''POST'', ''PATCH''}" by (cases call) simp_all
  ultimately show ?thesis using assms(2) by (auto simp: requestPreflightCheck_def)
qed

subsection \<open>An example client\<close>

text \<open>A client of a server that answers every request with the same response.\<close>

definition demo_rest :: "http_response \<Rightarrow> unit rest_client" where
  "demo_rest resp =
     \<lparr>cl_BasePath = ''/'', cl_APIPath = ''/apis/networking.x-k8s.io/v1alpha1'', cl_AcceptContentTypes = '''',
      cl_ContentType = ''application/json'', cl_Timeout = None, cl_Throttle = (\<lambda>s. (None, s)),
      cl_NewRequest = (\<lambda>q. None), cl_Do = (\<lambda>q s. (Inr resp, s)), cl_EncodeParams = (\<lambda>opts. Inr []),
      cl_Encoder = None, cl_EncodeDelete = (\<lambda>opts. Inr ''{}''), cl_Negotiate = (\<lambda>ct. Decoder ''json''),
      cl_StreamDecoder = (\<lambda>ct. None), cl_DecodeStatus = (\<lambda>d body. None)\<rparr>"

definition demo_response :: "int \<Rightarrow> http_response" where
  "demo_response code = \<lparr>hp_StatusCode = code, hp_RetryAfter = ''1'', hp_ContentType = ''application/json'',
     hp_Body = BodyRead ''{}''\<rparr>"

definition demo_codec :: "gateway codec" where
  "demo_codec = \<lparr>co_Encode = (\<lambda>g. Inr ''{}''), co_Decode = (\<lambda>d body. DecodedInto (ki_Zero gateways_info)),
     co_Zero = ki_Zero gateways_info\<rparr>"

definition demo_get :: "string \<Rightarrow> (gateway_spec, gateway_status) call" where
  "demo_get name = CallGet name \<lparr>go_ResourceVersion = ''''\<rparr>"

subsection \<open>Properties\<close>

text \<open>C17: Whatever the transport answers, a call of a client sends one and the same request, at most eleven
  times: with the call's method, to the path that names its namespace, resource, object and subresources
  below the client's prefix. A call that creates or names an object in an empty namespace sends nothing,
  unless it is a patch.\<close>

theorem calls_address_their_object:
  assumes "res \<in> set api_resources"
    and run: "request_send (logged c) (call_request (logged c) codec ns res call) (s, []) = (out, (s', sent))"
  shows "length sent \<le> 11 \<and> (\<exists>q. set sent \<subseteq> {q})
    \<and> (\<forall>q \<in> set sent. hq_Method q = call_verb call \<and> hq_Path q = rooted_path (prefix_segs c @ path_segs ns res call))
    \<and> (ns = Some '''' \<and> (call_verb call = ''POST'' \<or> call_name call \<noteq> None \<and> call_verb call \<noteq> ''PATCH'') \<longrightarrow> sent = [])"
proof -
  let ?r = "call_request c codec ns res call"
  obtain j q where log: "sent = replicate j q" "j \<le> rq_maxRetries ?r + 1" "hq_Method q = rq_verb ?r" "hq_Path q = url_path ?r"
    and stop: "rq_err ?r \<noteq> None \<or> requestPreflightCheck ?r \<noteq> None \<Longrightarrow> j = 0"
    using request_send_log [of c ?r s "[]"] run unfolding logged_call by auto
  show ?thesis
  proof (cases "rq_err ?r")
    case (Some e)
    with stop log(1) show ?thesis by auto
  next
    case None
    note A = call_request_address [OF None]
    have "rq_maxRetries ?r = 10" "rq_verb ?r = call_verb call" using A by (simp_all add: call_address_def address_def)
    moreover note url_path_call [OF A api_resources_ok [OF assms(1)]]
    moreover have "j = 0" if "ns = Some '''' \<and> (call_verb call = ''POST'' \<or> call_name call \<noteq> None \<and> call_verb call \<noteq> ''PATCH'')"
      using call_preflight [of c res call ?r] A that stop by blast
    ultimately show ?thesis using log by auto
  qed
qed

theorem calls_address_their_object_witness:
  "\<exists>out q. request_send (logged (demo_rest (demo_response 200)))
       (call_request (logged (demo_rest (demo_response 200))) demo_codec (Some ''prod'') ''gateways'' (demo_get ''gw'')) ((), [])
     = (out, ((), [q])) \<and> hq_Path q = ''/apis/networking.x-k8s.io/v1alpha1/namespaces/prod/gateways/gw''"
proof -
  let ?run = "request_send (logged (demo_rest (demo_response 200)))
       (call_request (logged (demo_rest (demo_response 200))) demo_codec (Some ''prod'') ''gateways'' (demo_get ''gw'')) ((), [])"
  obtain out sent where run: "?run = (out, ((), sent))" by (cases ?run) auto
  have "length (snd (snd ?run)) = 1" by code_simp
  then obtain q where q: "sent = [q]" by (auto simp: run length_Suc_conv)
  have "prefix_segs (demo_rest (demo_response 200)) = [''apis'', ''networking.x-k8s.io'', ''v1alpha1'']" by code_simp
  moreover have "''gateways'' \<in> set api_resources" by (simp add: api_resources_def)
  ultimately show ?thesis
    using calls_address_their_object [OF _ run] run q
    by (simp add: path_segs_def demo_get_def rooted_path_def)
qed

text \<open>C31: A path names one object: two calls of clients over one server whose requests are built without
  error have the same path exactly when they are about the same namespace, resource, object and
  subresources, whatever their verbs and bodies.\<close>

theorem paths_name_objects:
  assumes "rq_err (call_request c codec ns res call) = None" and "rq_err (call_request c codec' ns' res' call') = None"
    and "res \<in> set api_resources" and "res' \<in> set api_resources"
  shows "url_path (call_request c codec ns res call) = url_path (call_request c codec' ns' res' call') \<longleftrightarrow>
    (case ns of None \<Rightarrow> '''' | Some n \<Rightarrow> n) = (case ns' of None \<Rightarrow> '''' | Some n \<Rightarrow> n) \<and> res = res'
    \<and> call_name call = call_name call'
    \<and> filter (\<lambda>s. s \<noteq> '''') (call_subs call) = filter (\<lambda>s. s \<noteq> '''') (call_subs call')"
    (is "?paths \<longleftrightarrow> ?objects")
proof
  note A = call_request_address [OF assms(1)] and B = call_request_address [OF assms(2)]
  note R = api_resources_ok [OF assms(3)] api_resources_ok [OF assms(4)]
  assume paths: ?paths
  have "rooted_path (prefix_segs c @ path_segs ns res call) = rooted_path (prefix_segs c @ path_segs ns' res' call')"
    using paths unfolding url_path_call [OF A R(1)] url_path_call [OF B R(2)] .
  then have "prefix_segs c @ path_segs ns res call = prefix_segs c @ path_segs ns' res' call'"
    by (rule rooted_path_inj [rotated 2])
      (simp_all only: list_all_append path_prefix_segs(2) path_segs_plain [OF A R(1)] path_segs_plain [OF B R(2)] simp_thms)
  then have P: "path_segs ns res call = path_segs ns' res' call'" by simp
  have ne: "res \<noteq> ''namespaces''" "res' \<noteq> ''namespaces''" using assms(3,4) by (auto simp: api_resources_def)
  have split: "a = b \<and> xs = ys" if "a @ [r] @ xs = b @ [r'] @ ys" "a = [] \<or> length a = 2 \<and> hd a = ''namespaces''"
      "b = [] \<or> length b = 2 \<and> hd b = ''namespaces''" "r \<noteq> ''namespaces''" "r' \<noteq> ''namespaces''"
    for a b xs ys :: "string list" and r r'
    using that by (cases a; cases b) (auto simp: length_Suc_conv)
  let ?a = "case ns of None \<Rightarrow> [] | Some n \<Rightarrow> if n = '''' then [] else [''namespaces'', n]"
  let ?b = "case ns' of None \<Rightarrow> [] | Some n \<Rightarrow> if n = '''' then [] else [''namespaces'', n]"
  let ?x = "(case call_name call of None \<Rightarrow> [] | Some n \<Rightarrow> [n]) @ filter (\<lambda>s. s \<noteq> '''') (call_subs call)"
  let ?y = "(case call_name call' of None \<Rightarrow> [] | Some n \<Rightarrow> [n]) @ filter (\<lambda>s. s \<noteq> '''') (call_subs call')"
  have ab: "?a = [] \<or> length ?a = 2 \<and> hd ?a = ''namespaces''" "?b = [] \<or> length ?b = 2 \<and> hd ?b = ''namespaces''"
    by (simp_all split: option.split)
  have e: "?a = ?b \<and> ?x = ?y" using split [OF P [unfolded path_segs_def] ab ne] .
  then have "res = res'" using P unfolding path_segs_def by simp
  moreover have "(case ns of None \<Rightarrow> '''' | Some n \<Rightarrow> n) = (case ns' of None \<Rightarrow> '''' | Some n \<Rightarrow> n)"
    using conjunct1 [OF e] by (auto split: option.splits if_splits)
  moreover have "call_name call = call_name call' \<and>
      filter (\<lambda>s. s \<noteq> '''') (call_subs call) = filter (\<lambda>s. s \<noteq> '''') (call_subs call')"
    using conjunct2 [OF e] call_named [of call] call_named [of call'] by (auto split: option.splits)
  ultimately show ?objects by blast
next
  note A = call_request_address [OF assms(1)] and B = call_request_address [OF assms(2)]
  note R = api_resources_ok [OF assms(3)] api_resources_ok [OF assms(4)]
  assume ?objects
  then have "path_segs ns res call = path_segs ns' res' call'" by (auto simp: path_segs_def split: option.splits)
  then show ?paths unfolding url_path_call [OF A R(1)] url_path_call [OF B R(2)] by simp
qed

text \<open>Reading and deleting a gateway use one path, writing its status another, and so does reading the gateway of
  that name in another namespace.\<close>

definition demo_delete :: "string \<Rightarrow> (gateway_spec, gateway_status) call" where
  "demo_delete name = CallDelete name \<lparr>de_GracePeriodSeconds = None, de_PreconditionUID = None,
     de_PreconditionResourceVersion = None, de_OrphanDependents = None, de_PropagationPolicy = None, de_DryRun = []\<rparr>"

definition demo_status_patch :: "string \<Rightarrow> (gateway_spec, gateway_status) call" where
  "demo_status_patch name = CallPatch name ''application/merge-patch+json'' ''{}''
     \<lparr>pa_DryRun = [], pa_Force = None, pa_FieldManager = ''''\<rparr> [''status'', '''']"

theorem paths_name_objects_witness:
  "let c = demo_rest (demo_response 200);
       path = \<lambda>ns call. url_path (call_request c demo_codec (Some ns) ''gateways'' call)
   in path ''prod'' (demo_get ''gw'') = path ''prod'' (demo_delete ''gw'')
     \<and> path ''prod'' (demo_get ''gw'') \<noteq> path ''prod'' (demo_status_patch ''gw'')
     \<and> path ''prod'' (demo_get ''gw'') \<noteq> path ''test'' (demo_get ''gw'')"
proof -
  let ?c = "demo_rest (demo_response 200)"
  have ok: "rq_err (call_request ?c demo_codec (Some ''prod'') ''gateways'' (demo_get ''gw'')) = None"
    "rq_err (call_request ?c demo_codec (Some ''prod'') ''gateways'' (demo_delete ''gw'')) = None"
    "rq_err (call_request ?c demo_codec (Some ''prod'') ''gateways'' (demo_status_patch ''gw'')) = None"
    "rq_err (call_request ?c demo_codec (Some ''test'') ''gateways'' (demo_get ''gw'')) = None"
    by code_simp+
  have r: "''gateways'' \<in> set api_resources" by (simp add: api_resources_def)
  show ?thesis
    unfolding Let_def paths_name_objects [OF ok(1,2) r r] paths_name_objects [OF ok(1,3) r r] paths_name_objects [OF ok(1,4) r r]
    by (simp add: demo_get_def demo_delete_def demo_status_patch_def)
qed

text \<open>C33: A call with a namespace, an object name or a subresource that cannot be a path segment, or with an
  empty object name, fails before anything is sent or waited for.\<close>

theorem bad_names_are_not_sent:
  assumes "(\<exists>n. ns = Some n \<and> IsValidPathSegmentName n \<noteq> [])
      \<or> (\<exists>n. call_name call = Some n \<and> (n = '''' \<or> IsValidPathSegmentName n \<noteq> []))
      \<or> (\<exists>n \<in> set (call_subs call). IsValidPathSegmentName n \<noteq> [])"
  shows "\<exists>e. request_send c (call_request c codec ns res call) s = (Inl e, s)"
proof -
  have "rq_err (call_request c codec ns res call) \<noteq> None"
  proof
    assume "rq_err (call_request c codec ns res call) = None"
    from call_request_address [OF this] assms show False unfolding call_address_def by blast
  qed
  then show ?thesis by (auto simp: request_send_def)
qed

theorem bad_names_are_not_sent_witness:
  "\<exists>e. request_send (demo_rest (demo_response 200))
      (call_request (demo_rest (demo_response 200)) demo_codec (Some ''prod'') ''gateways'' (demo_get ''../other'')) () = (Inl e, ())"
  by (rule bad_names_are_not_sent) (simp add: demo_get_def IsValidPathSegmentName_def contains_char_def)

text \<open>C32: A request other than a read is sent at most once over a transport that only fails: it is not
  repeated when the connection breaks, which may have been after the server acted on it.\<close>

theorem writes_are_not_repeated:
  assumes "rq_verb r \<noteq> ''GET''" and "\<And>q s. isl (fst (cl_Do c q s))"
    and "request_send (logged c) r (s, []) = (out, (s', sent))"
  shows "length sent \<le> 1 \<and> isl out"
proof -
  have stop: "\<exists>e. received verb (fst (cl_Do c q s)) = Inl e" if "verb \<noteq> ''GET''" for q s verb
    using assms(2) [of q s] that by (cases "fst (cl_Do c q s)") (simp_all add: received_def)
  have once: "\<exists>res s'. request_loop (logged c) q m 0 (s, l) = (res, (s', l)) \<and> isl res
      \<or> request_loop (logged c) q m 0 (s, l) = (res, (s', l @ [q])) \<and> isl res"
    if m: "hq_Method q \<noteq> ''GET''" for q m s l
  proof -
    obtain e where "received (hq_Method q) (fst (cl_Do c q s)) = Inl e" using stop [OF m] by blast
    then show ?thesis
      unfolding request_loop_logged [of c q m 0 s l] Let_def by (cases "cl_NewRequest c q") (auto simp: split_beta)
  qed
  show ?thesis
  proof (cases "rq_err r = None \<and> requestPreflightCheck r = None \<and> fst (cl_Throttle c s) = None")
    case True
    let ?q = "http_request (if 0 < sint (rq_timeout r) then Some (rq_timeout r) else None) r"
    have "request_send (logged c) r (s, []) = request_loop (logged c) ?q (rq_maxRetries r) 0 (snd (cl_Throttle c s), [])"
      using True by (simp add: request_send_def)
    moreover have "hq_Method ?q \<noteq> ''GET''" using assms(1) by (simp add: http_request_def)
    ultimately show ?thesis using once [of ?q "rq_maxRetries r" "snd (cl_Throttle c s)" "[]"] assms(3) by auto
  next
    case False
    then have "\<exists>e s'. request_send (logged c) r (s, []) = (Inl e, (s', []))"
      by (cases "rq_err r"; cases "requestPreflightCheck r"; cases "fst (cl_Throttle c s)") (simp_all add: request_send_def)
    with assms(3) show ?thesis by auto
  qed
qed

definition broken_rest :: "unit rest_client" where
  "broken_rest = (demo_rest (demo_response 200))\<lparr>cl_Do := \<lambda>q s.
     (Inl \<lparr>te_Err = ErrorString ''connection reset by peer'', te_Reset = True, te_EOF = False, te_Timeout = False\<rparr>, s)\<rparr>"

theorem writes_are_not_repeated_witness:
  "\<exists>out q. request_send (logged broken_rest) ((Verb broken_rest ''POST'')) ((), []) = (out, ((), [q])) \<and> isl out"
proof -
  let ?run = "request_send (logged broken_rest) (Verb broken_rest ''POST'') ((), [])"
  obtain out sent where run: "?run = (out, ((), sent))" by (cases ?run) auto
  have "length (snd (snd ?run)) = 1" by code_simp
  then obtain q where "sent = [q]" by (auto simp: run length_Suc_conv)
  moreover have "rq_verb (Verb broken_rest ''POST'') \<noteq> ''GET''" by (simp add: Verb_def)
  moreover have "isl (fst (cl_Do broken_rest q s))" for q s by (simp add: broken_rest_def)
  ultimately show ?thesis using writes_are_not_repeated [OF _ _ run] run by auto
qed

text \<open>A response whose code is not a success is never taken for one: reading the result of such a
  response into an object reports an error.\<close>

theorem refused_is_an_error:
  assumes "hp_StatusCode resp \<noteq> 101" and "hp_StatusCode resp < 200 \<or> 206 < hp_StatusCode resp"
  shows "snd (Into c codec (transformResponse c r resp)) \<noteq> None \<and> result_Error c (transformResponse c r resp) \<noteq> None"
proof -
  have e: "rs_err (transformResponse c r resp) \<noteq> None"
    using assms by (auto simp: transformResponse_def Let_def failed_result_def split: response_body.split negotiated.split)
  then have "result_Error c (transformResponse c r resp) \<noteq> None"
    by (auto simp: result_Error_def split: rest_err.split option.split prod.split)
  with e show ?thesis by (simp add: Into_def)
qed

theorem refused_is_an_error_witness:
  "snd (Into (demo_rest (demo_response 404)) demo_codec (transformResponse (demo_rest (demo_response 404))
      (Verb (demo_rest (demo_response 404)) ''GET'') (demo_response 404))) \<noteq> None"
  using refused_is_an_error [of "demo_response 404" "demo_rest (demo_response 404)" demo_codec] by (simp add: demo_response_def)

lemma list_deadline:
  assumes "request_send (logged c) (list_request (logged c) ns res opts) (s, []) = (out, (s', sent))" and "q \<in> set sent"
  shows "hq_Deadline q = (if 0 < sint (list_timeout opts) then Some (list_timeout opts) else None)"
proof -
  let ?r = "list_request (logged c) ns res opts"
  obtain j q' where L: "sent = replicate j q'" "rq_err ?r \<noteq> None \<longrightarrow> j = 0"
      "hq_Deadline q' = (if 0 < sint (rq_timeout ?r) then Some (rq_timeout ?r) else None)"
    using request_send_log [of c ?r s "[]"] assms(1) by auto
  have "rq_err ?r = None" "q = q'" using L assms(2) by auto
  moreover have "rq_timeout ?r = list_timeout opts" if "rq_err ?r = None"
    using that by (simp add: list_request_def Timeout_def unless_err_def split: if_splits)
  ultimately show ?thesis using L(3) by simp
qed

text \<open>The timeout of a list is its seconds in nanoseconds while that fits 64 bits, and it is the deadline
  of every request sent; beyond, it wraps, so that a timeout of some 292 years is negative and the
  requests have no deadline.\<close>

theorem list_timeout_wraps:
  assumes "lo_TimeoutSeconds opts = Some t"
    and "request_send (logged c) (list_request (logged c) ns res opts) (s, []) = (out, (s', sent))"
  shows "sint (list_timeout opts) = signed_take_bit 63 (sint t * 10 ^ 9)
    \<and> (0 < sint t \<and> sint t \<le> 9223372036 \<longrightarrow> sint (list_timeout opts) = sint t * 10 ^ 9
        \<and> (\<forall>q \<in> set sent. hq_Deadline q = Some (list_timeout opts)))
    \<and> (t = 9223372037 \<longrightarrow> sint (list_timeout opts) < 0 \<and> (\<forall>q \<in> set sent. hq_Deadline q = None))"
proof -
  note D = list_deadline [OF assms(2)]
  have s: "sint Second = 10 ^ 9" by (simp add: Second_def)
  have w: "sint (list_timeout opts) = signed_take_bit 63 (sint t * 10 ^ 9)"
    using assms by (simp add: list_timeout_def sint_word_ariths s)
  moreover have "signed_take_bit 63 (sint t * 10 ^ 9) = sint t * 10 ^ 9" if "0 < sint t" "sint t \<le> 9223372036"
    using that by (intro signed_take_bit_int_eq_self) simp_all
  moreover have "sint (9223372037 :: 64 word) = 9223372037" "signed_take_bit 63 (9223372037 * 10 ^ 9 :: int) < 0" by simp_all
  ultimately show ?thesis using D by auto
qed

theorem list_timeout_wraps_witness:
  "sint (list_timeout (no_list_options\<lparr>lo_TimeoutSeconds := Some 30\<rparr>)) = 30000000000
    \<and> list_all (\<lambda>q. hq_Deadline q = Some 30000000000)
        (snd (snd (request_send (logged (demo_rest (demo_response 200)))
          (list_request (logged (demo_rest (demo_response 200))) (Some ''default'') ''gateways''
            (no_list_options\<lparr>lo_TimeoutSeconds := Some 30\<rparr>)) ((), []))))"
proof -
  let ?opts = "no_list_options\<lparr>lo_TimeoutSeconds := Some 30\<rparr>"
  let ?c = "demo_rest (demo_response 200)"
  obtain out s' sent where run: "request_send (logged ?c) (list_request (logged ?c) (Some ''default'') ''gateways'' ?opts) ((), [])
      = (out, (s', sent))"
    by (metis prod.exhaust)
  have t: "lo_TimeoutSeconds ?opts = Some 30" by simp
  have "list_timeout ?opts = 30000000000" by (simp add: list_timeout_def Second_def)
  then show ?thesis using list_timeout_wraps [OF t run] run by (simp add: list_all_iff)
qed

text \<open>The rate limiter the clients of a clientset share.\<close>

definition shared_limiter :: "(rat \<Rightarrow> int \<Rightarrow> 'l) \<Rightarrow> 'l rest_config \<Rightarrow> 'l option" where
  "shared_limiter mk cf = (if cf_RateLimiter cf = None \<and> 0 < cf_QPS cf
     then Some (mk (cf_QPS cf) (cf_Burst cf)) else cf_RateLimiter cf)"

text \<open>A clientset is built exactly when its limits make sense and both its clients can be built; the two
  clients get the same rate limiter, the given one or a new one when a rate is set. The variant that
  panics instead checks no limits.\<close>

theorem NewForConfig_shares_limiter:
  "(case clientset_NewForConfig ua mk restFor discFor cf of
      Inl f \<Rightarrow> (\<exists>e. f = Fail e \<and> (cf_RateLimiter cf = None \<and> 0 < cf_QPS cf \<and> cf_Burst cf \<le> 0
          \<or> restFor (setConfigDefaults ua (cf\<lparr>cf_RateLimiter := shared_limiter mk cf\<rparr>)) = Inl e
          \<or> discFor (cf\<lparr>cf_RateLimiter := shared_limiter mk cf\<rparr>) = Inl e))
    | Inr cs \<Rightarrow> \<not> (cf_RateLimiter cf = None \<and> 0 < cf_QPS cf \<and> cf_Burst cf \<le> 0)
        \<and> restFor (setConfigDefaults ua (cf\<lparr>cf_RateLimiter := shared_limiter mk cf\<rparr>)) = Inr (ng_restClient (cs_networkingV1alpha1 cs))
        \<and> discFor (cf\<lparr>cf_RateLimiter := shared_limiter mk cf\<rparr>) = Inr (cs_DiscoveryClient cs))
    \<and> (case clientset_NewForConfigOrDie ua restFor discFor cf of
      Inl f \<Rightarrow> f = Panic ExplicitPanic \<and> (\<exists>e. restFor (setConfigDefaults ua cf) = Inl e \<or> discFor cf = Inl e)
    | Inr cs \<Rightarrow> restFor (setConfigDefaults ua cf) = Inr (ng_restClient (cs_networkingV1alpha1 cs))
        \<and> discFor cf = Inr (cs_DiscoveryClient cs))"
proof (rule conjI)
  have keep: "cf\<lparr>cf_RateLimiter := cf_RateLimiter cf\<rparr> = cf" by simp
  show "case clientset_NewForConfig ua mk restFor discFor cf of
      Inl f \<Rightarrow> (\<exists>e. f = Fail e \<and> (cf_RateLimiter cf = None \<and> 0 < cf_QPS cf \<and> cf_Burst cf \<le> 0
          \<or> restFor (setConfigDefaults ua (cf\<lparr>cf_RateLimiter := shared_limiter mk cf\<rparr>)) = Inl e
          \<or> discFor (cf\<lparr>cf_RateLimiter := shared_limiter mk cf\<rparr>) = Inl e))
    | Inr cs \<Rightarrow> \<not> (cf_RateLimiter cf = None \<and> 0 < cf_QPS cf \<and> cf_Burst cf \<le> 0)
        \<and> restFor (setConfigDefaults ua (cf\<lparr>cf_RateLimiter := shared_limiter mk cf\<rparr>)) = Inr (ng_restClient (cs_networkingV1alpha1 cs))
        \<and> discFor (cf\<lparr>cf_RateLimiter := shared_limiter mk cf\<rparr>) = Inr (cs_DiscoveryClient cs)"
    unfolding clientset_NewForConfig_def group_NewForConfig_def shared_limiter_def
    by (auto simp: keep not_le split: sum.split if_split)
  show "case clientset_NewForConfigOrDie ua restFor discFor cf of
      Inl f \<Rightarrow> f = Panic ExplicitPanic \<and> (\<exists>e. restFor (setConfigDefaults ua cf) = Inl e \<or> discFor cf = Inl e)
    | Inr cs \<Rightarrow> restFor (setConfigDefaults ua cf) = Inr (ng_restClient (cs_networkingV1alpha1 cs))
        \<and> discFor cf = Inr (cs_DiscoveryClient cs)"
    unfolding clientset_NewForConfigOrDie_def group_NewForConfigOrDie_def group_NewForConfig_def
    by (auto split: sum.split)
qed

end
