(* ===== verification/Injection.thy ===== *)
theory Injection
  imports Informers
begin

text \<open>
  Dependency injection (\<open>pkg/client/gatewayapi/injection\<close> over \<open>knative.dev/pkg/injection\<close>): clients,
  informer factories and informers put under keys of a context, and the set-up that runs what was
  registered. A context is the list of its values, newest first; factories live in a heap. What a
  client value is, and how one is made from a configuration, are arguments.
\<close>

subsection \<open>Contexts\<close>

datatype ctx_key = ClientKey | ConfigKey | NsKey | ResyncPeriodKey | LabelKey
  | FactoryKey | FilteredFactoryKey string | InformerKey api_kind | FilteredInformerKey api_kind string

text \<open>A client value says whether it is the fake clientset; a typed informer is its kind and its factory.\<close>

datatype ('c, 'cfg) injected =
    VClient bool 'c
  | VConfig 'cfg
  | VNamespace string
  | VResync int
  | VLabels "string list"
  | VFactory nat
  | VInformer api_kind nat

type_synonym ('c, 'cfg) inj_ctx = "(ctx_key \<times> ('c, 'cfg) injected) list"

text \<open>The factories, and the state of an injector.\<close>

type_synonym factories = "informer_factory list"

record ('c, 'cfg) injection_env =
  ie_NewForConfigOrDie :: "'cfg \<Rightarrow> 'c result"
  ie_NewSimpleClientset :: "runtime_object list \<Rightarrow> 'c result"
  ie_Networking :: "'c \<Rightarrow> fake_group"
  ie_parse :: "string \<Rightarrow> selector"
  ie_DefaultResyncPeriod :: int

definition WithValue :: "ctx_key \<Rightarrow> ('c, 'cfg) injected \<Rightarrow> ('c, 'cfg) inj_ctx \<Rightarrow> ('c, 'cfg) inj_ctx" where
  "WithValue k v ctx = (k, v) # ctx"

text \<open>Reading a value panics when there is none, or when it is of another type.\<close>

definition fetch :: "(('c, 'cfg) injected \<Rightarrow> 'x option) \<Rightarrow> ctx_key \<Rightarrow> ('c, 'cfg) inj_ctx \<Rightarrow> 'x result" where
  "fetch prj k ctx =
     (case map_of ctx k of
        None \<Rightarrow> Inl (Panic ExplicitPanic)
      | Some v \<Rightarrow> (case prj v of None \<Rightarrow> Inl (Panic TypeAssertion) | Some x \<Rightarrow> Inr x))"

definition fetch_default ::
  "'x \<Rightarrow> (('c, 'cfg) injected \<Rightarrow> 'x option) \<Rightarrow> ctx_key \<Rightarrow> ('c, 'cfg) inj_ctx \<Rightarrow> 'x result" where
  "fetch_default x prj k ctx = (if map_of ctx k = None then Inr x else fetch prj k ctx)"

fun as_client :: "('c, 'cfg) injected \<Rightarrow> 'c option" where
  "as_client (VClient _ c) = Some c"
| "as_client _ = None"

fun as_fake_client :: "('c, 'cfg) injected \<Rightarrow> 'c option" where
  "as_fake_client (VClient True c) = Some c"
| "as_fake_client _ = None"

fun as_namespace :: "('c, 'cfg) injected \<Rightarrow> string option" where
  "as_namespace (VNamespace n) = Some n"
| "as_namespace _ = None"

fun as_resync :: "('c, 'cfg) injected \<Rightarrow> int option" where
  "as_resync (VResync t) = Some t"
| "as_resync _ = None"

fun as_labels :: "('c, 'cfg) injected \<Rightarrow> string list option" where
  "as_labels (VLabels ls) = Some ls"
| "as_labels _ = None"

fun as_factory :: "('c, 'cfg) injected \<Rightarrow> nat option" where
  "as_factory (VFactory f) = Some f"
| "as_factory _ = None"

fun as_informer :: "api_kind \<Rightarrow> ('c, 'cfg) injected \<Rightarrow> nat option" where
  "as_informer kind (VInformer k f) = (if k = kind then Some f else None)"
| "as_informer kind _ = None"

definition WithNamespaceScope :: "string \<Rightarrow> ('c, 'cfg) inj_ctx \<Rightarrow> ('c, 'cfg) inj_ctx" where
  "WithNamespaceScope ns = WithValue NsKey (VNamespace ns)"

definition GetNamespaceScope :: "('c, 'cfg) inj_ctx \<Rightarrow> string result" where
  "GetNamespaceScope = fetch_default '''' as_namespace NsKey"

definition GetResyncPeriod :: "('c, 'cfg) injection_env \<Rightarrow> ('c, 'cfg) inj_ctx \<Rightarrow> int result" where
  "GetResyncPeriod env = fetch_default (ie_DefaultResyncPeriod env) as_resync ResyncPeriodKey"

definition WithConfig :: "'cfg \<Rightarrow> ('c, 'cfg) inj_ctx \<Rightarrow> ('c, 'cfg) inj_ctx" where
  "WithConfig cfg = WithValue ConfigKey (VConfig cfg)"

subsection \<open>Clients\<close>

type_synonym ('c, 'cfg) injector = "('c, 'cfg) inj_ctx \<Rightarrow> (factories, ('c, 'cfg) inj_ctx) action"

definition client_withClient :: "('c, 'cfg) injection_env \<Rightarrow> 'cfg \<Rightarrow> ('c, 'cfg) injector" where
  "client_withClient env cfg ctx =
     lift (rbind (ie_NewForConfigOrDie env cfg) (\<lambda>c. Inr (WithValue ClientKey (VClient False c) ctx)))"

definition client_Get :: "('c, 'cfg) inj_ctx \<Rightarrow> 'c result" where
  "client_Get = fetch as_client ClientKey"

definition fake_With ::
  "('c, 'cfg) injection_env \<Rightarrow> runtime_object list \<Rightarrow> ('c, 'cfg) inj_ctx \<Rightarrow> (('c, 'cfg) inj_ctx \<times> 'c) result" where
  "fake_With env objects ctx =
     rbind (ie_NewSimpleClientset env objects) (\<lambda>cs. Inr (WithValue ClientKey (VClient True cs) ctx, cs))"

definition fake_withClient :: "('c, 'cfg) injection_env \<Rightarrow> 'cfg \<Rightarrow> ('c, 'cfg) injector" where
  "fake_withClient env cfg ctx = lift (rbind (fake_With env [] ctx) (\<lambda>(ctx', _). Inr ctx'))"

definition fake_client_Get :: "('c, 'cfg) inj_ctx \<Rightarrow> 'c result" where
  "fake_client_Get = fetch as_fake_client ClientKey"

subsection \<open>Informer factories\<close>

definition alloc_factory :: "informer_factory \<Rightarrow> (factories, nat) action" where
  "alloc_factory f h = (Inr (length h), h @ [f])"

text \<open>The namespace option, when the context has a scope.\<close>

definition scope_options :: "('c, 'cfg) inj_ctx \<Rightarrow> informer_option list result" where
  "scope_options ctx =
     rbind (GetNamespaceScope ctx) (\<lambda>ns. Inr (if ns \<noteq> '''' then [WithNamespace ns] else []))"

definition factory_with ::
  "('c, 'cfg) injection_env \<Rightarrow> (('c, 'cfg) inj_ctx \<Rightarrow> 'c result) \<Rightarrow> ('c, 'cfg) injector" where
  "factory_with env get ctx =
     bnd (lift (get ctx)) (\<lambda>c.
     bnd (lift (scope_options ctx)) (\<lambda>opts.
     bnd (lift (GetResyncPeriod env ctx)) (\<lambda>resync.
     bnd (alloc_factory (NewSharedInformerFactoryWithOptions (ie_Networking env c) resync opts)) (\<lambda>f.
     ret (WithValue FactoryKey (VFactory f) ctx)))))"

definition factory_withInformerFactory :: "('c, 'cfg) injection_env \<Rightarrow> ('c, 'cfg) injector" where
  "factory_withInformerFactory env = factory_with env client_Get"

definition fake_factory_withInformerFactory :: "('c, 'cfg) injection_env \<Rightarrow> ('c, 'cfg) injector" where
  "fake_factory_withInformerFactory env = factory_with env fake_client_Get"

definition factory_Get :: "('c, 'cfg) inj_ctx \<Rightarrow> nat result" where
  "factory_Get = fetch as_factory FactoryKey"

text \<open>
  The filtered factories: one for each selector of the context. The option closes over the loop's
  variable, not its value: \<open>build\<close> is a factory as a function of what the variable holds when its
  filter runs. No filter runs in the loop and nothing assigns the variable after it, so all of them
  see what it holds at the end.
\<close>

definition WithSelectors :: "string list \<Rightarrow> ('c, 'cfg) inj_ctx \<Rightarrow> ('c, 'cfg) inj_ctx" where
  "WithSelectors sel = WithValue LabelKey (VLabels sel)"

fun selector_loop ::
  "(string \<Rightarrow> informer_factory) \<Rightarrow> string list \<Rightarrow> string \<Rightarrow> (string \<times> (string \<Rightarrow> informer_factory)) list
     \<Rightarrow> string \<times> (string \<times> (string \<Rightarrow> informer_factory)) list" where
  "selector_loop build [] selector made = (selector, made)"
| "selector_loop build (s # ss) selector made = selector_loop build ss s (made @ [(s, build)])"

fun alloc_filtered :: "(string \<times> informer_factory) list \<Rightarrow> ('c, 'cfg) injector" where
  "alloc_filtered [] ctx = ret ctx"
| "alloc_filtered ((s, fac) # fs) ctx =
     bnd (alloc_factory fac) (\<lambda>f. alloc_filtered fs (WithValue (FilteredFactoryKey s) (VFactory f) ctx))"

definition filtered_with ::
  "('c, 'cfg) injection_env \<Rightarrow> (('c, 'cfg) inj_ctx \<Rightarrow> 'c result) \<Rightarrow> ('c, 'cfg) injector" where
  "filtered_with env get ctx =
     bnd (lift (get ctx)) (\<lambda>c.
     bnd (lift (fetch as_labels LabelKey ctx)) (\<lambda>labelSelectors.
     if labelSelectors = [] then ret ctx else
     bnd (lift (scope_options ctx)) (\<lambda>opts.
     bnd (lift (GetResyncPeriod env ctx)) (\<lambda>resync.
       let build = (\<lambda>selector. NewSharedInformerFactoryWithOptions (ie_Networking env c) resync
             (opts @ [WithTweakListOptions (\<lambda>l. l\<lparr>lo_LabelSelector := selector\<rparr>)]));
           (selector, made) = selector_loop build labelSelectors '''' []
       in alloc_filtered (map (\<lambda>(s, b). (s, b selector)) made) ctx))))"

definition filtered_withInformerFactory :: "('c, 'cfg) injection_env \<Rightarrow> ('c, 'cfg) injector" where
  "filtered_withInformerFactory env = filtered_with env client_Get"

definition fake_filtered_withInformerFactory :: "('c, 'cfg) injection_env \<Rightarrow> ('c, 'cfg) injector" where
  "fake_filtered_withInformerFactory env = filtered_with env fake_client_Get"

definition filtered_factory_Get :: "('c, 'cfg) inj_ctx \<Rightarrow> string \<Rightarrow> nat result" where
  "filtered_factory_Get ctx selector = fetch as_factory (FilteredFactoryKey selector) ctx"

subsection \<open>Informers of a kind\<close>

text \<open>An informer is a pointer into a factory's heap. \<open>informer_of\<close> is \<open>inf.Informer()\<close>.\<close>

type_synonym informer_ptr = "nat \<times> nat"

definition informer_of :: "('c, 'cfg) injection_env \<Rightarrow> api_kind \<Rightarrow> nat \<Rightarrow> (factories, informer_ptr) action" where
  "informer_of env kind f h =
     (let (i, fac) = Informer (ie_parse env) kind (h ! f) in (Inr (f, i), h[f := fac]))"

record ('c, 'cfg) informer_injection =
  ii_withInformer :: "('c, 'cfg) inj_ctx \<Rightarrow> (factories, ('c, 'cfg) inj_ctx \<times> informer_ptr) action"
  ii_Get :: "('c, 'cfg) inj_ctx \<Rightarrow> nat result"

definition plain_injection :: "('c, 'cfg) injection_env \<Rightarrow> api_kind \<Rightarrow> ('c, 'cfg) informer_injection" where
  "plain_injection env kind =
     \<lparr>ii_withInformer = (\<lambda>ctx.
        bnd (lift (factory_Get ctx)) (\<lambda>f.
        bnd (informer_of env kind f) (\<lambda>i.
        ret (WithValue (InformerKey kind) (VInformer kind f) ctx, i)))),
      ii_Get = fetch (as_informer kind) (InformerKey kind)\<rparr>"

record ('c, 'cfg) filtered_injection =
  fj_withInformer :: "('c, 'cfg) inj_ctx \<Rightarrow> (factories, ('c, 'cfg) inj_ctx \<times> informer_ptr list) action"
  fj_Get :: "('c, 'cfg) inj_ctx \<Rightarrow> string \<Rightarrow> nat result"

fun filtered_loop ::
  "('c, 'cfg) injection_env \<Rightarrow> api_kind \<Rightarrow> string list \<Rightarrow> informer_ptr list
     \<Rightarrow> ('c, 'cfg) inj_ctx \<Rightarrow> (factories, ('c, 'cfg) inj_ctx \<times> informer_ptr list) action" where
  "filtered_loop env kind [] infs ctx = ret (ctx, infs)"
| "filtered_loop env kind (selector # ss) infs ctx =
     bnd (lift (filtered_factory_Get ctx selector)) (\<lambda>f.
     bnd (informer_of env kind f) (\<lambda>i.
     filtered_loop env kind ss (infs @ [i]) (WithValue (FilteredInformerKey kind selector) (VInformer kind f) ctx)))"

definition filtered_injection_of :: "('c, 'cfg) injection_env \<Rightarrow> api_kind \<Rightarrow> ('c, 'cfg) filtered_injection" where
  "filtered_injection_of env kind =
     \<lparr>fj_withInformer = (\<lambda>ctx.
        bnd (lift (fetch as_labels LabelKey ctx)) (\<lambda>labelSelectors. filtered_loop env kind labelSelectors [] ctx)),
      fj_Get = (\<lambda>ctx selector. fetch (as_informer kind) (FilteredInformerKey kind selector) ctx)\<rparr>"

subsection \<open>The packages of the kinds\<close>

text \<open>
  For each kind a package, and its fake, filtered and filtered fake variants. The fakes register informers
  of the same keys; they differ in where the factory comes from: \<open>fake.Get\<close> of the factory package is
  \<open>factory.Get\<close>, so that they are the same functions.
\<close>

definition backendpolicy_injection :: "('c, 'cfg) injection_env \<Rightarrow> ('c, 'cfg) informer_injection" where
  "backendpolicy_injection env = plain_injection env KindBackendPolicy"

definition backendpolicy_fake_injection :: "('c, 'cfg) injection_env \<Rightarrow> ('c, 'cfg) informer_injection" where
  "backendpolicy_fake_injection env = plain_injection env KindBackendPolicy"

definition backendpolicy_filtered_injection :: "('c, 'cfg) injection_env \<Rightarrow> ('c, 'cfg) filtered_injection" where
  "backendpolicy_filtered_injection env = filtered_injection_of env KindBackendPolicy"

definition backendpolicy_filtered_fake_injection :: "('c, 'cfg) injection_env \<Rightarrow> ('c, 'cfg) filtered_injection" where
  "backendpolicy_filtered_fake_injection env = filtered_injection_of env KindBackendPolicy"

definition gateway_injection :: "('c, 'cfg) injection_env \<Rightarrow> ('c, 'cfg) informer_injection" where
  "gateway_injection env = plain_injection env KindGateway"

definition gateway_fake_injection :: "('c, 'cfg) injection_env \<Rightarrow> ('c, 'cfg) informer_injection" where
  "gateway_fake_injection env = plain_injection env KindGateway"

definition gateway_filtered_injection :: "('c, 'cfg) injection_env \<Rightarrow> ('c, 'cfg) filtered_injection" where
  "gateway_filtered_injection env = filtered_injection_of env KindGateway"

definition gateway_filtered_fake_injection :: "('c, 'cfg) injection_env \<Rightarrow> ('c, 'cfg) filtered_injection" where
  "gateway_filtered_fake_injection env = filtered_injection_of env KindGateway"

definition gatewayclass_injection :: "('c, 'cfg) injection_env \<Rightarrow> ('c, 'cfg) informer_injection" where
  "gatewayclass_injection env = plain_injection env KindGatewayClass"

definition gatewayclass_fake_injection :: "('c, 'cfg) injection_env \<Rightarrow> ('c, 'cfg) informer_injection" where
  "gatewayclass_fake_injection env = plain_injection env KindGatewayClass"

definition gatewayclass_filtered_injection :: "('c, 'cfg) injection_env \<Rightarrow> ('c, 'cfg) filtered_injection" where
  "gatewayclass_filtered_injection env = filtered_injection_of env KindGatewayClass"

definition gatewayclass_filtered_fake_injection :: "('c, 'cfg) injection_env \<Rightarrow> ('c, 'cfg) filtered_injection" where
  "gatewayclass_filtered_fake_injection env = filtered_injection_of env KindGatewayClass"

definition httproute_injection :: "('c, 'cfg) injection_env \<Rightarrow> ('c, 'cfg) informer_injection" where
  "httproute_injection env = plain_injection env KindHTTPRoute"

definition httproute_fake_injection :: "('c, 'cfg) injection_env \<Rightarrow> ('c, 'cfg) informer_injection" where
  "httproute_fake_injection env = plain_injection env KindHTTPRoute"

definition httproute_filtered_injection :: "('c, 'cfg) injection_env \<Rightarrow> ('c, 'cfg) filtered_injection" where
  "httproute_filtered_injection env = filtered_injection_of env KindHTTPRoute"

definition httproute_filtered_fake_injection :: "('c, 'cfg) injection_env \<Rightarrow> ('c, 'cfg) filtered_injection" where
  "httproute_filtered_fake_injection env = filtered_injection_of env KindHTTPRoute"

definition tcproute_injection :: "('c, 'cfg) injection_env \<Rightarrow> ('c, 'cfg) informer_injection" where
  "tcproute_injection env = plain_injection env KindTCPRoute"

definition tcproute_fake_injection :: "('c, 'cfg) injection_env \<Rightarrow> ('c, 'cfg) informer_injection" where
  "tcproute_fake_injection env = plain_injection env KindTCPRoute"

definition tcproute_filtered_injection :: "('c, 'cfg) injection_env \<Rightarrow> ('c, 'cfg) filtered_injection" where
  "tcproute_filtered_injection env = filtered_injection_of env KindTCPRoute"

definition tcproute_filtered_fake_injection :: "('c, 'cfg) injection_env \<Rightarrow> ('c, 'cfg) filtered_injection" where
  "tcproute_filtered_fake_injection env = filtered_injection_of env KindTCPRoute"

definition tlsroute_injection :: "('c, 'cfg) injection_env \<Rightarrow> ('c, 'cfg) informer_injection" where
  "tlsroute_injection env = plain_injection env KindTLSRoute"

definition tlsroute_fake_injection :: "('c, 'cfg) injection_env \<Rightarrow> ('c, 'cfg) informer_injection" where
  "tlsroute_fake_injection env = plain_injection env KindTLSRoute"

definition tlsroute_filtered_injection :: "('c, 'cfg) injection_env \<Rightarrow> ('c, 'cfg) filtered_injection" where
  "tlsroute_filtered_injection env = filtered_injection_of env KindTLSRoute"

definition tlsroute_filtered_fake_injection :: "('c, 'cfg) injection_env \<Rightarrow> ('c, 'cfg) filtered_injection" where
  "tlsroute_filtered_fake_injection env = filtered_injection_of env KindTLSRoute"

definition udproute_injection :: "('c, 'cfg) injection_env \<Rightarrow> ('c, 'cfg) informer_injection" where
  "udproute_injection env = plain_injection env KindUDPRoute"

definition udproute_fake_injection :: "('c, 'cfg) injection_env \<Rightarrow> ('c, 'cfg) informer_injection" where
  "udproute_fake_injection env = plain_injection env KindUDPRoute"

definition udproute_filtered_injection :: "('c, 'cfg) injection_env \<Rightarrow> ('c, 'cfg) filtered_injection" where
  "udproute_filtered_injection env = filtered_injection_of env KindUDPRoute"

definition udproute_filtered_fake_injection :: "('c, 'cfg) injection_env \<Rightarrow> ('c, 'cfg) filtered_injection" where
  "udproute_filtered_fake_injection env = filtered_injection_of env KindUDPRoute"

subsection \<open>Set-up\<close>

text \<open>What was registered, in the order of registration.\<close>

record ('c, 'cfg) registry =
  re_clients :: "('cfg \<Rightarrow> ('c, 'cfg) injector) list"
  re_factories :: "('c, 'cfg) injector list"
  re_informers :: "(('c, 'cfg) inj_ctx \<Rightarrow> (factories, ('c, 'cfg) inj_ctx \<times> informer_ptr) action) list"
  re_filteredInformers :: "(('c, 'cfg) inj_ctx \<Rightarrow> (factories, ('c, 'cfg) inj_ctx \<times> informer_ptr list) action) list"

fun run_injectors :: "('c, 'cfg) injector list \<Rightarrow> ('c, 'cfg) injector" where
  "run_injectors [] ctx = ret ctx"
| "run_injectors (i # is) ctx = bnd (i ctx) (run_injectors is)"

fun run_informers ::
  "(('c, 'cfg) inj_ctx \<Rightarrow> (factories, ('c, 'cfg) inj_ctx \<times> informer_ptr) action) list \<Rightarrow> informer_ptr list
     \<Rightarrow> ('c, 'cfg) inj_ctx \<Rightarrow> (factories, ('c, 'cfg) inj_ctx \<times> informer_ptr list) action" where
  "run_informers [] infs ctx = ret (ctx, infs)"
| "run_informers (i # is) infs ctx = bnd (i ctx) (\<lambda>(ctx, inf). run_informers is (infs @ [inf]) ctx)"

fun run_filtered ::
  "(('c, 'cfg) inj_ctx \<Rightarrow> (factories, ('c, 'cfg) inj_ctx \<times> informer_ptr list) action) list \<Rightarrow> informer_ptr list
     \<Rightarrow> ('c, 'cfg) inj_ctx \<Rightarrow> (factories, ('c, 'cfg) inj_ctx \<times> informer_ptr list) action" where
  "run_filtered [] infs ctx = ret (ctx, infs)"
| "run_filtered (i # is) infs ctx = bnd (i ctx) (\<lambda>(ctx, filteredinfs). run_filtered is (infs @ filteredinfs) ctx)"

definition SetupInformers ::
  "('c, 'cfg) registry \<Rightarrow> 'cfg \<Rightarrow> ('c, 'cfg) inj_ctx \<Rightarrow> (factories, ('c, 'cfg) inj_ctx \<times> informer_ptr list) action" where
  "SetupInformers reg cfg ctx =
     bnd (run_injectors (map (\<lambda>ci. ci cfg) (re_clients reg)) ctx) (\<lambda>ctx.
     bnd (run_injectors (re_factories reg) ctx) (\<lambda>ctx.
     bnd (run_informers (re_informers reg) [] ctx) (\<lambda>(ctx, informers).
     run_filtered (re_filteredInformers reg) informers ctx)))"

text \<open>The registries of this repository's packages, for the process and for tests, with informers of \<open>kinds\<close>.\<close>

definition kinds_registry :: "bool \<Rightarrow> ('c, 'cfg) injection_env \<Rightarrow> api_kind list \<Rightarrow> ('c, 'cfg) registry" where
  "kinds_registry fake env kinds =
     \<lparr>re_clients = [if fake then fake_withClient env else client_withClient env],
      re_factories = [if fake then fake_factory_withInformerFactory env else factory_withInformerFactory env],
      re_informers = map (\<lambda>kind. ii_withInformer (plain_injection env kind)) kinds,
      re_filteredInformers = []\<rparr>"

definition new_client :: "bool \<Rightarrow> ('c, 'cfg) injection_env \<Rightarrow> 'cfg \<Rightarrow> 'c result" where
  "new_client fake env cfg = (if fake then ie_NewSimpleClientset env [] else ie_NewForConfigOrDie env cfg)"

lemma fetch_WithValue:
  "fetch prj k (WithValue k' v ctx) =
     (if k = k' then (case prj v of None \<Rightarrow> Inl (Panic TypeAssertion) | Some x \<Rightarrow> Inr x) else fetch prj k ctx)"
  "fetch_default x prj k (WithValue k' v ctx) =
     (if k = k' then (case prj v of None \<Rightarrow> Inl (Panic TypeAssertion) | Some x \<Rightarrow> Inr x) else fetch_default x prj k ctx)"
  by (simp_all add: fetch_def fetch_default_def WithValue_def)

lemma set_up_client:
  assumes "new_client fake env cfg = Inr c"
  shows "(if fake then fake_withClient env else client_withClient env) cfg ctx h
      = (Inr (WithValue ClientKey (VClient fake c) ctx), h)"
  using assms
  by (simp add: new_client_def fake_withClient_def client_withClient_def fake_With_def split: if_splits)

lemma set_up_factory:
  assumes "map_of ctx ClientKey = Some (VClient fake c)" and "GetNamespaceScope ctx = Inr ns"
    and "GetResyncPeriod env ctx = Inr resync"
  shows "(if fake then fake_factory_withInformerFactory env else factory_withInformerFactory env) ctx h
      = (Inr (WithValue FactoryKey (VFactory (length h)) ctx),
         h @ [NewSharedInformerFactoryWithOptions (ie_Networking env c) resync (if ns \<noteq> '''' then [WithNamespace ns] else [])])"
  using assms
  by (simp add: fake_factory_withInformerFactory_def factory_withInformerFactory_def factory_with_def bnd_def
      scope_options_def alloc_factory_def client_Get_def fake_client_Get_def fetch_def)

text \<open>Setting up informers of one factory: each is found under its key, and is the factory's shared one.\<close>

lemma set_up_informers:
  assumes "factory_Get ctx = Inr p" and "p < length h" and "factory_ok (h ! p)"
  shows "\<exists>ctx' new fac. run_informers (map (\<lambda>kind. ii_withInformer (plain_injection env kind)) kinds) infs ctx h
        = (Inr (ctx', infs @ new), h[p := fac])
    \<and> factory_ok fac \<and> factory_extends (h ! p) fac
    \<and> list_all2 (\<lambda>kind i. fst i = p \<and> map_of (fa_informers fac) kind = Some (snd i)) kinds new
    \<and> (\<forall>kind \<in> set kinds. ii_Get (plain_injection env kind) ctx' = Inr p)
    \<and> (\<forall>kind. ii_Get (plain_injection env kind) ctx = Inr p \<longrightarrow> ii_Get (plain_injection env kind) ctx' = Inr p)
    \<and> (\<forall>k. (\<forall>kind. k \<noteq> InformerKey kind) \<longrightarrow> map_of ctx' k = map_of ctx k)"
  using assms
proof (induction kinds arbitrary: infs ctx h)
  case Nil
  then show ?case by (intro exI [of _ ctx] exI [of _ "[]"] exI [of _ "h ! p"]) simp
next
  case (Cons kind kinds)
  obtain i fac1 where I: "Informer (ie_parse env) kind (h ! p) = (i, fac1)" by force
  have ok1: "factory_ok fac1" "factory_extends (h ! p) fac1" "map_of (fa_informers fac1) kind = Some i"
    using Informer_ok [OF Cons.prems(3), of "ie_parse env" kind] I by simp_all
  let ?ctx1 = "WithValue (InformerKey kind) (VInformer kind p) ctx" and ?h1 = "h[p := fac1]"
  have g1: "factory_Get ?ctx1 = Inr p" using Cons.prems(1) by (simp add: factory_Get_def fetch_WithValue)
  have f1: "p < length ?h1" "?h1 ! p = fac1" using Cons.prems(2) by simp_all
  have ok1': "factory_ok (?h1 ! p)" unfolding f1(2) by (rule ok1(1))
  obtain ctx' new fac where R: "run_informers (map (\<lambda>kind. ii_withInformer (plain_injection env kind)) kinds) (infs @ [(p, i)]) ?ctx1 ?h1
        = (Inr (ctx', (infs @ [(p, i)]) @ new), ?h1[p := fac])"
    and F: "factory_ok fac" "factory_extends fac1 fac"
      "list_all2 (\<lambda>kind i. fst i = p \<and> map_of (fa_informers fac) kind = Some (snd i)) kinds new"
      "\<forall>kind \<in> set kinds. ii_Get (plain_injection env kind) ctx' = Inr p"
      "\<forall>kind. ii_Get (plain_injection env kind) ?ctx1 = Inr p \<longrightarrow> ii_Get (plain_injection env kind) ctx' = Inr p"
      "\<forall>k. (\<forall>kind. k \<noteq> InformerKey kind) \<longrightarrow> map_of ctx' k = map_of ?ctx1 k"
    using Cons.IH [OF g1 f1(1) ok1', unfolded f1(2)] by blast
  have step: "ii_withInformer (plain_injection env kind) ctx h = (Inr (?ctx1, (p, i)), ?h1)"
    using Cons.prems(1) I by (simp add: plain_injection_def bnd_def informer_of_def)
  have run: "run_informers (map (\<lambda>kind. ii_withInformer (plain_injection env kind)) (kind # kinds)) infs ctx h
      = (Inr (ctx', infs @ (p, i) # new), h[p := fac])"
    using R by (simp add: bnd_def step)
  have here: "ii_Get (plain_injection env kind) ?ctx1 = Inr p" by (simp add: plain_injection_def fetch_WithValue)
  have later: "ii_Get (plain_injection env kind') ?ctx1 = Inr p" if "ii_Get (plain_injection env kind') ctx = Inr p" for kind'
    using that by (cases "kind' = kind") (simp_all add: plain_injection_def fetch_WithValue)
  have "map_of (fa_informers fac) kind = Some i" using F(2) ok1(3) unfolding factory_extends_def map_le_def by (metis domI)
  then have all2: "list_all2 (\<lambda>kind i. fst i = p \<and> map_of (fa_informers fac) kind = Some (snd i)) (kind # kinds) ((p, i) # new)"
    using F(3) by simp
  have gets: "\<forall>kind' \<in> set (kind # kinds). ii_Get (plain_injection env kind') ctx' = Inr p"
    using F(4,5) here by simp
  have keys: "\<forall>k. (\<forall>kind. k \<noteq> InformerKey kind) \<longrightarrow> map_of ctx' k = map_of ctx k"
    using F(6) by (simp add: WithValue_def)
  show ?case
    by (intro exI [of _ ctx'] exI [of _ "(p, i) # new"] exI [of _ fac] conjI)
      (rule run F(1) factory_extends_trans [OF ok1(2) F(2)] all2 gets keys | use F(5) later in blast)+
qed

text \<open>The filtered factories: after the loop every builder is applied to the last selector.\<close>

lemma selector_loop_spec:
  "selector_loop b ss s made = (if ss = [] then s else last ss, made @ map (\<lambda>s. (s, b)) ss)"
  by (induction ss arbitrary: s made) simp_all

lemma alloc_filtered_spec:
  "\<exists>ctx'. alloc_filtered fs ctx h = (Inr ctx', h @ map snd fs)
    \<and> (\<forall>s. if s \<in> fst ` set fs
           then \<exists>f. length h \<le> f \<and> f < length h + length fs \<and> map_of ctx' (FilteredFactoryKey s) = Some (VFactory f)
           else map_of ctx' (FilteredFactoryKey s) = map_of ctx (FilteredFactoryKey s))"
proof (induction fs arbitrary: ctx h)
  case (Cons e fs)
  obtain s fac where e: "e = (s, fac)" by force
  let ?ctx1 = "WithValue (FilteredFactoryKey s) (VFactory (length h)) ctx"
  obtain ctx' where A: "alloc_filtered fs ?ctx1 (h @ [fac]) = (Inr ctx', (h @ [fac]) @ map snd fs)"
    and L: "\<And>t. if t \<in> fst ` set fs
           then \<exists>f. length (h @ [fac]) \<le> f \<and> f < length (h @ [fac]) + length fs
             \<and> map_of ctx' (FilteredFactoryKey t) = Some (VFactory f)
           else map_of ctx' (FilteredFactoryKey t) = map_of ?ctx1 (FilteredFactoryKey t)"
    using Cons.IH [of ?ctx1 "h @ [fac]"] by blast
  have run: "alloc_filtered (e # fs) ctx h = (Inr ctx', h @ map snd (e # fs))"
    using A by (simp add: e bnd_def alloc_factory_def)
  have "if t \<in> fst ` set (e # fs)
      then \<exists>f. length h \<le> f \<and> f < length h + length (e # fs) \<and> map_of ctx' (FilteredFactoryKey t) = Some (VFactory f)
      else map_of ctx' (FilteredFactoryKey t) = map_of ctx (FilteredFactoryKey t)" for t
  proof (cases "t \<in> fst ` set fs")
    case True
    then obtain f where "length (h @ [fac]) \<le> f" "f < length (h @ [fac]) + length fs"
      "map_of ctx' (FilteredFactoryKey t) = Some (VFactory f)" using L [of t] by auto
    with True show ?thesis by (auto intro!: exI [of _ f])
  next
    case False
    with L [of t] show ?thesis by (cases "t = s") (auto simp: e WithValue_def intro!: exI [of _ "length h"])
  qed
  with run show ?case by blast
qed simp

subsection \<open>Properties\<close>

text \<open>C16: Setting up the clients, the factory and the informers of any kinds, for the process or for tests,
  succeeds when the client can be made, and afterwards no \<open>Get\<close> of a client, the factory or one of the
  kinds panics. All the informers are of one new factory, for the namespace of the context; each is the
  one the factory shares for its kind, and no other factory changed.\<close>

theorem set_up_serves_every_Get:
  assumes "new_client fake env cfg = Inr c" and "GetNamespaceScope ctx = Inr ns" and "GetResyncPeriod env ctx = Inr resync"
  shows "\<exists>ctx' infs fac. SetupInformers (kinds_registry fake env kinds) cfg ctx h = (Inr (ctx', infs), h @ [fac])
    \<and> client_Get ctx' = Inr c \<and> (fake \<longrightarrow> fake_client_Get ctx' = Inr c) \<and> factory_Get ctx' = Inr (length h)
    \<and> (\<forall>kind \<in> set kinds. ii_Get (plain_injection env kind) ctx' = Inr (length h))
    \<and> list_all2 (\<lambda>kind i. fst i = length h \<and> map_of (fa_informers fac) kind = Some (snd i)) kinds infs
    \<and> factory_ok fac \<and> fa_namespace fac = ns \<and> fa_tweakListOptions fac = None"
proof -
  let ?ctx1 = "WithValue ClientKey (VClient fake c) ctx"
  let ?fac = "NewSharedInformerFactoryWithOptions (ie_Networking env c) resync (if ns \<noteq> '''' then [WithNamespace ns] else [])"
  let ?ctx2 = "WithValue FactoryKey (VFactory (length h)) ?ctx1"
  have k1: "map_of ?ctx1 ClientKey = Some (VClient fake c)" "GetNamespaceScope ?ctx1 = Inr ns"
      "GetResyncPeriod env ?ctx1 = Inr resync"
    using assms(2,3) by (simp_all add: GetNamespaceScope_def GetResyncPeriod_def fetch_WithValue) (simp add: WithValue_def)
  note fac = set_up_factory [OF k1, of h]
  have ok: "factory_ok ?fac" by (rule new_factory_ok(1)) (auto simp: is_informer_option_def)
  have new: "fa_namespace ?fac = ns" "fa_tweakListOptions ?fac = None"
    by (simp_all add: NewSharedInformerFactoryWithOptions_def WithNamespace_def)
  have at: "(h @ [?fac]) ! length h = ?fac" "length h < length (h @ [?fac])" by simp_all
  have ok': "factory_ok ((h @ [?fac]) ! length h)" unfolding at(1) by (rule ok)
  have get: "factory_Get ?ctx2 = Inr (length h)" by (simp add: factory_Get_def fetch_WithValue)
  obtain ctx' infs fac' where R: "run_informers (map (\<lambda>kind. ii_withInformer (plain_injection env kind)) kinds) [] ?ctx2 (h @ [?fac])
        = (Inr (ctx', [] @ infs), (h @ [?fac])[length h := fac'])"
    and F: "factory_ok fac'" "factory_extends ?fac fac'"
      "list_all2 (\<lambda>kind i. fst i = length h \<and> map_of (fa_informers fac') kind = Some (snd i)) kinds infs"
      "\<forall>kind \<in> set kinds. ii_Get (plain_injection env kind) ctx' = Inr (length h)"
      "\<forall>k. (\<forall>kind. k \<noteq> InformerKey kind) \<longrightarrow> map_of ctx' k = map_of ?ctx2 k"
    using set_up_informers [OF get at(2) ok', unfolded at(1)] by blast
  have run: "SetupInformers (kinds_registry fake env kinds) cfg ctx h = (Inr (ctx', infs), h @ [fac'])"
    using R unfolding SetupInformers_def kinds_registry_def
    by (simp add: bnd_def set_up_client [OF assms(1)] fac)
  have "map_of ctx' ClientKey = Some (VClient fake c)" "map_of ctx' FactoryKey = Some (VFactory (length h))"
    using F(5) by (simp_all add: WithValue_def)
  then have "client_Get ctx' = Inr c" "fake \<longrightarrow> fake_client_Get ctx' = Inr c" "factory_Get ctx' = Inr (length h)"
    by (simp_all add: client_Get_def fake_client_Get_def factory_Get_def fetch_def)
  moreover have "fa_namespace fac' = ns" "fa_tweakListOptions fac' = None"
    using F(2) new unfolding factory_extends_def by simp_all
  ultimately show ?thesis using run F by blast
qed

definition demo_env :: "(fake_group, unit) injection_env" where
  "demo_env = \<lparr>ie_NewForConfigOrDie = (\<lambda>cfg. Inr (FakeNetworkingV1alpha1 (\<lambda>pt payload x. Inr x))),
     ie_NewSimpleClientset = (\<lambda>objects. Inr (FakeNetworkingV1alpha1 (\<lambda>pt payload x. Inr x))),
     ie_Networking = (\<lambda>c. c), ie_parse = demo_parse, ie_DefaultResyncPeriod = 36000\<rparr>"

theorem set_up_serves_every_Get_witness:
  "\<exists>ctx' infs fac. SetupInformers (kinds_registry True demo_env [KindHTTPRoute, KindGateway]) ()
       (WithNamespaceScope ''prod'' []) [] = (Inr (ctx', infs), [fac])
     \<and> ii_Get (gateway_fake_injection demo_env) ctx' = Inr 0 \<and> fa_namespace fac = ''prod''"
proof -
  have "new_client True demo_env () = Inr (FakeNetworkingV1alpha1 (\<lambda>pt payload x. Inr x))"
    "GetNamespaceScope (WithNamespaceScope ''prod'' [] :: (fake_group, unit) inj_ctx) = Inr ''prod''"
    "GetResyncPeriod demo_env (WithNamespaceScope ''prod'' []) = Inr 36000"
    by (simp_all add: new_client_def demo_env_def GetNamespaceScope_def GetResyncPeriod_def WithNamespaceScope_def
        fetch_WithValue) (simp add: fetch_default_def)
  from set_up_serves_every_Get [OF this, of "[KindHTTPRoute, KindGateway]" "[]"] show ?thesis
    by (auto simp: gateway_fake_injection_def)
qed

text \<open>C34: Every filtered factory filters by the last selector of the context, whichever selector it is filed
  under: the filter closes over the loop's variable. So with two selectors the informers of the first
  list the objects of the second.\<close>

theorem filtered_factories_use_last_selector:
  assumes "client_Get ctx = Inr c" and "fetch as_labels LabelKey ctx = Inr sels" and "GetNamespaceScope ctx = Inr ns"
    and "GetResyncPeriod env ctx = Inr resync" and "s \<in> set sels"
  shows "\<exists>ctx' h' f. filtered_withInformerFactory env ctx h = (Inr ctx', h') \<and> filtered_factory_Get ctx' s = Inr f
    \<and> length h \<le> f \<and> f < length h' \<and> fa_namespace (h' ! f) = ns
    \<and> tweaked (fa_tweakListOptions (h' ! f)) opts = opts\<lparr>lo_LabelSelector := last sels\<rparr>"
proof -
  let ?b = "\<lambda>selector. NewSharedInformerFactoryWithOptions (ie_Networking env c) resync
    ((if ns \<noteq> '''' then [WithNamespace ns] else []) @ [WithTweakListOptions (\<lambda>l. l\<lparr>lo_LabelSelector := selector\<rparr>)])"
  let ?fs = "map (\<lambda>s. (s, ?b (last sels))) sels"
  have ne: "sels \<noteq> []" using assms(5) by auto
  have run: "filtered_withInformerFactory env ctx h = alloc_filtered ?fs ctx h"
    using assms(1-4) ne
    by (simp add: filtered_withInformerFactory_def filtered_with_def bnd_def scope_options_def selector_loop_spec Let_def comp_def)
  obtain ctx' where A: "alloc_filtered ?fs ctx h = (Inr ctx', h @ map snd ?fs)"
    and L: "\<And>s. if s \<in> fst ` set ?fs
           then \<exists>f. length h \<le> f \<and> f < length h + length ?fs \<and> map_of ctx' (FilteredFactoryKey s) = Some (VFactory f)
           else map_of ctx' (FilteredFactoryKey s) = map_of ctx (FilteredFactoryKey s)"
    using alloc_filtered_spec [of ?fs ctx h] by blast
  have "s \<in> fst ` set ?fs" using assms(5) by force
  then obtain f where f: "length h \<le> f" "f < length h + length sels" "map_of ctx' (FilteredFactoryKey s) = Some (VFactory f)"
    using L [of s] by auto
  have "(h @ map snd ?fs) ! f = ?b (last sels)" using f(1,2) by (simp add: nth_append comp_def)
  moreover have "fa_namespace (?b (last sels)) = ns"
      "tweaked (fa_tweakListOptions (?b (last sels))) opts = opts\<lparr>lo_LabelSelector := last sels\<rparr>"
    by (simp_all add: NewSharedInformerFactoryWithOptions_def WithNamespace_def WithTweakListOptions_def tweaked_def)
  ultimately show ?thesis
    using f by (intro exI [of _ ctx'] exI [of _ "h @ map snd ?fs"] exI [of _ f])
      (simp add: run A filtered_factory_Get_def fetch_def)
qed

theorem filtered_factories_use_last_selector_witness:
  "\<exists>ctx' h' f. filtered_withInformerFactory demo_env
       (WithSelectors [''app=a'', ''app=b''] (WithValue ClientKey (VClient False (FakeNetworkingV1alpha1 (\<lambda>pt payload x. Inr x))) [])) []
         = (Inr ctx', h') \<and> filtered_factory_Get ctx' ''app=a'' = Inr f
     \<and> lo_LabelSelector (tweaked (fa_tweakListOptions (h' ! f)) no_list_options) = ''app=b''"
proof -
  let ?ctx = "WithSelectors [''app=a'', ''app=b''] (WithValue ClientKey (VClient False (FakeNetworkingV1alpha1 (\<lambda>pt payload x. Inr x))) [])
    :: (fake_group, unit) inj_ctx"
  have "client_Get ?ctx = Inr (FakeNetworkingV1alpha1 (\<lambda>pt payload x. Inr x))"
    "fetch as_labels LabelKey ?ctx = Inr [''app=a'', ''app=b'']"
    "GetNamespaceScope ?ctx = Inr ''''" "GetResyncPeriod demo_env ?ctx = Inr 36000"
    by (simp_all add: client_Get_def GetNamespaceScope_def GetResyncPeriod_def WithSelectors_def fetch_WithValue)
      (simp_all add: fetch_default_def demo_env_def)
  from filtered_factories_use_last_selector [OF this, of "''app=a''" "[]" no_list_options] show ?thesis by fastforce
qed

end
