(* ===== verification/InformerGroups.thy ===== *)
theory InformerGroups
  imports Informers
begin

text \<open>
  The way from the factory to a kind (\<open>informers/externalversions/apis\<close>): group, version, and for each kind
  the access to its informer and its lister. Group, version and access carry the factory, whose state is
  passed along here, its namespace and its tweak function.
\<close>

subsection \<open>Group and version\<close>

record informer_scope =
  sc_namespace :: string
  sc_tweakListOptions :: "tweak_func option"

definition apis_New :: "string \<Rightarrow> tweak_func option \<Rightarrow> informer_scope" where
  "apis_New ns tweak = \<lparr>sc_namespace = ns, sc_tweakListOptions = tweak\<rparr>"

definition version_New :: "string \<Rightarrow> tweak_func option \<Rightarrow> informer_scope" where
  "version_New ns tweak = \<lparr>sc_namespace = ns, sc_tweakListOptions = tweak\<rparr>"

definition Networking :: "informer_factory \<Rightarrow> informer_scope" where
  "Networking f = apis_New (fa_namespace f) (fa_tweakListOptions f)"

definition V1alpha1 :: "informer_scope \<Rightarrow> informer_scope" where
  "V1alpha1 g = version_New (sc_namespace g) (sc_tweakListOptions g)"

subsection \<open>Kinds\<close>

text \<open>For each kind the struct behind its informer interface, what the version makes of it, and its informer: the
  factory's shared one, made by the default informer when it is asked for first. A gateway class has no namespace.\<close>

record backendPolicyInformer =
  bp_tweakListOptions :: "tweak_func option"
  bp_namespace :: string

definition version_BackendPolicies :: "informer_scope \<Rightarrow> backendPolicyInformer" where
  "version_BackendPolicies v = \<lparr>bp_tweakListOptions = sc_tweakListOptions v, bp_namespace = sc_namespace v\<rparr>"

definition NewBackendPolicyInformer ::
  "(string \<Rightarrow> selector) \<Rightarrow> fake_group \<Rightarrow> string \<Rightarrow> int \<Rightarrow> bool \<Rightarrow> shared_informer" where
  "NewBackendPolicyInformer parse client ns resync idx = NewFilteredBackendPolicyInformer parse client ns resync idx None"

definition BackendPolicy_defaultInformer :: "(string \<Rightarrow> selector) \<Rightarrow> backendPolicyInformer \<Rightarrow> new_informer_func" where
  "BackendPolicy_defaultInformer parse f client resync =
     NewFilteredBackendPolicyInformer parse client (bp_namespace f) resync True (bp_tweakListOptions f)"

definition BackendPolicy_Informer :: "(string \<Rightarrow> selector) \<Rightarrow> backendPolicyInformer \<Rightarrow> informer_factory \<Rightarrow> nat \<times> informer_factory" where
  "BackendPolicy_Informer parse f = InformerFor KindBackendPolicy (BackendPolicy_defaultInformer parse f)"

record gatewayInformer =
  gw_tweakListOptions :: "tweak_func option"
  gw_namespace :: string

definition version_Gateways :: "informer_scope \<Rightarrow> gatewayInformer" where
  "version_Gateways v = \<lparr>gw_tweakListOptions = sc_tweakListOptions v, gw_namespace = sc_namespace v\<rparr>"

definition Gateway_defaultInformer :: "(string \<Rightarrow> selector) \<Rightarrow> gatewayInformer \<Rightarrow> new_informer_func" where
  "Gateway_defaultInformer parse f client resync =
     NewFilteredGatewayInformer parse client (gw_namespace f) resync True (gw_tweakListOptions f)"

definition Gateway_Informer :: "(string \<Rightarrow> selector) \<Rightarrow> gatewayInformer \<Rightarrow> informer_factory \<Rightarrow> nat \<times> informer_factory" where
  "Gateway_Informer parse f = InformerFor KindGateway (Gateway_defaultInformer parse f)"

record gatewayClassInformer =
  gc_tweakListOptions :: "tweak_func option"

definition version_GatewayClasses :: "informer_scope \<Rightarrow> gatewayClassInformer" where
  "version_GatewayClasses v = \<lparr>gc_tweakListOptions = sc_tweakListOptions v\<rparr>"

definition NewGatewayClassInformer ::
  "(string \<Rightarrow> selector) \<Rightarrow> fake_group \<Rightarrow> int \<Rightarrow> bool \<Rightarrow> shared_informer" where
  "NewGatewayClassInformer parse client resync idx = NewFilteredGatewayClassInformer parse client resync idx None"

definition GatewayClass_defaultInformer :: "(string \<Rightarrow> selector) \<Rightarrow> gatewayClassInformer \<Rightarrow> new_informer_func" where
  "GatewayClass_defaultInformer parse f client resync =
     NewFilteredGatewayClassInformer parse client resync True (gc_tweakListOptions f)"

definition GatewayClass_Informer :: "(string \<Rightarrow> selector) \<Rightarrow> gatewayClassInformer \<Rightarrow> informer_factory \<Rightarrow> nat \<times> informer_factory" where
  "GatewayClass_Informer parse f = InformerFor KindGatewayClass (GatewayClass_defaultInformer parse f)"

record hTTPRouteInformer =
  hr_tweakListOptions :: "tweak_func option"
  hr_namespace :: string

definition version_HTTPRoutes :: "informer_scope \<Rightarrow> hTTPRouteInformer" where
  "version_HTTPRoutes v = \<lparr>hr_tweakListOptions = sc_tweakListOptions v, hr_namespace = sc_namespace v\<rparr>"

definition NewHTTPRouteInformer ::
  "(string \<Rightarrow> selector) \<Rightarrow> fake_group \<Rightarrow> string \<Rightarrow> int \<Rightarrow> bool \<Rightarrow> shared_informer" where
  "NewHTTPRouteInformer parse client ns resync idx = NewFilteredHTTPRouteInformer parse client ns resync idx None"

definition HTTPRoute_defaultInformer :: "(string \<Rightarrow> selector) \<Rightarrow> hTTPRouteInformer \<Rightarrow> new_informer_func" where
  "HTTPRoute_defaultInformer parse f client resync =
     NewFilteredHTTPRouteInformer parse client (hr_namespace f) resync True (hr_tweakListOptions f)"

definition HTTPRoute_Informer :: "(string \<Rightarrow> selector) \<Rightarrow> hTTPRouteInformer \<Rightarrow> informer_factory \<Rightarrow> nat \<times> informer_factory" where
  "HTTPRoute_Informer parse f = InformerFor KindHTTPRoute (HTTPRoute_defaultInformer parse f)"

record tCPRouteInformer =
  tcp_tweakListOptions :: "tweak_func option"
  tcp_namespace :: string

definition version_TCPRoutes :: "informer_scope \<Rightarrow> tCPRouteInformer" where
  "version_TCPRoutes v = \<lparr>tcp_tweakListOptions = sc_tweakListOptions v, tcp_namespace = sc_namespace v\<rparr>"

definition NewTCPRouteInformer ::
  "(string \<Rightarrow> selector) \<Rightarrow> fake_group \<Rightarrow> string \<Rightarrow> int \<Rightarrow> bool \<Rightarrow> shared_informer" where
  "NewTCPRouteInformer parse client ns resync idx = NewFilteredTCPRouteInformer parse client ns resync idx None"

definition TCPRoute_defaultInformer :: "(string \<Rightarrow> selector) \<Rightarrow> tCPRouteInformer \<Rightarrow> new_informer_func" where
  "TCPRoute_defaultInformer parse f client resync =
     NewFilteredTCPRouteInformer parse client (tcp_namespace f) resync True (tcp_tweakListOptions f)"

definition TCPRoute_Informer :: "(string \<Rightarrow> selector) \<Rightarrow> tCPRouteInformer \<Rightarrow> informer_factory \<Rightarrow> nat \<times> informer_factory" where
  "TCPRoute_Informer parse f = InformerFor KindTCPRoute (TCPRoute_defaultInformer parse f)"

record tLSRouteInformer =
  tls_tweakListOptions :: "tweak_func option"
  tls_namespace :: string

definition version_TLSRoutes :: "informer_scope \<Rightarrow> tLSRouteInformer" where
  "version_TLSRoutes v = \<lparr>tls_tweakListOptions = sc_tweakListOptions v, tls_namespace = sc_namespace v\<rparr>"

definition NewTLSRouteInformer ::
  "(string \<Rightarrow> selector) \<Rightarrow> fake_group \<Rightarrow> string \<Rightarrow> int \<Rightarrow> bool \<Rightarrow> shared_informer" where
  "NewTLSRouteInformer parse client ns resync idx = NewFilteredTLSRouteInformer parse client ns resync idx None"

definition TLSRoute_defaultInformer :: "(string \<Rightarrow> selector) \<Rightarrow> tLSRouteInformer \<Rightarrow> new_informer_func" where
  "TLSRoute_defaultInformer parse f client resync =
     NewFilteredTLSRouteInformer parse client (tls_namespace f) resync True (tls_tweakListOptions f)"

definition TLSRoute_Informer :: "(string \<Rightarrow> selector) \<Rightarrow> tLSRouteInformer \<Rightarrow> informer_factory \<Rightarrow> nat \<times> informer_factory" where
  "TLSRoute_Informer parse f = InformerFor KindTLSRoute (TLSRoute_defaultInformer parse f)"

record uDPRouteInformer =
  udp_tweakListOptions :: "tweak_func option"
  udp_namespace :: string

definition version_UDPRoutes :: "informer_scope \<Rightarrow> uDPRouteInformer" where
  "version_UDPRoutes v = \<lparr>udp_tweakListOptions = sc_tweakListOptions v, udp_namespace = sc_namespace v\<rparr>"

definition NewUDPRouteInformer ::
  "(string \<Rightarrow> selector) \<Rightarrow> fake_group \<Rightarrow> string \<Rightarrow> int \<Rightarrow> bool \<Rightarrow> shared_informer" where
  "NewUDPRouteInformer parse client ns resync idx = NewFilteredUDPRouteInformer parse client ns resync idx None"

definition UDPRoute_defaultInformer :: "(string \<Rightarrow> selector) \<Rightarrow> uDPRouteInformer \<Rightarrow> new_informer_func" where
  "UDPRoute_defaultInformer parse f client resync =
     NewFilteredUDPRouteInformer parse client (udp_namespace f) resync True (udp_tweakListOptions f)"

definition UDPRoute_Informer :: "(string \<Rightarrow> selector) \<Rightarrow> uDPRouteInformer \<Rightarrow> informer_factory \<Rightarrow> nat \<times> informer_factory" where
  "UDPRoute_Informer parse f = InformerFor KindUDPRoute (UDPRoute_defaultInformer parse f)"

text \<open>A lister reads the cache of the informer. Over an informer of another kind its reads would fail their
  type assertions; the model panics at once.\<close>

definition lister_over ::
  "(informer_factory \<Rightarrow> nat \<times> informer_factory) \<Rightarrow> (shared_informer \<Rightarrow> 'l option) \<Rightarrow> (informer_factory, 'l) action" where
  "lister_over informer mk f =
     (case informer f of
        (p, f') \<Rightarrow> (case mk (fa_heap f' ! p) of None \<Rightarrow> Inl (Panic TypeAssertion) | Some l \<Rightarrow> Inr l, f'))"

definition BackendPolicy_Lister :: "(string \<Rightarrow> selector) \<Rightarrow> key_order \<Rightarrow> backendPolicyInformer \<Rightarrow> (informer_factory, backendpolicy generated_lister) action" where
  "BackendPolicy_Lister parse ord f =
     lister_over (BackendPolicy_Informer parse f) (\<lambda>i. case i of BackendPolicyInformer x \<Rightarrow> Some (NewBackendPolicyLister ord (in_Indexer x)) | _ \<Rightarrow> None)"

definition Gateway_Lister :: "(string \<Rightarrow> selector) \<Rightarrow> key_order \<Rightarrow> gatewayInformer \<Rightarrow> (informer_factory, gateway generated_lister) action" where
  "Gateway_Lister parse ord f =
     lister_over (Gateway_Informer parse f) (\<lambda>i. case i of GatewayInformer x \<Rightarrow> Some (NewGatewayLister ord (in_Indexer x)) | _ \<Rightarrow> None)"

definition GatewayClass_Lister :: "(string \<Rightarrow> selector) \<Rightarrow> key_order \<Rightarrow> gatewayClassInformer \<Rightarrow> (informer_factory, gatewayclass cluster_lister) action" where
  "GatewayClass_Lister parse ord f =
     lister_over (GatewayClass_Informer parse f) (\<lambda>i. case i of GatewayClassInformer x \<Rightarrow> Some (NewGatewayClassLister ord (in_Indexer x)) | _ \<Rightarrow> None)"

definition HTTPRoute_Lister :: "(string \<Rightarrow> selector) \<Rightarrow> key_order \<Rightarrow> hTTPRouteInformer \<Rightarrow> (informer_factory, httproute generated_lister) action" where
  "HTTPRoute_Lister parse ord f =
     lister_over (HTTPRoute_Informer parse f) (\<lambda>i. case i of HTTPRouteInformer x \<Rightarrow> Some (NewHTTPRouteLister ord (in_Indexer x)) | _ \<Rightarrow> None)"

definition TCPRoute_Lister :: "(string \<Rightarrow> selector) \<Rightarrow> key_order \<Rightarrow> tCPRouteInformer \<Rightarrow> (informer_factory, l4_route generated_lister) action" where
  "TCPRoute_Lister parse ord f =
     lister_over (TCPRoute_Informer parse f) (\<lambda>i. case i of TCPRouteInformer x \<Rightarrow> Some (NewTCPRouteLister ord (in_Indexer x)) | _ \<Rightarrow> None)"

definition TLSRoute_Lister :: "(string \<Rightarrow> selector) \<Rightarrow> key_order \<Rightarrow> tLSRouteInformer \<Rightarrow> (informer_factory, l4_route generated_lister) action" where
  "TLSRoute_Lister parse ord f =
     lister_over (TLSRoute_Informer parse f) (\<lambda>i. case i of TLSRouteInformer x \<Rightarrow> Some (NewTLSRouteLister ord (in_Indexer x)) | _ \<Rightarrow> None)"

definition UDPRoute_Lister :: "(string \<Rightarrow> selector) \<Rightarrow> key_order \<Rightarrow> uDPRouteInformer \<Rightarrow> (informer_factory, l4_route generated_lister) action" where
  "UDPRoute_Lister parse ord f =
     lister_over (UDPRoute_Informer parse f) (\<lambda>i. case i of UDPRouteInformer x \<Rightarrow> Some (NewUDPRouteLister ord (in_Indexer x)) | _ \<Rightarrow> None)"

subsection \<open>Generic listers\<close>

text \<open>\<open>cache.NewGenericLister\<close>: its \<open>Get\<close> takes a whole key, that of a namespace a name.\<close>

record generic_namespace_lister =
  gn_List :: "selector \<Rightarrow> runtime_object list"
  gn_Get :: "string \<Rightarrow> runtime_object result"

record any_lister =
  al_List :: "selector \<Rightarrow> runtime_object list"
  al_Get :: "string \<Rightarrow> runtime_object result"
  al_ByNamespace :: "string \<Rightarrow> generic_namespace_lister"

definition NewGenericLister ::
  "(('a, 'b) kobject \<Rightarrow> runtime_object) \<Rightarrow> key_order \<Rightarrow> ('a, 'b) cache \<Rightarrow> string \<times> string \<Rightarrow> any_lister" where
  "NewGenericLister obj ord indexer resource =
     (let get = (\<lambda>key name. case map_of (ix_Items indexer) key of
                   None \<Rightarrow> Inl (Fail (NewNotFound (snd resource) name)) | Some x \<Rightarrow> Inr (obj x))
      in \<lparr>al_List = (\<lambda>sel. map obj (ListAll ord indexer sel)), al_Get = (\<lambda>name. get name name),
          al_ByNamespace = (\<lambda>ns. \<lparr>gn_List = (\<lambda>sel. map obj (ListAllByNamespace ord indexer ns sel)),
                                  gn_Get = (\<lambda>name. get (ns @ ''/'' @ name) name)\<rparr>)\<rparr>)"

definition generic_Lister :: "key_order \<Rightarrow> generic_informer \<Rightarrow> informer_factory \<Rightarrow> any_lister" where
  "generic_Lister ord f fac =
     (case fa_heap fac ! generic_Informer f of
        BackendPolicyInformer x \<Rightarrow> NewGenericLister RBackendPolicy ord (in_Indexer x) (gi_resource f)
      | GatewayInformer x \<Rightarrow> NewGenericLister RGateway ord (in_Indexer x) (gi_resource f)
      | GatewayClassInformer x \<Rightarrow> NewGenericLister RGatewayClass ord (in_Indexer x) (gi_resource f)
      | HTTPRouteInformer x \<Rightarrow> NewGenericLister RHTTPRoute ord (in_Indexer x) (gi_resource f)
      | TCPRouteInformer x \<Rightarrow> NewGenericLister (RL4Route TCPKind) ord (in_Indexer x) (gi_resource f)
      | TLSRouteInformer x \<Rightarrow> NewGenericLister (RL4Route TLSKind) ord (in_Indexer x) (gi_resource f)
      | UDPRouteInformer x \<Rightarrow> NewGenericLister (RL4Route UDPKind) ord (in_Indexer x) (gi_resource f))"

text \<open>Within a namespace it answers as the typed listers do, from the same cache.\<close>

lemma generic_get:
  "gn_Get (al_ByNamespace (NewGenericLister obj ord c res) ns) name =
     (case cview c (ns, name) of None \<Rightarrow> Inl (Fail (NewNotFound (snd res) name)) | Some x \<Rightarrow> Inr (obj x))"
  "al_Get (NewGenericLister obj ord c res) (ns @ ''/'' @ name) =
     (case cview c (ns, name) of None \<Rightarrow> Inl (Fail (NewNotFound (snd res) (ns @ ''/'' @ name))) | Some x \<Rightarrow> Inr (obj x))"
  by (simp_all add: NewGenericLister_def cview_def Let_def split: option.split)

lemma generic_gateway_lister:
  assumes "fa_heap fac ! gi_informer f = GatewayInformer x"
  shows "gn_List (al_ByNamespace (generic_Lister ord f fac) ns) sel
      = map RGateway (nl_List (gl_Namespace (NewGatewayLister ord (in_Indexer x)) ns) sel)"
  by (simp add: generic_Lister_def generic_Informer_def assms NewGenericLister_def NewGatewayLister_def namespaced_lister_def Let_def)

subsection \<open>The way leads to the shared informer\<close>

lemma default_informers:
  "BackendPolicy_defaultInformer parse abp = defaultInformer parse (bp_namespace abp) (bp_tweakListOptions abp) KindBackendPolicy"
  "Gateway_defaultInformer parse agw = defaultInformer parse (gw_namespace agw) (gw_tweakListOptions agw) KindGateway"
  "GatewayClass_defaultInformer parse agc = defaultInformer parse ns (gc_tweakListOptions agc) KindGatewayClass"
  "HTTPRoute_defaultInformer parse ahr = defaultInformer parse (hr_namespace ahr) (hr_tweakListOptions ahr) KindHTTPRoute"
  "TCPRoute_defaultInformer parse atcp = defaultInformer parse (tcp_namespace atcp) (tcp_tweakListOptions atcp) KindTCPRoute"
  "TLSRoute_defaultInformer parse atls = defaultInformer parse (tls_namespace atls) (tls_tweakListOptions atls) KindTLSRoute"
  "UDPRoute_defaultInformer parse audp = defaultInformer parse (udp_namespace audp) (udp_tweakListOptions audp) KindUDPRoute"
  by (simp_all add: fun_eq_iff BackendPolicy_defaultInformer_def Gateway_defaultInformer_def GatewayClass_defaultInformer_def
      HTTPRoute_defaultInformer_def TCPRoute_defaultInformer_def TLSRoute_defaultInformer_def
      UDPRoute_defaultInformer_def)

text \<open>Through group and version a kind's informer is the factory's own of the kind.\<close>

lemma kind_Informer_shared:
  "BackendPolicy_Informer parse (version_BackendPolicies (V1alpha1 (Networking f))) f = Informer parse KindBackendPolicy f"
  "Gateway_Informer parse (version_Gateways (V1alpha1 (Networking f))) f = Informer parse KindGateway f"
  "GatewayClass_Informer parse (version_GatewayClasses (V1alpha1 (Networking f))) f = Informer parse KindGatewayClass f"
  "HTTPRoute_Informer parse (version_HTTPRoutes (V1alpha1 (Networking f))) f = Informer parse KindHTTPRoute f"
  "TCPRoute_Informer parse (version_TCPRoutes (V1alpha1 (Networking f))) f = Informer parse KindTCPRoute f"
  "TLSRoute_Informer parse (version_TLSRoutes (V1alpha1 (Networking f))) f = Informer parse KindTLSRoute f"
  "UDPRoute_Informer parse (version_UDPRoutes (V1alpha1 (Networking f))) f = Informer parse KindUDPRoute f"
  by (simp_all add: Informer_def V1alpha1_def Networking_def apis_New_def version_New_def
      default_informers(1,2,4-) default_informers(3) [where ns = "fa_namespace f"]
      version_BackendPolicies_def BackendPolicy_Informer_def version_Gateways_def Gateway_Informer_def
      version_GatewayClasses_def GatewayClass_Informer_def version_HTTPRoutes_def HTTPRoute_Informer_def
      version_TCPRoutes_def TCPRoute_Informer_def version_TLSRoutes_def TLSRoute_Informer_def
      version_UDPRoutes_def UDPRoute_Informer_def)

text \<open>The listers the controller asks for never panic, and read the caches of the shared informers.\<close>

lemma controller_listers:
  assumes "factory_ok f"
  shows "\<exists>p f' x. Informer parse KindGateway f = (p, f') \<and> factory_ok f' \<and> fa_heap f' ! p = GatewayInformer x
      \<and> Gateway_Lister parse ord (version_Gateways (V1alpha1 (Networking f))) f = (Inr (NewGatewayLister ord (in_Indexer x)), f')"
    and "\<exists>p f' x. Informer parse KindHTTPRoute f = (p, f') \<and> factory_ok f' \<and> fa_heap f' ! p = HTTPRouteInformer x
      \<and> HTTPRoute_Lister parse ord (version_HTTPRoutes (V1alpha1 (Networking f))) f = (Inr (NewHTTPRouteLister ord (in_Indexer x)), f')"
proof -
  have k: "informer_kind i = KindGateway \<longleftrightarrow> (\<exists>x. i = GatewayInformer x)"
      "informer_kind i = KindHTTPRoute \<longleftrightarrow> (\<exists>x. i = HTTPRouteInformer x)" for i
    by (cases i; simp)+
  obtain p f' where i: "Informer parse KindGateway f = (p, f')" by force
  with Informer_ok [OF assms, of parse KindGateway] have "factory_ok f'" "informer_kind (fa_heap f' ! p) = KindGateway"
    by (auto simp: factory_ok_def)
  with i show "\<exists>p f' x. Informer parse KindGateway f = (p, f') \<and> factory_ok f' \<and> fa_heap f' ! p = GatewayInformer x
      \<and> Gateway_Lister parse ord (version_Gateways (V1alpha1 (Networking f))) f = (Inr (NewGatewayLister ord (in_Indexer x)), f')"
    by (auto simp: k Gateway_Lister_def lister_over_def kind_Informer_shared)
  obtain p f' where i: "Informer parse KindHTTPRoute f = (p, f')" by force
  with Informer_ok [OF assms, of parse KindHTTPRoute] have "factory_ok f'" "informer_kind (fa_heap f' ! p) = KindHTTPRoute"
    by (auto simp: factory_ok_def)
  with i show "\<exists>p f' x. Informer parse KindHTTPRoute f = (p, f') \<and> factory_ok f' \<and> fa_heap f' ! p = HTTPRouteInformer x
      \<and> HTTPRoute_Lister parse ord (version_HTTPRoutes (V1alpha1 (Networking f))) f = (Inr (NewHTTPRouteLister ord (in_Indexer x)), f')"
    by (auto simp: k HTTPRoute_Lister_def lister_over_def kind_Informer_shared)
qed

end
