(* ===== verification/Scheme.thy ===== *)
theory Scheme
  imports FakeClients
begin

text \<open>
  What registrations leave in a scheme: after any sequence of them kinds and types belong together, and the
  schemes of this repository know the kinds the clients use, so that a fake clientset made with objects can
  serve them.
\<close>

subsection \<open>What a registration leaves\<close>

abbreviation type_of :: "scheme \<Rightarrow> gvk \<Rightarrow> go_type option" where
  "type_of s k \<equiv> map_of (sch_gvkToType s) k"

definition kinds_of :: "scheme \<Rightarrow> go_type \<Rightarrow> gvk list" where
  "kinds_of s t = (case map_of (sch_typeToGVK s) t of None \<Rightarrow> [] | Some ks \<Rightarrow> ks)"

text \<open>The two maps are inverse to each other, no kind is listed twice, and every type is the one \<open>E\<close> foresees.\<close>

definition scheme_ok :: "(gvk \<Rightarrow> go_type) \<Rightarrow> scheme \<Rightarrow> bool" where
  "scheme_ok E s \<longleftrightarrow> (\<forall>k t. type_of s k = Some t \<longleftrightarrow> k \<in> set (kinds_of s t)) \<and> (\<forall>t. distinct (kinds_of s t))
     \<and> (\<forall>k t. type_of s k = Some t \<longrightarrow> t = E k)
     \<and> (\<forall>nm t. map_of (sch_unversionedKinds s) nm = Some t \<longrightarrow> t = metav1 nm)
     \<and> (\<forall>t k. map_of (sch_unversionedTypes s) t = Some k \<longrightarrow> t = metav1 (gvk_Kind k))"

text \<open>A registration that succeeds where types are as foreseen, and adds the kinds \<open>K\<close>.\<close>

definition registers :: "(gvk \<Rightarrow> go_type) \<Rightarrow> registration \<Rightarrow> gvk set \<Rightarrow> bool" where
  "registers E m K \<longleftrightarrow> (\<forall>s. scheme_ok E s \<longrightarrow>
     (\<exists>s'. m s = (Inr (), s') \<and> scheme_ok E s' \<and> dom (type_of s') = dom (type_of s) \<union> K))"

lemma registersD:
  assumes "registers E m K" and "scheme_ok E s"
  obtains s' where "m s = (Inr (), s')" "scheme_ok E s'" "dom (type_of s') = dom (type_of s) \<union> K"
  using assms unfolding registers_def by blast

lemma registers_ret: "registers E (ret ()) {}"
  by (simp add: registers_def)

lemma registers_bnd:
  assumes "registers E m K" and "registers E n L"
  shows "registers E (bnd m (\<lambda>_. n)) (K \<union> L)"
  unfolding registers_def
proof (intro allI impI)
  fix s assume ok: "scheme_ok E s"
  obtain s1 where 1: "m s = (Inr (), s1)" "scheme_ok E s1" "dom (type_of s1) = dom (type_of s) \<union> K" by (rule registersD [OF assms(1) ok])
  obtain s2 where 2: "n s1 = (Inr (), s2)" "scheme_ok E s2" "dom (type_of s2) = dom (type_of s1) \<union> L" by (rule registersD [OF assms(2) 1(2)])
  show "\<exists>s'. bnd m (\<lambda>_. n) s = (Inr (), s') \<and> scheme_ok E s' \<and> dom (type_of s') = dom (type_of s) \<union> (K \<union> L)"
    using 1 2 by (auto simp: bnd_def)
qed

lemma registers_after:
  assumes "registers E m K" and "\<And>s. scheme_ok E s \<Longrightarrow> scheme_ok E (f s) \<and> dom (type_of (f s)) = dom (type_of s)"
  shows "registers E (\<lambda>s. m (f s)) K"
  using assms unfolding registers_def by metis

lemma registers_Must: "registers E m K \<Longrightarrow> registers E (Must m) K"
  unfolding registers_def Must_def bnd_def attempt_def by fastforce

lemma observed_ok: "scheme_ok E (addObservedVersion v s) = scheme_ok E s" "dom (type_of (addObservedVersion v s)) = dom (type_of s)"
  by (simp_all add: scheme_ok_def addObservedVersion_def kinds_of_def)

lemma registers_known:
  assumes "gvk_Version k \<noteq> ''''" and "E k = t"
  shows "registers E (AddKnownTypeWithName k t) {k}"
  unfolding registers_def
proof (intro allI impI)
  fix s0 assume ok0: "scheme_ok E s0"
  let ?s = "addObservedVersion (gvk_GroupVersion k) s0"
  have ok: "scheme_ok E ?s" using ok0 by (simp add: observed_ok)
  let ?s1 = "?s\<lparr>sch_gvkToType := AList.update k t (sch_gvkToType ?s)\<rparr>"
  let ?s2 = "if k \<in> set (kinds_of ?s t) then ?s1 else ?s1\<lparr>sch_typeToGVK := AList.update t (kinds_of ?s t @ [k]) (sch_typeToGVK ?s)\<rparr>"
  have free: "\<not> (\<exists>old \<in> set_option (type_of ?s k). old \<noteq> t)" using ok assms(2) by (auto simp: scheme_ok_def)
  have run: "AddKnownTypeWithName k t s0 = (Inr (), ?s2)"
    using assms(1) free unfolding AddKnownTypeWithName_def Let_def kinds_of_def [symmetric] by simp
  have types: "type_of ?s2 = (type_of ?s)(k \<mapsto> t)" by (simp add: update_conv' fun_eq_iff)
  have kinds: "kinds_of ?s2 u = (if u = t \<and> k \<notin> set (kinds_of ?s t) then kinds_of ?s t @ [k] else kinds_of ?s u)" for u
    by (simp add: kinds_of_def update_conv')
  have unv: "sch_unversionedKinds ?s2 = sch_unversionedKinds ?s" "sch_unversionedTypes ?s2 = sch_unversionedTypes ?s" by simp_all
  have inverse: "\<And>j u. type_of ?s j = Some u \<longleftrightarrow> j \<in> set (kinds_of ?s u)" and "\<And>u. distinct (kinds_of ?s u)"
    and foreseen: "\<And>j u. type_of ?s j = Some u \<Longrightarrow> u = E j"
    using ok unfolding scheme_ok_def by blast+
  have "type_of ?s2 j = Some u \<longleftrightarrow> j \<in> set (kinds_of ?s2 u)" for j u
  proof (cases "j = k")
    case True
    have "k \<in> set (kinds_of ?s u) \<Longrightarrow> u = t" using inverse foreseen assms(2) by blast
    then show ?thesis unfolding types kinds using True by auto
  next
    case False
    then show ?thesis unfolding types kinds by (simp add: inverse)
  qed
  moreover have "distinct (kinds_of ?s2 u)" for u unfolding kinds using \<open>\<And>u. distinct (kinds_of ?s u)\<close> by simp
  moreover have "type_of ?s2 j = Some u \<longrightarrow> u = E j" for j u unfolding types using foreseen assms(2) by auto
  ultimately have "scheme_ok E ?s2" using ok unfolding scheme_ok_def unv by blast
  moreover have "dom ((type_of ?s)(k \<mapsto> t)) = dom (type_of s0) \<union> {k}" using observed_ok(2) [of "gvk_GroupVersion k" s0] by simp
  then have "dom (type_of ?s2) = dom (type_of s0) \<union> {k}" by (simp only: types)
  ultimately show "\<exists>s'. AddKnownTypeWithName k t s0 = (Inr (), s') \<and> scheme_ok E s' \<and> dom (type_of s') = dom (type_of s0) \<union> {k}"
    using run by blast
qed

lemma registers_types:
  assumes "gv_Version gv \<noteq> ''''" and "\<And>t. t \<in> set ts \<Longrightarrow> E (WithKind gv (gt_Name t)) = t"
  shows "registers E (AddKnownTypes gv ts) ((\<lambda>t. WithKind gv (gt_Name t)) ` set ts)"
proof -
  have loop: "registers E (AddKnownTypes_loop gv ts) ((\<lambda>t. WithKind gv (gt_Name t)) ` set ts)"
    using assms(2)
  proof (induction ts)
    case Nil
    then show ?case by (simp add: registers_def)
  next
    case (Cons t ts)
    have "registers E (AddKnownTypeWithName (WithKind gv (gt_Name t)) t) {WithKind gv (gt_Name t)}"
      by (rule registers_known) (use assms(1) Cons.prems in \<open>simp_all add: WithKind_def\<close>)
    from registers_bnd [OF this Cons.IH] Cons.prems show ?case by simp
  qed
  have "registers E (\<lambda>s. AddKnownTypes_loop gv ts (addObservedVersion gv s)) ((\<lambda>t. WithKind gv (gt_Name t)) ` set ts)"
    using loop by (rule registers_after) (simp add: observed_ok)
  moreover have "AddKnownTypes gv ts = (\<lambda>s. AddKnownTypes_loop gv ts (addObservedVersion gv s))"
    by (simp add: fun_eq_iff AddKnownTypes_def)
  ultimately show ?thesis by simp
qed


lemma registers_unversioned:
  assumes "gv_Version gv \<noteq> ''''" and "\<And>nm. nm \<in> set nms \<Longrightarrow> E (WithKind gv nm) = metav1 nm"
  shows "registers E (AddUnversionedTypes gv (map metav1 nms)) (WithKind gv ` set nms)"
proof -
  have loop: "registers E (unversioned_loop gv (map metav1 nms)) {}" for nms
  proof (induction nms)
    case Nil
    then show ?case by (simp add: registers_def)
  next
    case (Cons nm nms)
    let ?f = "\<lambda>s. s\<lparr>sch_unversionedTypes := AList.update (metav1 nm) (WithKind gv nm) (sch_unversionedTypes s),
        sch_unversionedKinds := AList.update nm (metav1 nm) (sch_unversionedKinds s)\<rparr>"
    have keep: "scheme_ok E (?f s) \<and> dom (type_of (?f s)) = dom (type_of s)" if "scheme_ok E s" for s
      using that by (auto simp: scheme_ok_def kinds_of_def update_conv' WithKind_def)
    have "unversioned_loop gv (map metav1 (nm # nms)) s = unversioned_loop gv (map metav1 nms) (?f s)" if "scheme_ok E s" for s
      using that by (auto simp: Let_def metav1_def WithKind_def scheme_ok_def)
    with registers_after [OF Cons.IH keep] show ?case unfolding registers_def by simp
  qed
  have "registers E (AddKnownTypes gv (map metav1 nms)) ((\<lambda>t. WithKind gv (gt_Name t)) ` set (map metav1 nms))"
    by (rule registers_types) (use assms in \<open>auto simp: metav1_def\<close>)
  from registers_bnd [OF this loop]
  have "registers E (bnd (AddKnownTypes gv (map metav1 nms)) (\<lambda>_. unversioned_loop gv (map metav1 nms))) (WithKind gv ` set nms)"
    by (simp add: image_image metav1_def)
  then have "registers E (\<lambda>s. bnd (AddKnownTypes gv (map metav1 nms)) (\<lambda>_. unversioned_loop gv (map metav1 nms)) (addObservedVersion gv s))
      (WithKind gv ` set nms)"
    by (rule registers_after) (simp add: observed_ok)
  moreover have "AddUnversionedTypes gv (map metav1 nms)
      = (\<lambda>s. bnd (AddKnownTypes gv (map metav1 nms)) (\<lambda>_. unversioned_loop gv (map metav1 nms)) (addObservedVersion gv s))"
    by (simp add: fun_eq_iff AddUnversionedTypes_def)
  ultimately show ?thesis by simp
qed

subsection \<open>The scheme of the clientset\<close>

definition api_kinds :: "string list" where
  "api_kinds = [''BackendPolicy'', ''BackendPolicyList'', ''Gateway'', ''GatewayClass'', ''GatewayClassList'', ''GatewayList'',
     ''HTTPRoute'', ''HTTPRouteList'', ''TCPRoute'', ''TCPRouteList'', ''TLSRoute'', ''TLSRouteList'', ''UDPRoute'', ''UDPRouteList'']"

definition foreseen :: "gvk \<Rightarrow> go_type" where
  "foreseen k =
     (if gvk_GroupVersion k = SchemeGroupVersion \<and> gvk_Kind k \<in> set api_kinds then v1alpha1 (gvk_Kind k)
      else if gvk_Version k = APIVersionInternal \<and> gvk_Kind k = ''WatchEvent'' then metav1 ''InternalEvent''
      else metav1 (gvk_Kind k))"

text \<open>The kinds of a group version's options and events, and the unversioned ones.\<close>

definition meta_kinds :: "group_version \<Rightarrow> gvk set" where
  "meta_kinds gv = WithKind gv ` set (''WatchEvent'' # map gt_Name optionsTypes)
     \<union> {WithKind \<lparr>gv_Group = gv_Group gv, gv_Version = APIVersionInternal\<rparr> ''WatchEvent''}
     \<union> WithKind \<lparr>gv_Group = '''', gv_Version = ''v1''\<rparr> ` {''Status'', ''APIVersions'', ''APIGroupList'', ''APIGroup'', ''APIResourceList''}"

lemma registers_group_version:
  assumes "gv_Version gv \<noteq> ''''" and "gv_Version gv \<noteq> APIVersionInternal"
  shows "registers foreseen (AddToGroupVersion gv) (meta_kinds gv)"
proof -
  have meta: "foreseen (WithKind gv' nm) = metav1 nm"
    if "nm \<notin> set api_kinds" "gv_Version gv' \<noteq> APIVersionInternal" for gv' nm
    using that by (simp add: foreseen_def WithKind_def)
  have names: "''WatchEvent'' \<notin> set api_kinds" "set (map gt_Name optionsTypes) \<inter> set api_kinds = {}"
      "{''Status'', ''APIVersions'', ''APIGroupList'', ''APIGroup'', ''APIResourceList''} \<inter> set api_kinds = {}"
    by (simp_all add: api_kinds_def optionsTypes_def metav1_def)
  have opts: "t = metav1 (gt_Name t)" if "t \<in> set optionsTypes" for t using that by (auto simp: optionsTypes_def metav1_def)
  have 1: "registers foreseen (AddKnownTypeWithName (WithKind gv ''WatchEvent'') (metav1 ''WatchEvent'')) {WithKind gv ''WatchEvent''}"
    by (rule registers_known) (use assms meta names in \<open>simp_all add: WithKind_def\<close>)
  have 2: "registers foreseen (AddKnownTypeWithName (WithKind \<lparr>gv_Group = gv_Group gv, gv_Version = APIVersionInternal\<rparr> ''WatchEvent'')
      (metav1 ''InternalEvent'')) {WithKind \<lparr>gv_Group = gv_Group gv, gv_Version = APIVersionInternal\<rparr> ''WatchEvent''}"
    by (rule registers_known) (use names in \<open>simp_all add: WithKind_def APIVersionInternal_def foreseen_def\<close>)
  have 3: "registers foreseen (AddKnownTypes gv optionsTypes) ((\<lambda>t. WithKind gv (gt_Name t)) ` set optionsTypes)"
  proof (rule registers_types)
    show "foreseen (WithKind gv (gt_Name t)) = t" if "t \<in> set optionsTypes" for t
      using that assms(2) names(2) meta [of "gt_Name t" gv] opts [OF that] by auto
  qed (rule assms(1))
  have 4: "registers foreseen (AddUnversionedTypes \<lparr>gv_Group = '''', gv_Version = ''v1''\<rparr>
      (map metav1 [''Status'', ''APIVersions'', ''APIGroupList'', ''APIGroup'', ''APIResourceList'']))
      (WithKind \<lparr>gv_Group = '''', gv_Version = ''v1''\<rparr> ` set [''Status'', ''APIVersions'', ''APIGroupList'', ''APIGroup'', ''APIResourceList''])"
    by (rule registers_unversioned) (use meta names in \<open>auto simp: APIVersionInternal_def\<close>)
  have "meta_kinds gv = {WithKind gv ''WatchEvent''} \<union> ({WithKind \<lparr>gv_Group = gv_Group gv, gv_Version = APIVersionInternal\<rparr> ''WatchEvent''}
      \<union> ((\<lambda>t. WithKind gv (gt_Name t)) ` set optionsTypes
      \<union> WithKind \<lparr>gv_Group = '''', gv_Version = ''v1''\<rparr> ` set [''Status'', ''APIVersions'', ''APIGroupList'', ''APIGroup'', ''APIResourceList'']))"
    unfolding meta_kinds_def by auto
  with registers_bnd [OF 1 registers_bnd [OF 2 registers_bnd [OF 3 4]]] show ?thesis by (simp only: AddToGroupVersion_def)
qed

definition scheme_kinds :: "gvk set" where
  "scheme_kinds = meta_kinds \<lparr>gv_Group = '''', gv_Version = ''v1''\<rparr> \<union> WithKind SchemeGroupVersion ` set api_kinds \<union> meta_kinds SchemeGroupVersion"

lemma registers_api:
  "registers foreseen (AddKnownTypes SchemeGroupVersion (map v1alpha1 api_kinds)) (WithKind SchemeGroupVersion ` set api_kinds)"
proof -
  have "registers foreseen (AddKnownTypes SchemeGroupVersion (map v1alpha1 api_kinds)) ((\<lambda>t. WithKind SchemeGroupVersion (gt_Name t)) ` set (map v1alpha1 api_kinds))"
    by (rule registers_types) (auto simp: foreseen_def WithKind_def gvk_GroupVersion_def v1alpha1_def SchemeGroupVersion_def)
  then show ?thesis by (simp add: image_image v1alpha1_def)
qed

lemma registers_init: "registers foreseen scheme_init scheme_kinds" "fake_scheme_init = scheme_init"
proof -
  have v: "gv_Version SchemeGroupVersion \<noteq> ''''" "gv_Version SchemeGroupVersion \<noteq> APIVersionInternal"
    by (simp_all add: SchemeGroupVersion_def APIVersionInternal_def)
  have sgv: "registers foreseen (AddToGroupVersion SchemeGroupVersion) (meta_kinds SchemeGroupVersion)"
    by (rule registers_group_version) (use v in auto)
  from registers_bnd [OF registers_api sgv]
  have known: "registers foreseen addKnownTypes (WithKind SchemeGroupVersion ` set api_kinds \<union> meta_kinds SchemeGroupVersion)"
    by (simp only: addKnownTypes_def api_kinds_def)
  have "registers foreseen (Must (AddToScheme scheme_localSchemeBuilder)) (WithKind SchemeGroupVersion ` set api_kinds \<union> meta_kinds SchemeGroupVersion)"
  proof (rule registers_Must)
    have single: "registers foreseen (AddToScheme [f]) K" if "registers foreseen f K" for f K
      using registers_bnd [OF that registers_ret] by simp
    show "registers foreseen (AddToScheme scheme_localSchemeBuilder) (WithKind SchemeGroupVersion ` set api_kinds \<union> meta_kinds SchemeGroupVersion)"
      unfolding scheme_localSchemeBuilder_def by (intro single known)
  qed
  moreover have "registers foreseen (AddToGroupVersion \<lparr>gv_Group = '''', gv_Version = ''v1''\<rparr>) (meta_kinds \<lparr>gv_Group = '''', gv_Version = ''v1''\<rparr>)"
    by (rule registers_group_version) (simp_all add: APIVersionInternal_def)
  ultimately show "registers foreseen scheme_init scheme_kinds"
    using registers_bnd unfolding scheme_init_def scheme_kinds_def by (metis Un_assoc)
  show "fake_scheme_init = scheme_init"
    by (simp only: fake_scheme_init_def scheme_init_def fake_localSchemeBuilder_def scheme_localSchemeBuilder_def)
qed


subsection \<open>Any sequence of registrations\<close>

datatype scheme_op =
    RegName gvk go_type
  | RegTypes group_version "go_type list"
  | RegUnversioned group_version "go_type list"
  | RegGroupVersion group_version

fun run_scheme_op :: "scheme_op \<Rightarrow> registration" where
  "run_scheme_op (RegName k t) = AddKnownTypeWithName k t"
| "run_scheme_op (RegTypes gv ts) = AddKnownTypes gv ts"
| "run_scheme_op (RegUnversioned gv ts) = AddUnversionedTypes gv ts"
| "run_scheme_op (RegGroupVersion gv) = AddToGroupVersion gv"

text \<open>One after the other, until one panics.\<close>

fun run_scheme_ops :: "scheme_op list \<Rightarrow> registration" where
  "run_scheme_ops [] = ret ()"
| "run_scheme_ops (op # ops) = bnd (run_scheme_op op) (\<lambda>_. run_scheme_ops ops)"

text \<open>The two maps are inverse to each other, no kind is listed twice, and unversioned types are registered.\<close>

definition scheme_inv :: "scheme \<Rightarrow> bool" where
  "scheme_inv s \<longleftrightarrow> (\<forall>k t. type_of s k = Some t \<longleftrightarrow> k \<in> set (kinds_of s t)) \<and> (\<forall>t. distinct (kinds_of s t))
     \<and> (\<forall>t. map_of (sch_typeToGVK s) t \<noteq> Some [])
     \<and> (\<forall>nm t. map_of (sch_unversionedKinds s) nm = Some t \<longrightarrow>
          kinds_of s t \<noteq> [] \<and> map_of (sch_unversionedTypes s) t \<noteq> None)"

text \<open>However it ends, a registration keeps this and the type of every kind.\<close>

definition sound :: "registration \<Rightarrow> bool" where
  "sound m \<longleftrightarrow> (\<forall>s. scheme_inv s \<longrightarrow> scheme_inv (snd (m s)) \<and> type_of s \<subseteq>\<^sub>m type_of (snd (m s)))"

lemma sound_ret: "sound (ret ())" "sound (Pair (Inr ()))"
  by (simp_all add: sound_def)

lemma sound_bnd:
  assumes "sound m" and "sound n"
  shows "sound (bnd m (\<lambda>_. n))"
  unfolding sound_def
proof (intro allI impI)
  fix s assume s: "scheme_inv s"
  obtain res s1 where m: "m s = (res, s1)" by force
  then have 1: "scheme_inv s1" "type_of s \<subseteq>\<^sub>m type_of s1" using assms(1) s unfolding sound_def by (metis snd_conv)+
  moreover have "scheme_inv (snd (n s1))" "type_of s1 \<subseteq>\<^sub>m type_of (snd (n s1))" using assms(2) 1(1) unfolding sound_def by blast+
  ultimately show "scheme_inv (snd (bnd m (\<lambda>_. n) s)) \<and> type_of s \<subseteq>\<^sub>m type_of (snd (bnd m (\<lambda>_. n) s))"
    by (cases res) (auto simp: bnd_def m intro: map_le_trans)
qed

lemma inv_observed [simp]:
  "scheme_inv (addObservedVersion v s) = scheme_inv s" "sch_gvkToType (addObservedVersion v s) = sch_gvkToType s"
  by (simp_all add: scheme_inv_def addObservedVersion_def kinds_of_def)

lemma sound_observed: "sound m \<Longrightarrow> sound (\<lambda>s. m (addObservedVersion v s))"
  unfolding sound_def by (metis inv_observed)

text \<open>When the registration of a single kind panics, and what it does otherwise.\<close>

lemma known_outcome:
  "fst (AddKnownTypeWithName k t s) =
     (if gvk_Version k = '''' \<or> (\<exists>old. type_of s k = Some old \<and> old \<noteq> t) then Inl (Panic ExplicitPanic) else Inr ())"
  by (simp add: AddKnownTypeWithName_def Let_def)

lemma known_registered: "AddKnownTypeWithName k t s = (Inr (), s') \<Longrightarrow> type_of s' k = Some t"
  by (auto simp: AddKnownTypeWithName_def Let_def update_conv' split: if_splits)

lemma sound_known: "sound (AddKnownTypeWithName k t)"
  unfolding sound_def
proof (intro allI impI)
  fix s0 assume "scheme_inv s0"
  let ?s = "addObservedVersion (gvk_GroupVersion k) s0"
  have ok: "scheme_inv ?s" using \<open>scheme_inv s0\<close> by simp
  let ?s1 = "?s\<lparr>sch_gvkToType := AList.update k t (sch_gvkToType ?s)\<rparr>"
  let ?s2 = "if k \<in> set (kinds_of ?s t) then ?s1 else ?s1\<lparr>sch_typeToGVK := AList.update t (kinds_of ?s t @ [k]) (sch_typeToGVK ?s)\<rparr>"
  show "scheme_inv (snd (AddKnownTypeWithName k t s0)) \<and> type_of s0 \<subseteq>\<^sub>m type_of (snd (AddKnownTypeWithName k t s0))"
  proof (cases "gvk_Version k = '''' \<or> (\<exists>old. type_of s0 k = Some old \<and> old \<noteq> t)")
    case True
    then have "snd (AddKnownTypeWithName k t s0) = ?s" by (auto simp: AddKnownTypeWithName_def Let_def)
    with ok show ?thesis by simp
  next
    case False
    have run: "snd (AddKnownTypeWithName k t s0) = ?s2"
      using False unfolding AddKnownTypeWithName_def Let_def kinds_of_def [symmetric] by auto
    have types: "type_of ?s2 = (type_of s0)(k \<mapsto> t)" by (simp add: update_conv' fun_eq_iff)
    have kinds: "kinds_of ?s2 u = (if u = t \<and> k \<notin> set (kinds_of ?s t) then kinds_of ?s t @ [k] else kinds_of ?s u)" for u
      by (simp add: kinds_of_def update_conv')
    have entry: "map_of (sch_typeToGVK ?s2) u \<noteq> Some []" for u
      using ok by (simp add: scheme_inv_def update_conv')
    have inverse: "\<And>j u. type_of s0 j = Some u \<longleftrightarrow> j \<in> set (kinds_of ?s u)" and d: "\<And>u. distinct (kinds_of ?s u)"
      using ok unfolding scheme_inv_def by simp_all
    have "type_of ?s2 j = Some u \<longleftrightarrow> j \<in> set (kinds_of ?s2 u)" for j u
    proof (cases "j = k")
      case True
      have "k \<in> set (kinds_of ?s u) \<Longrightarrow> u = t" using inverse False by blast
      then show ?thesis unfolding types kinds using True by auto
    next
      case False
      then show ?thesis unfolding types kinds by (simp add: inverse)
    qed
    moreover have "distinct (kinds_of ?s2 u)" for u unfolding kinds using d by simp
    moreover have "kinds_of ?s u \<noteq> [] \<Longrightarrow> kinds_of ?s2 u \<noteq> []" for u unfolding kinds by simp
    moreover have "\<forall>nm t. map_of (sch_unversionedKinds ?s) nm = Some t \<longrightarrow> kinds_of ?s t \<noteq> [] \<and> map_of (sch_unversionedTypes ?s) t \<noteq> None"
      using ok unfolding scheme_inv_def by blast
    moreover have "sch_unversionedKinds ?s2 = sch_unversionedKinds ?s" "sch_unversionedTypes ?s2 = sch_unversionedTypes ?s" by simp_all
    ultimately have "scheme_inv ?s2" using entry unfolding scheme_inv_def by (intro conjI allI impI) (blast | simp)+
    moreover have "type_of s0 \<subseteq>\<^sub>m type_of ?s2" unfolding types using False by (auto simp: map_le_def)
    ultimately show ?thesis unfolding run by simp
  qed
qed

lemma sound_types: "sound (AddKnownTypes gv ts)"
proof -
  have "sound (AddKnownTypes_loop gv ts)"
    by (induction ts) (simp_all add: sound_ret sound_bnd sound_known)
  from sound_observed [OF this, of gv] show ?thesis by (simp add: AddKnownTypes_def [abs_def])
qed

lemma types_registered:
  assumes "scheme_inv s" and "AddKnownTypes gv ts s = (Inr (), s')" and "t \<in> set ts"
  shows "kinds_of s' t \<noteq> []"
proof -
  have loop: "type_of s' (WithKind gv (gt_Name t)) = Some t"
    if "AddKnownTypes_loop gv ts s = (Inr (), s')" "t \<in> set ts" "scheme_inv s" for s s'
    using that
  proof (induction ts arbitrary: s)
    case (Cons u us)
    obtain s1 where s1: "AddKnownTypeWithName (WithKind gv (gt_Name u)) u s = (Inr (), s1)" "AddKnownTypes_loop gv us s1 = (Inr (), s')"
      using Cons.prems(1) by (auto simp: bnd_def split: prod.splits sum.splits)
    have inv: "scheme_inv s1" using sound_known Cons.prems(3) s1(1) unfolding sound_def by (metis snd_conv)
    show ?case
    proof (cases "t \<in> set us")
      case True
      from Cons.IH [OF s1(2) this inv] show ?thesis .
    next
      case False
      then have "type_of s1 (WithKind gv (gt_Name t)) = Some t" using known_registered [OF s1(1)] Cons.prems(2) by simp
      moreover have "sound (AddKnownTypes_loop gv us)" by (induction us) (simp_all add: sound_ret sound_bnd sound_known)
      ultimately show ?thesis using s1(2) inv unfolding sound_def map_le_def by (metis domI snd_conv)
    qed
  qed simp
  have "scheme_inv s'" using sound_types assms(1,2) unfolding sound_def by (metis snd_conv)
  moreover have "type_of s' (WithKind gv (gt_Name t)) = Some t"
    using loop [of "addObservedVersion gv s" s'] assms by (simp add: AddKnownTypes_def)
  ultimately show ?thesis unfolding scheme_inv_def by fastforce
qed

lemma unversioned_sound:
  assumes "scheme_inv s" and "\<And>t. t \<in> set ts \<Longrightarrow> kinds_of s t \<noteq> []"
  shows "scheme_inv (snd (unversioned_loop gv ts s)) \<and> type_of (snd (unversioned_loop gv ts s)) = type_of s"
  using assms
proof (induction ts arbitrary: s)
  case (Cons t ts)
  let ?k = "WithKind gv (gt_Name t)"
  let ?s1 = "s\<lparr>sch_unversionedTypes := AList.update t ?k (sch_unversionedTypes s)\<rparr>"
  let ?s2 = "?s1\<lparr>sch_unversionedKinds := AList.update (gvk_Kind ?k) t (sch_unversionedKinds ?s1)\<rparr>"
  have 1: "scheme_inv ?s1" using Cons.prems(1) unfolding scheme_inv_def kinds_of_def by (auto simp: update_conv')
  have 2: "scheme_inv ?s2"
    using Cons.prems unfolding scheme_inv_def kinds_of_def by (auto simp: update_conv' split: if_splits)
  have "kinds_of ?s2 u = kinds_of s u" for u by (simp add: kinds_of_def)
  with Cons.IH [OF 2] Cons.prems(2) 1 show ?case by (auto simp: Let_def)
qed simp

lemma sound_unversioned: "sound (AddUnversionedTypes gv ts)"
  unfolding sound_def
proof (intro allI impI)
  fix s assume s: "scheme_inv s"
  let ?s = "addObservedVersion gv s"
  obtain res s1 where 1: "AddKnownTypes gv ts ?s = (res, s1)" by force
  have ok: "scheme_inv s1" "type_of s \<subseteq>\<^sub>m type_of s1"
    using sound_types s 1 unfolding sound_def by (metis inv_observed snd_conv)+
  have "scheme_inv (snd (unversioned_loop gv ts s1)) \<and> type_of (snd (unversioned_loop gv ts s1)) = type_of s1" if "res = Inr ()"
    by (rule unversioned_sound [OF ok(1)]) (use types_registered [of ?s gv ts s1] 1 s that in auto)
  with 1 ok show "scheme_inv (snd (AddUnversionedTypes gv ts s)) \<and> type_of s \<subseteq>\<^sub>m type_of (snd (AddUnversionedTypes gv ts s))"
    by (cases res) (auto simp: AddUnversionedTypes_def bnd_def)
qed

lemma sound_ops: "sound (run_scheme_ops ops)"
proof (induction ops)
  case (Cons op ops)
  have "sound (run_scheme_op op)"
    by (cases op) (simp_all add: sound_known sound_types sound_unversioned AddToGroupVersion_def sound_bnd)
  with Cons show ?case by (simp add: sound_bnd)
qed (simp add: sound_ret)

lemma scheme_inv_New: "scheme_inv NewScheme"
  by (simp add: scheme_inv_def NewScheme_def kinds_of_def)

lemma scheme_ok_New: "scheme_ok foreseen NewScheme"
  by (simp add: scheme_ok_def NewScheme_def kinds_of_def)

text \<open>The registrations of the clientset's \<open>init\<close>, in a row.\<close>

definition clientset_ops :: "scheme_op list" where
  "clientset_ops = [RegGroupVersion \<lparr>gv_Group = '''', gv_Version = ''v1''\<rparr>, RegTypes SchemeGroupVersion (map v1alpha1 api_kinds),
     RegGroupVersion SchemeGroupVersion]"

lemma registers_clientset: "registers foreseen (run_scheme_ops clientset_ops) scheme_kinds"
proof -
  have v: "gv_Version SchemeGroupVersion \<noteq> ''''" "gv_Version SchemeGroupVersion \<noteq> APIVersionInternal"
    by (simp_all add: SchemeGroupVersion_def APIVersionInternal_def)
  have "registers foreseen (AddToGroupVersion \<lparr>gv_Group = '''', gv_Version = ''v1''\<rparr>) (meta_kinds \<lparr>gv_Group = '''', gv_Version = ''v1''\<rparr>)"
    by (rule registers_group_version) (simp_all add: APIVersionInternal_def)
  moreover have "registers foreseen (AddToGroupVersion SchemeGroupVersion) (meta_kinds SchemeGroupVersion)"
    by (rule registers_group_version) (use v in auto)
  ultimately show ?thesis
    using registers_bnd [OF _ registers_bnd [OF registers_api registers_bnd [OF _ registers_ret]]]
    by (simp add: clientset_ops_def scheme_kinds_def Un_assoc)
qed

subsection \<open>Properties\<close>

lemma unversioned_foreseen:
  assumes "scheme_ok foreseen s" and "gt_PkgPath t \<noteq> gt_PkgPath (metav1 nm)"
  shows "map_of (sch_unversionedTypes s) t = None"
proof (rule ccontr)
  assume "map_of (sch_unversionedTypes s) t \<noteq> None"
  then obtain k where "map_of (sch_unversionedTypes s) t = Some k" by auto
  with assms(1) have "t = metav1 (gvk_Kind k)" unfolding scheme_ok_def by blast
  with assms(2) show False by (simp add: metav1_def)
qed

lemma kinds_of_api:
  assumes ok: "scheme_ok foreseen s" and dom: "dom (type_of s) = scheme_kinds" and nm: "nm \<in> set api_kinds"
  shows "ObjectKinds s (v1alpha1 nm) = Inr ([WithKind SchemeGroupVersion nm], False)"
    and "scheme_New s (WithKind SchemeGroupVersion nm) = Inr (v1alpha1 nm)"
proof -
  have f: "foreseen (WithKind SchemeGroupVersion nm) = v1alpha1 nm"
    using nm by (simp add: foreseen_def WithKind_def gvk_GroupVersion_def)
  have "WithKind SchemeGroupVersion nm \<in> scheme_kinds" using nm by (auto simp: scheme_kinds_def)
  then obtain t where "type_of s (WithKind SchemeGroupVersion nm) = Some t" using dom by blast
  with ok f have T: "type_of s (WithKind SchemeGroupVersion nm) = Some (v1alpha1 nm)" by (auto simp: scheme_ok_def)
  then show "scheme_New s (WithKind SchemeGroupVersion nm) = Inr (v1alpha1 nm)" by (simp add: scheme_New_def)
  have "k = WithKind SchemeGroupVersion nm" if "type_of s k = Some (v1alpha1 nm)" for k
  proof -
    have "foreseen k = v1alpha1 nm" using ok that by (auto simp: scheme_ok_def)
    then show ?thesis by (cases k) (auto simp: foreseen_def v1alpha1_def metav1_def WithKind_def gvk_GroupVersion_def SchemeGroupVersion_def split: if_splits)
  qed
  moreover have inv: "\<And>k t. type_of s k = Some t \<longleftrightarrow> k \<in> set (kinds_of s t)" and "distinct (kinds_of s (v1alpha1 nm))"
    using ok unfolding scheme_ok_def by blast+
  ultimately have "set (kinds_of s (v1alpha1 nm)) = {WithKind SchemeGroupVersion nm}" "distinct (kinds_of s (v1alpha1 nm))"
    using T unfolding inv by blast+
  moreover from this have "length (kinds_of s (v1alpha1 nm)) = 1" using distinct_card by fastforce
  ultimately have "kinds_of s (v1alpha1 nm) = [WithKind SchemeGroupVersion nm]"
    by (cases "kinds_of s (v1alpha1 nm)") simp_all
  then have K: "map_of (sch_typeToGVK s) (v1alpha1 nm) = Some [WithKind SchemeGroupVersion nm]"
    by (auto simp: kinds_of_def split: option.splits)
  have "map_of (sch_unversionedTypes s) (v1alpha1 nm) = None"
    by (rule unversioned_foreseen [OF ok, of _ nm]) (simp add: v1alpha1_def metav1_def)
  with K show "ObjectKinds s (v1alpha1 nm) = Inr ([WithKind SchemeGroupVersion nm], False)" by (simp add: ObjectKinds_def)
qed

text \<open>Setting up the scheme of the clientset, and that of the fake clientset, succeeds: no kind is registered
  for two types. Afterwards the type of each object the fake clients handle has one kind, the one they use
  in their actions, and the other way round.\<close>

lemma schemes_know_the_kinds:
  "\<exists>s. scheme_init NewScheme = (Inr (), s) \<and> fake_scheme_init NewScheme = (Inr (), s)
    \<and> list_all (\<lambda>k. ObjectKinds s (v1alpha1 (gvk_Kind k)) = Inr ([k], False)
          \<and> scheme_New s k = Inr (v1alpha1 (gvk_Kind k)))
        [ki_Kind backendpolicies_info, ki_Kind gateways_info, ki_Kind gatewayclasses_info, ki_Kind httproutes_info,
         ki_Kind tcproutes_info, ki_Kind tlsroutes_info, ki_Kind udproutes_info]"
proof -
  have "scheme_ok foreseen NewScheme" by (simp add: scheme_ok_def NewScheme_def kinds_of_def)
  from registersD [OF registers_init(1) this]
  obtain s where s: "scheme_init NewScheme = (Inr (), s)" "scheme_ok foreseen s" "dom (type_of s) = scheme_kinds"
    by (auto simp: NewScheme_def)
  have kinds: "map (\<lambda>k. k) [ki_Kind backendpolicies_info, ki_Kind gateways_info, ki_Kind gatewayclasses_info, ki_Kind httproutes_info,
         ki_Kind tcproutes_info, ki_Kind tlsroutes_info, ki_Kind udproutes_info]
      = map (WithKind SchemeGroupVersion) [''BackendPolicy'', ''Gateway'', ''GatewayClass'', ''HTTPRoute'', ''TCPRoute'', ''TLSRoute'', ''UDPRoute'']"
    by (simp add: backendpolicies_info_def gateways_info_def gatewayclasses_info_def httproutes_info_def tcproutes_info_def
        tlsroutes_info_def udproutes_info_def l4_info_def apis_gvk_def WithKind_def SchemeGroupVersion_def)
  have name: "gvk_Kind (WithKind SchemeGroupVersion nm) = nm" for nm by (simp add: WithKind_def)
  have "list_all (\<lambda>nm. nm \<in> set api_kinds) [''BackendPolicy'', ''Gateway'', ''GatewayClass'', ''HTTPRoute'', ''TCPRoute'', ''TLSRoute'', ''UDPRoute'']"
    by (simp add: api_kinds_def)
  then have "list_all (\<lambda>k. ObjectKinds s (v1alpha1 (gvk_Kind k)) = Inr ([k], False) \<and> scheme_New s k = Inr (v1alpha1 (gvk_Kind k)))
      (map (WithKind SchemeGroupVersion) [''BackendPolicy'', ''Gateway'', ''GatewayClass'', ''HTTPRoute'', ''TCPRoute'', ''TLSRoute'', ''UDPRoute''])"
    using kinds_of_api [OF s(2,3)] unfolding list_all_iff by (auto simp: name)
  with s(1) registers_init(2) show ?thesis unfolding kinds [symmetric] list.map_ident by auto
qed


text \<open>C28: After any registrations a scheme started empty has seen, whether or not the last one panicked, kinds and
  types belong together: the kinds of a type are the recognised ones of which \<open>New\<close> makes that type, each
  listed once; whatever \<open>New\<close> makes has kinds, and the one it was made for is among them unless its type is
  unversioned. Registering a kind panics exactly when its version is empty or it is recognised for another
  type, and no registration changes what \<open>New\<close> makes of a recognised kind.\<close>

theorem schemes_pair_types_and_kinds:
  assumes "run_scheme_ops ops NewScheme = (res, s)"
  shows "(\<forall>t ks u. ObjectKinds s t = Inr (ks, u) \<longrightarrow>
        ks \<noteq> [] \<and> distinct ks \<and> (\<forall>k. k \<in> set ks \<longleftrightarrow> Recognizes s k \<and> scheme_New s k = Inr t))
    \<and> (\<forall>k t. scheme_New s k = Inr t \<longrightarrow> (\<exists>ks u. ObjectKinds s t = Inr (ks, u) \<and> (k \<in> set ks \<or> u)))
    \<and> (\<forall>k t. fst (AddKnownTypeWithName k t s) =
          (if gvk_Version k = '''' \<or> Recognizes s k \<and> scheme_New s k \<noteq> Inr t then Inl (Panic ExplicitPanic) else Inr ()))
    \<and> (\<forall>more k. Recognizes s k \<longrightarrow> scheme_New (snd (run_scheme_ops more s)) k = scheme_New s k)"
proof (intro conjI allI impI)
  have inv: "scheme_inv s" using sound_ops [of ops] scheme_inv_New assms unfolding sound_def by (metis snd_conv)
  then have inverse: "type_of s k = Some t \<longleftrightarrow> k \<in> set (kinds_of s t)" and dist: "distinct (kinds_of s t)"
    and entry: "map_of (sch_typeToGVK s) t \<noteq> Some []" for k t
    unfolding scheme_inv_def by blast+
  have new: "Recognizes s k \<and> scheme_New s k = Inr t \<longleftrightarrow> type_of s k = Some t" for k t
    by (auto simp: Recognizes_def scheme_New_def)
  show "ks \<noteq> []" "distinct ks" "k \<in> set ks \<longleftrightarrow> Recognizes s k \<and> scheme_New s k = Inr t" if "ObjectKinds s t = Inr (ks, u)" for t ks u k
  proof -
    have K: "map_of (sch_typeToGVK s) t = Some ks" using that by (auto simp: ObjectKinds_def split: option.splits)
    then have "kinds_of s t = ks" by (simp add: kinds_of_def)
    then show "ks \<noteq> []" "distinct ks" "k \<in> set ks \<longleftrightarrow> Recognizes s k \<and> scheme_New s k = Inr t"
      using K entry dist inverse unfolding new by blast+
  qed
  show "\<exists>ks u. ObjectKinds s t = Inr (ks, u) \<and> (k \<in> set ks \<or> u)" if "scheme_New s k = Inr t" for k t
  proof (cases "type_of s k")
    case (Some t')
    with that have "k \<in> set (kinds_of s t)" unfolding inverse [symmetric] by (simp add: scheme_New_def)
    then show ?thesis by (cases "map_of (sch_typeToGVK s) t") (auto simp: ObjectKinds_def kinds_of_def)
  next
    case None
    with that have "map_of (sch_unversionedKinds s) (gvk_Kind k) = Some t" by (auto simp: scheme_New_def split: option.splits)
    then have "kinds_of s t \<noteq> []" "map_of (sch_unversionedTypes s) t \<noteq> None" using inv unfolding scheme_inv_def by blast+
    then show ?thesis by (cases "map_of (sch_typeToGVK s) t") (auto simp: ObjectKinds_def kinds_of_def)
  qed
  show "fst (AddKnownTypeWithName k t s) =
      (if gvk_Version k = '''' \<or> Recognizes s k \<and> scheme_New s k \<noteq> Inr t then Inl (Panic ExplicitPanic) else Inr ())" for k t
    by (auto simp: known_outcome Recognizes_def scheme_New_def split: option.splits)
  show "scheme_New (snd (run_scheme_ops more s)) k = scheme_New s k" if r: "Recognizes s k" for more k
  proof -
    obtain t where t: "type_of s k = Some t" using r unfolding Recognizes_def by blast
    have "type_of s \<subseteq>\<^sub>m type_of (snd (run_scheme_ops more s))" using sound_ops inv unfolding sound_def by blast
    with t have "type_of (snd (run_scheme_ops more s)) k = Some t" unfolding map_le_def by (metis domI)
    with t show ?thesis by (simp add: scheme_New_def)
  qed
qed

text \<open>Another type cannot take the place of the clientset's HTTPRoutes.\<close>

theorem schemes_pair_types_and_kinds_witness:
  "\<exists>s. run_scheme_ops clientset_ops NewScheme = (Inr (), s)
    \<and> Recognizes s (WithKind SchemeGroupVersion ''HTTPRoute'')
    \<and> scheme_New s (WithKind SchemeGroupVersion ''HTTPRoute'') = Inr (v1alpha1 ''HTTPRoute'')
    \<and> fst (AddKnownTypeWithName (WithKind SchemeGroupVersion ''HTTPRoute'') (v1alpha1 ''Gateway'') s) = Inl (Panic ExplicitPanic)
    \<and> scheme_New (snd (run_scheme_ops [RegTypes SchemeGroupVersion [metav1 ''HTTPRoute'']] s))
        (WithKind SchemeGroupVersion ''HTTPRoute'') = Inr (v1alpha1 ''HTTPRoute'')"
proof -
  obtain s where s: "run_scheme_ops clientset_ops NewScheme = (Inr (), s)" "scheme_ok foreseen s" "dom (type_of s) = scheme_kinds"
    using registersD [OF registers_clientset scheme_ok_New] by (auto simp: NewScheme_def)
  have api: "''HTTPRoute'' \<in> set api_kinds" by (simp add: api_kinds_def)
  have rec: "Recognizes s (WithKind SchemeGroupVersion ''HTTPRoute'')"
    using s(3) api unfolding Recognizes_def scheme_kinds_def by blast
  have new: "scheme_New s (WithKind SchemeGroupVersion ''HTTPRoute'') = Inr (v1alpha1 ''HTTPRoute'')"
    by (rule kinds_of_api(2) [OF s(2,3) api])
  note P = schemes_pair_types_and_kinds [OF s(1)]
  have "v1alpha1 ''HTTPRoute'' \<noteq> v1alpha1 ''Gateway''" by (simp add: v1alpha1_def)
  then have "fst (AddKnownTypeWithName (WithKind SchemeGroupVersion ''HTTPRoute'') (v1alpha1 ''Gateway'') s) = Inl (Panic ExplicitPanic)"
    using P rec new by simp
  moreover have "scheme_New (snd (run_scheme_ops [RegTypes SchemeGroupVersion [metav1 ''HTTPRoute'']] s)) (WithKind SchemeGroupVersion ''HTTPRoute'')
      = Inr (v1alpha1 ''HTTPRoute'')"
    using mp [OF spec [OF spec [OF conjunct2 [OF conjunct2 [OF conjunct2 [OF P]]]]] rec] new by (simp only:)
  ultimately show ?thesis using s(1) rec new by blast
qed

text \<open>Making a fake clientset with one object whose type has one kind in the scheme: it is stored under the
  resource guessed from that kind.\<close>

lemma seeded:
  assumes "ObjectKinds s (robj_type obj) = Inr ([kind], u)" and "gvk_Version kind = ''v1alpha1''" and "gvk_Kind kind \<noteq> ''''"
  shows "\<exists>f. NewSimpleClientset s [obj] = Inr f
    \<and> (\<forall>g k. tview (fk_Tracker f) g k =
         (if g = UnsafeGuessKindToResource kind \<and> k = robj_key obj then Some obj else None))"
proof -
  have v: "gvr_Version (UnsafeGuessKindToResource kind) \<noteq> APIVersionInternal"
    using assms(2,3) by (simp add: UnsafeGuessKindToResource_def Let_def APIVersionInternal_def)
  have ns: "om_Namespace (robj_meta (fill_ns (om_Namespace (robj_meta obj)) obj)) = om_Namespace (robj_meta obj)" by simp
  from tracker_add_match [OF ns, of "UnsafeGuessKindToResource kind" False empty_tracker]
  obtain t where "tracker_Add s obj empty_tracker = (Inr (), t)"
      "\<forall>g k. tview t g k = (if g = UnsafeGuessKindToResource kind \<and> k = robj_key obj then Some obj else None)"
    using v by (auto simp: tracker_Add_def robj_key_def assms(1) Let_def bnd_def)
  then show ?thesis by (simp add: NewSimpleClientset_def bnd_def attempt_def)
qed

lemma not_seeded:
  assumes "kinds_of s (robj_type obj) = []"
  shows "NewSimpleClientset s [obj] = Inl (Panic ExplicitPanic)"
  using assms
  by (auto simp: NewSimpleClientset_def tracker_Add_def ObjectKinds_def kinds_of_def bnd_def attempt_def split: option.splits)

context kind_laws begin

lemma seeded_view:
  assumes "ObjectKinds s (robj_type (ki_Inj ki x)) = Inr ([kind], u)" and "gvk_Version kind = ''v1alpha1''" and "gvk_Kind kind \<noteq> ''''"
    and "UnsafeGuessKindToResource kind = ki_Resource ki"
  shows "\<exists>f. NewSimpleClientset s [ki_Inj ki x] = Inr f \<and> view f = [obj_key x \<mapsto> x]"
proof -
  obtain f where f: "NewSimpleClientset s [ki_Inj ki x] = Inr f"
    "\<And>g k. tview (fk_Tracker f) g k = (if g = ki_Resource ki \<and> k = robj_key (ki_Inj ki x) then Some (ki_Inj ki x) else None)"
    using seeded [OF assms(1-3)] unfolding assms(4) by blast
  have "robj_key (ki_Inj ki x) = obj_key x" by (simp add: robj_key_def obj_key_def inj_meta)
  then have "view f k = [obj_key x \<mapsto> x] k" for k by (simp add: view_def f(2) prj_inj)
  with f(1) show ?thesis by blast
qed

end

text \<open>C27: A fake clientset made with an object serves it to the typed fake client of its kind, for every kind but
  gateways, once \<open>init\<close> has filled the scheme of the fake package: the tracker stores an object under the
  resource guessed from the kind the scheme has for its type. The plural guessed for a gateway is no
  resource of any client, so that the fake client does not find a gateway the clientset was made with. With
  an object whose type is not in the scheme, a service, the clientset is not made at all: the code panics.\<close>

theorem seeded_objects_are_served:
  "\<exists>s. fake_scheme_init NewScheme = (Inr (), s)
   \<and> (\<exists>f. NewSimpleClientset s [RBackendPolicy bp] = Inr f \<and> backendpolicies.view f = [obj_key bp \<mapsto> bp])
   \<and> (\<exists>f. NewSimpleClientset s [RGatewayClass gc] = Inr f \<and> gatewayclasses.view f = [obj_key gc \<mapsto> gc])
   \<and> (\<exists>f. NewSimpleClientset s [RHTTPRoute hr] = Inr f \<and> httproutes.view f = [obj_key hr \<mapsto> hr])
   \<and> (\<exists>f. NewSimpleClientset s [RL4Route TCPKind l4] = Inr f \<and> tcproutes.view f = [obj_key l4 \<mapsto> l4])
   \<and> (\<exists>f. NewSimpleClientset s [RL4Route TLSKind l4] = Inr f \<and> tlsroutes.view f = [obj_key l4 \<mapsto> l4])
   \<and> (\<exists>f. NewSimpleClientset s [RL4Route UDPKind l4] = Inr f \<and> udproutes.view f = [obj_key l4 \<mapsto> l4])
   \<and> (\<exists>f. NewSimpleClientset s [RGateway g] = Inr f \<and> gateways.view f = Map.empty
        \<and> tview (fk_Tracker f) (apis_gvr ''gatewaies'') (obj_key g) = Some (RGateway g))
   \<and> NewSimpleClientset s [RService svc] = Inl (Panic ExplicitPanic)"
proof -
  obtain s where s: "fake_scheme_init NewScheme = (Inr (), s)" "scheme_ok foreseen s" "dom (type_of s) = scheme_kinds"
    using registersD [OF registers_init(1) scheme_ok_New] registers_init(2) by (auto simp: NewScheme_def)
  note infos = backendpolicies_info_def gatewayclasses_info_def httproutes_info_def tcproutes_info_def
    tlsroutes_info_def udproutes_info_def l4_info_def gateways_info_def
  have inj: "ki_Inj backendpolicies_info bp = RBackendPolicy bp" "ki_Inj gatewayclasses_info gc = RGatewayClass gc"
    "ki_Inj httproutes_info hr = RHTTPRoute hr" "ki_Inj tcproutes_info l4 = RL4Route TCPKind l4"
    "ki_Inj tlsroutes_info l4 = RL4Route TLSKind l4" "ki_Inj udproutes_info l4 = RL4Route UDPKind l4"
    by (simp_all add: infos)
  have plural: "UnsafeGuessKindToResource (apis_gvk ''BackendPolicy'') = apis_gvr ''backendpolicies''"
    "UnsafeGuessKindToResource (apis_gvk ''GatewayClass'') = apis_gvr ''gatewayclasses''"
    "UnsafeGuessKindToResource (apis_gvk ''HTTPRoute'') = apis_gvr ''httproutes''"
    "UnsafeGuessKindToResource (apis_gvk ''TCPRoute'') = apis_gvr ''tcproutes''"
    "UnsafeGuessKindToResource (apis_gvk ''TLSRoute'') = apis_gvr ''tlsroutes''"
    "UnsafeGuessKindToResource (apis_gvk ''UDPRoute'') = apis_gvr ''udproutes''"
    "UnsafeGuessKindToResource (apis_gvk ''Gateway'') = apis_gvr ''gatewaies''"
    by code_simp+
  have apis: "WithKind SchemeGroupVersion nm = apis_gvk nm" for nm by (simp add: WithKind_def SchemeGroupVersion_def apis_gvk_def)
  have known: "ObjectKinds s (v1alpha1 nm) = Inr ([apis_gvk nm], False)" if "nm \<in> set api_kinds" for nm
    using kinds_of_api(1) [OF s(2,3) that] by (simp only: apis)
  have kinds: "ObjectKinds s (robj_type (RBackendPolicy bp)) = Inr ([apis_gvk ''BackendPolicy''], False)"
    "ObjectKinds s (robj_type (RGatewayClass gc)) = Inr ([apis_gvk ''GatewayClass''], False)"
    "ObjectKinds s (robj_type (RHTTPRoute hr)) = Inr ([apis_gvk ''HTTPRoute''], False)"
    "ObjectKinds s (robj_type (RL4Route TCPKind l4)) = Inr ([apis_gvk ''TCPRoute''], False)"
    "ObjectKinds s (robj_type (RL4Route TLSKind l4)) = Inr ([apis_gvk ''TLSRoute''], False)"
    "ObjectKinds s (robj_type (RL4Route UDPKind l4)) = Inr ([apis_gvk ''UDPRoute''], False)"
    "ObjectKinds s (robj_type (RGateway g)) = Inr ([apis_gvk ''Gateway''], False)"
    by (simp_all add: robj_type_def known api_kinds_def)
  have name: "gvk_Version (apis_gvk nm) = ''v1alpha1''" "gvk_Kind (apis_gvk nm) = nm" for nm by (simp_all add: apis_gvk_def)
  have k: "robj_key (RGateway g) = obj_key g" by (simp add: robj_key_def obj_key_def)
  obtain f where f: "NewSimpleClientset s [RGateway g] = Inr f"
    "\<And>r k. tview (fk_Tracker f) r k = (if r = apis_gvr ''gatewaies'' \<and> k = obj_key g then Some (RGateway g) else None)"
    using seeded [OF kinds(7) name(1)] unfolding k plural(7) name(2) by blast
  have "ki_Resource gateways_info \<noteq> apis_gvr ''gatewaies''" by (simp add: gateways_info_def apis_gvr_def)
  then have "gateways.view f k = None" for k by (simp add: gateways.view_def f(2))
  then have "gateways.view f = Map.empty" by (simp add: fun_eq_iff)
  with f have gw: "\<exists>f. NewSimpleClientset s [RGateway g] = Inr f \<and> gateways.view f = Map.empty
        \<and> tview (fk_Tracker f) (apis_gvr ''gatewaies'') (obj_key g) = Some (RGateway g)" by auto
  have "gt_PkgPath t \<noteq> ''k8s.io/api/core/v1''" if "k \<in> set (kinds_of s t)" for k t
  proof -
    have "t = foreseen k" using s(2) that unfolding scheme_ok_def by blast
    then show ?thesis by (simp add: foreseen_def v1alpha1_def metav1_def)
  qed
  moreover have "gt_PkgPath (robj_type (RService svc)) = ''k8s.io/api/core/v1''" by (simp add: robj_type_def)
  ultimately have "set (kinds_of s (robj_type (RService svc))) = {}" by (metis equals0I)
  then have "NewSimpleClientset s [RService svc] = Inl (Panic ExplicitPanic)" by (intro not_seeded) simp
  note unknown = this
  have "\<exists>f. NewSimpleClientset s [RBackendPolicy bp] = Inr f \<and> backendpolicies.view f = [obj_key bp \<mapsto> bp]"
    by (rule backendpolicies.seeded_view [where x = bp, unfolded inj, OF kinds(1) name(1)]) (simp_all add: name plural infos)
  moreover
  have "\<exists>f. NewSimpleClientset s [RGatewayClass gc] = Inr f \<and> gatewayclasses.view f = [obj_key gc \<mapsto> gc]"
    by (rule gatewayclasses.seeded_view [where x = gc, unfolded inj, OF kinds(2) name(1)]) (simp_all add: name plural infos)
  moreover
  have "\<exists>f. NewSimpleClientset s [RHTTPRoute hr] = Inr f \<and> httproutes.view f = [obj_key hr \<mapsto> hr]"
    by (rule httproutes.seeded_view [where x = hr, unfolded inj, OF kinds(3) name(1)]) (simp_all add: name plural infos)
  moreover
  have "\<exists>f. NewSimpleClientset s [RL4Route TCPKind l4] = Inr f \<and> tcproutes.view f = [obj_key l4 \<mapsto> l4]"
    by (rule tcproutes.seeded_view [where x = l4, unfolded inj, OF kinds(4) name(1)]) (simp_all add: name plural infos)
  moreover
  have "\<exists>f. NewSimpleClientset s [RL4Route TLSKind l4] = Inr f \<and> tlsroutes.view f = [obj_key l4 \<mapsto> l4]"
    by (rule tlsroutes.seeded_view [where x = l4, unfolded inj, OF kinds(5) name(1)]) (simp_all add: name plural infos)
  moreover
  have "\<exists>f. NewSimpleClientset s [RL4Route UDPKind l4] = Inr f \<and> udproutes.view f = [obj_key l4 \<mapsto> l4]"
    by (rule udproutes.seeded_view [where x = l4, unfolded inj, OF kinds(6) name(1)]) (simp_all add: name plural infos)
  ultimately show ?thesis using s(1) gw unknown by (intro exI [of _ s] conjI)
qed

end
