(* ===== verification/RouteStatus.thy ===== *)
theory RouteStatus
  imports RouteApi
begin

text \<open>
  The status operations of \<open>route_lifecycle.go\<close> that serving's own controllers call on a route this controller
  also writes, and what the operations together keep. Messages go through \<open>fmt.Sprintf\<close>: \<open>%q\<close> is
  \<open>go_quote\<close>; \<open>sprintf0\<close> formats a message without operands, as in \<open>RouteApi\<close>.
\<close>

subsection \<open>Messages\<close>

text \<open>\<open>strconv.Quote\<close>: bytes above 127 stand for themselves, as in printable UTF-8 text.\<close>

definition quote_char :: "char \<Rightarrow> string" where
  "quote_char c =
     (let n = of_char c :: nat in
      if n = 0x22 \<or> n = 0x5C then [CHR 0x5C, c]
      else if n = 7 then [CHR 0x5C, CHR ''a'']
      else if n = 8 then [CHR 0x5C, CHR ''b'']
      else if n = 9 then [CHR 0x5C, CHR ''t'']
      else if n = 10 then [CHR 0x5C, CHR ''n'']
      else if n = 11 then [CHR 0x5C, CHR ''v'']
      else if n = 12 then [CHR 0x5C, CHR ''f'']
      else if n = 13 then [CHR 0x5C, CHR ''r'']
      else if n < 32 \<or> n = 127
      then CHR 0x5C # CHR ''x'' # [''0123456789abcdef'' ! (n div 16), ''0123456789abcdef'' ! (n mod 16)]
      else [c])"

definition go_quote :: "string \<Rightarrow> string" where
  "go_quote s = CHR 0x22 # concat (map quote_char s) @ [CHR 0x22]"

subsection \<open>Operations\<close>

definition GetConditionSet :: condition_set where
  "GetConditionSet = routeCondSet"

definition TLSNotEnabledForClusterLocalMessage :: string where
  "TLSNotEnabledForClusterLocalMessage = ''TLS is not enabled for cluster-local''"

text \<open>The message is formatted twice here.\<close>

definition MarkServiceNotOwned :: "clock \<Rightarrow> (string \<Rightarrow> string) \<Rightarrow> string \<Rightarrow> managed_status \<Rightarrow> managed_status" where
  "MarkServiceNotOwned clk sprintf0 name =
     manage (MarkFalse clk routeCondSet RouteConditionIngressReady ''NotOwned''
       (sprintf0 (''There is an existing placeholder Service '' @ go_quote name @ '' that we do not own.'')))"

definition MarkIngressRolloutInProgress :: "clock \<Rightarrow> managed_status \<Rightarrow> managed_status" where
  "MarkIngressRolloutInProgress clk =
     manage (MarkUnknown clk routeCondSet RouteConditionIngressReady ''RolloutInProgress''
       ''A gradual rollout of the latest revision(s) is in progress.'')"

definition MarkUnknownTrafficError :: "clock \<Rightarrow> (string \<Rightarrow> string) \<Rightarrow> string \<Rightarrow> managed_status \<Rightarrow> managed_status" where
  "MarkUnknownTrafficError clk sprintf0 msg =
     manage (MarkUnknown clk routeCondSet RouteConditionAllTrafficAssigned ''Unknown'' (sprintf0 msg))"

definition MarkConfigurationNotReady :: "clock \<Rightarrow> string \<Rightarrow> managed_status \<Rightarrow> managed_status" where
  "MarkConfigurationNotReady clk name =
     manage (MarkUnknown clk routeCondSet RouteConditionAllTrafficAssigned ''RevisionMissing''
       (''Configuration '' @ go_quote name @ '' is waiting for a Revision to become ready.''))"

definition MarkConfigurationFailed :: "clock \<Rightarrow> string \<Rightarrow> managed_status \<Rightarrow> managed_status" where
  "MarkConfigurationFailed clk name =
     manage (MarkFalse clk routeCondSet RouteConditionAllTrafficAssigned ''RevisionMissing''
       (''Configuration '' @ go_quote name @ '' does not have any ready Revision.''))"

definition MarkRevisionNotReady :: "clock \<Rightarrow> string \<Rightarrow> managed_status \<Rightarrow> managed_status" where
  "MarkRevisionNotReady clk name =
     manage (MarkUnknown clk routeCondSet RouteConditionAllTrafficAssigned ''RevisionMissing''
       (''Revision '' @ go_quote name @ '' is not yet ready.''))"

definition MarkRevisionFailed :: "clock \<Rightarrow> string \<Rightarrow> managed_status \<Rightarrow> managed_status" where
  "MarkRevisionFailed clk name =
     manage (MarkFalse clk routeCondSet RouteConditionAllTrafficAssigned ''RevisionMissing''
       (''Revision '' @ go_quote name @ '' failed to become ready.''))"

definition MarkMissingTrafficTarget :: "clock \<Rightarrow> string \<Rightarrow> string \<Rightarrow> managed_status \<Rightarrow> managed_status" where
  "MarkMissingTrafficTarget clk kind name =
     manage (MarkFalse clk routeCondSet RouteConditionAllTrafficAssigned (kind @ ''Missing'')
       (kind @ '' '' @ go_quote name @ '' referenced in traffic not found.''))"

definition MarkCertificateProvisionFailed :: "clock \<Rightarrow> string \<Rightarrow> managed_status \<Rightarrow> managed_status" where
  "MarkCertificateProvisionFailed clk name =
     manage (MarkFalse clk routeCondSet RouteConditionCertificateProvisioned ''CertificateProvisionFailed''
       (''Certificate '' @ name @ '' fails to be provisioned.''))"

definition MarkCertificateReady :: "clock \<Rightarrow> string \<Rightarrow> managed_status \<Rightarrow> managed_status" where
  "MarkCertificateReady clk name = manage (MarkTrue clk routeCondSet RouteConditionCertificateProvisioned)"

definition MarkCertificateNotReady :: "clock \<Rightarrow> string \<Rightarrow> managed_status \<Rightarrow> managed_status" where
  "MarkCertificateNotReady clk name =
     manage (MarkUnknown clk routeCondSet RouteConditionCertificateProvisioned ''CertificateNotReady''
       (''Certificate '' @ name @ '' is not ready.''))"

definition MarkCertificateNotOwned :: "clock \<Rightarrow> string \<Rightarrow> managed_status \<Rightarrow> managed_status" where
  "MarkCertificateNotOwned clk name =
     manage (MarkFalse clk routeCondSet RouteConditionCertificateProvisioned ''CertificateNotOwned''
       (''There is an existing certificate '' @ name @ '' that we don'' @ [CHR 0x27] @ ''t own.''))"

definition MarkHTTPDowngrade :: "clock \<Rightarrow> string \<Rightarrow> managed_status \<Rightarrow> managed_status" where
  "MarkHTTPDowngrade clk name =
     manage (MarkTrueWithReason clk routeCondSet RouteConditionCertificateProvisioned ''HTTPDowngrade''
       (''Certificate '' @ name @ '' is not ready downgrade HTTP.''))"

subsection \<open>Sequences of operations\<close>

datatype status_op =
    OpInitializeConditions | OpServiceNotOwned string | OpIngressRolloutInProgress | OpIngressNotConfigured
  | OpTrafficAssigned | OpUnknownTrafficError string | OpConfigurationNotReady string | OpConfigurationFailed string
  | OpRevisionNotReady string | OpRevisionFailed string | OpMissingTrafficTarget string string
  | OpCertificateProvisionFailed string | OpCertificateReady string | OpCertificateNotReady string
  | OpCertificateNotOwned string | OpTLSNotEnabled string | OpHTTPDowngrade string | OpPropagateIngressStatus "condition list"

fun run_status_op :: "clock \<Rightarrow> (string \<Rightarrow> string) \<Rightarrow> status_op \<Rightarrow> managed_status \<Rightarrow> managed_status" where
  "run_status_op clk sp OpInitializeConditions = route_InitializeConditions clk"
| "run_status_op clk sp (OpServiceNotOwned name) = MarkServiceNotOwned clk sp name"
| "run_status_op clk sp OpIngressRolloutInProgress = MarkIngressRolloutInProgress clk"
| "run_status_op clk sp OpIngressNotConfigured = MarkIngressNotConfigured clk"
| "run_status_op clk sp OpTrafficAssigned = MarkTrafficAssigned clk"
| "run_status_op clk sp (OpUnknownTrafficError msg) = MarkUnknownTrafficError clk sp msg"
| "run_status_op clk sp (OpConfigurationNotReady name) = MarkConfigurationNotReady clk name"
| "run_status_op clk sp (OpConfigurationFailed name) = MarkConfigurationFailed clk name"
| "run_status_op clk sp (OpRevisionNotReady name) = MarkRevisionNotReady clk name"
| "run_status_op clk sp (OpRevisionFailed name) = MarkRevisionFailed clk name"
| "run_status_op clk sp (OpMissingTrafficTarget kind name) = MarkMissingTrafficTarget clk kind name"
| "run_status_op clk sp (OpCertificateProvisionFailed name) = MarkCertificateProvisionFailed clk name"
| "run_status_op clk sp (OpCertificateReady name) = MarkCertificateReady clk name"
| "run_status_op clk sp (OpCertificateNotReady name) = MarkCertificateNotReady clk name"
| "run_status_op clk sp (OpCertificateNotOwned name) = MarkCertificateNotOwned clk name"
| "run_status_op clk sp (OpTLSNotEnabled msg) = MarkTLSNotEnabled clk msg"
| "run_status_op clk sp (OpHTTPDowngrade name) = MarkHTTPDowngrade clk name"
| "run_status_op clk sp (OpPropagateIngressStatus cs) = PropagateIngressStatus clk sp cs"

subsection \<open>The invariant\<close>

text \<open>The conditions are well-formed, and the happy condition is true only when all others are.\<close>

definition sound_status :: "managed_status \<Rightarrow> bool" where
  "sound_status ms \<longleftrightarrow> conds_wf routeCondSet (status_acc ms) \<and> happy_inv routeCondSet (status_acc ms)"

text \<open>The operations of the condition manager keep it.\<close>

lemma sound_manage:
  assumes "sound_status ms"
  shows "sound_status (manage (MarkTrue clk routeCondSet t) ms)"
    "sound_status (manage (MarkTrueWithReason clk routeCondSet t reason msg) ms)"
    "sound_status (manage (MarkFalse clk routeCondSet t reason msg) ms)"
    "sound_status (manage (MarkUnknown clk routeCondSet t reason msg) ms)"
    "sound_status (manage (InitializeConditions clk routeCondSet) ms)"
proof -
  have "conds_wf routeCondSet (run_cond_op clk routeCondSet x (status_acc ms))
      \<and> happy_inv routeCondSet (run_cond_op clk routeCondSet x (status_acc ms))"
    if "fitting_op routeCondSet x" "modest_op routeCondSet x" for x
    by (rule run_cond_op_inv) (use assms that in \<open>simp_all add: sound_status_def\<close>)
  from this [of "OpMarkTrue t"] this [of "OpMarkTrueWithReason t reason msg"] this [of "OpMarkFalse t reason msg"]
    this [of "OpMarkUnknown t reason msg"] this [of OpInitialize]
  show "sound_status (manage (MarkTrue clk routeCondSet t) ms)"
    "sound_status (manage (MarkTrueWithReason clk routeCondSet t reason msg) ms)"
    "sound_status (manage (MarkFalse clk routeCondSet t reason msg) ms)"
    "sound_status (manage (MarkUnknown clk routeCondSet t reason msg) ms)"
    "sound_status (manage (InitializeConditions clk routeCondSet) ms)"
    by (simp_all add: sound_status_def)
qed

lemmas status_op_defs = route_InitializeConditions_def MarkServiceNotOwned_def MarkIngressRolloutInProgress_def
  MarkIngressNotConfigured_def MarkTrafficAssigned_def MarkUnknownTrafficError_def MarkConfigurationNotReady_def
  MarkConfigurationFailed_def MarkRevisionNotReady_def MarkRevisionFailed_def MarkMissingTrafficTarget_def
  MarkCertificateProvisionFailed_def MarkCertificateReady_def MarkCertificateNotReady_def
  MarkCertificateNotOwned_def MarkTLSNotEnabled_def MarkHTTPDowngrade_def

lemma status_op_sound: "sound_status ms \<Longrightarrow> sound_status (run_status_op clk sp op ms)"
proof (cases op)
  case (OpPropagateIngressStatus cs)
  assume "sound_status ms"
  then show ?thesis
    by (auto simp: OpPropagateIngressStatus PropagateIngressStatus_def MarkIngressNotConfigured_def sound_manage
        split: option.split condition_status.split)
qed (simp_all only: run_status_op.simps status_op_defs sound_manage)

lemma status_ops_sound: "sound_status ms \<Longrightarrow> sound_status (fold (run_status_op clk sp) ops ms)"
  by (induction ops arbitrary: ms) (simp_all add: status_op_sound)

lemma sound_ready:
  assumes "sound_status ms" and "cond_IsTrue (route_GetCondition (fst ms) RouteConditionReady)" and "d \<in> set (dependents routeCondSet)"
  shows "cond_IsTrue (route_GetCondition (fst ms) d)"
proof -
  have "\<exists>c. GetCondition (status_acc ms) RouteConditionReady = Some c \<and> c_Status c = ConditionTrue"
    using assms(2) by (cases "GetCondition (status_acc ms) RouteConditionReady") (auto simp: route_GetCondition_acc cond_IsTrue.simps)
  then have "status_of (status_acc ms) (happy routeCondSet) = Some ConditionTrue" by (auto simp: status_of_def)
  with assms(1,3) have "status_of (status_acc ms) d = Some ConditionTrue" by (auto simp: sound_status_def happy_inv_iff)
  then show ?thesis by (auto simp: route_GetCondition_acc status_of_def cond_IsTrue.simps split: option.splits)
qed

subsection \<open>Properties\<close>

text \<open>C24: Whatever status operations this controller and serving's own run on a route that starts without
  conditions, in whatever order, the route is ready only when its traffic is assigned, its ingress is ready
  and its certificate is provisioned; and it has one condition per type.\<close>

theorem ready_routes_are_configured:
  assumes "rst_Conditions (fst ms) = []"
    and "obj_status r = fst (fold (run_status_op clk sprintf0) ops ms)" and "route_IsReady r"
  shows "cond_IsTrue (route_GetCondition (obj_status r) RouteConditionAllTrafficAssigned)
    \<and> cond_IsTrue (route_GetCondition (obj_status r) RouteConditionIngressReady)
    \<and> cond_IsTrue (route_GetCondition (obj_status r) RouteConditionCertificateProvisioned)
    \<and> distinct (map c_Type (rst_Conditions (obj_status r)))"
proof -
  let ?last = "fold (run_status_op clk sprintf0) ops ms"
  have "status_acc ms = \<lparr>acc_Conditions = [], acc_Reads = snd ms\<rparr>" by (simp add: status_acc_def assms(1))
  then have "sound_status ms"
    by (simp add: sound_status_def conds_wf_def happy_inv_iff status_of_def GetCondition_def)
  then have s: "sound_status ?last" by (rule status_ops_sound)
  have "cond_IsTrue (route_GetCondition (fst ?last) RouteConditionReady)"
    using assms(3) by (simp add: route_IsReady_def assms(2))
  note ready = sound_ready [OF s this]
  have "distinct (map c_Type (rst_Conditions (fst ?last)))"
    using s by (simp add: sound_status_def conds_wf_def status_acc_def)
  with ready show ?thesis by (simp add: assms(2))
qed


definition demo_ops :: "status_op list" where
  "demo_ops = [OpInitializeConditions, OpRevisionFailed ''app-1'', OpTrafficAssigned, OpTLSNotEnabled AutoTLSNotEnabledMessage,
     OpPropagateIngressStatus [\<lparr>c_Type = IngressConditionReady, c_Status = ConditionTrue, c_Severity = SeverityError,
       c_LastTransitionTime = 0, c_Reason = '''', c_Message = ''''\<rparr>]]"

definition demo_fresh :: managed_status where
  "demo_fresh = (\<lparr>rst_ObservedGeneration = 0, rst_Conditions = [], rst_Annotations = None, rst_URL = None,
     rst_Address = None, rst_Traffic = []\<rparr>, 0)"

definition demo_ready :: route where
  "demo_ready = \<lparr>obj_meta = zero_meta, obj_spec = \<lparr>rsp_Traffic = []\<rparr>,
     obj_status = fst (fold (run_status_op (\<lambda>n. n) (\<lambda>s. s)) demo_ops demo_fresh)\<rparr>"

theorem ready_routes_are_configured_witness:
  "route_IsReady demo_ready \<and> cond_IsTrue (route_GetCondition (obj_status demo_ready) RouteConditionAllTrafficAssigned)"
proof -
  have ready: "route_IsReady demo_ready" by code_simp
  have fresh: "rst_Conditions (fst demo_fresh) = []" by (simp add: demo_fresh_def)
  have run: "obj_status demo_ready = fst (fold (run_status_op (\<lambda>n. n) (\<lambda>s. s)) demo_ops demo_fresh)" by (simp add: demo_ready_def)
  from ready_routes_are_configured [OF fresh run ready] ready show ?thesis by blast
qed

end
