(* ===== verification/QueueProgress.thy ===== *)
theory QueueProgress
  imports Workers
begin

text \<open>
  The work queue never gets stuck: from every state it can reach, a key on its way to a worker gets there by
  steps of the goroutines and the workers alone.
\<close>

subsection \<open>Steps that need nobody outside\<close>

text \<open>The steps of the queue's goroutines and of the workers, whose reconciliations succeed.\<close>

fun own_label :: "'k label \<Rightarrow> bool" where
  "own_label LInternal = True"
| "own_label (LTake w k) = True"
| "own_label (LHandled w k err) = (err = None)"
| "own_label (LFinished w k) = True"
| "own_label _ = False"

inductive delivers :: "'k \<Rightarrow> 'k two_lane \<Rightarrow> bool" where
  Now: "tl_step (LTake w k) s s' \<Longrightarrow> delivers k s"
| Later: "tl_step a s s' \<Longrightarrow> own_label a \<Longrightarrow> delivers k s' \<Longrightarrow> delivers k s"

lemma delivers_run:
  assumes "delivers k s"
  shows "\<exists>as s'. tl_run s as s' \<and> list_all own_label as \<and> (\<exists>w. LTake w k \<in> set as)"
  using assms
proof (induction rule: delivers.induct)
  case (Now w k s s')
  then have "tl_run s [LTake w k] s'" by (auto intro: tl_run.intros)
  then show ?case by (intro exI [of _ "[LTake w k]"] exI [of _ s']) auto
next
  case (Later a s s1 k)
  then obtain as s' where "tl_run s1 as s'" "list_all own_label as" "\<exists>w. LTake w k \<in> set as" by blast
  with Later(1,2) have "tl_run s (a # as) s'" "list_all own_label (a # as)" "\<exists>w. LTake w k \<in> set (a # as)"
    by (auto intro: tl_run.intros)
  then show ?case by blast
qed

lemmas internal = delivers.Later [OF _ own_label.simps(1) [THEN iffD2, OF TrueI]]
lemmas processing = internal [OF tl_step.Process] and consuming = internal [OF tl_step.Consume]

subsection \<open>From the consumer queue\<close>

text \<open>A worker that holds a key can always finish it.\<close>

lemma worker_frees:
  assumes ok: "tl_ok s" and h: "holds (tl_worker s w) = Some x"
    and rest: "\<And>s'. tl_ok s' \<Longrightarrow> tl_worker s' w = Idle \<Longrightarrow> tl_consumer s' = wq_Done x (tl_consumer s) \<Longrightarrow> delivers k s'"
  shows "delivers k s"
proof -
  have fin: "delivers k t" if t: "tl_ok t" "tl_worker t w = Finishing x" "tl_consumer t = tl_consumer s" for t
  proof (rule delivers.Later [OF tl_step.Finish [OF t(2)]])
    show "delivers k (put_worker w Idle (work_Done x t))"
      by (rule rest) (use t finish_ok [OF t(1,2)] in \<open>simp_all add: work_Done_def\<close>)
  qed simp
  show ?thesis
  proof (cases "tl_worker s w")
    case (Running y)
    with h have r: "tl_worker s w = Running x" by simp
    note st = tl_step.Handle [OF r, of None 0 0]
    show ?thesis
      by (rule delivers.Later [OF st]) (use tl_step_ok [OF st ok] in \<open>auto intro!: fin simp: work_Handle_def\<close>)
  next
    case (Finishing y)
    with h ok show ?thesis by (intro fin) simp_all
  qed (use h in simp_all)
qed

lemma queued_delivers:
  assumes "tl_ok s" and "tl_worker s w = Idle" and "wq_queue (tl_consumer s) = pre @ k # post"
  shows "delivers k s"
  using assms
proof (induction pre arbitrary: s)
  case Nil
  then obtain q where q: "wq_Get (tl_consumer s) = Some (Some k, q)" by (simp add: wq_Get_def)
  then have g: "work_Get w s = Some (put_worker w (Running k) (s\<lparr>tl_consumer := q\<rparr>))" by (simp add: work_Get_def)
  show ?case by (rule delivers.Now [OF tl_step.Take [OF Nil(2) g]]) simp
next
  case (Cons x pre)
  then obtain q where q: "wq_Get (tl_consumer s) = Some (Some x, q)" by (simp add: wq_Get_def)
  let ?s = "put_worker w (Running x) (s\<lparr>tl_consumer := q\<rparr>)"
  note G = wq_Get_Some [OF tl_okD(3) [OF Cons.prems(1)] q]
  have g: "work_Get w s = Some ?s" using q by (simp add: work_Get_def)
  have st: "tl_step (LTake w x) s ?s" by (rule tl_step.Take [OF Cons.prems(2) g]) simp
  show ?case
  proof (rule delivers.Later [OF st])
    show "delivers k ?s"
    proof (rule worker_frees [of _ w x])
      show "tl_ok ?s" by (rule tl_step_ok [OF st Cons.prems(1)])
    next
      fix s' assume s': "tl_ok s'" "tl_worker s' w = Idle" "tl_consumer s' = wq_Done x (tl_consumer ?s)"
      have "wq_queue (tl_consumer s') = pre @ k # post" using G(4,7) Cons.prems(3) by (simp add: s'(3) wq_Done_def Let_def)
      with s' show "delivers k s'" by (rule_tac Cons.IH)
    qed simp
  qed simp
qed

lemma consumer_delivers:
  assumes ok: "tl_ok s" and k: "k \<in> wq_dirty (tl_consumer s)" and w: "tl_worker s w \<noteq> Exited"
  shows "delivers k s"
proof (cases "k \<in> wq_processing (tl_consumer s)")
  case True
  then obtain v where v: "holds (tl_worker s v) = Some k" using ok by (auto simp: tl_ok_def held_def ran_def)
  show ?thesis
  proof (rule worker_frees [OF ok v])
    fix s' assume s': "tl_ok s'" "tl_worker s' v = Idle" "tl_consumer s' = wq_Done k (tl_consumer s)"
    have "wq_queue (tl_consumer s') = wq_queue (tl_consumer s) @ k # []" using k by (simp add: s'(3) wq_Done_def Let_def)
    with s' show "delivers k s'" by (rule_tac queued_delivers)
  qed
next
  case False
  then have "k \<in> set (wq_queue (tl_consumer s))" using tl_okD(3) [OF ok] k by (simp add: wq_ok_def)
  then obtain pre post where q: "wq_queue (tl_consumer s) = pre @ k # post" by (auto dest: split_list)
  show ?thesis
  proof (cases "holds (tl_worker s w)")
    case None
    with w have "tl_worker s w = Idle" by (cases "tl_worker s w") simp_all
    with ok q show ?thesis by (rule_tac queued_delivers)
  next
    case (Some x)
    show ?thesis
    proof (rule worker_frees [OF ok Some])
      fix s' assume s': "tl_ok s'" "tl_worker s' w = Idle" "tl_consumer s' = wq_Done x (tl_consumer s)"
      have "\<exists>post'. wq_queue (tl_consumer s') = pre @ k # post'" by (simp add: s'(3) wq_Done_def Let_def q)
      with s' show "delivers k s'" by (blast intro: queued_delivers)
    qed
  qed
qed

subsection \<open>Through the channels\<close>

text \<open>What a goroutine is sending gets into the consumer queue, whichever channel is looked at first.\<close>

lemma sent_arrives:
  assumes ok: "tl_ok s" and sent: "tl_sender s l = Sending x"
    and rest: "\<And>s'. tl_ok s' \<Longrightarrow> tl_sender s' l = Polling \<Longrightarrow> tl_lane s' = tl_lane s \<Longrightarrow> tl_worker s' = tl_worker s
      \<Longrightarrow> x \<in> wq_dirty (tl_consumer s') \<Longrightarrow> delivers k s'"
  shows "delivers k s"
proof -
  have alive: "tl_open t l \<and> tl_phase t \<noteq> Stopped" if t: "tl_ok t" "tl_sender t l = Sending x" for t
    using t by (auto simp: tl_ok_def lane_ok_def)
  have take: "delivers k t" if t: "tl_ok t" "tl_sender t l = Sending x" "tl_lane t = tl_lane s" "tl_worker t = tl_worker s"
      and st: "runConsumer_step l t = receive l t" for t
  proof -
    let ?t = "t\<lparr>tl_sender := (tl_sender t)(l := Polling), tl_consumer := wq_Add x (tl_consumer t), tl_phase := Draining\<rparr>"
    have c: "runConsumer_step l t = Some ?t" using st t(2) by (simp add: receive_def)
    have "\<not> wq_shuttingDown (tl_consumer t)" using alive [OF t(1,2)] tl_okD(4) [OF t(1)] by simp
    then show ?thesis
      by (intro consuming [OF c] rest) (use t tl_step_ok [OF tl_step.Consume [OF c] t(1)] in simp_all)
  qed
  have select: "delivers k t" if t: "tl_ok t" "tl_sender t l = Sending x" "tl_lane t = tl_lane s" "tl_worker t = tl_worker s"
      and st: "runConsumer_step l t = Some (t\<lparr>tl_phase := Selecting\<rparr>)" for t
    by (intro consuming [OF st] take) (use t tl_step_ok [OF tl_step.Consume [OF st] t(1)] in \<open>simp_all add: runConsumer_step_def\<close>)
  have drain: "delivers k t" if t: "tl_ok t" "tl_sender t l = Sending x" "tl_lane t = tl_lane s" "tl_worker t = tl_worker s"
      and d: "tl_phase t = Draining" and f: "\<not> tl_open t Fast \<or> receive Fast t = None" for t
    by (rule select [OF t]) (use alive [OF t(1,2)] d f in \<open>cases l; auto simp: runConsumer_step_def\<close>)
  show ?thesis
  proof (cases "tl_phase s")
    case Selecting
    then show ?thesis by (intro take) (simp_all add: ok sent runConsumer_step_def)
  next
    case Draining
    show ?thesis
    proof (cases "\<not> tl_open s Fast \<or> receive Fast s = None")
      case False
      then obtain s1 where s1: "tl_open s Fast" "receive Fast s = Some s1" by auto
      then have c: "runConsumer_step l s = Some s1" using Draining by (simp add: runConsumer_step_def)
      show ?thesis
      proof (cases l)
        case Fast
        then show ?thesis by (intro take) (use c s1 ok sent in simp_all)
      next
        case Slow
        have n: "tl_sender s1 l = Sending x" "tl_lane s1 = tl_lane s" "tl_worker s1 = tl_worker s" "tl_phase s1 = Draining"
            "\<not> tl_open s1 Fast \<or> receive Fast s1 = None"
          using s1(2) sent Slow by (auto simp: receive_def split: sender.splits)
        show ?thesis by (intro consuming [OF c] drain n tl_step_ok [OF tl_step.Consume [OF c] ok])
      qed
    qed (intro drain, simp_all add: ok sent Draining)
  qed (use alive [OF ok sent] in simp)
qed

text \<open>A goroutine that took a key hands it on and comes back for the next, its lane unchanged but for the key.\<close>

lemma got_arrives:
  assumes ok: "tl_ok s" and got: "tl_sender s l = Got x"
    and rest: "\<And>s'. tl_ok s' \<Longrightarrow> tl_sender s' l = Polling \<Longrightarrow> lane_queue s' l = wq_Done x (lane_queue s l)
      \<Longrightarrow> tl_worker s' = tl_worker s \<Longrightarrow> x \<in> wq_dirty (tl_consumer s') \<Longrightarrow> delivers k s'"
  shows "delivers k s"
proof -
  let ?s = "put_lane l ((tl_lane s l)\<lparr>dq_queue := wq_Done x (lane_queue s l)\<rparr>) (s\<lparr>tl_sender := (tl_sender s)(l := Sending x)\<rparr>)"
  have p: "process_step l s = Some ?s" using got by (simp add: process_step_def)
  show ?thesis
    by (intro processing [OF p] sent_arrives [of ?s l x] rest)
      (use tl_step_ok [OF tl_step.Process [OF p] ok] in simp_all)
qed

subsection \<open>From a lane\<close>

lemma polled_delivers:
  assumes "tl_ok s" and "tl_sender s l = Polling" and "tl_worker s w \<noteq> Exited"
    and "wq_queue (lane_queue s l) = pre @ k # post"
  shows "delivers k s"
  using assms
proof (induction pre arbitrary: s)
  case (Cons x pre)
  then obtain q where q: "wq_Get (lane_queue s l) = Some (Some x, q)" by (simp add: wq_Get_def)
  let ?s = "put_lane l ((tl_lane s l)\<lparr>dq_queue := q\<rparr>) (s\<lparr>tl_sender := (tl_sender s)(l := Got x)\<rparr>)"
  have p: "process_step l s = Some ?s" using q Cons.prems(2) by (simp add: process_step_def)
  note G = wq_Get_Some [OF tl_okD(2) [OF Cons.prems(1)] q]
  show ?case
  proof (intro processing [OF p] got_arrives [of ?s l x])
    show "tl_ok ?s" by (rule tl_step_ok [OF tl_step.Process [OF p] Cons.prems(1)])
  next
    fix s' assume s': "tl_ok s'" "tl_sender s' l = Polling" "lane_queue s' l = wq_Done x (lane_queue ?s l)" "tl_worker s' = tl_worker ?s"
    have "wq_queue (lane_queue s' l) = pre @ k # post"
      using G(4,7) Cons.prems(4) by (simp add: s'(3) wq_Done_def Let_def)
    with s' Cons.prems(3) show "delivers k s'" by (rule_tac Cons.IH) simp_all
  qed simp
next
  case Nil
  then obtain q where q: "wq_Get (lane_queue s l) = Some (Some k, q)" by (simp add: wq_Get_def)
  let ?s = "put_lane l ((tl_lane s l)\<lparr>dq_queue := q\<rparr>) (s\<lparr>tl_sender := (tl_sender s)(l := Got k)\<rparr>)"
  have p: "process_step l s = Some ?s" using q Nil(2) by (simp add: process_step_def)
  show ?case
    by (intro processing [OF p] got_arrives [of ?s l k] consumer_delivers)
      (use tl_step_ok [OF tl_step.Process [OF p] Nil(1)] Nil(3) in simp_all)
qed

lemma lane_delivers:
  assumes ok: "tl_ok s" and w: "tl_worker s w \<noteq> Exited" and k: "k \<in> wq_dirty (lane_queue s l) \<union> sender_has (tl_sender s l)"
  shows "delivers k s"
proof -
  have polled: "delivers k t" if t: "tl_ok t" "tl_sender t l = Polling" "tl_worker t = tl_worker s" "k \<in> set (wq_queue (lane_queue t l))" for t
    using split_list [OF t(4)] polled_delivers [OF t(1,2)] w t(3) by fastforce
  note L = tl_okD(1) [OF ok, of l]
  show ?thesis
  proof (cases "tl_sender s l")
    case Polling
    with L k have "k \<in> set (wq_queue (lane_queue s l))" by (simp add: lane_ok_def wq_ok_def)
    with ok Polling show ?thesis by (intro polled) simp_all
  next
    case (Got x)
    show ?thesis
    proof (rule got_arrives [OF ok Got])
      fix s' assume s': "tl_ok s'" "tl_sender s' l = Polling" "lane_queue s' l = wq_Done x (lane_queue s l)"
        "tl_worker s' = tl_worker s" "x \<in> wq_dirty (tl_consumer s')"
      show "delivers k s'"
      proof (cases "k = x")
        case True
        with s' w show ?thesis by (intro consumer_delivers) simp_all
      next
        case False
        then have "k \<in> set (wq_queue (lane_queue s' l))"
          using L k Got by (auto simp: s'(3) lane_ok_def wq_ok_def wq_Done_def Let_def)
        with s' show ?thesis by (intro polled)
      qed
    qed
  next
    case (Sending x)
    show ?thesis
    proof (rule sent_arrives [OF ok Sending])
      fix s' assume s': "tl_ok s'" "tl_sender s' l = Polling" "tl_lane s' = tl_lane s" "tl_worker s' = tl_worker s"
        "x \<in> wq_dirty (tl_consumer s')"
      show "delivers k s'"
      proof (cases "k = x")
        case True
        with s' w show ?thesis by (intro consumer_delivers) simp_all
      next
        case False
        then have "k \<in> set (wq_queue (lane_queue s' l))" using L k Sending by (simp add: s'(3) lane_ok_def wq_ok_def)
        with s' show ?thesis by (intro polled)
      qed
    qed
  next
    case Closed
    with L k wq_idle_empty [of "lane_queue s l"] show ?thesis by (simp add: lane_ok_def)
  qed
qed

subsection \<open>Properties\<close>

text \<open>C13: The queue is never stuck: in every state it can get into, as long as one worker has not exited, a key
  on its way can be handed to a worker by steps of the goroutines and the workers alone, none of which
  waits for a producer or the clock.\<close>

theorem pending_keys_can_be_taken:
  assumes "tl_run newTwoLaneWorkQueue as0 s" and "k \<in> pending s" and "tl_worker s w \<noteq> Exited"
  shows "\<exists>as s'. tl_run s as s' \<and> list_all own_label as \<and> (\<exists>v. LTake v k \<in> set as)"
proof -
  have ok: "tl_ok s" using tl_run_ok [OF assms(1)] by simp
  from assms(2) have "delivers k s"
    by (cases rule: pendingE) (auto intro: lane_delivers [OF ok assms(3)] consumer_delivers [OF ok _ assms(3)])
  then show ?thesis by (rule delivers_run)
qed

theorem pending_keys_can_be_taken_witness:
  "\<exists>as s'. tl_run (tl_Add Slow ''prod/other'' demo_taken) as s' \<and> list_all own_label as \<and> (\<exists>v. LTake v ''prod/other'' \<in> set as)"
proof -
  have "''prod/other'' \<in> pending (tl_Add Slow ''prod/other'' demo_taken)" by (rule tl_Add_pending) (rule demo_run(4))
  moreover have "tl_worker (tl_Add Slow ''prod/other'' demo_taken) 0 \<noteq> Exited" using demo_run(3) by (simp add: tl_Add_def)
  moreover have "tl_run demo_taken [LAdd Slow ''prod/other''] (tl_Add Slow ''prod/other'' demo_taken)"
    by (rule tl_run.intros tl_step.Add)+
  note tl_run_append [OF demo_run(2) this]
  ultimately show ?thesis by (rule_tac pending_keys_can_be_taken)
qed

end
