(* ===== verification/SettledStatus.thy ===== *)
theory SettledStatus
  imports RouteController
begin

text \<open>
  What a run of the controller leaves in the status of a route is a fixed point of the operations of the next
  run, whatever the clocks and transition times: so a route whose cached status is the one written last is
  not written again, and the controller does not wake itself.
\<close>

subsection \<open>Conditions that say the same\<close>

definition says :: "accessor \<Rightarrow> condition \<Rightarrow> bool" where
  "says a c \<longleftrightarrow> (\<exists>tm. GetCondition a (c_Type c) = Some (c\<lparr>c_LastTransitionTime := tm\<rparr>))"

lemma says_status: "says a c \<Longrightarrow> status_of a (c_Type c) = Some (c_Status c)"
  by (auto simp: says_def status_of_def)

lemma SetCondition_says: "types_distinct a \<Longrightarrow> says (SetCondition clk c a) c"
  unfolding says_def by (rule GetCondition_SetCondition_same)

lemma SetCondition_keeps_says:
  "types_distinct a \<Longrightarrow> says a c' \<Longrightarrow> c_Type c' \<noteq> c_Type c \<Longrightarrow> says (SetCondition clk c a) c'"
  by (simp add: says_def GetCondition_SetCondition_other)

lemma set_loop_says:
  "distinct (map c_Type cs) \<Longrightarrow> c \<in> set cs \<Longrightarrow> c = cond\<lparr>c_LastTransitionTime := tm\<rparr> \<Longrightarrow> set_loop cond kept cs = None"
proof (induction cs arbitrary: kept)
  case (Cons d ds)
  have ty: "c_Type c = c_Type cond" using Cons.prems(3) by simp
  show ?case
  proof (cases "c_Type d = c_Type cond")
    case True
    with Cons.prems(1,2) ty have "c = d" by (metis image_eqI image_set list.simps(9) distinct.simps(2) set_ConsD)
    with Cons.prems(3) show ?thesis by simp
  next
    case False
    with Cons.prems ty have "c \<in> set ds" by auto
    with False Cons show ?thesis by simp
  qed
qed simp

text \<open>Setting a condition that says nothing new changes nothing.\<close>

lemma SetCondition_idle: "types_distinct a \<Longrightarrow> says a c \<Longrightarrow> SetCondition clk c a = a"
  using set_loop_says [of "acc_Conditions a"]
  by (auto simp: says_def SetCondition_def GetCondition_iff)

text \<open>Other transition times.\<close>

definition retime :: "(condition \<Rightarrow> nat) \<Rightarrow> accessor \<Rightarrow> accessor" where
  "retime f a = a\<lparr>acc_Conditions := map (\<lambda>c. c\<lparr>c_LastTransitionTime := f c\<rparr>) (acc_Conditions a)\<rparr>"

lemma retime_Get: "GetCondition (retime f a) t = map_option (\<lambda>c. c\<lparr>c_LastTransitionTime := f c\<rparr>) (GetCondition a t)"
proof -
  have "List.find (\<lambda>c. c_Type c = t) (map (\<lambda>c. c\<lparr>c_LastTransitionTime := f c\<rparr>) cs)
      = map_option (\<lambda>c. c\<lparr>c_LastTransitionTime := f c\<rparr>) (List.find (\<lambda>c. c_Type c = t) cs)" for cs
    by (induction cs) simp_all
  then show ?thesis by (simp add: retime_def GetCondition_def)
qed

lemma retime_simps [simp]:
  "status_of (retime f a) t = status_of a t" "says a c \<Longrightarrow> says (retime f a) c"
  "conds_wf r (retime f a) = conds_wf r a"
  by (auto simp: status_of_def says_def retime_Get option.map_comp comp_def)
    (auto simp: conds_wf_def retime_def comp_def)

subsection \<open>One unhappy dependent\<close>

lemma single_unhappy:
  assumes wf: "conds_wf r a" and sw: "set_wf r" and t: "t \<in> set (dependents r)" and c: "GetCondition a t = Some c"
    and others: "\<And>d. d \<in> set (dependents r) \<Longrightarrow> d \<noteq> t \<Longrightarrow> status_of a d = Some ConditionTrue"
  shows "findUnhappyDependent r a = (if c_Status c = ConditionTrue then None else Some c)"
proof -
  let ?cs = "by_time (filter (\<lambda>c. c_Severity c = SeverityError \<and> c_Type c \<noteq> happy r) (acc_Conditions a))"
  have cs: "e \<in> set ?cs \<longleftrightarrow> e \<in> set (acc_Conditions a) \<and> c_Type e \<in> set (dependents r)" for e
    by (simp add: unhappy_conditions [OF wf sw])
  have ct: "c \<in> set ?cs" "c_Type c = t" using GetCondition_type [OF c] t by (simp_all add: cs)
  have st: "status_of a (c_Type e) = Some (c_Status e)" if "e \<in> set ?cs" for e
    using that conds_wf_distinct [OF wf] by (auto simp: status_of_Some_iff cs)
  have uniq: "e = c" if "e \<in> set ?cs" "c_Status e \<noteq> ConditionTrue" for e
  proof -
    have "c_Type e = t" using others [of "c_Type e"] st [OF that(1)] that cs [of e] by auto
    then have "GetCondition a t = Some e" using that(1) conds_wf_distinct [OF wf] by (simp add: GetCondition_iff cs)
    with c show ?thesis by simp
  qed
  show ?thesis
  proof (cases "c_Status c = ConditionTrue")
    case True
    then have "status_of a t = Some ConditionTrue" using c by (simp add: status_of_def)
    with others have "\<not> (\<exists>d \<in> set (dependents r). status_of a d \<noteq> Some ConditionTrue)" by blast
    with findUnhappy_Some(2) [OF wf sw] True show ?thesis by (cases "findUnhappyDependent r a") auto
  next
    case False
    moreover have "c_Status c \<in> {ConditionTrue, ConditionFalse, ConditionUnknown}"
      using wf ct t by (auto simp: conds_wf_def isTerminal_iff cs)
    ultimately consider "c_Status c = ConditionFalse" | "c_Status c = ConditionUnknown" by auto
    then show ?thesis
    proof cases
      case 1
      have "List.find (\<lambda>c. cond_IsFalse (Some c)) ?cs = Some c"
      proof (cases "List.find (\<lambda>c. cond_IsFalse (Some c)) ?cs")
        case None
        with 1 ct show ?thesis by (auto simp: find_None_iff)
      next
        case (Some e)
        then have "e \<in> set ?cs" "c_Status e = ConditionFalse" by (auto simp: find_Some_iff)
        with uniq Some show ?thesis by auto
      qed
      with t 1 show ?thesis by (auto simp: findUnhappyDependent_def Let_def)
    next
      case 2
      have "List.find (\<lambda>c. cond_IsFalse (Some c)) ?cs = None" using uniq 2 by (auto simp: find_None_iff)
      moreover have "List.find (\<lambda>c. cond_IsUnknown (Some c)) ?cs = Some c"
      proof (cases "List.find (\<lambda>c. cond_IsUnknown (Some c)) ?cs")
        case None
        with 2 ct show ?thesis by (auto simp: find_None_iff)
      next
        case (Some e)
        then have "e \<in> set ?cs" "c_Status e = ConditionUnknown" by (auto simp: find_Some_iff)
        with uniq Some show ?thesis by auto
      qed
      ultimately show ?thesis using t 2 by (auto simp: findUnhappyDependent_def Let_def)
    qed
  qed
qed

text \<open>The happy condition that sums up one dependent.\<close>

definition summary :: "condition_set \<Rightarrow> condition \<Rightarrow> condition" where
  "summary r c = (if c_Status c = ConditionTrue then mk_condition r (happy r) ConditionTrue '''' ''''
     else mk_condition r (happy r) (c_Status c) (c_Reason c) (c_Message c))"

lemma summary_simps [simp]:
  "c_Type (summary r c) = happy r" "summary r (c\<lparr>c_LastTransitionTime := tm\<rparr>) = summary r c"
  by (simp_all add: summary_def)

lemma recompute_single:
  assumes "conds_wf r a" and "set_wf r" and "t \<in> set (dependents r)" and "GetCondition a t = Some c"
    and "\<And>d. d \<in> set (dependents r) \<Longrightarrow> d \<noteq> t \<Longrightarrow> status_of a d = Some ConditionTrue" and "t' \<noteq> happy r"
  shows "recomputeHappiness clk r t' a = SetCondition clk (summary r c) a"
  using single_unhappy [OF assms(1-5)] assms(6) by (simp add: recomputeHappiness_def summary_def)

lemma recompute_sets:
  assumes "t' \<noteq> happy r"
  obtains st rs ms where "recomputeHappiness clk r t' a = SetCondition clk (mk_condition r (happy r) st rs ms) a"
  using assms by (cases "findUnhappyDependent r a") (auto simp: recomputeHappiness_def)

subsection \<open>What the reconciler marks\<close>

definition marked :: "bool \<Rightarrow> clock \<Rightarrow> accessor \<Rightarrow> accessor" where
  "marked ready clk a =
     (if ready
      then MarkTrueWithReason clk routeCondSet RouteConditionCertificateProvisioned ''TLSNotEnabled'' AutoTLSNotEnabledMessage
             (MarkTrue clk routeCondSet RouteConditionIngressReady a)
      else MarkUnknown clk routeCondSet RouteConditionIngressReady
             ''IngressNotConfigured'' ''Ingress has not yet been reconciled.'' a)"

definition all_present :: "accessor \<Rightarrow> bool" where
  "all_present a \<longleftrightarrow> (\<forall>t. isTerminal routeCondSet t \<longrightarrow> status_of a t \<noteq> None)"

definition settled_ready :: "accessor \<Rightarrow> bool" where
  "settled_ready a \<longleftrightarrow> says a (mk_condition routeCondSet RouteConditionIngressReady ConditionTrue '''' '''')
     \<and> says a (mk_condition routeCondSet RouteConditionCertificateProvisioned ConditionTrue ''TLSNotEnabled'' AutoTLSNotEnabledMessage)
     \<and> (\<exists>c. GetCondition a RouteConditionAllTrafficAssigned = Some c \<and> says a (summary routeCondSet c))"

definition settled_waiting :: "accessor \<Rightarrow> bool" where
  "settled_waiting a \<longleftrightarrow>
     says a (mk_condition routeCondSet RouteConditionIngressReady ConditionUnknown
       ''IngressNotConfigured'' ''Ingress has not yet been reconciled.'')
     \<and> (if \<exists>d \<in> set (dependents routeCondSet). status_of a d = Some ConditionFalse
        then status_of a (happy routeCondSet) = Some ConditionFalse
        else says a (mk_condition routeCondSet (happy routeCondSet) ConditionUnknown
               ''IngressNotConfigured'' ''Ingress has not yet been reconciled.''))"

definition settled :: "bool \<Rightarrow> accessor \<Rightarrow> bool" where
  "settled ready a \<longleftrightarrow> conds_wf routeCondSet a \<and> all_present a \<and> (if ready then settled_ready a else settled_waiting a)"

lemma Set_wf_present:
  assumes "conds_wf routeCondSet a" and "all_present a" and "st \<in> {ConditionTrue, ConditionFalse, ConditionUnknown}"
  shows "conds_wf routeCondSet (SetCondition clk (mk_condition routeCondSet t st rs msg) a)
    \<and> all_present (SetCondition clk (mk_condition routeCondSet t st rs msg) a)"
  using assms by (auto simp: SetCondition_mk_wf all_present_def status_SetCondition conds_wf_distinct)

lemma summary_wf:
  assumes "conds_wf routeCondSet a" and "all_present a" and "GetCondition a RouteConditionAllTrafficAssigned = Some c"
  shows "conds_wf routeCondSet (SetCondition clk (summary routeCondSet c) a) \<and> all_present (SetCondition clk (summary routeCondSet c) a)"
proof -
  have "c_Status c \<in> {ConditionTrue, ConditionFalse, ConditionUnknown}"
    using conds_wf_status [OF assms(1), of RouteConditionAllTrafficAssigned] assms(3) by (simp add: isTerminal_iff status_of_def)
  then show ?thesis unfolding summary_def using Set_wf_present [OF assms(1,2)] by auto
qed

lemma recompute_traffic:
  assumes "conds_wf routeCondSet a" and "GetCondition a RouteConditionAllTrafficAssigned = Some c"
    and "status_of a RouteConditionIngressReady = Some ConditionTrue"
    and "status_of a RouteConditionCertificateProvisioned = Some ConditionTrue" and "t' \<noteq> RouteConditionReady"
  shows "recomputeHappiness clk routeCondSet t' a = SetCondition clk (summary routeCondSet c) a"
  by (rule recompute_single [OF assms(1) routeCondSet_wf _ assms(2)]) (use assms in auto)

lemma all_present_Get: "all_present a \<Longrightarrow> isTerminal routeCondSet t \<Longrightarrow> \<exists>c. GetCondition a t = Some c"
  by (auto simp: all_present_def status_of_def)

lemma ready_settles:
  assumes wf: "conds_wf routeCondSet a" and pr: "all_present a"
  shows "settled True (marked True clk a)"
proof -
  let ?i = "mk_condition routeCondSet RouteConditionIngressReady ConditionTrue '''' ''''"
  let ?t = "mk_condition routeCondSet RouteConditionCertificateProvisioned ConditionTrue ''TLSNotEnabled'' AutoTLSNotEnabledMessage"
  define a1 where "a1 = SetCondition clk ?i a"
  have w1: "conds_wf routeCondSet a1" "all_present a1" using Set_wf_present [OF wf pr] by (simp_all add: a1_def)
  define a2 where "a2 = MarkTrue clk routeCondSet RouteConditionIngressReady a"
  have a2: "a2 = recomputeHappiness clk routeCondSet RouteConditionIngressReady a1" by (simp add: a2_def a1_def MarkTrue_def)
  obtain st rs ms where r2: "a2 = SetCondition clk (mk_condition routeCondSet RouteConditionReady st rs ms) a1"
    unfolding a2 using recompute_sets [of RouteConditionIngressReady routeCondSet clk a1] by auto
  have wf2: "conds_wf routeCondSet a2" by (simp add: a2_def MarkTrue_wf wf)
  have pr2: "all_present a2" using w1(2) by (auto simp: r2 all_present_def status_SetCondition conds_wf_distinct [OF w1(1)])
  have s2: "says a2 ?i" unfolding r2 a1_def
    by (rule SetCondition_keeps_says) (simp_all add: SetCondition_says conds_wf_distinct [OF wf] SetCondition_distinct)
  define a3 where "a3 = SetCondition clk ?t a2"
  have w3: "conds_wf routeCondSet a3" "all_present a3" using Set_wf_present [OF wf2 pr2] by (simp_all add: a3_def)
  have s3: "says a3 ?i" "says a3 ?t"
    using s2 conds_wf_distinct [OF wf2] by (simp_all add: a3_def SetCondition_says SetCondition_keeps_says)
  obtain c where c: "GetCondition a3 RouteConditionAllTrafficAssigned = Some c"
    using all_present_Get [OF w3(2), of RouteConditionAllTrafficAssigned] by (auto simp: isTerminal_iff)
  have "marked True clk a = SetCondition clk (summary routeCondSet c) a3"
    using recompute_traffic [OF w3(1) c, of RouteConditionCertificateProvisioned clk] says_status [OF s3(1)] says_status [OF s3(2)]
    by (simp add: marked_def MarkTrueWithReason_def a3_def a2_def [symmetric])
  moreover note d3 = conds_wf_distinct [OF w3(1)]
  have "says (SetCondition clk (summary routeCondSet c) a3) ?i" "says (SetCondition clk (summary routeCondSet c) a3) ?t"
    using s3 by (simp_all add: SetCondition_keeps_says d3)
  moreover have "says (SetCondition clk (summary routeCondSet c) a3) (summary routeCondSet c)"
    by (rule SetCondition_says [OF d3])
  moreover have "GetCondition (SetCondition clk (summary routeCondSet c) a3) RouteConditionAllTrafficAssigned = Some c"
    using c by (simp add: GetCondition_SetCondition_other d3)
  ultimately show ?thesis using summary_wf [OF w3 c] by (simp add: settled_def settled_ready_def)
qed

lemma waiting_settles:
  assumes wf: "conds_wf routeCondSet a" and pr: "all_present a"
  shows "settled False (marked False clk a)"
proof -
  let ?r = "''IngressNotConfigured''" and ?m = "''Ingress has not yet been reconciled.''"
  let ?i = "mk_condition routeCondSet RouteConditionIngressReady ConditionUnknown ?r ?m"
  define a1 where "a1 = SetCondition clk ?i a"
  have w1: "conds_wf routeCondSet a1" "all_present a1" using Set_wf_present [OF wf pr] by (simp_all add: a1_def)
  note d1 = conds_wf_distinct [OF w1(1)]
  have s1: "says a1 ?i" unfolding a1_def by (rule SetCondition_says [OF conds_wf_distinct [OF wf]])
  let ?bad = "\<exists>d \<in> set (dependents routeCondSet). status_of a1 d = Some ConditionFalse"
  have m: "marked False clk a = (if ?bad
      then (if status_of a1 RouteConditionReady = Some ConditionFalse then a1
            else SetCondition clk (mk_condition routeCondSet RouteConditionReady ConditionFalse ?r ?m) a1)
      else SetCondition clk (mk_condition routeCondSet RouteConditionReady ConditionUnknown ?r ?m) a1)"
    by (simp add: marked_def MarkUnknown_def a1_def [symmetric] unknown_scan_eq cond_status_iff MarkFalse_eq)
  have bad: "(\<exists>d \<in> set (dependents routeCondSet).
        status_of (SetCondition clk (mk_condition routeCondSet RouteConditionReady st rs ms) a1) d = Some ConditionFalse) = ?bad"
    for st rs ms by (simp add: status_SetCondition d1)
  have up: "settled False (SetCondition clk (mk_condition routeCondSet RouteConditionReady st ?r ?m) a1)"
    if "st = (if ?bad then ConditionFalse else ConditionUnknown)" for st
    unfolding settled_def settled_waiting_def bad
    using Set_wf_present [OF w1, of st] that s1
    by (simp add: SetCondition_keeps_says d1 SetCondition_says status_SetCondition)
  show ?thesis
  proof (cases "?bad \<and> status_of a1 RouteConditionReady = Some ConditionFalse")
    case True
    then have "marked False clk a = a1" by (simp add: m)
    with True w1 s1 show ?thesis by (simp add: settled_def settled_waiting_def)
  next
    case False
    then show ?thesis using up unfolding m by auto
  qed
qed

lemma marked_settles: "conds_wf routeCondSet a \<Longrightarrow> all_present a \<Longrightarrow> settled ready (marked ready clk a)"
  by (cases ready) (simp_all add: ready_settles waiting_settles)

text \<open>A second time nothing changes.\<close>

lemma settled_marked:
  assumes "settled ready a"
  shows "marked ready clk a = a"
proof (cases ready)
  case True
  then have wf: "conds_wf routeCondSet a" and s: "settled_ready a" using assms by (simp_all add: settled_def)
  note d = conds_wf_distinct [OF wf]
  obtain c where c: "GetCondition a RouteConditionAllTrafficAssigned = Some c" "says a (summary routeCondSet c)"
    and i: "says a (mk_condition routeCondSet RouteConditionIngressReady ConditionTrue '''' '''')"
    and t: "says a (mk_condition routeCondSet RouteConditionCertificateProvisioned ConditionTrue ''TLSNotEnabled'' AutoTLSNotEnabledMessage)"
    using s by (auto simp: settled_ready_def)
  have "recomputeHappiness clk routeCondSet t' a = a" if "t' \<noteq> RouteConditionReady" for t'
    using recompute_traffic [OF wf c(1) _ _ that, of clk] says_status [OF i] says_status [OF t] SetCondition_idle [OF d c(2)] by simp
  then show ?thesis using True
    by (simp add: marked_def MarkTrue_def MarkTrueWithReason_def SetCondition_idle [OF d i] SetCondition_idle [OF d t])
next
  case False
  then have wf: "conds_wf routeCondSet a" and s: "settled_waiting a" using assms by (simp_all add: settled_def)
  note d = conds_wf_distinct [OF wf]
  have i: "says a (mk_condition routeCondSet RouteConditionIngressReady ConditionUnknown
       ''IngressNotConfigured'' ''Ingress has not yet been reconciled.'')" using s by (simp add: settled_waiting_def)
  show ?thesis
  proof (cases "\<exists>d \<in> set (dependents routeCondSet). status_of a d = Some ConditionFalse")
    case True
    then have "status_of a RouteConditionReady = Some ConditionFalse" using s by (simp add: settled_waiting_def)
    with True False show ?thesis
      by (simp add: marked_def MarkUnknown_def SetCondition_idle [OF d i] unknown_scan_eq cond_status_iff)
  next
    case ok: False
    then have "says a (mk_condition routeCondSet RouteConditionReady ConditionUnknown
               ''IngressNotConfigured'' ''Ingress has not yet been reconciled.'')"
      using s by (simp add: settled_waiting_def)
    from SetCondition_idle [OF d this] ok False show ?thesis
      by (simp add: marked_def MarkUnknown_def SetCondition_idle [OF d i] unknown_scan_eq)
  qed
qed

lemma settled_retime:
  assumes "settled ready a"
  shows "settled ready (retime f a)"
proof -
  have "all_present (retime f a)" using assms by (simp add: settled_def all_present_def)
  moreover have "settled_ready a \<Longrightarrow> settled_ready (retime f a)" by (auto simp: settled_ready_def retime_Get)
  moreover have "settled_waiting a \<Longrightarrow> settled_waiting (retime f a)" by (auto simp: settled_waiting_def)
  ultimately show ?thesis using assms by (simp add: settled_def)
qed

lemma init_present:
  assumes "conds_wf routeCondSet a"
  shows "conds_wf routeCondSet (InitializeConditions clk routeCondSet a) \<and> all_present (InitializeConditions clk routeCondSet a)"
  using InitializeConditions_spec(1,2) [OF assms routeCondSet_wf, of clk]
    InitializeConditions_spec(3) [OF assms routeCondSet_wf, of _ clk]
  unfolding all_present_def isTerminal_iff by (auto split: option.splits)

lemma init_idle:
  assumes "all_present a"
  shows "InitializeConditions clk routeCondSet a = a"
proof -
  obtain h where h: "GetCondition a RouteConditionReady = Some h"
    using all_present_Get [OF assms, of RouteConditionReady] by (auto simp: isTerminal_iff)
  have "set ds \<subseteq> set (dependents routeCondSet) \<Longrightarrow> fold (initializeTerminalCondition clk st) ds a = a" for ds st
  proof (induction ds)
    case (Cons t ds)
    obtain c where "GetCondition a t = Some c"
      using all_present_Get [OF assms, of t] Cons.prems by (auto simp: isTerminal_iff)
    then have "initializeTerminalCondition clk st t a = a" by (simp add: initializeTerminalCondition_def)
    with Cons show ?case by simp
  qed simp
  then show ?thesis by (simp add: InitializeConditions_def h)
qed

subsection \<open>The status of a route\<close>

abbreviation conds_of :: "route_status \<Rightarrow> accessor" where
  "conds_of st \<equiv> status_acc (st, 0)"

lemma manage_manage: "manage f (manage g ms) = manage (\<lambda>a. f (g a)) ms"
proof -
  have eta: "\<lparr>acc_Conditions = acc_Conditions a, acc_Reads = acc_Reads a\<rparr> = a" for a by simp
  show ?thesis by (simp add: manage_def Let_def eta)
qed

lemma manage_idle:
  assumes "f (status_acc ms) = status_acc ms"
  shows "manage f ms = ms"
  using assms by (cases ms) (simp add: manage_def status_acc_def Let_def)

lemma ReconcileKind_marks:
  assumes "ReconcileKind c ctx clk sprintf0 od r s = (Inr r', s')"
  shows "if gateway_api_enabled r then \<exists>ready. r' = r\<lparr>obj_status := fst (manage (marked ready clk) (obj_status r, 0))\<rparr> else r' = r"
proof (cases "gateway_api_enabled r")
  case True
  have p: "PropagateIngressStatus clk sprintf0 [ready_condition] ms = manage (MarkTrue clk routeCondSet RouteConditionIngressReady) ms" for ms
    by (rule PropagateIngressStatus_true [of _ ready_condition]) (simp_all add: ready_condition_def)
  have "r' = r\<lparr>obj_status := fst (manage (marked b clk) (obj_status r, 0))\<rparr>"
    if "r' = r\<lparr>obj_status := fst (if b then MarkTLSNotEnabled clk AutoTLSNotEnabledMessage
           (PropagateIngressStatus clk sprintf0 [ready_condition] (obj_status r, 0)) else MarkIngressNotConfigured clk (obj_status r, 0))\<rparr>" for b
    using that by (cases b)
      (simp_all add: p MarkTLSNotEnabled_def MarkIngressNotConfigured_def manage_manage marked_def [abs_def])
  then have "\<exists>ready. r' = r\<lparr>obj_status := fst (manage (marked ready clk) (obj_status r, 0))\<rparr>"
    using assms True
    by (fastforce simp: ReconcileKind_def gateway_api_enabled_def Let_def ret_def elim!: bnd_okE split: sum.splits)
  with True show ?thesis by simp
next
  case False
  with assms show ?thesis by (simp add: ReconcileKind_def gateway_api_enabled_def ret_def)
qed

lemma obj_meta_pass:
  "obj_meta (pass_route clk r) = (obj_meta r)\<lparr>om_Finalizers := sset_list (defaultFinalizerName # om_Finalizers (obj_meta r))\<rparr>"
  by (simp add: pass_route_def PreProcessReconcile_def route_SetDefaults_def with_finalizers_def Let_def)

lemma pass_route_status:
  "obj_status (pass_route clk r) =
     fst (manage (\<lambda>a. let a1 = InitializeConditions clk routeCondSet a in
            if rst_ObservedGeneration (obj_status r) \<noteq> om_Generation (obj_meta r)
            then MarkUnknown clk routeCondSet (happy routeCondSet) failedGenerationBump ''unsuccessfully observed a new generation'' a1
            else a1) (obj_status r, 0))"
  by (simp add: pass_route_def PreProcessReconcile_def route_SetDefaults_def with_finalizers_def Let_def
      route_InitializeConditions_def manage_manage manage_frame)

lemma MarkUnknown_present:
  assumes "conds_wf routeCondSet a" and "all_present a"
  shows "conds_wf routeCondSet (MarkUnknown clk routeCondSet (happy routeCondSet) rs ms a)
    \<and> all_present (MarkUnknown clk routeCondSet (happy routeCondSet) rs ms a)"
proof -
  let ?a1 = "SetCondition clk (mk_condition routeCondSet (happy routeCondSet) ConditionUnknown rs ms) a"
  have 1: "conds_wf routeCondSet ?a1" "all_present ?a1" using Set_wf_present [OF assms] by simp_all
  have "MarkUnknown clk routeCondSet (happy routeCondSet) rs ms a = ?a1 \<or> MarkUnknown clk routeCondSet (happy routeCondSet) rs ms a
      = SetCondition clk (mk_condition routeCondSet (happy routeCondSet) ConditionFalse rs ms) ?a1"
    by (simp add: MarkUnknown_def Let_def unknown_scan_eq MarkFalse_eq)
  then show ?thesis using 1 Set_wf_present [OF 1, of ConditionFalse clk "happy routeCondSet" rs ms] by (elim disjE) simp_all
qed

lemma conds_of_fst [simp]: "GetCondition (conds_of (fst ms)) = GetCondition (status_acc ms)"
  "status_of (conds_of (fst ms)) = status_of (status_acc ms)" "conds_wf r (conds_of (fst ms)) = conds_wf r (status_acc ms)"
  "all_present (conds_of (fst ms)) = all_present (status_acc ms)" "settled b (conds_of (fst ms)) = settled b (status_acc ms)"
proof -
  show g: "GetCondition (conds_of (fst ms)) = GetCondition (status_acc ms)"
    by (simp add: fun_eq_iff GetCondition_def status_acc_def)
  then show st: "status_of (conds_of (fst ms)) = status_of (status_acc ms)" by (simp add: fun_eq_iff status_of_def)
  show wf: "conds_wf r (conds_of (fst ms)) = conds_wf r (status_acc ms)" for r by (rule conds_wf_reads) (simp add: status_acc_def)
  show pr: "all_present (conds_of (fst ms)) = all_present (status_acc ms)" by (simp add: all_present_def st)
  show "settled b (conds_of (fst ms)) = settled b (status_acc ms)"
    by (simp add: settled_def settled_ready_def settled_waiting_def wf pr g st says_def)
qed

lemma pass_route_present:
  assumes "route_conds_wf (obj_status r)"
  shows "conds_wf routeCondSet (conds_of (obj_status (pass_route clk r))) \<and> all_present (conds_of (obj_status (pass_route clk r)))"
proof -
  have "conds_wf routeCondSet (conds_of (obj_status r))" using assms by (simp add: route_conds_wf_def)
  note I = init_present [OF this, of clk]
  from I MarkUnknown_present [OF conjunct1 [OF I] conjunct2 [OF I]] show ?thesis by (simp add: pass_route_status Let_def)
qed

lemma pass_route_idle:
  assumes "all_present (conds_of (obj_status r))" and "rst_ObservedGeneration (obj_status r) = om_Generation (obj_meta r)"
  shows "obj_status (pass_route clk r) = obj_status r"
  using assms manage_idle [of "InitializeConditions clk routeCondSet" "(obj_status r, 0)"] init_idle [OF assms(1), of clk]
  by (simp add: pass_route_status)

text \<open>The status after a pass, with transition times groomed and the generation observed.\<close>

lemma groom_retimes: "\<exists>f. \<forall>c. groom_condition now old c = c\<lparr>c_LastTransitionTime := f c\<rparr>"
proof (rule exI, rule allI)
  fix c show "groom_condition now old c = c\<lparr>c_LastTransitionTime := c_LastTransitionTime (groom_condition now old c)\<rparr>"
    by (simp add: groom_condition_def Let_def split: option.split)
qed

lemma post_status:
  "\<exists>f. conds_of (obj_status (PostProcessReconcile now q r)) = retime f (conds_of (obj_status q))"
proof -
  obtain f where "\<And>c. groom_condition now (obj_status r) c = c\<lparr>c_LastTransitionTime := f c\<rparr>"
    using groom_retimes by blast
  then have "conds_of (obj_status (PostProcessReconcile now q r)) = retime f (conds_of (obj_status q))"
    by (simp add: PostProcessReconcile_def groomConditionsTransitionTime_def status_acc_def retime_def)
  then show ?thesis by blast
qed

lemma post_generation: "rst_ObservedGeneration (obj_status (PostProcessReconcile now q r)) = om_Generation (obj_meta q)"
  by (simp add: PostProcessReconcile_def groomConditionsTransitionTime_def)

lemma post_DeepEqual:
  assumes "obj_status q = obj_status r" and "om_Generation (obj_meta q) = rst_ObservedGeneration (obj_status r)"
  shows "DeepEqual_route_status (obj_status r) (obj_status (PostProcessReconcile now q r))"
proof -
  obtain f where "\<And>c. groom_condition now (obj_status r) c = c\<lparr>c_LastTransitionTime := f c\<rparr>"
    using groom_retimes by blast
  then have "list_all2 DeepEqual_condition cs (map (groom_condition now (obj_status r)) cs)" for cs
    by (simp add: list_all2_conv_all_nth DeepEqual_condition_def)
  then show ?thesis
    using assms by (simp add: DeepEqual_route_status_def PostProcessReconcile_def groomConditionsTransitionTime_def DeepEqual_map_iff)
qed

subsection \<open>Two passes\<close>

lemma gateway_api_enabled_pass [simp]: "gateway_api_enabled (pass_route clk r) = gateway_api_enabled r"
  by (simp add: gateway_api_enabled_def obj_meta_pass)

lemma settled_ingress: "settled ready a \<Longrightarrow> (status_of a RouteConditionIngressReady = Some ConditionTrue) = ready"
  by (auto simp: settled_def settled_ready_def settled_waiting_def dest!: says_status split: if_splits)

lemma marked_status:
  assumes "conds_wf routeCondSet (conds_of st)" and "all_present (conds_of st)"
    and "st' = fst (manage (marked ready clk) (st, 0))"
  shows "settled ready (conds_of st')" "(route_cond st' RouteConditionIngressReady = Some ConditionTrue) = ready"
proof -
  show s: "settled ready (conds_of st')" using marked_settles [OF assms(1,2)] by (simp add: assms(3))
  show "(route_cond st' RouteConditionIngressReady = Some ConditionTrue) = ready"
    using settled_ingress [OF s] route_cond_st [of "(st', 0)"] by simp
qed

lemma pass_settles:
  assumes first: "ReconcileKind c ctx clk sprintf0 od (pass_route clk' r) s = (Inr q, s')" and wf: "route_conds_wf (obj_status r)"
    and st: "st = obj_status (pass_outcome now r (pass_route clk' r) (Inr q))"
  shows "all_present (conds_of st)" "rst_ObservedGeneration st = om_Generation (obj_meta r)"
    "gateway_api_enabled r \<Longrightarrow> settled (route_cond (obj_status q) RouteConditionIngressReady = Some ConditionTrue) (conds_of st)"
proof -
  let ?p = "pass_route clk' r"
  have P: "conds_wf routeCondSet (conds_of (obj_status ?p))" "all_present (conds_of (obj_status ?p))"
    using pass_route_present [OF wf] by simp_all
  have st': "st = obj_status (PostProcessReconcile now q r)" by (simp add: st pass_outcome_def)
  obtain f where f: "conds_of st = retime f (conds_of (obj_status q))" using post_status [of now q r] st' by auto
  note M = ReconcileKind_marks [OF first]
  have "obj_meta q = obj_meta ?p" using M by (auto split: if_splits)
  then show "rst_ObservedGeneration st = om_Generation (obj_meta r)" by (simp add: st' post_generation obj_meta_pass)
  have S: "settled (route_cond (obj_status q) RouteConditionIngressReady = Some ConditionTrue) (conds_of (obj_status q))"
    if en: "gateway_api_enabled r"
  proof -
    obtain ready where "obj_status q = fst (manage (marked ready clk) (obj_status ?p, 0))" using M en by auto
    note marked_status [OF P this]
    then show ?thesis by simp
  qed
  then show "gateway_api_enabled r \<Longrightarrow> settled (route_cond (obj_status q) RouteConditionIngressReady = Some ConditionTrue) (conds_of st)"
    unfolding f by (rule settled_retime)
  have "all_present (conds_of (obj_status q))"
    using M S P(2) by (cases "gateway_api_enabled r") (simp_all add: settled_def)
  then show "all_present (conds_of st)" by (simp add: f all_present_def)
qed

lemma settled_pass:
  assumes pr: "all_present (conds_of (obj_status r))" and gen: "rst_ObservedGeneration (obj_status r) = om_Generation (obj_meta r)"
    and set: "gateway_api_enabled r \<Longrightarrow> settled b (conds_of (obj_status r))"
    and second: "ReconcileKind c ctx clk sprintf0 od (pass_route clk' r) s = (res, s')"
    and same: "\<And>q. res = Inr q \<Longrightarrow> (route_cond (obj_status q) RouteConditionIngressReady = Some ConditionTrue) = b"
  shows "DeepEqual_route_status (obj_status r) (obj_status (pass_outcome now r (pass_route clk' r) res))"
proof -
  let ?p = "pass_route clk' r"
  have p: "obj_status ?p = obj_status r" "om_Generation (obj_meta ?p) = rst_ObservedGeneration (obj_status r)"
    using pass_route_idle [OF pr gen] gen by (simp_all add: obj_meta_pass)
  have "obj_status q = obj_status r \<and> obj_meta q = obj_meta ?p" if q: "res = Inr q" for q
  proof (cases "gateway_api_enabled r")
    case True
    note s = set [OF True]
    have wf: "conds_wf routeCondSet (conds_of (obj_status r))" using s by (simp add: settled_def)
    obtain ready where qs: "q = ?p\<lparr>obj_status := fst (manage (marked ready clk) (obj_status r, 0))\<rparr>"
      using ReconcileKind_marks [OF second [unfolded q]] True p(1) by auto
    have "obj_status q = fst (manage (marked ready clk) (obj_status r, 0))" by (simp add: qs)
    from marked_status(2) [OF wf pr this] same [OF q] have "ready = b" by simp
    with s have "marked ready clk (conds_of (obj_status r)) = conds_of (obj_status r)" by (simp add: settled_marked)
    with manage_idle [of "marked ready clk" "(obj_status r, 0)"] show ?thesis by (simp add: qs)
  next
    case False
    then show ?thesis using ReconcileKind_marks [OF second [unfolded q]] p(1) by simp
  qed
  then show ?thesis
    using p by (cases res) (simp_all add: pass_outcome_def post_DeepEqual)
qed

subsection \<open>Properties\<close>

text \<open>C7: A settled status is not written again. When the cache shows a route with the status an earlier pass
  ended in, and its readiness is still the same, the next run leaves the server of routes alone, even when
  its pass fails; after a pass without error it does nothing beyond that pass. So a run that changes nothing
  else causes no event of the route, and no further run.\<close>

theorem settled_statuses_are_not_rewritten:
  assumes first: "ReconcileKind c0 ctx0 clk0 sprintf1 od0 (pass_route clk1 r0) w0 = (Inr q0, w1)"
    and wf0: "route_conds_wf (obj_status r0)"
    and st: "obj_status r = obj_status (pass_outcome now0 r0 (pass_route clk1 r0) (Inr q0))"
    and meta: "om_Generation (obj_meta r) = om_Generation (obj_meta r0)" "om_Annotations (obj_meta r) = om_Annotations (obj_meta r0)"
    and key: "SplitMetaNamespaceKey key = Inr k" "IsLeaderFor buckets k" and v: "store_ToContext store = Inr v"
    and r: "cview (h_Routes h) k = Some r" and wf: "cache_wf (h_Routes h)"
    and live: "om_DeletionTimestamp (obj_meta r) = None" and fin: "defaultFinalizerName \<in> set (om_Finalizers (obj_meta r))"
    and R: "ReconcileKind (newReconciler patch) (ctx\<lparr>ctx_Config := v\<rparr>) clk sprintf0 od (pass_route clk' r) (h_World h) = (res, w')"
    and same: "\<And>q. res = Inr q \<Longrightarrow> route_cond (obj_status q) RouteConditionIngressReady = route_cond (obj_status q0) RouteConditionIngressReady"
  shows "\<exists>out h'. impl_Reconcile (controller_impl patch client p store clk sprintf0 od buckets) clk' now ctx key h = (out, h')
    \<and> h_World h' = w' \<and> h_Api h' = h_Api h
    \<and> (\<not> isl res \<longrightarrow> out = Inr None \<and> h' = put_world w' h)"
proof -
  let ?ri = "controller_impl patch client p store clk sprintf0 od buckets"
  note F = pass_settles [OF first wf0 st]
  have en: "gateway_api_enabled r = gateway_api_enabled r0" by (simp add: gateway_api_enabled_def meta)
  have quiet: "DeepEqual_route_status (obj_status r) (obj_status (pass_outcome now r (pass_route clk' r) res))"
    using settled_pass [OF F(1) _ F(3) R, of now] F(2) meta en same by simp
  have "obj_key r = k" by (rule cached_route_key [OF wf key(1) r])
  then have "setFinalizerIfFinalizer ?ri r h
      = (Inr (with_finalizers (sset_list (defaultFinalizerName # om_Finalizers (obj_meta r))) r), h)"
    using set_finalizer_live [OF live] r fin by simp
  from live_run [OF live this, folded pass_route_def, OF R, of now key k]
  have "impl_Reconcile ?ri clk' now ctx key h = after_pass ?ri now r (pass_route clk' r) res (put_world w' h)"
    using key v r by (simp add: controller_Reconcile_run)
  moreover have "sync_status ?ri True r (pass_outcome now r (pass_route clk' r) res) = ret None"
    using quiet by (simp add: sync_status_def)
  ultimately show ?thesis
    by (cases res) (auto simp: after_pass_def report_event_def record_event_def bnd_def lift_def ret_def split: fault.split)
qed

text \<open>The example route after its first run: nothing serves its gateways yet.\<close>

definition demo_settled :: route where
  "demo_settled = (stored_route [defaultFinalizerName] ''2x'' None)\<lparr>obj_status := demo_status\<lparr>rst_ObservedGeneration := 3,
     rst_Conditions := map (\<lambda>(t, rs, ms). (mk_condition routeCondSet t ConditionUnknown rs ms)\<lparr>c_LastTransitionTime := 7\<rparr>)
       [(RouteConditionAllTrafficAssigned, '''', ''''), (RouteConditionCertificateProvisioned, '''', ''''),
        (RouteConditionIngressReady, ''IngressNotConfigured'', ''Ingress has not yet been reconciled.''),
        (RouteConditionReady, ''IngressNotConfigured'', ''Ingress has not yet been reconciled.'')]\<rparr>\<rparr>"

lemma demo_first_run:
  "case fst (ReconcileKind (newReconciler demo_patch) demo_ctx (\<lambda>n. n) (\<lambda>s. s) demo_orders
       (pass_route (\<lambda>n. n) (stored_route [defaultFinalizerName] ''1x'' None)) demo_world) of
     Inr q \<Rightarrow> obj_status demo_settled = obj_status (PostProcessReconcile 7 q (stored_route [defaultFinalizerName] ''1x'' None))
       \<and> route_cond (obj_status q) RouteConditionIngressReady = Some ConditionUnknown
   | Inl _ \<Rightarrow> False"
  by code_simp

lemma demo_second_run:
  "case fst (ReconcileKind (newReconciler demo_patch) demo_ctx (\<lambda>n. n) (\<lambda>s. s) demo_orders
       (pass_route (\<lambda>n. n) demo_settled) demo_world) of
     Inr q \<Rightarrow> route_cond (obj_status q) RouteConditionIngressReady = Some ConditionUnknown | Inl _ \<Rightarrow> False"
  by code_simp

lemma returned: "(case fst x of Inr q \<Rightarrow> P q | Inl f \<Rightarrow> False) \<Longrightarrow> \<exists>q w. x = (Inr q, w) \<and> P q"
  by (cases x) (simp split: sum.splits)

theorem settled_statuses_are_not_rewritten_witness:
  "\<exists>h'. impl_Reconcile demo_controller (\<lambda>n. n) 8 demo_ctx ''prod/app'' (demo_host demo_settled demo_settled demo_world) = (Inr None, h')
     \<and> h_Api h' = Some demo_settled"
proof -
  let ?r0 = "stored_route [defaultFinalizerName] ''1x'' None" and ?h = "demo_host demo_settled demo_settled demo_world"
  obtain q0 w1 where first: "ReconcileKind (newReconciler demo_patch) demo_ctx (\<lambda>n. n) (\<lambda>s. s) demo_orders
       (pass_route (\<lambda>n. n) ?r0) demo_world = (Inr q0, w1)"
      and st: "obj_status demo_settled = obj_status (pass_outcome 7 ?r0 (pass_route (\<lambda>n. n) ?r0) (Inr q0))"
      and c0: "route_cond (obj_status q0) RouteConditionIngressReady = Some ConditionUnknown"
    using returned [OF demo_first_run] unfolding pass_outcome_def sum.case by blast
  obtain q w' where second: "ReconcileKind (newReconciler demo_patch) (demo_ctx\<lparr>ctx_Config := ToContext demo_config\<rparr>) (\<lambda>n. n) (\<lambda>s. s) demo_orders
       (pass_route (\<lambda>n. n) demo_settled) (h_World ?h) = (Inr q, w')"
      and c1: "route_cond (obj_status q) RouteConditionIngressReady = Some ConditionUnknown"
    using returned [OF demo_second_run] unfolding demo_context demo_host(1) by blast
  have wf0: "route_conds_wf (obj_status ?r0)"
    by (simp add: route_conds_wf_def conds_wf_def status_acc_def stored_route_def demo_route_def demo_status_def)
  have m: "obj_meta demo_settled = obj_meta (stored_route [defaultFinalizerName] ''2x'' None)" by (simp add: demo_settled_def)
  have k: "obj_key demo_settled = (''prod'', ''app'')" using m by (simp add: obj_key_def)
  have gen: "om_Generation (obj_meta (stored_route fs vs d)) = 3" for fs vs d by (simp add: stored_route_def)
  have "cview (h_Routes ?h) (''prod'', ''app'') = Some demo_settled" by (simp add: demo_cache_of [OF k])
  from settled_statuses_are_not_rewritten [OF first wf0 st _ _ demo_split demo_leads demo_store this demo_cache_of(1) [OF k] _ _ second,
      where now = 8 and p = 0 and client = demo_route_client]
  show ?thesis by (auto simp: m gen c0 c1 k demo_controller_def)
qed

end
