(* ===== verification/Spec2Isabelle.thy ===== *)
theory Spec2Isabelle
  imports RouteController RestCalls Injection InformerGroups Scheme RouteStatus QueueProgress SettledStatus
begin

text \<open>
  Verification of the Gateway API route controller: \<open>pkg/reconciler/route\<close>, the generated client library
  \<open>pkg/client/gatewayapi\<close> it runs on, and the vendored code both rest on.

  \<^bold>\<open>The program.\<close> The controller watches Knative routes. For a route annotated for the Gateway API it keeps,
  through the API servers, a placeholder service for every traffic target, a gateway for every visibility
  and one HTTPRoute, and reports the readiness of the HTTPRoute in the status of the route. It reads through
  listers over informer caches, which lag behind the servers, and writes through typed clients. When a
  route goes, its finalizer deletes the gateways. Its configuration comes from ConfigMaps. Events of routes
  and of their children put keys into a work queue; workers take them out and run the generated reconciler,
  which keeps the finalizer on the route, calls the controller, and writes the status back.

  \<^bold>\<open>Parts and theories\<close>, from the bottom up:

  \<^item> \<open>Prelude\<close>: how a Go call ends (value, error, panic), the sequencing of calls, Go maps with the order
    a loop visits them in, the functions of \<open>strings\<close> and \<open>sets\<close> in use. Collections \<open>go_map\<close>, \<open>keeps_intro\<close>.
  \<^item> \<open>Kube\<close>: object metadata, owner references, API errors, label selectors, \<open>kmeta\<close> map helpers.
  \<^item> \<open>Names\<close>: \<open>kmeta.ChildName\<close> with MD5 over 32 bit words (\<open>kmeta/names.go\<close>).
  \<^item> \<open>Conditions\<close>, \<open>RouteApi\<close>, \<open>RouteStatus\<close>: the condition manager (\<open>apis/condition_set.go\<close>), the status of a
    route (\<open>route_lifecycle.go\<close>), and what holds after any sequence of its operations.
  \<^item> \<open>GatewayConfig\<close>, \<open>DomainConfig\<close>, \<open>ConfigStore\<close>: \<open>config/gateway.go\<close> with its deep copy over a heap, the
    domain table, \<open>config/store.go\<close> and the untyped store it wraps.
  \<^item> \<open>Hosts\<close>, \<open>GatewayApi\<close>, \<open>Resources\<close>: host names (\<open>resources/utils.go\<close>, DNS validation, expanded
    hosts), the records of the API with semantic equality, and the builders \<open>resources/gateway.go\<close>,
    \<open>httproute.go\<close>, \<open>service.go\<close>. The rule builder runs over a heap, since it keeps a loop variable's address.
  \<^item> \<open>Interfaces\<close>, \<open>Reconcile\<close>: what the reconciler uses of its environment, with the contract
    \<open>object_store\<close> of a lister and a client; \<open>route.go\<close> and \<open>reconcile_resources.go\<close> over any such environment.
  \<^item> \<open>Cluster\<close>, \<open>RouteSync\<close>, \<open>Passes\<close>: the reconciler's properties in the locale \<open>cluster\<close> (three object
    stores that leave each other alone), of a pass and of repeated passes (\<open>informed_cluster\<close>).
  \<^item> \<open>Registry\<close>: the registration of the types with a scheme (\<open>scheme/register.go\<close>, \<open>fake/register.go\<close> and the
    \<open>runtime.Scheme\<close> they fill), and \<open>ObjectKinds\<close>, by which a tracker files the objects it is made with.
  \<^item> \<open>Listers\<close>, \<open>Tracker\<close>, \<open>FakeClients\<close>: indexed caches and generated listers, the object tracker of the
    fake clientset, the generated fake clients as instances of one set of operations (\<open>kind_laws\<close>).
  \<^item> \<open>Scheme\<close>: what any sequence of registrations leaves in a scheme, the kinds the schemes of this repository
    know, and the fake clientset made with objects.
  \<^item> \<open>Informers\<close>, \<open>InformerGroups\<close>: the shared informer factory, the informers of the seven kinds, the way
    from the factory to a kind, relisting a cache.
  \<^item> \<open>World\<close>: the reconciler \<open>newController\<close> builds, over caches and fake clientsets; it interprets
    \<open>cluster\<close> (and with it \<open>object_store\<close> three times) and, with relisting informers, \<open>informed_cluster\<close>.
  \<^item> \<open>Histories\<close>: passes, finalizers, relisting informers and other clients as the steps of a relation, and
    the invariant of its histories.
  \<^item> \<open>Rest\<close>, \<open>TypedClients\<close>, \<open>RestCalls\<close>: the request builder and sender of client-go, the generated typed
    clients and clientset, and what they send.
  \<^item> \<open>Injection\<close>: clients, factories and informers put into a context at start-up, plain, fake and filtered.
  \<^item> \<open>Controller\<close>: the event handlers and the resync of \<open>controller.go\<close>, as the keys they enqueue.
  \<^item> \<open>WorkQueue\<close>, \<open>Workers\<close>: client-go's work queue and delaying queue; the two-lane queue with its goroutines
    and the workers of \<open>knative.dev/pkg/controller\<close> as the transition relation \<open>tl_step\<close>, with the invariant
    \<open>tl_ok\<close>. \<open>QueueProgress\<close>: it is never stuck.
  \<^item> \<open>GenReconciler\<close>: the generated reconciler of routes (\<open>reconciler.go\<close>, \<open>state.go\<close>) over any state, lister and
    client; \<open>impl_frame\<close> says what it leaves alone.
  \<^item> \<open>RouteController\<close>: what \<open>newController\<close> returns, the above put together over \<open>World\<close> and a server of routes.
    \<open>SettledStatus\<close>: the status a run ends in is a fixed point of the next.
  \<^item> \<open>DemoWorld\<close>: the configuration, route and servers the examples share.

  \<^bold>\<open>What is shown.\<close> The theory below: a pass brings the servers to what the route wants, as far as it returns,
  whatever the caches miss; repeated passes, each visiting the maps in an order
  of its own, settle up to the order of the host names; finalizing deletes exactly the route's gateways, and after
  any history finalizing all routes leaves no gateway. Of the controller as a whole (\<open>RouteController\<close>): a child
  is never made before the route has its finalizer, the finalizer never goes before the gateways, a run
  publishes the status whatever the cache missed, a settled status is not written again, and the event of a
  child leads to a run for its route. Of the queue: no key is lost, none is given to two workers, every key on
  its way can be taken, failed keys come back, and keys survive their way through strings. In the
  components: invariants of the condition manager, the configuration store, the caches and the informer
  factory, and of the status of a route, over any sequence of operations; refinement of a map by the indexed cache and of the server by a
  relisted cache; functional descriptions of the builders, lookups, host names and event handlers; typed
  clients address one object, refuse names that are no path segments and send at most eleven times;
  bounds of names and of 64 bit timeouts; a scheme pairs types and kinds however it was filled. Some theorems show what the code does
  against its intention: gateways found current are dropped from the HTTPRoute, one placeholder is written
  per pass, a rule names the last revision only, filtered factories share the last selector, gateway events
  wake nobody.

  \<^bold>\<open>Conventions.\<close> A Go function that may fail or panic returns a sum (\<open>result\<close>); one that acts on a world is
  a state function (\<open>action\<close>). The order of a range loop over a map is an argument, and theorems hold for
  every order; where there are several passes, each has orders of its own. Machine integers are words. The loops are structural recursions, except two: the retries of
  a request, bounded by the request's ten retries, and template and digit scans, by their input; each has a
  termination proof, and no fuel is used. Goroutines
  are state machines whose steps interleave in any order. \<open>passes_converge\<close> bounds the number of passes by the number of targets.

  \<^bold>\<open>Parameters.\<close> Decoding YAML and JSON, other templates than text with plain fields, the constructor of the
  network configuration, the transport, throttling and encoding of requests, the merging of patches, parsing
  of label selectors, the discovery client, the API server of the routes themselves, the clock, the delays of
  the rate limiter, and the buckets the leader election has promoted. Where a theorem needs something of one, it is a hypothesis.

  \<^bold>\<open>Not modelled.\<close> The leader election protocol, logging, metrics and backoff of the controller and client
  libraries; running an informer's watch; conversion and defaulting functions of a scheme, of which none is
  registered here; the empty expansion interfaces and interface types without code; \<open>cmd/controller\<close>, which is
  one call of the framework, and build tools; duck informers of the injection library, which nothing registers
  here. The watch of a typed client is a definition (\<open>ri_Watch\<close>), but not one of the calls whose requests
  \<open>RestCalls\<close> is about, as it is answered by a stream. The children of a route are kept by fake clientsets,
  whose only errors are of objects missing or already there; other failures of a server appear for the routes
  themselves. Concurrency between the controller and its servers is modelled as interleaving of whole steps: a pass
  or a finalizer runs alone, and informers and other clients act between them, not between the calls of one pass.
\<close>

subsection \<open>Passes over the world\<close>

text \<open>One pass of the controller over a route, after which the informers catch up.\<close>

definition reconcile_pass ::
  "patch_fun \<Rightarrow> go_context \<Rightarrow> clock \<Rightarrow> (string \<Rightarrow> string) \<Rightarrow> orders \<Rightarrow> route \<times> world \<Rightarrow> route \<times> world" where
  "reconcile_pass patch ctx clk sprintf0 od rw =
     (case ReconcileKind (newReconciler patch) ctx clk sprintf0 od (fst rw) (snd rw) of
        (Inl _, w') \<Rightarrow> (fst rw, sync_world patch w')
      | (Inr r', w') \<Rightarrow> (r', sync_world patch w'))"

text \<open>Passes one after the other. The \<open>i\<close>-th has its own clock and its own orders of the map loops, as Go
  visits a map in a new order every time.\<close>

primrec reconcile_passes ::
  "patch_fun \<Rightarrow> go_context \<Rightarrow> (nat \<Rightarrow> clock) \<Rightarrow> (string \<Rightarrow> string) \<Rightarrow> (nat \<Rightarrow> orders) \<Rightarrow> nat
     \<Rightarrow> route \<times> world \<Rightarrow> route \<times> world" where
  "reconcile_passes patch ctx clks sprintf0 ods 0 rw = rw"
| "reconcile_passes patch ctx clks sprintf0 ods (Suc n) rw =
     reconcile_pass patch ctx (clks n) sprintf0 (ods n) (reconcile_passes patch ctx clks sprintf0 ods n rw)"

lemma reconcile_pass_informed: "reconcile_pass patch = informed.pass patch"
  by (simp add: reconcile_pass_def informed.pass_def fun_eq_iff)

lemma reconcile_passes_informed: "reconcile_passes patch ctx clks sprintf0 ods n = informed.passes patch ctx clks sprintf0 ods n"
  by (induction n) (simp_all add: reconcile_pass_informed fun_eq_iff)

subsection \<open>Properties\<close>

text \<open>C1: A pass over a world keeps its invariant and the caches. When it returns, the placeholder
  services have come one write closer or are all current, every gateway the route asks for is as wanted,
  the HTTPRoute is as wanted for the gateways that had to be written, and the status says whether it is
  ready. When it fails, no HTTPRoute was written, and gateways only after the services; it cannot fail
  while the caches are in step and all objects can be built.\<close>

theorem ReconcileKind_pass:
  assumes "world_ok w" and "served ctx r" and "order_ok (od_Visibility od)" and "ctx_config ctx = Inr cfg"
    and "gateway_api_enabled r"
  shows "\<exists>res w'. ReconcileKind (newReconciler patch) ctx clk sprintf0 od r w = (res, w') \<and> world_ok w'
    \<and> cview (w_Services w') = cview (w_Services w) \<and> cview (w_Gateways w') = cview (w_Gateways w)
    \<and> cview (w_HTTPRoutes w') = cview (w_HTTPRoutes w)
    \<and> (case res of
         Inl _ \<Rightarrow> httproutes.view (w_Gwapi w') = httproutes.view (w_Gwapi w)
           \<and> (gateways.view (w_Gwapi w') = gateways.view (w_Gwapi w)
              \<or> services_synced ctx r (cview (w_Services w)) (services.view (w_Kube w)) (services.view (w_Kube w')))
           \<and> \<not> (routable ctx (od_Hostnames od) r \<and> fakes.stepped w)
       | Inr r' \<Rightarrow> services_synced ctx r (cview (w_Services w)) (services.view (w_Kube w)) (services.view (w_Kube w'))
           \<and> (\<exists>gws hr st'. gateways_synced ctx (cfg_Gateway cfg) r (cview (w_Gateways w)) (gateways.view (w_Gwapi w))
                    (gateways.view (w_Gwapi w')) gws
                \<and> httproute_synced ctx (od_Hostnames od) r gws (cview (w_HTTPRoutes w))
                    (httproutes.view (w_Gwapi w)) (httproutes.view (w_Gwapi w')) hr
                \<and> r' = r\<lparr>obj_status := st'\<rparr>
                \<and> status_synced (IsHTTPRouteReady hr = Inr True) (obj_status r) st'))"
  using fakes.ReconcileKind_spec [OF assms, of patch clk sprintf0] by (fastforce split: sum.splits)

theorem ReconcileKind_pass_witness:
  "\<exists>r' w'. ReconcileKind (newReconciler demo_patch) demo_ctx (\<lambda>n. n) (\<lambda>s. s) demo_orders demo_route demo_world = (Inr r', w')
     \<and> services_synced demo_ctx demo_route Map.empty Map.empty (services.view (w_Kube w'))
     \<and> obj_meta r' = obj_meta demo_route"
proof -
  have "fakes.stepped demo_world"
    by (simp add: fakes.stepped_def fakes.svc.in_step_def fakes.gw.in_step_def fakes.hr.in_step_def demo_views)
  moreover have "routable demo_ctx ords demo_route" for ords by (rule routableI [OF demo_served demo_named])
  moreover have "order_ok (od_Visibility demo_orders)" by (simp add: demo_orders_def)
  note ReconcileKind_pass [OF demo_world_ok demo_served this demo_ctx_config demo_enabled, of demo_patch "\<lambda>n. n" "\<lambda>s. s"]
  ultimately show ?thesis unfolding demo_views by (fastforce split: sum.splits)
qed

text \<open>C2: Passes over a route, each with a clock and orders of the map loops of its own, and with the informers
  catching up in between, settle: after as many passes as the route has targets, and two at least, every
  placeholder service and every gateway is as wanted, and a further pass, in whatever order it visits its
  maps, writes no service, no gateway and no HTTPRoute but the route's, in which it can only reorder the
  host names. But what they settle on is an HTTPRoute that refers to no gateway.\<close>

theorem passes_converge:
  assumes "world_ok w" and sv: "served ctx r" and ord: "\<forall>i. orders_ok (ods i)"
    and cfg: "ctx_config ctx = Inr cfg" and en: "gateway_api_enabled r" and nt: "named_targets ctx r"
    and n: "length (targets ctx r) \<le> n" "2 \<le> n"
  shows "\<exists>r1 w1 hr d. reconcile_passes patch ctx clks sprintf0 ods n (r, sync_world patch w) = (r1, w1)
    \<and> list_all (service_current (services.view (w_Kube w1)) ctx r) (targets ctx r)
    \<and> gateways_current ctx (cfg_Gateway cfg) r (gateways.view (w_Gwapi w1))
    \<and> httproutes.view (w_Gwapi w1) (obj_key r) = Some hr \<and> rg_GatewayRefs (hs_Gateways (obj_spec hr)) = []
    \<and> MakeHTTPRoute ctx (od_Hostnames (ods (n - 1))) r [] = Inr d \<and> up_to_date DeepEqual_httproute_spec hr d
    \<and> (\<forall>clk od. orders_ok od \<longrightarrow> (\<exists>r2 w2 hr2. reconcile_pass patch ctx clk sprintf0 od (r1, w1) = (r2, w2)
         \<and> services.view (w_Kube w2) = services.view (w_Kube w1)
         \<and> gateways.view (w_Gwapi w2) = gateways.view (w_Gwapi w1)
         \<and> httproutes.view (w_Gwapi w2) = (httproutes.view (w_Gwapi w1))(obj_key r \<mapsto> hr2)
         \<and> (\<exists>d2. MakeHTTPRoute ctx (od_Hostnames od) r [] = Inr d2 \<and> up_to_date DeepEqual_httproute_spec hr2 d2)
         \<and> mset (hs_Hostnames (obj_spec hr2)) = mset (hs_Hostnames (obj_spec hr))
         \<and> rg_GatewayRefs (hs_Gateways (obj_spec hr2)) = []
         \<and> (hs_Hostnames (obj_spec hr2) = hs_Hostnames (obj_spec hr) \<longrightarrow> hr2 = hr)))"
proof -
  obtain r1 w1 where run: "informed.passes patch ctx clks sprintf0 ods n (r, sync_world patch w) = (r1, w1)" by force
  have S: "informed.synced (sync_world patch w)" by (rule informed.synced_sync) (rule assms(1))
  note P = informed.passes_settle [OF S sv ord cfg en routableI [OF sv nt] n run]
  obtain hr d where hr: "httproutes.view (w_Gwapi w1) (obj_key r) = Some hr"
    and d: "MakeHTTPRoute ctx (od_Hostnames (ods (n - 1))) r [] = Inr d" "up_to_date DeepEqual_httproute_spec hr d"
    using P(1) unfolding informed.detached_def by blast
  have "rg_GatewayRefs (hs_Gateways (obj_spec hr)) = []"
    using d makeHTTPRouteSpec_ok(1) [OF MakeHTTPRoute_meta(6) [OF d(1)]]
    by (simp add: up_to_date_def DeepEqual_httproute_spec_def)
  note hr = this hr d
  have "\<exists>r2 w2 hr2. informed.pass patch ctx clk sprintf0 od (r1, w1) = (r2, w2)
         \<and> services.view (w_Kube w2) = services.view (w_Kube w1)
         \<and> gateways.view (w_Gwapi w2) = gateways.view (w_Gwapi w1)
         \<and> httproutes.view (w_Gwapi w2) = (httproutes.view (w_Gwapi w1))(obj_key r \<mapsto> hr2)
         \<and> (\<exists>d2. MakeHTTPRoute ctx (od_Hostnames od) r [] = Inr d2 \<and> up_to_date DeepEqual_httproute_spec hr2 d2)
         \<and> mset (hs_Hostnames (obj_spec hr2)) = mset (hs_Hostnames (obj_spec hr))
         \<and> rg_GatewayRefs (hs_Gateways (obj_spec hr2)) = []
         \<and> (hs_Hostnames (obj_spec hr2) = hs_Hostnames (obj_spec hr) \<longrightarrow> hr2 = hr)" if "orders_ok od" for clk od
    using P(2) [OF that hr(2), of clk] hr(1) unfolding reordered_def informed.detached_def by fastforce
  with P(1) run hr show ?thesis unfolding reconcile_passes_informed reconcile_pass_informed by blast
qed

text \<open>Two passes over the example, the first visiting its maps in the order of the keys and the second
  backwards, and a third in order again.\<close>

definition demo_backwards :: orders where
  "demo_backwards = \<lparr>od_Visibility = rev, od_Hostnames = (\<lambda>i. rev)\<rparr>"

theorem passes_converge_witness:
  "\<exists>r1 w1 r2 w2 hr hr2.
     reconcile_passes demo_patch demo_ctx (\<lambda>i n. n + i) (\<lambda>s. s) (\<lambda>i. if i = 1 then demo_backwards else demo_orders) 2
       (demo_route, sync_world demo_patch demo_world) = (r1, w1)
    \<and> reconcile_pass demo_patch demo_ctx (\<lambda>n. n) (\<lambda>s. s) demo_orders (r1, w1) = (r2, w2)
    \<and> gateways.view (w_Gwapi w2) = gateways.view (w_Gwapi w1)
    \<and> httproutes.view (w_Gwapi w1) (''prod'', ''app'') = Some hr
    \<and> httproutes.view (w_Gwapi w2) (''prod'', ''app'') = Some hr2
    \<and> rg_GatewayRefs (hs_Gateways (obj_spec hr2)) = []
    \<and> hs_Hostnames (obj_spec hr) = [''app.prod'', ''app.prod.svc'', ''app.prod.svc.cluster.local'', ''app.prod.example.com'']
    \<and> hs_Hostnames (obj_spec hr2) = [''app.prod.example.com'', ''app.prod'', ''app.prod.svc'', ''app.prod.svc.cluster.local'']"
proof -
  have ord: "orders_ok demo_orders" "orders_ok demo_backwards"
    by (simp_all add: orders_ok_def demo_orders_def demo_backwards_def)
  have tr: "rst_Traffic (obj_status demo_route) = [demo_target]" "tt_Tag demo_target = ''''"
    by (simp_all add: demo_route_def demo_status_def demo_target_def)
  have "targets demo_ctx demo_route = [''app'']"
    by (simp add: targets_def demo_route_def demo_status_def demo_target_def demo_meta_def HostnameFromTemplate_def)
  then have n: "length (targets demo_ctx demo_route) \<le> 2" by simp
  have key: "obj_key demo_route = (''prod'', ''app'')" by (simp add: obj_key_def demo_route_def demo_meta_def)
  have names: "hs_Hostnames (obj_spec hr) = concat (map snd (range_map (ords 0)
      [(''default'', [''app.prod.example.com'']), (''cluster-local'', [''app.prod'', ''app.prod.svc'', ''app.prod.svc.cluster.local''])]))"
    if "MakeHTTPRoute demo_ctx ords demo_route [] = Inr d" "up_to_date DeepEqual_httproute_spec hr d" for ords hr d
    using that(2) makeHTTPRouteSpec_ok(3) [OF MakeHTTPRoute_meta(6) [OF that(1)]]
    by (simp add: up_to_date_def DeepEqual_httproute_spec_def tr hostnames_def demo_hosts)
  have "\<forall>i. orders_ok (if i = (1::nat) then demo_backwards else demo_orders)" using ord by simp
  note P = passes_converge [OF demo_world_ok demo_served this demo_ctx_config demo_enabled demo_named n order_refl,
      of demo_patch "\<lambda>i n. n + i" "\<lambda>s. s"]
  have second: "(if 2 - 1 = (1::nat) then demo_backwards else demo_orders) = demo_backwards" by simp
  show ?thesis
    using P unfolding key second
  proof (elim exE conjE)
    fix r1 w1 hr d
    assume 1: "reconcile_passes demo_patch demo_ctx (\<lambda>i n. n + i) (\<lambda>s. s)
        (\<lambda>i. if i = 1 then demo_backwards else demo_orders) 2 (demo_route, sync_world demo_patch demo_world) = (r1, w1)"
        "httproutes.view (w_Gwapi w1) (''prod'', ''app'') = Some hr"
      and d: "MakeHTTPRoute demo_ctx (od_Hostnames demo_backwards) demo_route [] = Inr d" "up_to_date DeepEqual_httproute_spec hr d"
      and more: "\<forall>clk od. orders_ok od \<longrightarrow> (\<exists>r2 w2 hr2. reconcile_pass demo_patch demo_ctx clk (\<lambda>s. s) od (r1, w1) = (r2, w2)
         \<and> services.view (w_Kube w2) = services.view (w_Kube w1)
         \<and> gateways.view (w_Gwapi w2) = gateways.view (w_Gwapi w1)
         \<and> httproutes.view (w_Gwapi w2) = (httproutes.view (w_Gwapi w1))((''prod'', ''app'') \<mapsto> hr2)
         \<and> (\<exists>d2. MakeHTTPRoute demo_ctx (od_Hostnames od) demo_route [] = Inr d2 \<and> up_to_date DeepEqual_httproute_spec hr2 d2)
         \<and> mset (hs_Hostnames (obj_spec hr2)) = mset (hs_Hostnames (obj_spec hr))
         \<and> rg_GatewayRefs (hs_Gateways (obj_spec hr2)) = []
         \<and> (hs_Hostnames (obj_spec hr2) = hs_Hostnames (obj_spec hr) \<longrightarrow> hr2 = hr))"
    obtain r2 w2 hr2 d2 where 2: "reconcile_pass demo_patch demo_ctx (\<lambda>n. n) (\<lambda>s. s) demo_orders (r1, w1) = (r2, w2)"
        "gateways.view (w_Gwapi w2) = gateways.view (w_Gwapi w1)"
        "httproutes.view (w_Gwapi w2) = (httproutes.view (w_Gwapi w1))((''prod'', ''app'') \<mapsto> hr2)"
        "rg_GatewayRefs (hs_Gateways (obj_spec hr2)) = []"
      and d2: "MakeHTTPRoute demo_ctx (od_Hostnames demo_orders) demo_route [] = Inr d2" "up_to_date DeepEqual_httproute_spec hr2 d2"
      using more [rule_format, OF ord(1), of "\<lambda>n. n"] by (elim exE conjE) (rule that)
    have "hs_Hostnames (obj_spec hr) = [''app.prod'', ''app.prod.svc'', ''app.prod.svc.cluster.local'', ''app.prod.example.com'']"
      "hs_Hostnames (obj_spec hr2) = [''app.prod.example.com'', ''app.prod'', ''app.prod.svc'', ''app.prod.svc.cluster.local'']"
      using names [OF d] names [OF d2]
      by (simp_all add: range_map_def go_keys_def List.map_filter_def demo_orders_def demo_backwards_def)
    moreover have "httproutes.view (w_Gwapi w2) (''prod'', ''app'') = Some hr2" using 2(3) by simp
    ultimately show ?thesis using 1 2(1,2,4) by blast
  qed
qed

text \<open>C9: Finalizing a route deletes from the server gateways of the route only: those the cache holds with
  the route's name and namespace in their labels. When it returns without error all of them are gone, and
  it does so whenever the server still had them all.\<close>

theorem FinalizeKind_deletes:
  assumes "world_ok w"
  shows "\<exists>res w'. FinalizeKind (newReconciler patch) r w = (res, w') \<and> world_ok w'
    \<and> (\<forall>k. k \<notin> finalized (cview (w_Gateways w)) r \<longrightarrow>
         gateways.view (w_Gwapi w') k = gateways.view (w_Gwapi w) k)
    \<and> (case res of
         Inl f \<Rightarrow> \<exists>k \<in> finalized (cview (w_Gateways w)) r. gateways.view (w_Gwapi w) k = None
       | Inr _ \<Rightarrow> \<forall>k \<in> finalized (cview (w_Gateways w)) r. gateways.view (w_Gwapi w') k = None)"
  using fakes.FinalizeKind_spec [OF assms, of patch r] by (fastforce split: sum.splits)

theorem FinalizeKind_deletes_witness:
  "\<exists>res w'. FinalizeKind (newReconciler demo_patch) demo_route demo_gateway_world = (res, w')
     \<and> res = Inr () \<and> gateways.view (w_Gwapi w') (''istio-system'', ''gw'') = None"
  using FinalizeKind_deletes [OF demo_gateway_world(1), of demo_patch demo_route] demo_gateway_world(2)
  unfolding demo_gateway_world(3) by (fastforce split: sum.splits)

text \<open>C10: Reconciling the gateways of a route when all of them are current writes nothing, and returns no
  gateway: gateways found up to date are not passed on to the HTTPRoute.\<close>

theorem current_gateways_are_dropped:
  assumes "world_ok w" and "served ctx r" and "order_ok ord" and "ctx_config ctx = Inr cfg"
    and "gateways_current ctx (cfg_Gateway cfg) r (cview (w_Gateways w))"
  shows "reconcileGateway (newReconciler patch) ctx ord r w = (Inr [], w)"
proof -
  obtain m where m: "collect_visibilities ctx r (rst_Traffic (obj_status r)) [] = Inr m"
    and cur: "\<And>v hs. map_of m v = Some hs \<Longrightarrow> gateway_current ctx (cfg_Gateway cfg) r (cview (w_Gateways w)) (v, hs)"
    using assms(5) unfolding gateways_current_def by blast
  have "list_all (gateway_current ctx (cfg_Gateway cfg) r (cview (w_Gateways w))) (range_map ord m)"
    using cur set_range_map [OF assms(3), of m] by (auto simp: list_all_iff)
  from fakes.gateway_loop_current [OF this, of patch "[]"] show ?thesis
    by (simp add: reconcileGateway_def m assms(4))
qed

theorem current_gateways_are_dropped_witness:
  "\<exists>w. gateways.view (w_Gwapi w) \<noteq> Map.empty
     \<and> reconcileGateway (newReconciler demo_patch) demo_ctx (\<lambda>ks. ks) demo_route w = (Inr [], w)"
proof -
  let ?w = "sync_world demo_patch demo_world"
  have S: "informed.synced ?w" by (rule informed.synced_sync [OF demo_world_ok])
  have ord: "order_ok (od_Visibility demo_orders)" "order_ok (\<lambda>ks. ks)" by (simp_all add: demo_orders_def)
  obtain r1 w1 where w1: "informed.synced w1" "gateways_current demo_ctx (cfg_Gateway demo_config) demo_route (gateways.view (w_Gwapi w1))"
    using informed.pass_step [OF S demo_served ord(1) demo_ctx_config demo_enabled routableI [OF demo_served demo_named],
        of demo_patch "\<lambda>n. n" "\<lambda>s. s"] by blast
  have ok: "world_ok w1" and ag: "agree (cview (w_Gateways w1)) (gateways.view (w_Gwapi w1))"
    using w1(1) by (simp_all add: informed.synced_def)
  have cur: "gateways_current demo_ctx (cfg_Gateway demo_config) demo_route (cview (w_Gateways w1))"
    using w1(2) agree_gateways_current [OF demo_served demo_ctx_config ag] by simp
  obtain m where m: "collect_visibilities demo_ctx demo_route (rst_Traffic (obj_status demo_route)) [] = Inr m"
      "\<And>v hs. map_of m v = Some hs \<Longrightarrow> gateway_current demo_ctx (cfg_Gateway demo_config) demo_route (gateways.view (w_Gwapi w1)) (v, hs)"
    using w1(2) unfolding gateways_current_def by blast
  have "gateways.view (w_Gwapi w1) \<noteq> Map.empty"
  proof
    assume e: "gateways.view (w_Gwapi w1) = Map.empty"
    have ts: "rst_Traffic (obj_status demo_route) = [demo_target]" "tt_Tag demo_target = ''''"
      by (simp_all add: demo_route_def demo_status_def demo_target_def)
    have "map_of m ''default'' = Some [''app.prod.example.com'']"
      using m(1) UnionMaps_two [of "[]" _ "''default''"] by (auto simp: ts demo_hosts)
    from m(2) [OF this] show False by (auto simp: e gateway_current_def)
  qed
  with current_gateways_are_dropped [OF ok demo_served ord(2) demo_ctx_config cur, of demo_patch] show ?thesis by blast
qed

text \<open>C11: One pass writes at most one placeholder service, of the route's namespace, and nothing else: of two
  targets whose services are missing at least one is still missing after the pass.\<close>

theorem one_placeholder_per_pass:
  assumes "world_ok w" and "ok_ns (om_Namespace (obj_meta r))"
    and "reconcilePlaceholderServices (newReconciler patch) ctx r w = (res, w')"
  shows "(\<exists>t. \<forall>k. k \<noteq> (om_Namespace (obj_meta r), t) \<longrightarrow>
        services.view (w_Kube w') k = services.view (w_Kube w) k)
    \<and> gateways.view (w_Gwapi w') = gateways.view (w_Gwapi w)
    \<and> httproutes.view (w_Gwapi w') = httproutes.view (w_Gwapi w)"
proof -
  note S = fakes.reconcilePlaceholderServices_spec [OF assms(1,2), of patch ctx "\<lambda>i ks. ks"]
  have "services.view (w_Kube w') = services.view (w_Kube w)
    \<or> services_synced ctx r (cview (w_Services w)) (services.view (w_Kube w)) (services.view (w_Kube w'))"
    using S assms(3) by (cases res) auto
  then have "\<exists>t. \<forall>k. k \<noteq> (om_Namespace (obj_meta r), t) \<longrightarrow> services.view (w_Kube w') k = services.view (w_Kube w) k"
    by (auto simp: services_synced_def wrote_first_def)
  then show ?thesis using S assms(3) by auto
qed

definition demo_route2 :: route where
  "demo_route2 = demo_route\<lparr>obj_status := demo_status\<lparr>rst_Traffic := [demo_target, demo_target\<lparr>tt_Tag := ''v2''\<rparr>]\<rparr>\<rparr>"

lemma demo_route2_targets:
  "targets demo_ctx demo_route2 = [''app'', ''v2-app'']"
  "named_targets demo_ctx demo_route2" "served demo_ctx demo_route2" "om_Namespace (obj_meta demo_route2) = ''prod''"
proof -
  have m: "obj_meta demo_route2 = obj_meta demo_route" by (simp add: demo_route2_def)
  show "om_Namespace (obj_meta demo_route2) = ''prod''" by (simp add: m demo_route_def demo_meta_def)
  show "targets demo_ctx demo_route2 = [''app'', ''v2-app'']" by code_simp
  have "\<not> isl (VisibilityToDomain demo_ctx '''' demo_route2)" "\<not> isl (VisibilityToDomain demo_ctx ''v2'' demo_route2)"
    by code_simp+
  then show "named_targets demo_ctx demo_route2"
    by (simp add: named_targets_def demo_route2_def demo_target_def percent_set_def)
  have "route_conds_wf (obj_status demo_route2)"
    by (simp add: route_conds_wf_def conds_wf_def status_acc_def demo_route2_def demo_status_def)
  then show "served demo_ctx demo_route2" using demo_served by (simp add: served_def m route_visibility_def)
qed

theorem one_placeholder_per_pass_witness:
  "\<exists>w'. reconcilePlaceholderServices (newReconciler demo_patch) demo_ctx demo_route2 demo_world = (Inr (), w')
     \<and> (services.view (w_Kube w') (''prod'', ''app'') = None \<or> services.view (w_Kube w') (''prod'', ''v2-app'') = None)"
proof -
  have ns: "ok_ns (om_Namespace (obj_meta demo_route2))" by (simp add: demo_route2_targets ok_ns_def)
  have "routable demo_ctx ords demo_route2" for ords by (rule routableI) (rule demo_route2_targets)+
  moreover have "fakes.svc.in_step k demo_world" for k by (simp add: fakes.svc.in_step_def demo_views)
  moreover obtain res w' where w': "reconcilePlaceholderServices (newReconciler demo_patch) demo_ctx demo_route2 demo_world = (res, w')"
    by force
  moreover note fakes.reconcilePlaceholderServices_spec [OF demo_world_ok ns, of demo_patch demo_ctx "\<lambda>i ks. ks"]
  ultimately have "res = Inr ()" by (cases res) auto
  obtain t where t: "\<And>k. k \<noteq> (''prod'', t) \<Longrightarrow> services.view (w_Kube w') k = None"
    using one_placeholder_per_pass [OF demo_world_ok ns w'] unfolding demo_views demo_route2_targets by blast
  have "services.view (w_Kube w') (''prod'', ''app'') = None \<or> services.view (w_Kube w') (''prod'', ''v2-app'') = None"
    using t [of "(''prod'', ''app'')"] t [of "(''prod'', ''v2-app'')"] by (cases "t = ''app''") auto
  with w' \<open>res = Inr ()\<close> show ?thesis by simp
qed

text \<open>C3: Whatever the history of the controller from servers without gateways, passes over some routes that
  may fail anywhere, finalizers, lagging informers and other clients in any order, every gateway the
  servers hold is labelled for one of the routes; and finalizing the routes once leaves no gateway.\<close>

theorem histories_leave_nothing:
  assumes "(controller_step patch (set rs))\<^sup>*\<^sup>* w0 w" and "world_ok w0" and "gateways.view (w_Gwapi w0) = Map.empty"
  shows "world_ok w \<and> (\<forall>k g. gateways.view (w_Gwapi w) k = Some g \<longrightarrow> (\<exists>r \<in> set rs. of_route r g))
    \<and> gateways.view (w_Gwapi (finalize_all patch rs w)) = Map.empty"
proof -
  have own: "owned_world (set rs) w" by (rule history_owned [OF assms])
  then have ok: "world_ok w" by (simp add: owned_world_def)
  have "gateways.view (w_Gwapi (finalize_all patch rs w)) k = None" for k
  proof (cases "gateways.view (w_Gwapi (finalize_all patch rs w)) k")
    case (Some g)
    with finalize_all_leaves [OF ok, of patch rs] own show ?thesis unfolding owned_world_def by blast
  qed
  with own show ?thesis unfolding owned_world_def by blast
qed

theorem histories_leave_nothing_witness:
  "gateways.view (w_Gwapi (finalize_all demo_patch [demo_route]
     (snd (ReconcileKind (newReconciler demo_patch) demo_ctx (\<lambda>n. n) (\<lambda>s. s) demo_orders demo_route demo_world)))) = Map.empty"
proof -
  let ?run = "ReconcileKind (newReconciler demo_patch) demo_ctx (\<lambda>n. n) (\<lambda>s. s) demo_orders demo_route demo_world"
  have ord: "order_ok (od_Visibility demo_orders)" by (simp add: demo_orders_def)
  have run: "?run = (fst ?run, snd ?run)" by simp
  have "controller_step demo_patch (set [demo_route]) demo_world (snd ?run)"
    by (rule controller_step.Reconciled [OF _ demo_served ord run]) simp
  then have "(controller_step demo_patch (set [demo_route]))\<^sup>*\<^sup>* demo_world (snd ?run)" by (rule r_into_rtranclp)
  from histories_leave_nothing [OF this demo_world_ok] show ?thesis by (simp add: demo_views)
qed

end
